(* ===== verification/Prelude.thy ===== *)
theory Prelude
  imports Main "HOL-Library.Sublist"
begin

text \<open>
  What every part of the duskrun model shares: Go's error values and the shape of an operation
  that may fail, times and durations as nanoseconds, decimal rendering of numbers, and the
  collections of simplification rules and list lemmas the component theories rely on.
\<close>

named_theorems model_simps \<open>unfolding rules of small helper definitions of the model\<close>
named_theorems inv_intros \<open>preservation of the component invariants\<close>

subsection \<open>Errors\<close>

text \<open>
  A Go error is a sentinel (compared by identity), a formatted message, a message that
  wraps another error with %w after or before its text, or the result of errors.Join.
\<close>

datatype err =
    ErrAlreadyActive
  | ErrNoQueuedRun
  | ErrNotFound
  | ErrInUse
  | ErrLastAdmin
  | ErrSelfTarget
  | ErrNotRegistered
  | ErrModeUnsupported
  | ErrCanceled
  | Errorf string
  | Wrap string err
  | Detail err string
  | Joined "err list"

text \<open>The verb %q, for text that needs no escaping.\<close>

definition quoted :: "string \<Rightarrow> string" where "quoted s = ''\"'' @ s @ ''\"''"

fun err_is :: "err \<Rightarrow> err \<Rightarrow> bool" where
  "err_is t (Wrap p e) = (Wrap p e = t \<or> err_is t e)"
| "err_is t (Detail e s) = (Detail e s = t \<or> err_is t e)"
| "err_is t (Joined es) = (Joined es = t \<or> list_ex (err_is t) es)"
| "err_is t e = (e = t)"

definition errors_join :: "err list \<Rightarrow> err option" where
  "errors_join es = (if es = [] then None else Some (Joined es))"

lemma errors_join_None [simp]: "errors_join es = None \<longleftrightarrow> es = []"
  by (simp add: errors_join_def)

lemma errors_join_Nil [simp]: "errors_join [] = None"
  by (simp add: errors_join_def)

lemma err_is_Wrap [simp]: "(\<And>p e. t \<noteq> Wrap p e) \<Longrightarrow> err_is t (Wrap q e) = err_is t e"
  by auto

subsection \<open>Operations\<close>

text \<open>
  An operation on a state 'w that returns a Go pair (value, error): the left summand is
  the non-nil error. The new state is returned in both cases, since a failing call may have
  changed it.
\<close>

type_synonym ('w, 'a) op = "'w \<Rightarrow> (err + 'a) \<times> 'w"

definition is_ok :: "err + 'a \<Rightarrow> bool" where
  [model_simps]: "is_ok r = (case r of Inl _ \<Rightarrow> False | Inr _ \<Rightarrow> True)"

lemma is_ok_simps [simp]: "is_ok (Inr x)" "\<not> is_ok (Inl e)"
  by (simp_all add: is_ok_def)

lemma is_ok_iff: "is_ok r \<longleftrightarrow> (\<exists>x. r = Inr x)"
  by (cases r) auto

subsection \<open>Times\<close>

text \<open>
  A time.Time is the number of nanoseconds since the Unix epoch, a
  time.Duration a number of nanoseconds. Go's zero time is 1 January of year 1.
\<close>

type_synonym time = int
type_synonym duration = int
type_synonym rowid = int

definition second :: duration where "second = 1000000000"
definition minute :: duration where "minute = 60 * second"
definition hour :: duration where "hour = 60 * minute"

definition zero_time :: time where "zero_time = - 62135596800 * second"

definition is_zero_time :: "time \<Rightarrow> bool" where
  "is_zero_time t = (t = zero_time)"

definition unix :: "time \<Rightarrow> int" where "unix t = t div second"
definition unix_to_time :: "int \<Rightarrow> time" where "unix_to_time s = s * second"

lemma unix_unix_to_time [simp]: "unix (unix_to_time s) = s"
  by (simp add: unix_def unix_to_time_def second_def)

lemma unix_to_time_le [simp]: "unix_to_time a \<le> unix_to_time b \<longleftrightarrow> a \<le> b"
  by (simp add: unix_to_time_def second_def)

lemma unix_to_time_less [simp]: "unix_to_time a < unix_to_time b \<longleftrightarrow> a < b"
  by (simp add: unix_to_time_def second_def)

lemma unix_to_time_eq [simp]: "unix_to_time a = unix_to_time b \<longleftrightarrow> a = b"
  by (simp add: unix_to_time_def second_def)

lemma unix_mono: "a \<le> b \<Longrightarrow> unix a \<le> unix b"
  by (simp add: unix_def second_def zdiv_mono1)

lemma duration_pos [simp]: "0 < second" "0 < minute" "0 < hour"
  by (simp_all add: second_def minute_def hour_def)

subsection \<open>Decimal rendering\<close>

definition digit :: "nat \<Rightarrow> char" where "digit n = char_of (48 + n)"

fun dec_nat :: "nat \<Rightarrow> string" where
  "dec_nat n = (if n < 10 then [digit n] else dec_nat (n div 10) @ [digit (n mod 10)])"

declare dec_nat.simps [simp del]

definition dec :: "int \<Rightarrow> string" where
  "dec i = (if i < 0 then CHR ''-'' # dec_nat (nat (- i)) else dec_nat (nat i))"

definition undec :: "string \<Rightarrow> nat" where
  "undec s = foldl (\<lambda>a c. 10 * a + (of_char c - 48)) 0 s"

definition pad0 :: "nat \<Rightarrow> string \<Rightarrow> string" where
  "pad0 w s = replicate (w - length s) (CHR ''0'') @ s"

lemma of_char_digit: "n < 10 \<Longrightarrow> of_char (digit n) = 48 + n"
  by (simp add: digit_def)

lemma undec_snoc: "undec (s @ [c]) = 10 * undec s + (of_char c - 48)"
  by (simp add: undec_def)

lemma undec_dec_nat [simp]: "undec (dec_nat n) = n"
proof (induction n rule: dec_nat.induct)
  case (1 n)
  show ?case
  proof (cases "n < 10")
    case True
    then show ?thesis
      using undec_snoc [of "[]" "digit n"]
      by (subst dec_nat.simps) (simp add: of_char_digit undec_def)
  next
    case False
    have "undec (dec_nat n) = 10 * undec (dec_nat (n div 10)) + (of_char (digit (n mod 10)) - 48)"
      using False by (subst dec_nat.simps) (simp add: undec_snoc)
    also have "\<dots> = n"
      using 1 [OF False] by (simp add: of_char_digit)
    finally show ?thesis .
  qed
qed

lemma dec_nat_inj [simp]: "dec_nat m = dec_nat n \<longleftrightarrow> m = n"
  by (metis undec_dec_nat)

lemma dec_nat_digits: "c \<in> set (dec_nat n) \<Longrightarrow> 48 \<le> (of_char c :: nat) \<and> (of_char c :: nat) \<le> 57"
proof (induction n rule: dec_nat.induct)
  case (1 n)
  show ?case
  proof (cases "n < 10")
    case True
    with "1.prems" show ?thesis
      by (subst (asm) dec_nat.simps) (simp add: of_char_digit)
  next
    case False
    then have "c \<in> set (dec_nat (n div 10)) \<or> c = digit (n mod 10)"
      using "1.prems" by (subst (asm) dec_nat.simps) auto
    then show ?thesis
      using "1.IH" [OF False] of_char_digit [of "n mod 10"] by auto
  qed
qed

lemma dec_nat_no_minus: "CHR ''-'' \<notin> set (dec_nat n)"
  using dec_nat_digits [of "CHR ''-''" n] by auto

lemma dec_nat_nonempty [simp]: "dec_nat n \<noteq> []"
  by (subst dec_nat.simps) simp

lemma dec_inj [simp]: "dec i = dec j \<longleftrightarrow> i = j"
proof
  assume eq: "dec i = dec j"
  have no: "CHR ''-'' # s \<noteq> dec_nat n" for s n
    using dec_nat_no_minus [of n] by (metis list.set_intros(1))
  show "i = j"
    using eq no [of "dec_nat (nat (- i))" "nat j"] no [of "dec_nat (nat (- j))" "nat i"]
    by (auto simp: dec_def split: if_splits)
qed simp

lemma undec_pad0 [simp]: "undec (pad0 w s) = undec s"
proof -
  have "foldl (\<lambda>a c. 10 * a + (of_char c - 48)) 0 (replicate k (CHR ''0'')) = (0 :: nat)" for k
    by (induction k) simp_all
  then show ?thesis
    by (simp add: pad0_def undec_def)
qed

lemma pad0_dec_nat_inj [simp]: "pad0 w (dec_nat m) = pad0 w (dec_nat n) \<longleftrightarrow> m = n"
  by (metis undec_dec_nat undec_pad0)

subsection \<open>Strings\<close>

text \<open>strings.TrimSpace and strings.ToLower on ASCII.\<close>

definition is_space_char :: "char \<Rightarrow> bool" where
  "is_space_char c = (of_char c \<in> {9, 10, 11, 12, 13, 32 :: nat})"

definition trim_space :: "string \<Rightarrow> string" where
  "trim_space s = rev (dropWhile is_space_char (rev (dropWhile is_space_char s)))"

definition to_lower :: "char \<Rightarrow> char" where
  "to_lower c = (if 65 \<le> (of_char c :: nat) \<and> (of_char c :: nat) \<le> 90 then char_of (of_char c + 32 :: nat) else c)"

lemma trim_space_id: "\<forall>c \<in> set s. \<not> is_space_char c \<Longrightarrow> trim_space s = s"
proof -
  assume a: "\<forall>c \<in> set s. \<not> is_space_char c"
  have d: "dropWhile is_space_char xs = xs" if "\<forall>c \<in> set xs. \<not> is_space_char c" for xs
    using that by (cases xs) auto
  show ?thesis using a by (simp add: trim_space_def d)
qed

subsection \<open>Lists\<close>

lemma filter_partition_set:
  "set (filter P xs) \<union> set (filter (\<lambda>x. \<not> P x) xs) = set xs"
  by auto

lemma map_filter_distinct: "distinct (map f xs) \<Longrightarrow> distinct (map f (filter P xs))"
  by (induction xs) auto

lemma distinct_map_eq: "distinct (map f xs) \<Longrightarrow> x \<in> set xs \<Longrightarrow> y \<in> set xs \<Longrightarrow> f x = f y \<Longrightarrow> x = y"
  by (auto simp: distinct_map inj_on_def)

lemma find_Some_in: "find P xs = Some x \<Longrightarrow> x \<in> set xs \<and> P x"
  by (induction xs) (auto split: if_splits)

lemma find_map_update:
  assumes "\<And>x. P (f x) = P x"
  shows "find P (map f xs) = map_option f (find P xs)"
  using assms by (induction xs) auto

lemma takeWhile_set_eq_filter:
  "takeWhile P xs = xs \<Longrightarrow> filter P xs = xs"
  by (induction xs) (auto split: if_splits)

end
