(* ===== verification/Model.thy ===== *)
theory Model
  imports Prelude
begin

text \<open>
  The domain model of internal/core/model.go and the event kinds of
  internal/plugin/events.go: one record per Go struct, one datatype per closed set of string
  constants (with an extra constructor for the other strings the Go type admits), and the
  methods those files declare. JSON columns are kept as the JSON value their text parses to.
\<close>

subsection \<open>JSON values\<close>

text \<open>
  A json.RawMessage is either a text that parses, kept as its value, or one that does
  not (the empty message included). Numbers keep their literal; objects keep the order and the
  keys of the text.
\<close>

datatype json =
    JNull
  | JBool bool
  | JNum string
  | JStr string
  | JArr "json list"
  | JObj "(string \<times> json) list"

datatype raw = Raw json | BadRaw string

definition raw_empty :: raw where "raw_empty = BadRaw []"

definition raw_or_empty_object :: "raw \<Rightarrow> raw" where
  "raw_or_empty_object r = (if r = raw_empty then Raw (JObj []) else r)"

subsection \<open>Statuses and policies\<close>

datatype run_status = StatusQueued | StatusRunning | StatusSuccess | StatusFailed | StatusSkipped

datatype misfire_policy = MisfireRunOnceNow | MisfireSkip | MisfireOther string

datatype sweep_status = SweepSuccess | SweepFailed
datatype sweep_source = SweepSchedule | SweepManual
datatype notification_status = NotificationSent | NotificationFailed

definition is_active :: "run_status \<Rightarrow> bool" where
  "is_active s = (s = StatusQueued \<or> s = StatusRunning)"

lemma is_active_simps [simp]:
  "is_active StatusQueued" "is_active StatusRunning" "\<not> is_active StatusSuccess"
  "\<not> is_active StatusFailed" "\<not> is_active StatusSkipped"
  by (simp_all add: is_active_def)

subsection \<open>Retention policy\<close>

record gfs =
  daily :: int
  weekly :: int
  monthly :: int

record retention =
  keep_last :: int
  ret_gfs :: "gfs option"

definition ret_enabled :: "retention \<Rightarrow> bool" where
  "ret_enabled r = (if keep_last r > 0 then True
     else case ret_gfs r of
            None \<Rightarrow> False
          | Some g \<Rightarrow> daily g > 0 \<or> weekly g > 0 \<or> monthly g > 0)"

definition gfs_fields :: "gfs \<Rightarrow> (string \<times> int) list" where
  "gfs_fields g = [(''gfs.daily'', daily g), (''gfs.weekly'', weekly g), (''gfs.monthly'', monthly g)]"

definition ret_validate :: "retention \<Rightarrow> err option" where
  "ret_validate r =
     (if keep_last r < 0
      then Some (Errorf (''keep_last must be >= 0 (0 = off), got '' @ dec (keep_last r)))
      else case ret_gfs r of
             None \<Rightarrow> None
           | Some g \<Rightarrow>
               (case find (\<lambda>(name, v). v < 0) (gfs_fields g) of
                  Some (name, v) \<Rightarrow> Some (Errorf (name @ '' must be >= 0 (0 = off), got '' @ dec v))
                | None \<Rightarrow> None))"

definition ret_normalized :: "retention \<Rightarrow> retention" where
  "ret_normalized r =
     (case ret_gfs r of
        None \<Rightarrow> r
      | Some g \<Rightarrow> if daily g = 0 \<and> weekly g = 0 \<and> monthly g = 0 then r\<lparr>ret_gfs := None\<rparr> else r)"

lemma ret_validate_None_iff:
  "ret_validate r = None \<longleftrightarrow>
     0 \<le> keep_last r \<and>
     (\<forall>g. ret_gfs r = Some g \<longrightarrow> 0 \<le> daily g \<and> 0 \<le> weekly g \<and> 0 \<le> monthly g)"
  by (auto simp: ret_validate_def gfs_fields_def split: option.splits if_splits)

lemma ret_enabled_normalized [simp]: "ret_enabled (ret_normalized r) = ret_enabled r"
  by (cases r) (auto simp: ret_enabled_def ret_normalized_def split: option.splits)

lemma ret_normalized_idem [simp]: "ret_normalized (ret_normalized r) = ret_normalized r"
  by (cases r) (auto simp: ret_normalized_def split: option.splits)

lemma ret_normalized_agrees:
  assumes "ret_validate r = None"
  shows "(ret_gfs (ret_normalized r) \<noteq> None \<or> 0 < keep_last r) = ret_enabled r"
  using assms
  by (cases r) (auto simp: ret_validate_None_iff ret_enabled_def ret_normalized_def split: option.splits)

subsection \<open>Catalog rows\<close>

record connection =
  con_id :: rowid
  con_name :: string
  con_engine :: string
  con_type :: string
  con_config :: raw
  con_user :: string
  con_secret_ref :: string
  con_created :: time

record storage =
  sto_id :: rowid
  sto_name :: string
  sto_type :: string
  sto_config :: raw
  sto_secret_ref :: string
  sto_created :: time

record task =
  task_id :: rowid
  task_name :: string
  task_connection :: rowid
  task_opts :: raw
  task_codecs :: "string list"
  task_storage :: rowid
  task_cron :: string
  task_retention :: retention
  task_notifiers :: "string list"
  task_enabled :: bool
  task_misfire :: misfire_policy
  task_retries :: int
  task_timeout :: duration
  task_watchdog :: duration
  task_enabled_at :: time
  task_created :: time

definition WatchdogAuto :: duration where "WatchdogAuto = 0"
definition WatchdogOff :: duration where "WatchdogOff = - 1 * second"

record run =
  run_id :: rowid
  run_task :: rowid
  run_status :: run_status
  run_worker :: string
  run_attempt :: int
  run_started :: "time option"
  run_finished :: "time option"
  run_error :: string
  run_log :: string
  run_created :: time

record artifact =
  art_id :: rowid
  art_run :: rowid
  art_storage :: rowid
  art_key :: string
  art_size :: int
  art_checksum :: string
  art_created :: time
  art_expires :: "time option"

record sweep =
  sweep_id :: rowid
  sweep_started :: time
  sweep_finished :: time
  sweep_status :: sweep_status
  sweep_source :: sweep_source
  sweep_deleted :: int
  sweep_freed :: int
  sweep_orphans :: int
  sweep_error :: string

subsection \<open>Channels and notifications\<close>

record channel =
  ch_id :: rowid
  ch_name :: string
  ch_type :: string
  ch_config :: raw
  ch_events :: "string list"
  ch_enabled :: bool
  ch_created :: time

definition ch_wants :: "channel \<Rightarrow> string \<Rightarrow> bool" where
  "ch_wants c kind = (if \<not> ch_enabled c then False else list_ex (\<lambda>e. e = kind) (ch_events c))"

lemma ch_wants_iff: "ch_wants c kind \<longleftrightarrow> ch_enabled c \<and> kind \<in> set (ch_events c)"
  by (auto simp: ch_wants_def list_ex_iff)

record notification =
  ntf_id :: rowid
  ntf_kind :: string
  ntf_task :: string
  ntf_run :: "rowid option"
  ntf_channel :: string
  ntf_status :: notification_status
  ntf_error :: string
  ntf_created :: time

subsection \<open>Users and roles\<close>

datatype role = RoleViewer | RoleOperator | RoleAdmin | OtherRole string

primrec role_rank :: "role \<Rightarrow> nat" where
  "role_rank RoleViewer = 1"
| "role_rank RoleOperator = 2"
| "role_rank RoleAdmin = 3"
| "role_rank (OtherRole s) = 0"

definition role_valid :: "role \<Rightarrow> bool" where
  "role_valid r = (role_rank r > 0)"

definition at_least :: "role \<Rightarrow> role \<Rightarrow> bool" where
  "at_least r want = (role_rank r > 0 \<and> role_rank r \<ge> role_rank want)"

lemma at_least_trans: "at_least a b \<Longrightarrow> at_least b c \<Longrightarrow> at_least a c"
  by (auto simp: at_least_def)

lemma at_least_valid: "at_least r want \<Longrightarrow> role_valid r"
  by (simp add: at_least_def role_valid_def)

lemma at_least_admin [simp]: "at_least r RoleAdmin \<longleftrightarrow> r = RoleAdmin"
  by (cases r) (simp_all add: at_least_def)

record user =
  user_id :: rowid
  user_email :: string
  user_name :: string
  user_role :: role
  user_hash :: string
  user_disabled :: bool
  user_created :: time
  user_last_login :: "time option"
  user_webauthn :: string
  user_totp_enabled :: bool
  user_passkeys :: int

definition mfa_enabled :: "user \<Rightarrow> bool" where
  "mfa_enabled u = (user_totp_enabled u \<or> user_passkeys u > 0)"

record totp =
  totp_user :: rowid
  totp_secret :: string
  totp_key :: string
  totp_last_step :: int
  totp_created :: time

record session =
  ses_id :: rowid
  ses_user :: rowid
  ses_hash :: string
  ses_agent :: string
  ses_ip :: string
  ses_created :: time
  ses_last_seen :: time
  ses_expires :: time

record secret =
  sec_id :: rowid
  sec_name :: string
  sec_type :: string
  sec_cipher :: string
  sec_key :: string
  sec_created :: time
  sec_last_used :: "time option"

subsection \<open>Event kinds\<close>

datatype event_kind =
    EventSuccess | EventFailure | EventRetentionError | EventWatchdog | EventRecovered
  | EventSizeAnomaly | EventSlowRun | EventInterrupted | EventRetentionDone
  | EventStorageLow | EventStorageUnreachable | EventSecurity | OtherEvent string

primrec kind_text :: "event_kind \<Rightarrow> string" where
  "kind_text EventSuccess = ''success''"
| "kind_text EventFailure = ''failure''"
| "kind_text EventRetentionError = ''retention_error''"
| "kind_text EventWatchdog = ''watchdog''"
| "kind_text EventRecovered = ''recovered''"
| "kind_text EventSizeAnomaly = ''size_anomaly''"
| "kind_text EventSlowRun = ''slow_run''"
| "kind_text EventInterrupted = ''interrupted''"
| "kind_text EventRetentionDone = ''retention_done''"
| "kind_text EventStorageLow = ''storage_low''"
| "kind_text EventStorageUnreachable = ''storage_unreachable''"
| "kind_text EventSecurity = ''security''"
| "kind_text (OtherEvent s) = s"

datatype severity = SeverityInfo | SeverityWarn | SeverityAlert

record kind_info =
  ki_kind :: event_kind
  ki_system :: bool
  ki_optional :: bool
  ki_severity :: severity

definition kinds :: "kind_info list" where
  "kinds =
    [\<lparr>ki_kind = EventSuccess, ki_system = False, ki_optional = False, ki_severity = SeverityInfo\<rparr>,
     \<lparr>ki_kind = EventFailure, ki_system = False, ki_optional = False, ki_severity = SeverityAlert\<rparr>,
     \<lparr>ki_kind = EventRecovered, ki_system = False, ki_optional = False, ki_severity = SeverityInfo\<rparr>,
     \<lparr>ki_kind = EventSizeAnomaly, ki_system = False, ki_optional = False, ki_severity = SeverityWarn\<rparr>,
     \<lparr>ki_kind = EventSlowRun, ki_system = False, ki_optional = False, ki_severity = SeverityWarn\<rparr>,
     \<lparr>ki_kind = EventInterrupted, ki_system = False, ki_optional = False, ki_severity = SeverityAlert\<rparr>,
     \<lparr>ki_kind = EventRetentionDone, ki_system = False, ki_optional = True, ki_severity = SeverityInfo\<rparr>,
     \<lparr>ki_kind = EventRetentionError, ki_system = False, ki_optional = False, ki_severity = SeverityAlert\<rparr>,
     \<lparr>ki_kind = EventWatchdog, ki_system = False, ki_optional = False, ki_severity = SeverityWarn\<rparr>,
     \<lparr>ki_kind = EventStorageLow, ki_system = True, ki_optional = False, ki_severity = SeverityWarn\<rparr>,
     \<lparr>ki_kind = EventStorageUnreachable, ki_system = True, ki_optional = False, ki_severity = SeverityAlert\<rparr>,
     \<lparr>ki_kind = EventSecurity, ki_system = True, ki_optional = False, ki_severity = SeverityAlert\<rparr>]"

definition kind_lookup :: "event_kind \<Rightarrow> kind_info option" where
  "kind_lookup k = find (\<lambda>i. kind_text (ki_kind i) = kind_text k) kinds"

definition EventKinds :: "event_kind list" where
  "EventKinds = map ki_kind kinds"

definition DefaultEventKinds :: "event_kind list" where
  "DefaultEventKinds = map ki_kind (filter (\<lambda>i. \<not> ki_optional i) kinds)"

definition ValidEventKind :: "string \<Rightarrow> bool" where
  "ValidEventKind s = (kind_lookup (OtherEvent s) \<noteq> None)"

definition is_system :: "event_kind \<Rightarrow> bool" where
  "is_system k = (case kind_lookup k of Some i \<Rightarrow> ki_system i | None \<Rightarrow> False)"

definition kind_severity :: "event_kind \<Rightarrow> severity" where
  "kind_severity k = (case kind_lookup k of Some i \<Rightarrow> ki_severity i | None \<Rightarrow> SeverityWarn)"

lemma ValidEventKind_iff: "ValidEventKind s \<longleftrightarrow> s \<in> set (map kind_text EventKinds)"
  by (auto simp: ValidEventKind_def kind_lookup_def EventKinds_def find_None_iff)

lemma EventKinds_distinct: "distinct (map kind_text EventKinds)"
  by (simp add: EventKinds_def kinds_def)

lemma DefaultEventKinds_subset: "set DefaultEventKinds \<subseteq> set EventKinds"
  by (auto simp: DefaultEventKinds_def EventKinds_def)

subsection \<open>Ordering rows by age\<close>

text \<open>
  Listings put the newest row first: the later creation time, and among equal times the higher
  id. The type below is ordered that way, so that sort_key sorts a list as the code's
  comparison functions do.
\<close>

datatype newest = Newest (newest_time: time) (newest_id: rowid)

instantiation newest :: linorder
begin

definition less_newest :: "newest \<Rightarrow> newest \<Rightarrow> bool" where
  "less_newest a b = (if newest_time a = newest_time b then newest_id a > newest_id b
                      else newest_time a > newest_time b)"

definition less_eq_newest :: "newest \<Rightarrow> newest \<Rightarrow> bool" where
  "less_eq_newest a b = (a = b \<or> a < b)"

instance
  by standard
    (auto simp: less_eq_newest_def less_newest_def newest.expand split: if_splits)

end

definition by_age :: "artifact \<Rightarrow> newest" where
  "by_age a = Newest (art_created a) (art_id a)"

lemma by_age_less:
  "by_age a < by_age b \<longleftrightarrow>
     art_created b < art_created a \<or> art_created a = art_created b \<and> art_id b < art_id a"
  by (auto simp: by_age_def less_newest_def)

lemma by_age_eq_iff: "by_age a = by_age b \<longleftrightarrow> art_created a = art_created b \<and> art_id a = art_id b"
  by (simp add: by_age_def)

end
