(* ===== verification/Calendar.thy ===== *)
theory Calendar
  imports Prelude
begin

text \<open>
  The parts of Go's calendar the program uses, in UTC: the civil date of a time, the ISO 8601
  week, and the three period keys internal/core/retention.go builds from them. Days are counted
  from 1 January of year 1, as in Go's time package, and the year is found by 400-, 100-, 4- and
  1-year cycles. The lemmas show that two times have the same key exactly when they lie in the
  same day, ISO week or month.
\<close>

definition day_length :: duration where "day_length = 24 * hour"

definition abs_day :: "time \<Rightarrow> int" where
  "abs_day t = t div day_length + 719162"

definition is_leap :: "int \<Rightarrow> bool" where
  "is_leap y = (y mod 4 = 0 \<and> (y mod 100 \<noteq> 0 \<or> y mod 400 = 0))"

definition days_before_year :: "int \<Rightarrow> int" where
  "days_before_year y = 365 * (y - 1) + (y - 1) div 4 - (y - 1) div 100 + (y - 1) div 400"

definition year_of_day :: "int \<Rightarrow> int" where
  "year_of_day d =
     (let q = d div 146097; r = d mod 146097;
          c = min 3 (r div 36524); r = r - 36524 * c;
          f = r div 1461; r = r - 1461 * f;
          n = min 3 (r div 365)
      in 400 * q + (100 * c + 4 * f + n + 1))"

definition year_day :: "int \<Rightarrow> int" where
  "year_day d = d - days_before_year (year_of_day d)"

definition days_before_month :: "bool \<Rightarrow> int \<Rightarrow> int" where
  "days_before_month leap m =
     [0, 0, 31, 59, 90, 120, 151, 181, 212, 243, 273, 304, 334] ! nat m +
     (if leap \<and> 2 < m then 1 else 0)"

fun month_search :: "bool \<Rightarrow> int \<Rightarrow> nat \<Rightarrow> nat" where
  "month_search leap yd (Suc (Suc m)) =
     (if days_before_month leap (int (Suc (Suc m))) \<le> yd then Suc (Suc m)
      else month_search leap yd (Suc m))"
| "month_search leap yd m = 1"

definition month_of_day :: "int \<Rightarrow> int" where
  "month_of_day d = int (month_search (is_leap (year_of_day d)) (year_day d) 12)"

definition day_of_month :: "int \<Rightarrow> int" where
  "day_of_month d =
     year_day d - days_before_month (is_leap (year_of_day d)) (month_of_day d) + 1"

text \<open>Monday is weekday 0; day 0, 1 January of year 1, was a Monday.\<close>

definition thursday_of :: "int \<Rightarrow> int" where
  "thursday_of d = d - d mod 7 + 3"

definition iso_week :: "int \<Rightarrow> int \<times> int" where
  "iso_week d = (year_of_day (thursday_of d), year_day (thursday_of d) div 7 + 1)"

definition day_key :: "time \<Rightarrow> string" where
  "day_key t = (let d = abs_day t in
     pad0 4 (dec (year_of_day d)) @ ''-'' @ pad0 2 (dec (month_of_day d)) @ ''-'' @
     pad0 2 (dec (day_of_month d)))"

definition week_key :: "time \<Rightarrow> string" where
  "week_key t = (let (y, w) = iso_week (abs_day t) in
     pad0 4 (dec y) @ ''-W'' @ pad0 2 (dec w))"

definition month_key :: "time \<Rightarrow> string" where
  "month_key t = (let d = abs_day t in
     pad0 4 (dec (year_of_day d)) @ ''-'' @ pad0 2 (dec (month_of_day d)))"

subsection \<open>Years and months\<close>

lemma days_before_year_cycle:
  "days_before_year (400 * q + y) = 146097 * q + days_before_year y"
proof -
  have *: "(400 * q + y - 1) div 4 = 100 * q + (y - 1) div 4"
    "(400 * q + y - 1) div 100 = 4 * q + (y - 1) div 100"
    "(400 * q + y - 1) div 400 = q + (y - 1) div 400"
    using div_mult_self3 [of 4 "100 * q" "y - 1"] div_mult_self3 [of 100 "4 * q" "y - 1"]
      div_mult_self3 [of 400 q "y - 1"]
    by (simp_all add: algebra_simps)
  show ?thesis
    unfolding days_before_year_def * by (simp add: algebra_simps)
qed

lemma min3_div_bounds:
  fixes r k :: int
  assumes "0 \<le> r" "0 < k" "r < 4 * k + e" "0 \<le> e" "e \<le> 1"
  shows "0 \<le> min 3 (r div k)" "min 3 (r div k) \<le> 3"
    "0 \<le> r - k * min 3 (r div k)" "r - k * min 3 (r div k) < k + e"
proof -
  have k: "k * (r div k) \<le> r" "r < k * (r div k) + k"
    using assms(2) pos_mod_bound [of k r] pos_mod_sign [of k r] mult_div_mod_eq [of k r]
    by linarith+
  show "0 \<le> min 3 (r div k)" "min 3 (r div k) \<le> 3"
    using assms by (simp_all add: pos_imp_zdiv_nonneg_iff)
  show "0 \<le> r - k * min 3 (r div k)" "r - k * min 3 (r div k) < k + e"
  proof -
    have "k * 3 \<le> k * (r div k)" if "3 \<le> r div k"
      using that assms(2) by (simp add: mult_le_cancel_left)
    then show "0 \<le> r - k * min 3 (r div k)" "r - k * min 3 (r div k) < k + e"
      using k assms by (cases "3 \<le> r div k"; simp add: min_def; linarith)+
  qed
qed

lemma year_in_cycle:
  assumes r: "0 \<le> r" "r < (146097 :: int)" and d: "c = min 3 (r div 36524)" "r1 = r - 36524 * c"
    "f = r1 div 1461" "r2 = r1 - 1461 * f" "n = min 3 (r2 div 365)"
  shows "0 \<le> c" "c \<le> 3" "0 \<le> f" "f \<le> 24" "0 \<le> n" "n \<le> 3" "0 \<le> r2 - 365 * n" "r2 - 365 * n \<le> 365"
proof -
  have c: "0 \<le> c" "c \<le> 3" "0 \<le> r1" "r1 < 36525"
    using min3_div_bounds [of r 36524 1] r unfolding d(2) d(1) by simp_all
  have f: "0 \<le> f" "f \<le> 24" "0 \<le> r2" "r2 < 1461"
    using c unfolding d(4) d(3) by (simp_all add: pos_imp_zdiv_nonneg_iff minus_mult_div_eq_mod)
  have n: "0 \<le> n" "n \<le> 3" "0 \<le> r2 - 365 * n" "r2 - 365 * n < 366"
    using min3_div_bounds [of r2 365 1] f unfolding d(5) by simp_all
  from c f n show "0 \<le> c" "c \<le> 3" "0 \<le> f" "f \<le> 24" "0 \<le> n" "n \<le> 3"
    "0 \<le> r2 - 365 * n" "r2 - 365 * n \<le> 365" by simp_all
qed

lemma days_before_year_fields:
  fixes c f n :: int
  assumes "0 \<le> c" "c \<le> 3" "0 \<le> f" "f \<le> 24" "0 \<le> n" "n \<le> 3"
  shows "days_before_year (100 * c + 4 * f + n + 1) = 36524 * c + 1461 * f + 365 * n"
proof -
  have *: "(100 * c + 4 * f + n) div 4 = 25 * c + f"
    using div_mult_self3 [of 4 "25 * c + f" n] assms by (simp add: algebra_simps)
  have **: "(100 * c + (4 * f + n)) div 100 = c"
    using div_mult_self3 [of 100 c "4 * f + n"] assms by (simp add: algebra_simps)
  have ***: "(100 * c + 4 * f + n) div 400 = 0"
    using assms by (intro div_pos_pos_trivial) simp_all
  show ?thesis
    unfolding days_before_year_def using * ** *** by (simp add: algebra_simps)
qed

lemma year_of_day_fields:
  obtains q c f n s where "0 \<le> d \<Longrightarrow> 0 \<le> q"
    "year_of_day d = 400 * q + (100 * c + 4 * f + n + 1)"
    "d = 146097 * q + (36524 * c + 1461 * f + 365 * n) + s"
    "0 \<le> c" "c \<le> 3" "0 \<le> f" "f \<le> 24" "0 \<le> n" "n \<le> 3" "0 \<le> s" "s \<le> 365"
proof -
  define q r where "q = d div 146097" and "r = d mod 146097"
  define c where "c = min 3 (r div 36524)"
  define r1 where "r1 = r - 36524 * c"
  define f where "f = r1 div 1461"
  define r2 where "r2 = r1 - 1461 * f"
  define n where "n = min 3 (r2 div 365)"
  have r: "0 \<le> r" "r < 146097" by (simp_all add: r_def)
  have y: "year_of_day d = 400 * q + (100 * c + 4 * f + n + 1)"
    unfolding year_of_day_def Let_def q_def r_def c_def r1_def f_def r2_def n_def by (rule refl)
  have "d = 146097 * q + r"
    by (simp add: q_def r_def)
  then have "d = 146097 * q + (36524 * c + 1461 * f + 365 * n) + (r2 - 365 * n)"
    unfolding r2_def r1_def by linarith
  moreover have "0 \<le> q" if "0 \<le> d"
    using that by (simp add: q_def pos_imp_zdiv_nonneg_iff)
  ultimately show ?thesis
    using that [OF _ y _ year_in_cycle [OF r c_def r1_def f_def r2_def n_def]]
    by blast
qed

lemma year_day_bounds: "0 \<le> year_day d \<and> year_day d \<le> 365"
proof -
  obtain q c f n s where y: "year_of_day d = 400 * q + (100 * c + 4 * f + n + 1)"
    and d: "d = 146097 * q + (36524 * c + 1461 * f + 365 * n) + s"
    and b: "0 \<le> c" "c \<le> 3" "0 \<le> f" "f \<le> 24" "0 \<le> n" "n \<le> 3" "0 \<le> s" "s \<le> 365"
    by (rule year_of_day_fields)
  have "days_before_year (year_of_day d) = 146097 * q + (36524 * c + 1461 * f + 365 * n)"
    using b by (simp only: y days_before_year_cycle days_before_year_fields)
  then have "year_day d = s"
    using d unfolding year_day_def by linarith
  with b show ?thesis by simp
qed

lemma year_pos: "0 \<le> d \<Longrightarrow> 1 \<le> year_of_day d"
  by (rule year_of_day_fields [of d]) linarith

lemma days_before_month_1: "days_before_month leap (int (Suc 0)) = 0"
  by (simp_all add: days_before_month_def)

lemma month_search_bounds: "1 \<le> month_search leap yd m \<and> month_search leap yd m \<le> max 1 m"
  by (induction leap yd m rule: month_search.induct) auto

lemma month_search_le: "0 \<le> yd \<Longrightarrow> days_before_month leap (int (month_search leap yd m)) \<le> yd"
  by (induction leap yd m rule: month_search.induct) (auto simp: days_before_month_1 simp del: of_nat_Suc)

lemma month_bounds: "1 \<le> month_of_day d \<and> month_of_day d \<le> 12"
  using month_search_bounds [of "is_leap (year_of_day d)" "year_day d" 12]
  by (auto simp: month_of_day_def)

lemma day_of_month_pos: "1 \<le> day_of_month d"
  using month_search_le [of "year_day d" "is_leap (year_of_day d)" 12] year_day_bounds [of d]
  by (simp add: day_of_month_def month_of_day_def)

lemma day_from_fields:
  "d = days_before_year (year_of_day d) +
       days_before_month (is_leap (year_of_day d)) (month_of_day d) + day_of_month d - 1"
  by (simp add: day_of_month_def year_day_def)

lemma civil_date_inj:
  assumes "year_of_day d = year_of_day e" "month_of_day d = month_of_day e"
    "day_of_month d = day_of_month e"
  shows "d = e"
  using day_from_fields [of d] day_from_fields [of e] assms by simp

lemma thursday_of_eq: "thursday_of d = 7 * (d div 7) + 3"
  unfolding thursday_of_def using mult_div_mod_eq [of 7 d] by linarith

lemma iso_week_eq_iff: "iso_week d = iso_week e \<longleftrightarrow> d div 7 = e div 7"
proof
  assume "d div 7 = e div 7"
  then have "thursday_of d = thursday_of e"
    by (simp add: thursday_of_eq)
  then show "iso_week d = iso_week e" by (simp add: iso_week_def)
next
  assume "iso_week d = iso_week e"
  then have y: "year_of_day (thursday_of d) = year_of_day (thursday_of e)"
    and w: "year_day (thursday_of d) div 7 = year_day (thursday_of e) div 7"
    by (simp_all add: iso_week_def)
  define x where "x = days_before_year (year_of_day (thursday_of d))"
  have "(3 - x + (d div 7) * 7) div 7 = (3 - x + (e div 7) * 7) div 7"
    using y w by (simp add: year_day_def x_def thursday_of_eq algebra_simps)
  then show "d div 7 = e div 7"
    by (simp only: div_mult_self1)
qed

subsection \<open>Period keys\<close>

lemma append_sep_eq_iff:
  assumes "c \<notin> set a" "c \<notin> set a'"
  shows "a @ c # b = a' @ c # b' \<longleftrightarrow> a = a' \<and> b = b'"
  using assms
proof (induction a arbitrary: a')
  case Nil
  then show ?case by (cases a') auto
next
  case (Cons x xs)
  then show ?case by (cases a') auto
qed

lemma pad0_dec_no_minus: "0 \<le> i \<Longrightarrow> CHR ''-'' \<notin> set (pad0 w (dec i))"
  using dec_nat_no_minus by (auto simp: pad0_def dec_def)

lemma pad0_dec_eq_iff [simp]: "0 \<le> i \<Longrightarrow> 0 \<le> j \<Longrightarrow> pad0 w (dec i) = pad0 w (dec j) \<longleftrightarrow> i = j"
  by (auto simp: dec_def)

lemma month_key_eq_iff:
  assumes "0 \<le> abs_day s" "0 \<le> abs_day t"
  shows "month_key s = month_key t \<longleftrightarrow>
    year_of_day (abs_day s) = year_of_day (abs_day t) \<and>
    month_of_day (abs_day s) = month_of_day (abs_day t)"
  using year_pos [OF assms(1)] year_pos [OF assms(2)] month_bounds [of "abs_day s"]
    month_bounds [of "abs_day t"]
  by (simp add: month_key_def Let_def append_sep_eq_iff pad0_dec_no_minus)

lemma day_key_eq_iff:
  assumes "0 \<le> abs_day s" "0 \<le> abs_day t"
  shows "day_key s = day_key t \<longleftrightarrow> abs_day s = abs_day t"
proof -
  have "day_key s = day_key t \<longleftrightarrow>
    year_of_day (abs_day s) = year_of_day (abs_day t) \<and>
    month_of_day (abs_day s) = month_of_day (abs_day t) \<and>
    day_of_month (abs_day s) = day_of_month (abs_day t)"
    using year_pos [OF assms(1)] year_pos [OF assms(2)] month_bounds [of "abs_day s"]
      month_bounds [of "abs_day t"] day_of_month_pos [of "abs_day s"] day_of_month_pos [of "abs_day t"]
    by (simp add: day_key_def Let_def append_sep_eq_iff pad0_dec_no_minus)
  then show ?thesis
    using civil_date_inj by auto
qed

lemma week_key_eq_iff:
  assumes "0 \<le> abs_day s" "0 \<le> abs_day t"
  shows "week_key s = week_key t \<longleftrightarrow> abs_day s div 7 = abs_day t div 7"
proof -
  have pos: "1 \<le> fst (iso_week d)" "1 \<le> snd (iso_week d)" if "0 \<le> d" for d
  proof -
    have "0 \<le> thursday_of d"
      using that by (simp add: thursday_of_eq pos_imp_zdiv_nonneg_iff)
    then show "1 \<le> fst (iso_week d)" "1 \<le> snd (iso_week d)"
      using year_pos [of "thursday_of d"] year_day_bounds [of "thursday_of d"]
      by (simp_all add: iso_week_def pos_imp_zdiv_nonneg_iff)
  qed
  have "week_key s = week_key t \<longleftrightarrow> iso_week (abs_day s) = iso_week (abs_day t)"
    using pos [OF assms(1)] pos [OF assms(2)]
    by (simp add: week_key_def split_beta append_sep_eq_iff pad0_dec_no_minus prod_eq_iff)
  then show ?thesis
    by (simp add: iso_week_eq_iff)
qed

end
