(* ===== verification/Forget.thy ===== *)
theory Forget
  imports Model Calendar "HOL-Library.Multiset"
begin

text \<open>
  The retention policy of internal/core/retention.go: Forget splits a task's artifacts into the
  ones to keep and the ones to delete. Go maps used as sets of ids are HOL sets, the map of seen
  periods is the list of its keys. The lemmas relate the loops to a rule on a single artifact
  that counts the newer artifacts and the periods they cover.
\<close>

subsection \<open>The code\<close>

fun keep_by_period_loop ::
  "(time \<Rightarrow> string) \<Rightarrow> int \<Rightarrow> artifact list \<Rightarrow> string list \<Rightarrow> rowid set \<Rightarrow> rowid set" where
  "keep_by_period_loop key cnt [] seen keep = keep"
| "keep_by_period_loop key cnt (a # as) seen keep =
     (let k = key (art_created a)
      in if k \<in> set seen then keep_by_period_loop key cnt as seen keep
         else let seen = k # seen; keep = insert (art_id a) keep
              in if int (length seen) \<ge> cnt then keep
                 else keep_by_period_loop key cnt as seen keep)"

definition keepByPeriod :: "artifact list \<Rightarrow> int \<Rightarrow> (time \<Rightarrow> string) \<Rightarrow> rowid set" where
  "keepByPeriod srt cnt key =
     (if cnt \<le> 0 then {} else keep_by_period_loop key cnt srt [] {})"

definition newest_first :: "artifact list \<Rightarrow> artifact list" where
  "newest_first as = sort_key by_age as"

definition keep_set :: "retention \<Rightarrow> artifact list \<Rightarrow> rowid set" where
  "keep_set ret srt =
     set (map art_id (take (nat (keep_last ret)) srt)) \<union>
     (case ret_gfs ret of
        None \<Rightarrow> {}
      | Some g \<Rightarrow> keepByPeriod srt (daily g) day_key \<union>
                  keepByPeriod srt (weekly g) week_key \<union>
                  keepByPeriod srt (monthly g) month_key)"

definition Forget :: "retention \<Rightarrow> artifact list \<Rightarrow> time \<Rightarrow> artifact list \<times> artifact list" where
  "Forget ret artifacts now =
     (let srt = newest_first artifacts; ks = keep_set ret srt
      in (filter (\<lambda>a. art_id a \<in> ks) srt, filter (\<lambda>a. art_id a \<notin> ks) srt))"

subsection \<open>The rule on one artifact\<close>

text \<open>
  An artifact is retained when fewer than keep_last artifacts are newer, or when no newer
  artifact shares its period and the newer ones cover fewer periods than the count of the rule.
\<close>

definition newer_than :: "artifact list \<Rightarrow> artifact \<Rightarrow> artifact list" where
  "newer_than as a = filter (\<lambda>b. by_age b < by_age a) as"

definition period_rule :: "(time \<Rightarrow> 'k) \<Rightarrow> int \<Rightarrow> artifact list \<Rightarrow> artifact \<Rightarrow> bool" where
  "period_rule key cnt as a =
     (key (art_created a) \<notin> set (map (key \<circ> art_created) (newer_than as a)) \<and>
      int (card (set (map (key \<circ> art_created) (newer_than as a)))) < cnt)"

definition retained_by ::
  "(time \<Rightarrow> 'd) \<Rightarrow> (time \<Rightarrow> 'w) \<Rightarrow> (time \<Rightarrow> 'm) \<Rightarrow> retention \<Rightarrow> artifact list \<Rightarrow> artifact \<Rightarrow> bool" where
  "retained_by day week month ret as a =
     (int (length (newer_than as a)) < keep_last ret \<or>
      (case ret_gfs ret of
         None \<Rightarrow> False
       | Some g \<Rightarrow> period_rule day (daily g) as a \<or> period_rule week (weekly g) as a \<or>
                   period_rule month (monthly g) as a))"

text \<open>The rule over the calendar itself: days, Monday-based weeks, and months of a year.\<close>

definition retained :: "retention \<Rightarrow> artifact list \<Rightarrow> artifact \<Rightarrow> bool" where
  "retained =
     retained_by abs_day (\<lambda>t. abs_day t div 7)
       (\<lambda>t. (year_of_day (abs_day t), month_of_day (abs_day t)))"

subsection \<open>Sorting\<close>

abbreviation strictly_newest_first :: "artifact list \<Rightarrow> bool" where
  "strictly_newest_first \<equiv> sorted_wrt (\<lambda>a b. by_age a < by_age b)"

lemma newest_first_mset [simp]: "mset (newest_first as) = mset as"
  by (simp add: newest_first_def)

lemma newest_first_set [simp]: "set (newest_first as) = set as"
  by (simp add: newest_first_def)

lemma newest_first_strict:
  assumes "distinct (map art_id as)"
  shows "strictly_newest_first (newest_first as)"
proof -
  have "sorted (map by_age (newest_first as))"
    by (simp add: newest_first_def)
  moreover have "distinct (map by_age (newest_first as))"
  proof -
    have "distinct (map by_age as)"
      using assms by (auto simp: distinct_map inj_on_def by_age_eq_iff)
    moreover have "mset (map by_age (newest_first as)) = mset (map by_age as)"
      by simp
    ultimately show ?thesis
      by (metis mset_eq_imp_distinct_iff)
  qed
  ultimately have "sorted_wrt (<) (map by_age (newest_first as))"
    by (simp add: strict_sorted_iff)
  then show ?thesis
    by (simp add: sorted_wrt_map)
qed

lemma newer_than_split:
  assumes "strictly_newest_first xs" "xs = ys @ a # zs"
  shows "newer_than xs a = ys"
  using assms by (auto simp: newer_than_def sorted_wrt_append filter_empty_conv
      intro!: filter_True dest: order.asym)

lemma newer_than_newest_first:
  "mset (newer_than (newest_first as) a) = mset (newer_than as a)"
  by (simp only: newer_than_def mset_filter newest_first_mset)

lemma in_take_iff:
  assumes "strictly_newest_first xs" "a \<in> set xs"
  shows "a \<in> set (take n xs) \<longleftrightarrow> length (newer_than xs a) < n"
proof -
  obtain ys zs where xs: "xs = ys @ a # zs"
    using assms(2) by (meson split_list)
  have "a \<notin> set ys" using assms(1) xs by (auto simp: sorted_wrt_append)
  moreover have "a \<notin> set zs" using assms(1) xs by (auto simp: sorted_wrt_append)
  moreover have "set (take n ys) \<subseteq> set ys" "set (take m zs) \<subseteq> set zs" for m
    by (simp_all add: set_take_subset)
  ultimately show ?thesis
    using newer_than_split [OF assms(1) xs] xs
    by (auto simp: take_Cons')
qed

subsection \<open>The loop over periods\<close>

fun leaders :: "(time \<Rightarrow> string) \<Rightarrow> int \<Rightarrow> string set \<Rightarrow> artifact list \<Rightarrow> rowid set" where
  "leaders key cnt S [] = {}"
| "leaders key cnt S (a # as) =
     (if key (art_created a) \<notin> S \<and> int (card S) < cnt then {art_id a} else {}) \<union>
     leaders key cnt (insert (key (art_created a)) S) as"

lemma leaders_full: "finite S \<Longrightarrow> cnt \<le> int (card S) \<Longrightarrow> leaders key cnt S as = {}"
proof (induction as arbitrary: S)
  case (Cons a as)
  have "card S \<le> card (insert (key (art_created a)) S)"
    using Cons.prems(1) by (simp add: card_insert_le)
  with Cons show ?case by simp
qed simp

lemma keep_by_period_loop_eq:
  assumes "int (length seen) < cnt" "distinct seen"
  shows "keep_by_period_loop key cnt as seen keep = keep \<union> leaders key cnt (set seen) as"
  using assms
proof (induction as arbitrary: seen keep)
  case (Cons a as)
  let ?k = "key (art_created a)"
  have card: "card (set seen) = length seen"
    using Cons.prems by (simp add: distinct_card)
  show ?case
  proof (cases "?k \<in> set seen")
    case True
    then show ?thesis
      using Cons by (simp add: insert_absorb)
  next
    case new: False
    show ?thesis
    proof (cases "int (length (?k # seen)) \<ge> cnt")
      case True
      then show ?thesis
        using new Cons.prems card leaders_full [of "set (?k # seen)" cnt key as] by simp
    next
      case False
      then show ?thesis
        using new Cons.prems card Cons.IH [of "?k # seen" "insert (art_id a) keep"] by simp
    qed
  qed
qed simp

lemma ex_split_Cons:
  "(\<exists>ys a zs. x # xs = ys @ a # zs \<and> P ys a) \<longleftrightarrow>
     P [] x \<or> (\<exists>ys a zs. xs = ys @ a # zs \<and> P (x # ys) a)"
  by (auto simp: Cons_eq_append_conv)

lemma leaders_iff:
  "i \<in> leaders key cnt S as \<longleftrightarrow>
     (\<exists>ys a zs. as = ys @ a # zs \<and> i = art_id a \<and>
        key (art_created a) \<notin> S \<union> set (map (key \<circ> art_created) ys) \<and>
        int (card (S \<union> set (map (key \<circ> art_created) ys))) < cnt)"
proof (induction as arbitrary: S)
  case (Cons x xs)
  show ?case
    unfolding ex_split_Cons by (auto simp: Cons.IH)
qed simp

lemma keepByPeriod_iff:
  assumes "strictly_newest_first xs" "distinct (map art_id xs)" "a \<in> set xs"
  shows "art_id a \<in> keepByPeriod xs cnt key \<longleftrightarrow> period_rule key cnt xs a"
proof (cases "cnt \<le> 0")
  case True
  then show ?thesis by (simp add: keepByPeriod_def period_rule_def)
next
  case False
  then have eq: "keepByPeriod xs cnt key = leaders key cnt {} xs"
    by (simp add: keepByPeriod_def keep_by_period_loop_eq)
  obtain ys zs where xs: "xs = ys @ a # zs"
    using assms(3) by (meson split_list)
  have nt: "newer_than xs a = ys"
    using newer_than_split [OF assms(1) xs] .
  have same: "b = a" if "xs = ys' @ b # zs'" "art_id a = art_id b" for b ys' zs'
  proof -
    have "b \<in> set xs" unfolding that(1) by simp
    then show ?thesis using distinct_map_eq [OF assms(2)] assms(3) that(2) by metis
  qed
  have uniq: "ys' = ys" if "xs = ys' @ b # zs'" "art_id a = art_id b" for b ys' zs'
    using newer_than_split [OF assms(1) that(1)] same [OF that] nt by simp
  show ?thesis (is "?L \<longleftrightarrow> ?R")
  proof
    assume ?L
    then obtain ys' b zs' where b: "xs = ys' @ b # zs'" "art_id a = art_id b"
      and r: "key (art_created b) \<notin> {} \<union> set (map (key \<circ> art_created) ys')"
        "int (card ({} \<union> set (map (key \<circ> art_created) ys'))) < cnt"
      unfolding eq leaders_iff by blast
    show ?R
      using r uniq [OF b] same [OF b] by (simp add: period_rule_def nt)
  next
    assume ?R
    then show ?L
      unfolding eq leaders_iff using xs nt by (fastforce simp: period_rule_def)
  qed
qed

subsection \<open>Forget\<close>

lemma period_rule_newest_first [simp]: "period_rule key cnt (newest_first as) = period_rule key cnt as"
proof -
  have "set (newer_than (newest_first as) a) = set (newer_than as a)" for a
    using newer_than_newest_first by (metis set_mset_mset)
  then show ?thesis
    by (simp add: period_rule_def fun_eq_iff)
qed

lemma keep_set_iff:
  assumes "distinct (map art_id as)" "a \<in> set as"
  shows "art_id a \<in> keep_set ret (newest_first as) \<longleftrightarrow> retained_by day_key week_key month_key ret as a"
proof -
  let ?xs = "newest_first as"
  have strict: "strictly_newest_first ?xs"
    using assms(1) by (rule newest_first_strict)
  have dist: "distinct (map art_id ?xs)"
    using assms(1) by (metis mset_eq_imp_distinct_iff mset_map newest_first_mset)
  have mem: "a \<in> set ?xs" using assms(2) by simp
  have "art_id a \<in> set (map art_id (take n ?xs)) \<longleftrightarrow> a \<in> set (take n ?xs)" for n
  proof
    assume "art_id a \<in> set (map art_id (take n ?xs))"
    then obtain b where b: "b \<in> set (take n ?xs)" "art_id a = art_id b" by auto
    then have "a = b" using distinct_map_eq [OF dist mem] by (meson in_set_takeD)
    with b show "a \<in> set (take n ?xs)" by simp
  qed simp
  moreover have "length (newer_than ?xs a) = length (newer_than as a)"
    using newer_than_newest_first by (metis size_mset)
  ultimately have last: "art_id a \<in> set (map art_id (take (nat k) ?xs)) \<longleftrightarrow>
      int (length (newer_than as a)) < k" for k
    by (simp only: in_take_iff [OF strict mem] zless_nat_eq_int_zless)
  show ?thesis
    by (simp add: keep_set_def retained_by_def last keepByPeriod_iff [OF strict dist mem]
        del: set_map split: option.split)
qed

lemma Forget_eq:
  assumes "distinct (map art_id as)"
  shows "Forget ret as now =
    (filter (retained_by day_key week_key month_key ret as) (newest_first as), filter (Not \<circ> retained_by day_key week_key month_key ret as) (newest_first as))"
  using keep_set_iff [OF assms] by (auto simp: Forget_def Let_def intro!: filter_cong)

lemma Forget_partition: "Forget ret as now = (keep, del) \<Longrightarrow> mset keep + mset del = mset as"
  by (auto simp: Forget_def Let_def simp flip: multiset_partition)

lemma period_rule_cong:
  assumes "\<And>b c. b \<in> set as \<Longrightarrow> c \<in> set as \<Longrightarrow>
      k (art_created b) = k (art_created c) \<longleftrightarrow> l (art_created b) = l (art_created c)"
    and "a \<in> set as"
  shows "period_rule k cnt as a = period_rule l cnt as a"
proof -
  let ?N = "set (newer_than as a)"
  have N: "?N \<subseteq> set as" by (auto simp: newer_than_def)
  have "k (art_created a) \<in> (k \<circ> art_created) ` ?N \<longleftrightarrow> l (art_created a) \<in> (l \<circ> art_created) ` ?N"
    using assms N by (auto simp: image_iff subset_iff)
  moreover have "card ((k \<circ> art_created) ` ?N) = card ((l \<circ> art_created) ` ?N)"
  proof -
    define h where "h x = l (art_created (SOME b. b \<in> ?N \<and> k (art_created b) = x))" for x
    have h: "h (k (art_created b)) = l (art_created b)" if "b \<in> ?N" for b
    proof -
      have "\<exists>c. c \<in> ?N \<and> k (art_created c) = k (art_created b)" using that by blast
      then have "(SOME c. c \<in> ?N \<and> k (art_created c) = k (art_created b)) \<in> ?N \<and>
          k (art_created (SOME c. c \<in> ?N \<and> k (art_created c) = k (art_created b))) = k (art_created b)"
        by (rule someI_ex)
      then show ?thesis unfolding h_def using assms(1) that N by blast
    qed
    have "inj_on h ((k \<circ> art_created) ` ?N)"
      using assms(1) N by (auto simp: inj_on_def h subset_iff)
    moreover have "h ` (k \<circ> art_created) ` ?N = (l \<circ> art_created) ` ?N"
      using h by (force simp: image_iff)
    ultimately show ?thesis using card_image by metis
  qed
  ultimately show ?thesis by (simp add: period_rule_def)
qed

abbreviation dated :: "artifact list \<Rightarrow> bool" where
  "dated as \<equiv> list_all (\<lambda>a. 0 \<le> abs_day (art_created a)) as"

lemma retained_keys:
  assumes "dated as" "a \<in> set as"
  shows "retained_by day_key week_key month_key ret as a = retained ret as a"
proof -
  have "period_rule day_key n as a = period_rule abs_day n as a"
    "period_rule week_key n as a = period_rule (\<lambda>t. abs_day t div 7) n as a"
    "period_rule month_key n as a =
       period_rule (\<lambda>t. (year_of_day (abs_day t), month_of_day (abs_day t))) n as a" for n
    using assms(1)
    by (intro period_rule_cong assms(2);
        simp add: list_all_iff day_key_eq_iff week_key_eq_iff month_key_eq_iff)+
  then show ?thesis
    by (simp add: retained_def retained_by_def split: option.split)
qed

lemma forget_rule:
  assumes "distinct (map art_id as)" "dated as"
  shows "set (fst (Forget ret as now)) = {a \<in> set as. retained ret as a}"
    "set (snd (Forget ret as now)) = {a \<in> set as. \<not> retained ret as a}"
  using retained_keys [OF assms(2)] by (auto simp: Forget_eq [OF assms(1)])

text \<open>
  C3: Forget keeps exactly the artifacts the policy retains (fewer than keep_last newer ones, or
  the newest of one of the last daily days, weekly ISO weeks or monthly months that have an
  artifact), deletes exactly the others, loses and invents none, and lists both newest first.
\<close>

theorem forget_exact:
  assumes "distinct (map art_id as)" "dated as"
  shows "set (fst (Forget ret as now)) = {a \<in> set as. retained ret as a} \<and>
    set (snd (Forget ret as now)) = {a \<in> set as. \<not> retained ret as a} \<and>
    mset (fst (Forget ret as now)) + mset (snd (Forget ret as now)) = mset as \<and>
    strictly_newest_first (fst (Forget ret as now)) \<and>
    strictly_newest_first (snd (Forget ret as now))"
proof -
  have "mset (fst (Forget ret as now)) + mset (snd (Forget ret as now)) = mset as"
    by (rule Forget_partition) simp
  then show ?thesis
    using newest_first_strict [OF assms(1)] forget_rule [OF assms]
    by (auto simp: Forget_eq [OF assms(1)] sorted_wrt_filter)
qed

text \<open>C7: A configured policy never deletes the newest artifact of the task.\<close>

theorem forget_keeps_newest:
  assumes "ret_enabled ret" "distinct (map art_id as)" "dated as"
    "a \<in> set as" "\<forall>b \<in> set as. \<not> by_age b < by_age a"
  shows "a \<in> set (fst (Forget ret as now)) \<and> a \<notin> set (snd (Forget ret as now))"
proof -
  have "newer_than as a = []"
    using assms(5) by (simp add: newer_than_def filter_empty_conv)
  then have "retained ret as a"
    using assms(1)
    by (auto simp: retained_def retained_by_def period_rule_def ret_enabled_def split: option.splits if_splits)
  then show ?thesis
    using forget_rule [OF assms(2,3)] assms(4) by simp
qed

lemma leaders_finite: "finite (leaders key cnt S as)"
  by (induction as arbitrary: S) auto

lemma leaders_card: "finite S \<Longrightarrow> int (card (leaders key cnt S as)) \<le> max 0 (cnt - int (card S))"
proof (induction as arbitrary: S)
  case (Cons a as)
  let ?k = "key (art_created a)"
  show ?case
  proof (cases "?k \<notin> S \<and> int (card S) < cnt")
    case True
    then have "int (card (leaders key cnt (insert ?k S) as)) \<le> max 0 (cnt - int (card S) - 1)"
      using Cons.IH [of "insert ?k S"] Cons.prems by simp
    moreover have "card (insert (art_id a) (leaders key cnt (insert ?k S) as)) \<le>
        Suc (card (leaders key cnt (insert ?k S) as))"
      by (simp add: card_insert_if leaders_finite)
    ultimately show ?thesis using True by simp
  next
    case False
    then have "leaders key cnt S (a # as) = leaders key cnt (insert ?k S) as" by auto
    moreover have "int (card S) \<le> int (card (insert ?k S))"
      using Cons.prems by (simp add: card_insert_le)
    ultimately show ?thesis
      using Cons.IH [of "insert ?k S"] Cons.prems by simp
  qed
qed simp

lemma keepByPeriod_card:
  "finite (keepByPeriod xs cnt key) \<and> int (card (keepByPeriod xs cnt key)) \<le> max 0 cnt"
  using leaders_card [of "{}" key cnt xs]
  by (auto simp: keepByPeriod_def keep_by_period_loop_eq leaders_finite)

lemma card_Un3: "card (A \<union> B \<union> C \<union> D) \<le> card A + card B + card C + card D"
  by (meson add_le_mono card_Un_le le_refl order_trans)

lemma keep_set_card:
  "finite (keep_set ret xs) \<and> int (card (keep_set ret xs)) \<le> max 0 (keep_last ret) +
     (case ret_gfs ret of None \<Rightarrow> 0
      | Some g \<Rightarrow> max 0 (daily g) + max 0 (weekly g) + max 0 (monthly g))"
proof -
  let ?L = "set (map art_id (take (nat (keep_last ret)) xs))"
  have L: "int (card ?L) \<le> max 0 (keep_last ret)"
    using card_length [of "map art_id (take (nat (keep_last ret)) xs)"] by (auto simp: max_def)
  show ?thesis
  proof (cases "ret_gfs ret")
    case None
    then show ?thesis using L by (simp add: keep_set_def)
  next
    case (Some g)
    then show ?thesis
      using L card_Un3 [of ?L "keepByPeriod xs (daily g) day_key" "keepByPeriod xs (weekly g) week_key"
          "keepByPeriod xs (monthly g) month_key"]
        keepByPeriod_card [of xs "daily g" day_key] keepByPeriod_card [of xs "weekly g" week_key]
        keepByPeriod_card [of xs "monthly g" month_key]
      by (simp add: keep_set_def Un_assoc)
  qed
qed

text \<open>
  C8: What a policy keeps is bounded by the sum of its counts, however many artifacts there are.
\<close>

theorem forget_bounded:
  assumes "distinct (map art_id as)" "ret_validate ret = None"
  shows "int (length (fst (Forget ret as now))) \<le> keep_last ret +
     (case ret_gfs ret of None \<Rightarrow> 0 | Some g \<Rightarrow> daily g + weekly g + monthly g)"
proof -
  let ?xs = "newest_first as" let ?K = "keep_set ret (newest_first as)"
  let ?kept = "map art_id (fst (Forget ret as now))"
  have "distinct (map art_id ?xs)"
    using assms(1) by (metis mset_eq_imp_distinct_iff mset_map newest_first_mset)
  then have "distinct ?kept"
    by (simp add: Forget_def Let_def map_filter_distinct)
  moreover have "set ?kept \<subseteq> ?K"
    by (auto simp: Forget_def Let_def)
  ultimately have "length (fst (Forget ret as now)) \<le> card ?K"
    using keep_set_card [of ret ?xs] by (metis card_mono distinct_card length_map)
  then show ?thesis
    using keep_set_card [of ret ?xs] assms(2)
    by (auto simp: ret_validate_None_iff split: option.splits)
qed

subsection \<open>A concrete history\<close>

definition sample_artifact :: "rowid \<Rightarrow> int \<Rightarrow> artifact" where
  "sample_artifact i s = \<lparr>art_id = i, art_run = i, art_storage = 1, art_key = ''pg/'' @ dec i,
     art_size = 10, art_checksum = [], art_created = unix_to_time s, art_expires = None\<rparr>"

definition sample_history :: "artifact list" where
  "sample_history = [sample_artifact 1 0, sample_artifact 2 3600, sample_artifact 3 90000]"

definition sample_policy :: retention where
  "sample_policy = \<lparr>keep_last = 1, ret_gfs = Some \<lparr>daily = 2, weekly = 0, monthly = 0\<rparr>\<rparr>"

lemma sample_history_ok: "distinct (map art_id sample_history)" "dated sample_history"
  by (simp_all add: sample_history_def sample_artifact_def abs_day_def unix_to_time_def second_def
      day_length_def hour_def minute_def)

lemma sample_policy_ok: "ret_enabled sample_policy" "ret_validate sample_policy = None"
  by (simp_all add: sample_policy_def ret_enabled_def ret_validate_None_iff)

theorem forget_exact_witness:
  "set (fst (Forget sample_policy sample_history 0)) =
     {a \<in> set sample_history. retained sample_policy sample_history a}"
  using forget_exact [OF sample_history_ok, of sample_policy 0] by (rule conjunct1)

theorem forget_keeps_newest_witness:
  "sample_artifact 3 90000 \<in> set (fst (Forget sample_policy sample_history 0))"
  using forget_keeps_newest [OF sample_policy_ok(1) sample_history_ok, of "sample_artifact 3 90000" 0]
  by (auto simp: sample_history_def by_age_less) (auto simp: sample_artifact_def unix_to_time_def second_def)

theorem forget_bounded_witness:
  "length (fst (Forget sample_policy sample_history 0)) \<le> 3"
  using forget_bounded [OF sample_history_ok(1) sample_policy_ok(2), of 0]
  by (simp add: sample_policy_def)

lemma forget_sample:
  "map art_id (snd (Forget sample_policy sample_history 0)) = [1]"
  by code_simp

end
