(* ===== verification/Keys.thy ===== *)
theory Keys
  imports Calendar
begin

text \<open>
  Artifact keys, internal/core/pipeline.go: the name of the object a run writes, built from the
  task, the database and the minute, and the prefix under which the objects of a task lie. Strings
  are ASCII here; a rune outside ASCII becomes a dash like any other character the slug does not
  keep.
\<close>

definition slug_char :: "char \<Rightarrow> bool" where
  "slug_char c = (97 \<le> (of_char c :: nat) \<and> (of_char c :: nat) \<le> 122 \<or>
     48 \<le> (of_char c :: nat) \<and> (of_char c :: nat) \<le> 57 \<or> c \<in> {CHR ''-'', CHR ''_'', CHR ''.''})"

definition slug :: "string \<Rightarrow> string" where
  "slug s = map (\<lambda>c. if slug_char c then c else CHR ''-'') (trim_space (map to_lower s))"

definition dumpExt :: "string \<Rightarrow> string \<Rightarrow> string" where
  "dumpExt engine fmt =
     (if engine = ''postgres'' \<and> fmt = ''plain'' then ''.sql''
      else if engine = ''mongodb'' then ''.archive''
      else if engine = ''mssql'' then ''.bak''
      else if engine = ''redis'' then ''.rdb''
      else if engine = ''sqlite'' then ''.sqlite''
      else ''.dump'')"

text \<open>at.UTC().Format("20060102_1504"): the year is padded to four digits.\<close>

definition minute_stamp :: "time \<Rightarrow> string" where
  "minute_stamp t =
     (let d = abs_day t; s = t mod day_length in
        pad0 4 (dec (year_of_day d)) @ pad0 2 (dec (month_of_day d)) @ pad0 2 (dec (day_of_month d)) @
        ''_'' @ pad0 2 (dec (s div hour)) @ pad0 2 (dec (s mod hour div minute)))"

text \<open>The codecs contribute their extensions, in chain order.\<close>

definition BuildArtifactKey :: "string \<Rightarrow> string \<Rightarrow> string \<Rightarrow> string \<Rightarrow> string list \<Rightarrow> time \<Rightarrow> string" where
  "BuildArtifactKey task dbname engine fmt exts at =
     slug task @ ''/'' @ slug dbname @ ''/'' @ minute_stamp at @ ''_'' @ slug dbname @
     dumpExt engine fmt @ concat exts"

definition ArtifactPrefix :: "string \<Rightarrow> string" where
  "ArtifactPrefix task = slug task @ ''/''"

definition keyPrefix :: "string \<Rightarrow> string" where
  "keyPrefix k = (if CHR ''/'' \<in> set k then takeWhile (\<lambda>c. c \<noteq> CHR ''/'') k @ ''/'' else [])"

subsection \<open>Slugs\<close>

lemma char_eq_of_char: "c = d \<longleftrightarrow> (of_char c :: nat) = of_char d"
  by simp

lemma slug_chars: "c \<in> set (slug s) \<Longrightarrow> slug_char c"
  by (auto simp: slug_def slug_char_def split: if_splits)

lemma slug_no_slash [simp]: "CHR ''/'' \<notin> set (slug s)"
  using slug_chars [of "CHR ''/''" s] by (auto simp: slug_char_def)

lemma slug_char_stable: "slug_char c \<Longrightarrow> to_lower c = c \<and> \<not> is_space_char c"
  by (auto simp: slug_char_def to_lower_def is_space_char_def)

lemma slug_fixed:
  assumes "\<forall>c \<in> set s. slug_char c"
  shows "slug s = s"
proof -
  have "map to_lower s = s" by (rule map_idI) (use assms slug_char_stable in blast)
  moreover have "trim_space s = s" by (rule trim_space_id) (use assms slug_char_stable in blast)
  moreover have "map (\<lambda>c. if slug_char c then c else CHR ''-'') s = s"
    by (rule map_idI) (use assms in simp)
  ultimately show ?thesis by (simp add: slug_def)
qed

lemma slug_idem [simp]: "slug (slug s) = slug s"
  by (rule slug_fixed) (use slug_chars in blast)

lemma takeWhile_slug: "takeWhile (\<lambda>c. c \<noteq> CHR ''/'') (slug s @ CHR ''/'' # r) = slug s"
  by (subst takeWhile_append2) (auto intro: ccontr)

subsection \<open>The minute stamp\<close>

lemma dec_nat_length: "n < 100 \<Longrightarrow> length (dec_nat n) \<le> 2"
proof -
  assume "n < 100"
  then have "n div 10 < 10" by simp
  then have "dec_nat (n div 10) = [digit (n div 10)]" by (subst dec_nat.simps) simp
  then show ?thesis by (subst dec_nat.simps) simp
qed

lemma pad2_length: "0 \<le> i \<Longrightarrow> i < 100 \<Longrightarrow> length (pad0 2 (dec i)) = 2"
  using dec_nat_length [of "nat i"] by (simp add: pad0_def dec_def)

lemma month_search_maximal:
  "month_search leap yd m < k \<Longrightarrow> k \<le> m \<Longrightarrow> yd < days_before_month leap (int k)"
proof (induction leap yd m rule: month_search.induct)
  case (1 leap yd m)
  show ?case
  proof (cases "days_before_month leap (int (Suc (Suc m))) \<le> yd")
    case False
    with 1 show ?thesis by (cases "k = Suc (Suc m)") auto
  qed (use 1 in simp)
qed auto

lemma day_of_month_le: "day_of_month d < 100"
proof -
  let ?leap = "is_leap (year_of_day d)" and ?yd = "year_day d"
  let ?m = "month_search ?leap ?yd 12"
  have m: "1 \<le> ?m" "?m \<le> 12" using month_search_bounds [of ?leap ?yd 12] by auto
  have "?yd - days_before_month ?leap (int ?m) < 40"
  proof (cases "?m = 12")
    case True
    then show ?thesis using year_day_bounds [of d] by (simp add: days_before_month_def split: if_splits)
  next
    case False
    with m have "?yd < days_before_month ?leap (int (Suc ?m))"
      by (intro month_search_maximal [of ?leap ?yd 12]) auto
    moreover have "?m \<in> {1, 2, 3, 4, 5, 6, 7, 8, 9, 10, 11}"
      using m False unfolding insert_iff empty_iff by presburger
    ultimately show ?thesis
      by (auto simp: days_before_month_def nat_add_distrib split: if_splits)
  qed
  then show ?thesis by (simp add: day_of_month_def month_of_day_def)
qed

lemma clock_fields:
  assumes "0 \<le> r" "r < day_length"
  shows "0 \<le> r div hour" "r div hour < 24" "0 \<le> r mod hour div minute" "r mod hour div minute < 60"
    "r div minute = 60 * (r div hour) + r mod hour div minute"
proof -
  have "r = minute * (60 * (r div hour)) + r mod hour"
    using mult_div_mod_eq [of hour r] by (simp add: hour_def ac_simps)
  then have "r div minute = (minute * (60 * (r div hour)) + r mod hour) div minute" by (rule arg_cong)
  also have "\<dots> = 60 * (r div hour) + r mod hour div minute" by (simp add: minute_def second_def)
  finally show "r div minute = 60 * (r div hour) + r mod hour div minute" .
qed (use assms in \<open>simp_all add: day_length_def hour_def minute_def second_def\<close>, linarith?)

lemma mixed_radix:
  assumes "0 \<le> b" "b < k" "0 \<le> e" "e < k" "k * a + b = k * c + (e :: int)"
  shows "a = c" "b = e"
proof -
  have "(k * a + b) div k = a" "(k * c + e) div k = c" using assms(1-4) by simp_all
  then show "a = c" using assms(5) by metis
  then show "b = e" using assms(5) by simp
qed

lemma minute_of_day:
  "u div minute = 1440 * (u div day_length) + u mod day_length div minute"
  "0 \<le> u mod day_length div minute" "u mod day_length div minute < 1440"
proof -
  have "u = minute * (1440 * (u div day_length)) + u mod day_length"
    using mult_div_mod_eq [of day_length u] by (simp add: day_length_def hour_def ac_simps)
  then have "u div minute = (minute * (1440 * (u div day_length)) + u mod day_length) div minute" by (rule arg_cong)
  also have "\<dots> = 1440 * (u div day_length) + u mod day_length div minute"
    by (simp add: minute_def second_def)
  finally show "u div minute = 1440 * (u div day_length) + u mod day_length div minute" .
  have "u mod day_length < day_length" "0 \<le> u mod day_length"
    by (simp_all add: day_length_def)
  then show "0 \<le> u mod day_length div minute" "u mod day_length div minute < 1440"
    unfolding day_length_def hour_def minute_def second_def by simp_all
qed

lemma append_eq_lengths: "length b = length b' \<Longrightarrow> a @ b = a' @ b' \<longleftrightarrow> a = a' \<and> b = b'"
  by (simp add: append_eq_append_conv)

lemma minute_stamp_eq_iff:
  assumes "0 \<le> abs_day s" "0 \<le> abs_day t"
  shows "minute_stamp s = minute_stamp t \<longleftrightarrow> s div minute = t div minute"
proof -
  let ?c = "\<lambda>t. t mod day_length"
  have pos: "0 < day_length" by (simp add: day_length_def)
  have c: "0 \<le> ?c u" "?c u < day_length" for u using pos by simp_all
  note f = clock_fields [OF c]
  have len: "length (pad0 2 (dec (month_of_day d))) = 2" "length (pad0 2 (dec (day_of_month d))) = 2"
    "length (pad0 2 (dec (?c u div hour))) = 2" "length (pad0 2 (dec (?c u mod hour div minute))) = 2" for d u
    using month_bounds [of d] day_of_month_pos [of d] day_of_month_le [of d] f [of u]
    by (auto intro!: pad2_length)
  have "minute_stamp s = minute_stamp t \<longleftrightarrow>
    year_of_day (abs_day s) = year_of_day (abs_day t) \<and> month_of_day (abs_day s) = month_of_day (abs_day t) \<and>
    day_of_month (abs_day s) = day_of_month (abs_day t) \<and>
    ?c s div hour = ?c t div hour \<and> ?c s mod hour div minute = ?c t mod hour div minute"
    using year_pos [OF assms(1)] year_pos [OF assms(2)] month_bounds day_of_month_pos f
    by (simp add: minute_stamp_def Let_def append_eq_lengths len order_trans [OF zero_le_one])
  also have "\<dots> \<longleftrightarrow> abs_day s = abs_day t \<and> ?c s div minute = ?c t div minute"
    using mixed_radix [OF f(3,4) f(3,4)] f(5) [of s] f(5) [of t]
      civil_date_inj [of "abs_day s" "abs_day t"] by metis
  also have "\<dots> \<longleftrightarrow> s div minute = t div minute"
  proof
    assume "s div minute = t div minute"
    then have "1440 * (s div day_length) + ?c s div minute = 1440 * (t div day_length) + ?c t div minute"
      using minute_of_day(1) [of s] minute_of_day(1) [of t] by simp
    from mixed_radix [OF minute_of_day(2,3) minute_of_day(2,3) this]
    show "abs_day s = abs_day t \<and> ?c s div minute = ?c t div minute" by (simp add: abs_day_def)
  next
    assume "abs_day s = abs_day t \<and> ?c s div minute = ?c t div minute"
    then show "s div minute = t div minute"
      by (simp add: minute_of_day(1) [of s] minute_of_day(1) [of t] abs_day_def)
  qed
  finally show ?thesis .
qed

subsection \<open>Keys\<close>

text \<open>
  Every key a task's run writes lies under the prefix the retention manager lists for that
  task, and the prefix can be read back off the key whatever the names, engine and codecs are.
\<close>

theorem key_under_prefix:
  "prefix (ArtifactPrefix task) (BuildArtifactKey task dbname engine fmt exts at) \<and>
   keyPrefix (BuildArtifactKey task dbname engine fmt exts at) = ArtifactPrefix task"
  by (simp add: BuildArtifactKey_def ArtifactPrefix_def keyPrefix_def takeWhile_slug)

text \<open>
  The key of a task's artifact distinguishes two runs exactly by the minute they are built in:
  two runs of a task within the same minute write to the same object.
\<close>

theorem key_by_minute:
  assumes "0 \<le> abs_day s" "0 \<le> abs_day t"
  shows "BuildArtifactKey task dbname engine fmt exts s = BuildArtifactKey task dbname engine fmt exts t \<longleftrightarrow>
    s div minute = t div minute"
  using minute_stamp_eq_iff [OF assms] by (simp add: BuildArtifactKey_def)

theorem key_by_minute_witness:
  "BuildArtifactKey ''Nightly DB'' ''app'' ''postgres'' ''plain'' [''.zst''] (unix_to_time 1700000000) \<noteq>
   BuildArtifactKey ''Nightly DB'' ''app'' ''postgres'' ''plain'' [''.zst''] (unix_to_time 1700000060)"
  using key_by_minute [of "unix_to_time 1700000000" "unix_to_time 1700000060" "''Nightly DB''" "''app''" "''postgres''" "''plain''" "[''.zst'']"]
  by (simp add: abs_day_def unix_to_time_def day_length_def hour_def minute_def second_def)

end
