(* ===== verification/Prune.thy ===== *)
theory Prune
  imports Forget Keys
begin

text \<open>
  The Retention Manager of internal/core/retention.go over abstract stores: Prune deletes what
  Forget gives up, object first and catalog row second, and Orphans lists the objects no row
  points to. The catalog and the storages are records of operations on a state; a locale states
  what they promise, and the lemmas about a pass are proved from it.
\<close>

subsection \<open>Interfaces\<close>

record object =
  obj_key :: string
  obj_size :: int
  obj_modified :: time

record 'w storage_plugin =
  sp_list :: "string \<Rightarrow> ('w, object list) op"
  sp_delete :: "string \<Rightarrow> ('w, unit) op"
  sp_close :: "'w \<Rightarrow> 'w"

record 'w retention_store =
  rs_list :: "rowid \<Rightarrow> ('w, artifact list) op"
  rs_delete :: "rowid \<Rightarrow> ('w, unit) op"

type_synonym 'w opener = "rowid \<Rightarrow> ('w, 'w storage_plugin) op"

text \<open>ctx.Err(): the cancellation error, if the context is cancelled in this state.\<close>

type_synonym 'w context_err = "'w \<Rightarrow> err option"

subsection \<open>The code\<close>

type_synonym 'w storage_cache = "(rowid \<times> 'w storage_plugin) list"

definition cache_get ::
  "'w opener \<Rightarrow> rowid \<Rightarrow> 'w storage_cache \<Rightarrow> 'w \<Rightarrow> (err + 'w storage_plugin) \<times> 'w storage_cache \<times> 'w" where
  "cache_get opn i seen w =
     (case map_of seen i of
        Some s \<Rightarrow> (Inr s, seen, w)
      | None \<Rightarrow>
          (case opn i w of
             (Inl e, w) \<Rightarrow> (Inl (Wrap (''storage '' @ dec i @ '': '') e), seen, w)
           | (Inr s, w) \<Rightarrow> (Inr s, (i, s) # seen, w)))"

definition closeAll :: "'w storage_cache \<Rightarrow> 'w \<Rightarrow> 'w" where
  "closeAll seen w = fold (\<lambda>(i, s). sp_close s) seen w"

fun prune_loop ::
  "'w context_err \<Rightarrow> 'w retention_store \<Rightarrow> 'w opener \<Rightarrow> artifact list \<Rightarrow> 'w storage_cache \<Rightarrow> 'w \<Rightarrow>
   (artifact list \<times> err list) \<times> 'w storage_cache \<times> 'w" where
  "prune_loop ctx st opn [] seen w = (([], []), seen, w)"
| "prune_loop ctx st opn (a # as) seen w =
     (case ctx w of
        Some c \<Rightarrow> (([], [c]), seen, w)
      | None \<Rightarrow>
          (case cache_get opn (art_storage a) seen w of
             (Inl e, seen, w) \<Rightarrow>
               (case prune_loop ctx st opn as seen w of
                  ((gone, errs), res) \<Rightarrow> ((gone, Wrap (''artifact '' @ dec (art_id a) @ '': '') e # errs), res))
           | (Inr s, seen, w) \<Rightarrow>
               (case sp_delete s (art_key a) w of
                  (Inl e, w) \<Rightarrow>
                    (case prune_loop ctx st opn as seen w of
                       ((gone, errs), res) \<Rightarrow>
                         ((gone, Wrap (''delete object '' @ art_key a @ '': '') e # errs), res))
                | (Inr _, w) \<Rightarrow>
                    (case rs_delete st (art_id a) w of
                       (Inl e, w) \<Rightarrow>
                         (case prune_loop ctx st opn as seen w of
                            ((gone, errs), res) \<Rightarrow>
                              ((gone, Wrap (''delete artifact '' @ dec (art_id a) @ '': '') e # errs), res))
                     | (Inr _, w) \<Rightarrow>
                         (case prune_loop ctx st opn as seen w of
                            ((gone, errs), res) \<Rightarrow> ((a # gone, errs), res))))))"

definition Prune ::
  "'w context_err \<Rightarrow> 'w retention_store \<Rightarrow> task \<Rightarrow> 'w opener \<Rightarrow> time \<Rightarrow> 'w \<Rightarrow>
   (artifact list \<times> err option) \<times> 'w" where
  "Prune ctx st task opn now w =
     (case rs_list st (task_id task) w of
        (Inl e, w) \<Rightarrow> (([], Some e), w)
      | (Inr artifacts, w) \<Rightarrow>
          (case prune_loop ctx st opn (snd (Forget (task_retention task) artifacts now)) [] w of
             ((gone, errs), seen, w) \<Rightarrow> ((gone, errors_join errs), closeAll seen w)))"

text \<open>
  Orphans ranges over a Go map of scopes; order is the order in which the map yields
  them.
\<close>

definition orphan_scopes :: "task \<Rightarrow> artifact list \<Rightarrow> (rowid \<times> string) set" where
  "orphan_scopes task artifacts =
     insert (task_storage task, ArtifactPrefix (task_name task)) (set (map (\<lambda>a. (art_storage a, keyPrefix (art_key a))) artifacts))"

definition known_objects :: "artifact list \<Rightarrow> (rowid \<times> string) set" where
  "known_objects artifacts = set (map (\<lambda>a. (art_storage a, art_key a)) artifacts)"

fun pick_orphans ::
  "(rowid \<times> string) set \<Rightarrow> rowid \<Rightarrow> object list \<Rightarrow> (rowid \<times> string) set \<Rightarrow>
   object list \<times> (rowid \<times> string) set" where
  "pick_orphans known i [] seen = ([], seen)"
| "pick_orphans known i (ob # os) seen =
     (if (i, obj_key ob) \<in> known \<or> (i, obj_key ob) \<in> seen then pick_orphans known i os seen
      else (case pick_orphans known i os (insert (i, obj_key ob) seen) of
              (found, seen) \<Rightarrow> (ob # found, seen)))"

fun orphan_loop ::
  "'w opener \<Rightarrow> (rowid \<times> string) set \<Rightarrow> (rowid \<times> string) list \<Rightarrow> (rowid \<times> string) set \<Rightarrow>
   'w storage_cache \<Rightarrow> 'w \<Rightarrow> (object list \<times> err list) \<times> 'w storage_cache \<times> 'w" where
  "orphan_loop opn known [] located cache w = (([], []), cache, w)"
| "orphan_loop opn known ((i, pfx) # scs) located cache w =
     (case cache_get opn i cache w of
        (Inl e, cache, w) \<Rightarrow>
          (case orphan_loop opn known scs located cache w of
             ((os, errs), res) \<Rightarrow> ((os, e # errs), res))
      | (Inr s, cache, w) \<Rightarrow>
          (case sp_list s pfx w of
             (Inl e, w) \<Rightarrow>
               (case orphan_loop opn known scs located cache w of
                  ((os, errs), res) \<Rightarrow> ((os, Wrap (''list '' @ pfx @ '': '') e # errs), res))
           | (Inr objects, w) \<Rightarrow>
               (case pick_orphans known i objects located of
                  (found, located) \<Rightarrow>
                    (case orphan_loop opn known scs located cache w of
                       ((os, errs), res) \<Rightarrow> ((found @ os, errs), res)))))"

definition Orphans ::
  "'w retention_store \<Rightarrow> task \<Rightarrow> 'w opener \<Rightarrow> ((rowid \<times> string) set \<Rightarrow> (rowid \<times> string) list) \<Rightarrow>
   'w \<Rightarrow> (object list \<times> err option) \<times> 'w" where
  "Orphans st task opn order w =
     (case rs_list st (task_id task) w of
        (Inl e, w) \<Rightarrow> (([], Some e), w)
      | (Inr artifacts, w) \<Rightarrow>
          (case orphan_loop opn (known_objects artifacts) (order (orphan_scopes task artifacts)) {} [] w of
             ((os, errs), cache, w) \<Rightarrow> ((os, errors_join errs), closeAll cache w)))"

subsection \<open>Picking the orphans of one listing\<close>

lemma pick_orphans_spec:
  "pick_orphans known i os seen = (found, seen') \<Longrightarrow>
   set found \<subseteq> set os \<and> (\<forall>ob \<in> set found. (i, obj_key ob) \<notin> known \<and> (i, obj_key ob) \<notin> seen) \<and>
   seen' = seen \<union> (\<lambda>ob. (i, obj_key ob)) ` set found \<and> distinct (map obj_key found) \<and>
   (\<forall>ob \<in> set os. (i, obj_key ob) \<in> known \<union> seen')"
proof (induction os arbitrary: seen found)
  case (Cons ob os)
  show ?case
  proof (cases "(i, obj_key ob) \<in> known \<or> (i, obj_key ob) \<in> seen")
    case True
    with Cons.prems have p: "pick_orphans known i os seen = (found, seen')" by simp
    from Cons.IH [OF p] True show ?thesis by auto
  next
    case False
    then obtain f where p: "pick_orphans known i os (insert (i, obj_key ob) seen) = (f, seen')" "found = ob # f"
      using Cons.prems by (auto split: prod.splits)
    from Cons.IH [OF p(1)] False show ?thesis unfolding p(2) by auto
  qed
qed simp

subsection \<open>The contract\<close>

definition cache_ok :: "(rowid \<Rightarrow> 'w storage_plugin \<Rightarrow> bool) \<Rightarrow> 'w storage_cache \<Rightarrow> bool" where
  "cache_ok serves seen = list_all (\<lambda>(i, s). serves i s) seen"

definition location :: "artifact \<Rightarrow> rowid \<times> string" where
  "location a = (art_storage a, art_key a)"

text \<open>
  The catalog is a set of rows, the storages hold a set of objects named by storage id and key;
  listing tid w is what the catalog lists for a task. Deleting a row removes that row
  only; an opened storage deletes objects of its own storage only, and a failed delete may or may
  not have removed the object. A failed catalog call changes nothing; no catalog call touches an
  object, no storage call a row.
\<close>

locale retention_contract =
  fixes st :: "'w retention_store" and opn :: "'w opener"
    and rows :: "'w \<Rightarrow> artifact set" and listing :: "rowid \<Rightarrow> 'w \<Rightarrow> artifact list"
    and objs :: "'w \<Rightarrow> (rowid \<times> string) set"
    and serves :: "rowid \<Rightarrow> 'w storage_plugin \<Rightarrow> bool" and key_ok :: "string \<Rightarrow> bool" and owner :: "artifact \<Rightarrow> rowid"
    and ok :: "'w \<Rightarrow> bool"
  assumes list_rows: "ok w \<Longrightarrow> rs_list st tid w = (ra, w') \<Longrightarrow>
      ok w' \<and> rows w' = rows w \<and> objs w' = objs w \<and> (\<forall>as. ra = Inr as \<longrightarrow> as = listing tid w)"
    and listing_rows: "ok w \<Longrightarrow> set (listing tid w) = {a \<in> rows w. owner a = tid} \<and> distinct (map art_id (listing tid w)) \<and>
      (\<forall>a \<in> set (listing tid w). key_ok (art_key a))"
    and delete_row: "ok w \<Longrightarrow> rs_delete st i w = (r, w') \<Longrightarrow>
      ok w' \<and> objs w' = objs w \<and>
      rows w' = (if is_ok r then {a \<in> rows w. art_id a \<noteq> i} else rows w)"
    and open_storage: "ok w \<Longrightarrow> opn i w = (rp, w') \<Longrightarrow>
      ok w' \<and> rows w' = rows w \<and> objs w' = objs w \<and> (\<forall>s. rp = Inr s \<longrightarrow> serves i s)"
    and list_objects: "ok w \<Longrightarrow> serves i s \<Longrightarrow> sp_list s pfx w = (ro, w') \<Longrightarrow>
      ok w' \<and> rows w' = rows w \<and> objs w' = objs w \<and>
      (\<forall>os. ro = Inr os \<longrightarrow> obj_key ` set os = {k. (i, k) \<in> objs w \<and> prefix pfx k})"
    and delete_object: "ok w \<Longrightarrow> serves i s \<Longrightarrow> key_ok k \<Longrightarrow> sp_delete s k w = (r, w') \<Longrightarrow>
      ok w' \<and> rows w' = rows w \<and> objs w - {(i, k)} \<subseteq> objs w' \<and> objs w' \<subseteq> objs w \<and>
      (is_ok r \<longrightarrow> (i, k) \<notin> objs w')"
    and close_storage: "ok w \<Longrightarrow> serves i s \<Longrightarrow>
      ok (sp_close s w) \<and> rows (sp_close s w) = rows w \<and> objs (sp_close s w) = objs w"
begin

lemma cache_get_spec:
  assumes "ok w" "cache_ok serves seen" "cache_get opn i seen w = (r, seen', w')"
  shows "ok w' \<and> rows w' = rows w \<and> objs w' = objs w \<and> cache_ok serves seen' \<and> (\<forall>s. r = Inr s \<longrightarrow> serves i s)"
proof (cases "map_of seen i")
  case (Some s)
  then have "(i, s) \<in> set seen" by (rule map_of_SomeD)
  with assms Some show ?thesis by (auto simp: cache_get_def cache_ok_def list_all_iff)
next
  case None
  obtain q w1 where q: "opn i w = (q, w1)" by fastforce
  from open_storage [OF assms(1) q] assms None q show ?thesis
    by (cases q) (auto simp: cache_get_def cache_ok_def)
qed

lemma closeAll_spec:
  "ok w \<Longrightarrow> cache_ok serves seen \<Longrightarrow>
   ok (closeAll seen w) \<and> rows (closeAll seen w) = rows w \<and> objs (closeAll seen w) = objs w"
proof (induction seen arbitrary: w)
  case (Cons p seen)
  obtain i s where p: "p = (i, s)" by fastforce
  have s: "serves i s" and seen: "cache_ok serves seen" using Cons.prems p by (auto simp: cache_ok_def)
  note c = close_storage [OF Cons.prems(1) s]
  from Cons.IH [of "sp_close s w"] c seen show ?case by (simp add: closeAll_def p)
qed (simp add: closeAll_def)

lemma prune_loop_spec:
  assumes "ok w" "cache_ok serves seen" "prune_loop ctx st opn as seen w = ((gone, errs), seen', w')"
    and "\<forall>a \<in> set as. key_ok (art_key a)"
  shows "ok w' \<and> cache_ok serves seen' \<and> set gone \<subseteq> set as \<and>
    rows w' = {a \<in> rows w. art_id a \<notin> art_id ` set gone} \<and>
    objs w' \<subseteq> objs w \<and> objs w - location ` set as \<subseteq> objs w' \<and>
    (\<forall>a \<in> set gone. location a \<notin> objs w') \<and>
    (errs = [] \<longrightarrow> gone = as) \<and> length gone + length errs \<le> Suc (length as) \<and>
    ((\<forall>v. ctx v = None) \<longrightarrow> length gone + length errs = length as)"
  using assms
proof (induction as arbitrary: seen w gone errs)
  case (Cons a as)
  show ?case
  proof (cases "ctx w")
    case (Some c)
    with Cons.prems show ?thesis by auto
  next
    case ctx: None
    obtain r seen1 w1 where g: "cache_get opn (art_storage a) seen w = (r, seen1, w1)" by (metis prod_cases3)
    note g1 = cache_get_spec [OF Cons.prems(1,2) g]
    show ?thesis
    proof (cases r)
      case (Inl e)
      obtain gone1 errs1 where p: "prune_loop ctx st opn as seen1 w1 = ((gone1, errs1), seen', w')"
        "gone = gone1" "errs = Wrap (''artifact '' @ dec (art_id a) @ '': '') e # errs1"
        using Cons.prems(3) ctx g Inl by (auto split: prod.splits)
      from Cons.IH [OF _ _ p(1)] g1 Cons.prems(4) show ?thesis by (auto simp: p(2,3))
    next
      case (Inr s)
      then have s: "serves (art_storage a) s" using g1 by blast
      obtain q w2 where d: "sp_delete s (art_key a) w1 = (q, w2)" by fastforce
      have k: "key_ok (art_key a)" and ks: "\<forall>a \<in> set as. key_ok (art_key a)" using Cons.prems(4) by simp_all
      note d1 = delete_object [OF _ s k d]
      show ?thesis
      proof (cases q)
        case (Inl e)
        obtain gone1 errs1 where p: "prune_loop ctx st opn as seen1 w2 = ((gone1, errs1), seen', w')"
          "gone = gone1" "errs = Wrap (''delete object '' @ art_key a @ '': '') e # errs1"
          using Cons.prems(3) ctx g Inr d Inl by (auto split: prod.splits)
        from Cons.IH [OF _ _ p(1) ks] g1 d1 show ?thesis by (auto simp: p(2,3) location_def)
      next
        case okd: (Inr u)
        obtain z w3 where x: "rs_delete st (art_id a) w2 = (z, w3)" by fastforce
        note x1 = delete_row [OF _ x]
        show ?thesis
        proof (cases z)
          case (Inl e)
          obtain gone1 errs1 where p: "prune_loop ctx st opn as seen1 w3 = ((gone1, errs1), seen', w')"
            "gone = gone1" "errs = Wrap (''delete artifact '' @ dec (art_id a) @ '': '') e # errs1"
            using Cons.prems(3) ctx g Inr d okd x Inl by (auto split: prod.splits)
          from Cons.IH [OF _ _ p(1) ks] g1 d1 x1 Inl show ?thesis by (auto simp: p(2,3) location_def)
        next
          case (Inr u')
          obtain gone1 errs1 where p: "prune_loop ctx st opn as seen1 w3 = ((gone1, errs1), seen', w')"
            "gone = a # gone1" "errs = errs1"
            using Cons.prems(3) ctx g \<open>r = Inr s\<close> d okd x Inr by (auto split: prod.splits)
          have 1: "ok w1" "ok w2" "ok w3" "cache_ok serves seen1" using g1 d1 x1 by blast+
          have 2: "rows w3 = {b \<in> rows w. art_id b \<noteq> art_id a}" using g1 d1 x1 1 Inr by simp
          have 3: "objs w3 = objs w2" "objs w2 \<subseteq> objs w" "location a \<notin> objs w2" "objs w - {location a} \<subseteq> objs w2"
            using g1 d1 x1 1 okd by (auto simp: location_def)
          from Cons.IH [OF 1(3,4) p(1) ks] show ?thesis
            using 1 2 3 by (auto simp: p(2,3))
        qed
      qed
    qed
  qed
qed auto

lemma prune_loop_subseq:
  "prune_loop ctx st' opn' as seen w = ((gone, errs), res) \<Longrightarrow> subseq gone as"
proof (induction as arbitrary: seen w gone errs res)
  case (Cons a as)
  let ?run = "prune_loop ctx st' opn' as"
  have step: "subseq gone (a # as)" if "?run s1 w1 = ((g, es), r)" "gone = g \<or> gone = a # g" for s1 w1 g es r
    using Cons.IH [OF that(1)] that(2) by (auto intro: list_emb_Cons)
  show ?case
  proof (cases "ctx w")
    case (Some c)
    with Cons.prems show ?thesis by auto
  next
    case None
    obtain r s1 w1 where c: "cache_get opn' (art_storage a) seen w = (r, s1, w1)" by (metis prod_cases3)
    show ?thesis
    proof (cases r)
      case (Inl e)
      obtain g es q where p: "?run s1 w1 = ((g, es), q)" by (metis surj_pair)
      show ?thesis by (rule step [OF p]) (use Cons.prems None c Inl p in simp)
    next
      case (Inr sp)
      obtain d w2 where d: "sp_delete sp (art_key a) w1 = (d, w2)" by fastforce
      show ?thesis
      proof (cases d)
        case (Inl e)
        obtain g es q where p: "?run s1 w2 = ((g, es), q)" by (metis surj_pair)
        show ?thesis by (rule step [OF p]) (use Cons.prems None c Inr d Inl p in simp)
      next
        case d2: (Inr u)
        obtain x w3 where x: "rs_delete st' (art_id a) w2 = (x, w3)" by fastforce
        obtain g es q where p: "?run s1 w3 = ((g, es), q)" by (metis surj_pair)
        show ?thesis
          by (rule step [OF p]) (use Cons.prems None c Inr d d2 x p in \<open>cases x; auto\<close>)
      qed
    qed
  qed
qed simp

text \<open>A whole pass over a task.\<close>

lemma Prune_spec:
  assumes "ok w" "Prune ctx st task opn now w = ((gone, err), w')"
    and "del = snd (Forget (task_retention task) (listing (task_id task) w) now)"
  shows "ok w'" "rows w' = {a \<in> rows w. art_id a \<notin> art_id ` set gone}" "objs w' \<subseteq> objs w"
    "set gone \<subseteq> set del" "\<forall>a \<in> set gone. location a \<notin> objs w'"
    "objs w - location ` set del \<subseteq> objs w'" "err = None \<longrightarrow> gone = del"
proof -
  obtain r w1 where l: "rs_list st (task_id task) w = (r, w1)" by fastforce
  note l1 = list_rows [OF assms(1) l]
  have "ok w' \<and> rows w' = {a \<in> rows w. art_id a \<notin> art_id ` set gone} \<and> objs w' \<subseteq> objs w \<and>
    set gone \<subseteq> set del \<and> (\<forall>a \<in> set gone. location a \<notin> objs w') \<and>
    objs w - location ` set del \<subseteq> objs w' \<and> (err = None \<longrightarrow> gone = del)"
  proof (cases r)
    case (Inl e)
    with assms(2) l have "gone = []" "err = Some e" "w' = w1" by (simp_all add: Prune_def)
    with l1 show ?thesis by auto
  next
    case (Inr as)
    then have as: "snd (Forget (task_retention task) as now) = del" using l1 assms(3) by simp
    obtain errs seen w2 where p: "prune_loop ctx st opn del [] w1 = ((gone, errs), seen, w2)"
      "err = errors_join errs" "w' = closeAll seen w2"
      using assms(2) l Inr as by (auto simp: Prune_def split: prod.splits)
    have c: "cache_ok serves []" by (simp add: cache_ok_def)
    from l1 have ok1: "ok w1" by blast
    have "set del \<subseteq> set (listing (task_id task) w)" using assms(3) by (auto simp: Forget_def Let_def)
    then have ks: "\<forall>a \<in> set del. key_ok (art_key a)" using listing_rows [OF assms(1)] by blast
    note q = prune_loop_spec [OF ok1 c p(1) ks]
    note z = closeAll_spec [of w2 seen]
    show ?thesis using q z l1 by (simp add: p(2,3))
  qed
  then show "ok w'" "rows w' = {a \<in> rows w. art_id a \<notin> art_id ` set gone}" "objs w' \<subseteq> objs w"
    "set gone \<subseteq> set del" "\<forall>a \<in> set gone. location a \<notin> objs w'"
    "objs w - location ` set del \<subseteq> objs w'" "err = None \<longrightarrow> gone = del" by blast+
qed

text \<open>
  Orphans over a scope list. Every reported object is unknown to the catalog and in one of the
  scopes; without an error every unknown object of every scope is reported, once.
\<close>

definition unknown_in :: "(rowid \<times> string) set \<Rightarrow> (rowid \<times> string) list \<Rightarrow> 'w \<Rightarrow> (rowid \<times> string) set" where
  "unknown_in known scs w =
     {(i, k). (i, k) \<in> objs w \<and> (i, k) \<notin> known \<and> (\<exists>pfx. (i, pfx) \<in> set scs \<and> prefix pfx k)}"

lemma orphan_loop_spec:
  assumes "ok w" "cache_ok serves cache"
    "orphan_loop opn known scs located cache w = ((os, errs), cache', w')"
  shows "ok w' \<and> cache_ok serves cache' \<and> rows w' = rows w \<and> objs w' = objs w \<and>
    (\<exists>ids. map snd ids = map obj_key os \<and> distinct ids \<and>
       set ids \<subseteq> unknown_in known scs w - located \<and>
       (errs = [] \<longrightarrow> set ids = unknown_in known scs w - located))"
  using assms
proof (induction scs arbitrary: located cache w os errs)
  case Nil
  then show ?case by (auto simp: unknown_in_def intro!: exI [of _ "[]"])
next
  case (Cons sc scs)
  obtain i pfx where sc: "sc = (i, pfx)" by fastforce
  have mono: "unknown_in known scs v \<subseteq> unknown_in known (sc # scs) v" for v
    by (auto simp: unknown_in_def)
  have same: "unknown_in known l v = unknown_in known l u" if "objs v = objs u" for l v u
    using that by (simp add: unknown_in_def)
  obtain r cache1 w1 where g: "cache_get opn i cache w = (r, cache1, w1)" by (metis prod_cases3)
  note g1 = cache_get_spec [OF Cons.prems(1,2) g]
  show ?case
  proof (cases r)
    case (Inl e)
    obtain errs1 where p: "orphan_loop opn known scs located cache1 w1 = ((os, errs1), cache', w')"
      "errs = e # errs1"
      using Cons.prems(3) g Inl sc by (auto split: prod.splits)
    have "ok w1" "cache_ok serves cache1" "rows w1 = rows w" "objs w1 = objs w" using g1 by blast+
    note IH = Cons.IH [OF this(1,2) p(1)]
    then obtain ids where "map snd ids = map obj_key os" "distinct ids"
      "set ids \<subseteq> unknown_in known scs w - located" using same [of w1 w] \<open>objs w1 = objs w\<close> by auto
    then show ?thesis
      using IH mono [of w] p(2) \<open>objs w1 = objs w\<close> \<open>rows w1 = rows w\<close>
      by (intro conjI exI [of _ ids]) auto
  next
    case (Inr s)
    then have s: "serves i s" using g1 by blast
    obtain q w2 where l: "sp_list s pfx w1 = (q, w2)" by fastforce
    have 1: "ok w1" "cache_ok serves cache1" "rows w1 = rows w" "objs w1 = objs w" using g1 by blast+
    note l1 = list_objects [OF 1(1) s l]
    then have 2: "ok w2" "rows w2 = rows w" "objs w2 = objs w" using 1 by auto
    show ?thesis
    proof (cases q)
      case (Inl e)
      obtain errs1 where p: "orphan_loop opn known scs located cache1 w2 = ((os, errs1), cache', w')"
        "errs = Wrap (''list '' @ pfx @ '': '') e # errs1"
        using Cons.prems(3) g \<open>r = Inr s\<close> l Inl sc by (auto split: prod.splits)
      note IH = Cons.IH [OF 2(1) 1(2) p(1)]
      then obtain ids where "map snd ids = map obj_key os" "distinct ids"
        "set ids \<subseteq> unknown_in known scs w - located" using same [OF 2(3)] by auto
      then show ?thesis
        using IH mono [of w] p(2) 2 by (intro conjI exI [of _ ids]) auto
    next
      case ob: (Inr obs)
      obtain found located1 where f: "pick_orphans known i obs located = (found, located1)" by fastforce
      obtain os1 where p: "orphan_loop opn known scs located1 cache1 w2 = ((os1, errs), cache', w')"
        "os = found @ os1"
        using Cons.prems(3) g \<open>r = Inr s\<close> l ob sc f by (auto split: prod.splits)
      note f1 = pick_orphans_spec [OF f]
      have keys: "obj_key ` set obs = {k. (i, k) \<in> objs w \<and> prefix pfx k}" using l1 ob 1(4) by simp
      let ?fids = "map (\<lambda>o'. (i, obj_key o')) found"
      define F where "F = {(j, k). j = i \<and> (i, k) \<in> objs w \<and> prefix pfx k \<and> (i, k) \<notin> known}"
      have fin: "set ?fids = F - located"
        using f1 keys by (fastforce simp: image_iff F_def)
      obtain ids where ids: "map snd ids = map obj_key os1" "distinct ids"
        "set ids \<subseteq> unknown_in known scs w - located1" "errs = [] \<longrightarrow> set ids = unknown_in known scs w - located1"
        using Cons.IH [OF 2(1) 1(2) p(1)] same [OF 2(3)] by auto
      have loc1: "located1 = located \<union> set ?fids" using f1 by auto
      have un: "unknown_in known (sc # scs) w = unknown_in known scs w \<union> F"
        by (auto simp: unknown_in_def sc F_def)
      have "distinct ?fids" using f1 by (simp add: distinct_map inj_on_def)
      then have "distinct (?fids @ ids)" using ids(2,3) loc1 by auto
      moreover have "map snd (?fids @ ids) = map obj_key os" by (simp add: p(2) ids(1))
      moreover have "set (?fids @ ids) \<subseteq> unknown_in known (sc # scs) w - located"
        unfolding un set_append fin using ids(3) loc1 fin by blast
      moreover have "errs = [] \<longrightarrow> set (?fids @ ids) = unknown_in known (sc # scs) w - located"
      proof
        assume "errs = []"
        then have "set ids = unknown_in known scs w - (located \<union> (F - located))"
          using ids(4) loc1 fin by simp
        then show "set (?fids @ ids) = unknown_in known (sc # scs) w - located"
          unfolding un set_append fin by blast
      qed
      moreover have "ok w'" "cache_ok serves cache'" "rows w' = rows w" "objs w' = objs w"
        using Cons.IH [OF 2(1) 1(2) p(1)] 2 by auto
      ultimately show ?thesis by (intro conjI exI [of _ "?fids @ ids"]) assumption+
    qed
  qed
qed

lemma Prune_distinct:
  assumes "ok w" "Prune ctx st task opn now w = ((gone, err), w')"
  shows "distinct (map art_id gone)"
proof -
  obtain r w1 where l: "rs_list st (task_id task) w = (r, w1)" by fastforce
  show ?thesis
  proof (cases r)
    case (Inl e)
    with assms(2) l show ?thesis by (simp add: Prune_def)
  next
    case (Inr as)
    let ?del = "snd (Forget (task_retention task) as now)"
    obtain errs res where "prune_loop ctx st opn ?del [] w1 = ((gone, errs), res)"
      using assms(2) l Inr by (auto simp: Prune_def split: prod.splits)
    then have "subseq (map art_id gone) (map art_id ?del)" by (intro subseq_map prune_loop_subseq)
    moreover have "distinct (map art_id as)"
      using list_rows [OF assms(1) l] listing_rows [OF assms(1), of "task_id task"] Inr by simp
    then have "distinct (map art_id ?del)"
      by (auto simp: Forget_def Let_def newest_first_def distinct_map inj_on_def)
    ultimately show ?thesis by (auto simp: subseq_conv_nths intro: distinct_nthsI)
  qed
qed

lemma Orphans_spec:
  assumes "ok w" "Orphans st task opn order w = ((os, err), w')"
    and "set (order (orphan_scopes task (listing (task_id task) w))) = orphan_scopes task (listing (task_id task) w)"
  shows "ok w'" "rows w' = rows w" "objs w' = objs w"
    "\<exists>ids. map snd ids = map obj_key os \<and> distinct ids \<and>
       set ids \<subseteq> {(i, k). (i, k) \<in> objs w \<and> (i, k) \<notin> known_objects (listing (task_id task) w) \<and>
         (\<exists>pfx. (i, pfx) \<in> orphan_scopes task (listing (task_id task) w) \<and> prefix pfx k)} \<and>
       (err = None \<longrightarrow> set ids = {(i, k). (i, k) \<in> objs w \<and> (i, k) \<notin> known_objects (listing (task_id task) w) \<and>
         (\<exists>pfx. (i, pfx) \<in> orphan_scopes task (listing (task_id task) w) \<and> prefix pfx k)})"
proof -
  let ?as = "listing (task_id task) w"
  obtain r w1 where l: "rs_list st (task_id task) w = (r, w1)" by fastforce
  note l1 = list_rows [OF assms(1) l]
  have "ok w' \<and> rows w' = rows w \<and> objs w' = objs w \<and>
    (\<exists>ids. map snd ids = map obj_key os \<and> distinct ids \<and>
       set ids \<subseteq> unknown_in (known_objects ?as) (order (orphan_scopes task ?as)) w \<and>
       (err = None \<longrightarrow> set ids = unknown_in (known_objects ?as) (order (orphan_scopes task ?as)) w))"
  proof (cases r)
    case (Inl e)
    with assms(2) l have "os = []" "err = Some e" "w' = w1" by (simp_all add: Orphans_def)
    with l1 show ?thesis by auto
  next
    case (Inr as)
    then have as: "as = ?as" using l1 by simp
    obtain errs cache w2 where p:
      "orphan_loop opn (known_objects ?as) (order (orphan_scopes task ?as)) {} [] w1 = ((os, errs), cache, w2)"
      "err = errors_join errs" "w' = closeAll cache w2"
      using assms(2) l Inr as by (auto simp: Orphans_def split: prod.splits)
    have c: "cache_ok serves []" by (simp add: cache_ok_def)
    have ok1: "ok w1" "rows w1 = rows w" "objs w1 = objs w" using l1 by blast+
    note q = orphan_loop_spec [OF ok1(1) c p(1)]
    then have "ok w2" "cache_ok serves cache" "rows w2 = rows w" "objs w2 = objs w" using ok1 by auto
    then have "ok w'" "rows w' = rows w" "objs w' = objs w"
      using closeAll_spec [of w2 cache] p(3) by auto
    moreover have "unknown_in k s w1 = unknown_in k s w" for k s using ok1(3) by (simp add: unknown_in_def)
    ultimately show ?thesis using q p(2) by auto
  qed
  then show "ok w'" "rows w' = rows w" "objs w' = objs w"
    "\<exists>ids. map snd ids = map obj_key os \<and> distinct ids \<and>
       set ids \<subseteq> {(i, k). (i, k) \<in> objs w \<and> (i, k) \<notin> known_objects ?as \<and>
         (\<exists>pfx. (i, pfx) \<in> orphan_scopes task ?as \<and> prefix pfx k)} \<and>
       (err = None \<longrightarrow> set ids = {(i, k). (i, k) \<in> objs w \<and> (i, k) \<notin> known_objects ?as \<and>
         (\<exists>pfx. (i, pfx) \<in> orphan_scopes task ?as \<and> prefix pfx k)})"
    unfolding unknown_in_def assms(3) by blast+
qed

end

text \<open>
  A healthy world, in which no call fails but the deletion of locked objects: every other artifact
  of the delete set goes, whatever comes before it in the list.
\<close>

locale retention_live = retention_contract +
  fixes locked :: "'a \<Rightarrow> (rowid \<times> string) set" and live :: "'a \<Rightarrow> bool"
  assumes live_ok: "live w \<Longrightarrow> ok w"
    and live_list: "live w \<Longrightarrow> \<exists>as w'. rs_list st tid w = (Inr as, w') \<and> live w' \<and> locked w' = locked w"
    and live_delete_row: "live w \<Longrightarrow> \<exists>w'. rs_delete st i w = (Inr (), w') \<and> live w' \<and> locked w' = locked w"
    and live_open: "live w \<Longrightarrow> a \<in> rows w \<Longrightarrow>
      \<exists>s w'. opn (art_storage a) w = (Inr s, w') \<and> live w' \<and> locked w' = locked w"
    and live_delete_object: "live w \<Longrightarrow> a \<in> rows w \<Longrightarrow> serves (art_storage a) s \<Longrightarrow>
      \<exists>r w'. sp_delete s (art_key a) w = (r, w') \<and> live w' \<and> locked w' = locked w \<and>
        (is_ok r \<longleftrightarrow> location a \<notin> locked w)"
begin

lemma prune_loop_live:
  assumes "live w" "cache_ok serves seen" "\<forall>v. ctx v = None" "set as \<subseteq> rows w" "distinct (map art_id as)"
    "\<forall>a \<in> set as. key_ok (art_key a)"
  shows "fst (fst (prune_loop ctx st opn as seen w)) = filter (\<lambda>a. location a \<notin> locked w) as"
  using assms
proof (induction as arbitrary: seen w)
  case (Cons a as)
  have a: "a \<in> rows w" "key_ok (art_key a)" using Cons.prems by auto
  obtain s seen1 w1 where g: "cache_get opn (art_storage a) seen w = (Inr s, seen1, w1)"
    and w1: "live w1" "locked w1 = locked w"
  proof (cases "map_of seen (art_storage a)")
    case None
    with live_open [OF Cons.prems(1) a(1)] show thesis by (auto simp: cache_get_def intro: that)
  next
    case (Some s)
    with Cons.prems(1) show thesis by (auto simp: cache_get_def intro: that)
  qed
  note g1 = cache_get_spec [OF live_ok [OF Cons.prems(1)] Cons.prems(2) g]
  then have s: "serves (art_storage a) s" "a \<in> rows w1" using a by auto
  obtain r w2 where d: "sp_delete s (art_key a) w1 = (r, w2)" "live w2" "locked w2 = locked w"
      "is_ok r \<longleftrightarrow> location a \<notin> locked w"
    using live_delete_object [OF w1(1) s(2,1)] w1(2) by auto
  have rows2: "rows w2 = rows w" using delete_object [OF live_ok [OF w1(1)] s(1) a(2) d(1)] g1 by auto
  show ?case
  proof (cases r)
    case (Inl e)
    with d(4) have "location a \<in> locked w" by simp
    moreover have "fst (fst (prune_loop ctx st opn as seen1 w2)) = filter (\<lambda>a. location a \<notin> locked w2) as"
      using Cons.prems g1 rows2 by (intro Cons.IH [OF d(2)]) auto
    moreover obtain gone errs res where "prune_loop ctx st opn as seen1 w2 = ((gone, errs), res)" by (metis surj_pair)
    ultimately show ?thesis using Cons.prems(3) [rule_format, of w] g d(1,3) Inl by simp
  next
    case (Inr u)
    with d(4) have "location a \<notin> locked w" by simp
    obtain w3 where x: "rs_delete st (art_id a) w2 = (Inr (), w3)" "live w3" "locked w3 = locked w"
      using live_delete_row [OF d(2)] d(3) by metis
    have "rows w3 = {b \<in> rows w. art_id b \<noteq> art_id a}"
      using delete_row [OF live_ok [OF d(2)] x(1)] rows2 by simp
    then have "fst (fst (prune_loop ctx st opn as seen1 w3)) = filter (\<lambda>a. location a \<notin> locked w3) as"
      using Cons.prems g1 by (intro Cons.IH [OF x(2)]) (auto simp: rev_image_eqI image_iff)
    moreover obtain gone errs res where "prune_loop ctx st opn as seen1 w3 = ((gone, errs), res)" by (metis surj_pair)
    ultimately show ?thesis
      using Cons.prems(3) [rule_format, of w] g d(1) Inr x \<open>location a \<notin> locked w\<close> by simp
  qed
qed simp

lemma Prune_live:
  assumes "live w" "\<forall>v. ctx v = None" "Prune ctx st task opn now w = ((gone, err), w')"
  shows "gone = filter (\<lambda>a. location a \<notin> locked w)
    (snd (Forget (task_retention task) (listing (task_id task) w) now))"
proof -
  obtain as w1 where l: "rs_list st (task_id task) w = (Inr as, w1)" "live w1" "locked w1 = locked w"
    using live_list [OF assms(1)] by blast
  have l1: "as = listing (task_id task) w" "rows w1 = rows w"
    using list_rows [OF live_ok [OF assms(1)] l(1)] by auto
  let ?del = "snd (Forget (task_retention task) as now)"
  have "set ?del \<subseteq> set as" by (auto simp: Forget_def Let_def)
  moreover have "distinct (map art_id ?del)"
    using listing_rows [OF live_ok [OF assms(1)], of "task_id task"] l1(1)
    by (auto simp: Forget_def Let_def newest_first_def distinct_map inj_on_def)
  moreover note listing_rows [OF live_ok [OF assms(1)], of "task_id task"]
  ultimately have "fst (fst (prune_loop ctx st opn ?del [] w1)) = filter (\<lambda>a. location a \<notin> locked w1) ?del"
    using assms(2) l1 by (intro prune_loop_live [OF l(2)]) (auto simp: cache_ok_def)
  then show ?thesis
    using assms(3) l l1 by (auto simp: Prune_def split: prod.splits)
qed

end

end
