(* ===== verification/Store.thy ===== *)
theory Store
  imports Model
begin

text \<open>
  The SQLite store of internal/store/sqlite as a record of tables. A row is the core struct its
  scan function decodes, with times rounded to seconds as the columns hold them. Every statement
  consumes one entry of a schedule of faults, so that any call may fail for a reason outside the
  model (a busy or broken database, a cancelled context); a failed statement leaves the tables
  alone. A new row gets the id SQLite assigns to an INTEGER PRIMARY KEY without AUTOINCREMENT:
  one more than the largest id in the table.
\<close>

record wd_record =
  wdr_task :: rowid
  wdr_alerted :: time
  wdr_last_success :: "time option"

record alert_row =
  al_kind :: string
  al_subject :: string
  al_level :: int
  al_opened :: time

record db =
  connections :: "connection list"
  storages :: "storage list"
  tasks :: "task list"
  runs :: "run list"
  artifacts :: "artifact list"
  sweeps :: "sweep list"
  wd_alerts :: "wd_record list"
  alert_state :: "alert_row list"
  channels :: "channel list"
  notifications :: "notification list"
  secrets :: "secret list"
  clock :: int
  faults :: "bool list"

definition empty_db :: "int \<Rightarrow> bool list \<Rightarrow> db" where
  "empty_db t fs = \<lparr>connections = [], storages = [], tasks = [], runs = [], artifacts = [],
     sweeps = [], wd_alerts = [], alert_state = [], channels = [], notifications = [],
     secrets = [], clock = t, faults = fs\<rparr>"

definition next_id :: "rowid list \<Rightarrow> rowid" where
  "next_id ids = (if ids = [] then 1 else Max (set ids) + 1)"

lemma next_id_fresh: "next_id ids \<notin> set ids"
proof
  assume "next_id ids \<in> set ids"
  then have "ids \<noteq> []" "next_id ids \<le> Max (set ids)" by auto
  then show False by (simp add: next_id_def)
qed

lemma next_id_greater: "i \<in> set ids \<Longrightarrow> i < next_id ids"
proof -
  assume "i \<in> set ids"
  then have "ids \<noteq> []" "i \<le> Max (set ids)" by auto
  then show ?thesis by (simp add: next_id_def)
qed

definition now_time :: "db \<Rightarrow> time" where "now_time d = unix_to_time (clock d)"

subsection \<open>Statements\<close>

definition db_error :: err where "db_error = Errorf ''database error''"
definition unique_violation :: err where "unique_violation = Errorf ''UNIQUE constraint failed''"
definition foreign_key_violation :: err where
  "foreign_key_violation = Errorf ''FOREIGN KEY constraint failed''"

text \<open>The context a store method wraps a statement's error in: fmt.Errorf with a prefix and %w.\<close>

definition stmt :: "string \<Rightarrow> (db \<Rightarrow> (err + 'a) \<times> db) \<Rightarrow> (db, 'a) op" where
  "stmt what f d =
     (case faults d of
        [] \<Rightarrow> f d
      | b # bs \<Rightarrow> if b then (Inl (Wrap what db_error), d\<lparr>faults := bs\<rparr>) else f (d\<lparr>faults := bs\<rparr>))"

text \<open>Only the fault schedule changes: what a read, or a failed statement, does to the store.\<close>

definition same_tables :: "db \<Rightarrow> db \<Rightarrow> bool" where
  "same_tables d d' = (d' = d\<lparr>faults := faults d'\<rparr>)"

lemma same_tables_refl [simp]: "same_tables d d"
  by (simp add: same_tables_def)

lemma same_tables_faults [simp]: "same_tables d (d\<lparr>faults := fs\<rparr>)"
  by (simp add: same_tables_def)

lemma same_tables_iff: "same_tables d d' \<longleftrightarrow> (\<exists>fs. d' = d\<lparr>faults := fs\<rparr>)"
  by (auto simp: same_tables_def)

lemma same_tables_trans: "same_tables a b \<Longrightarrow> same_tables b c \<Longrightarrow> same_tables a c"
  by (auto simp: same_tables_iff)

lemma same_tables_selectors:
  assumes "same_tables d d'"
  shows "connections d' = connections d" "storages d' = storages d" "tasks d' = tasks d"
    "runs d' = runs d" "artifacts d' = artifacts d" "sweeps d' = sweeps d"
    "wd_alerts d' = wd_alerts d" "alert_state d' = alert_state d" "channels d' = channels d"
    "notifications d' = notifications d" "secrets d' = secrets d" "clock d' = clock d"
  using assms by (auto simp: same_tables_iff)

text \<open>
  The two ways a statement ends: the fault schedule made it fail, or its body ran on the same
  tables.
\<close>

lemma stmt_cases:
  assumes "stmt what f d = (r, d')"
  obtains (fault) bs where "r = Inl (Wrap what db_error)" "d' = d\<lparr>faults := bs\<rparr>"
  | (ran) bs where "f (d\<lparr>faults := bs\<rparr>) = (r, d')"
proof (cases "faults d")
  case Nil
  have "d\<lparr>faults := []\<rparr> = d" using Nil by (cases d) simp
  moreover have "f d = (r, d')" using assms Nil by (simp add: stmt_def)
  ultimately show ?thesis using ran by metis
next
  case (Cons b bs)
  show ?thesis
  proof (cases b)
    case True
    then show ?thesis using assms Cons by (intro fault [of bs]) (simp_all add: stmt_def)
  next
    case False
    then show ?thesis using assms Cons by (intro ran [of bs]) (simp add: stmt_def)
  qed
qed

lemma stmt_no_faults [simp]: "faults d = [] \<Longrightarrow> stmt what f d = f d"
  by (simp add: stmt_def)

text \<open>A read returns a function of the tables.\<close>

definition query :: "string \<Rightarrow> (db \<Rightarrow> 'a) \<Rightarrow> (db, 'a) op" where
  "query what g = stmt what (\<lambda>d. (Inr (g d), d))"

definition table_fun :: "(db \<Rightarrow> 'a) \<Rightarrow> bool" where
  "table_fun g = (\<forall>d fs. g (d\<lparr>faults := fs\<rparr>) = g d)"

lemma query_same:
  assumes "query what g d = (r, d')"
  shows "same_tables d d'"
  using assms unfolding query_def by (rule stmt_cases) auto

lemma query_ok:
  assumes "query what g d = (Inr x, d')" "table_fun g"
  shows "x = g d"
  using assms(1) unfolding query_def by (rule stmt_cases) (use assms(2) in \<open>auto simp: table_fun_def\<close>)

text \<open>A one-row lookup: the row, or ErrNotFound.\<close>

definition query_row :: "string \<Rightarrow> (db \<Rightarrow> 'a option) \<Rightarrow> (db, 'a) op" where
  "query_row what g =
     stmt what (\<lambda>d. (case g d of None \<Rightarrow> Inl ErrNotFound | Some x \<Rightarrow> Inr x, d))"

lemma query_row_same:
  assumes "query_row what g d = (r, d')"
  shows "same_tables d d'"
  using assms unfolding query_row_def by (rule stmt_cases) auto

lemma query_row_ok:
  assumes "query_row what g d = (Inr x, d')" "table_fun g"
  shows "g d = Some x"
  using assms(1) unfolding query_row_def
  by (rule stmt_cases) (use assms(2) in \<open>auto simp: table_fun_def split: option.splits\<close>)

subsection \<open>Consistency\<close>

definition active_for :: "rowid \<Rightarrow> run \<Rightarrow> bool" where
  "active_for tid r = (run_task r = tid \<and> is_active (run_status r))"

text \<open>The unique index ux_run_active: the active runs belong to different tasks.\<close>

definition one_active :: "run list \<Rightarrow> bool" where
  "one_active rs = distinct (map run_task (filter (\<lambda>r. is_active (run_status r)) rs))"

text \<open>Primary keys, the unique index on active runs and the foreign keys of the schema.\<close>

definition db_ok :: "db \<Rightarrow> bool" where
  "db_ok d =
     (distinct (map run_id (runs d)) \<and> distinct (map task_id (tasks d)) \<and>
      distinct (map art_id (artifacts d)) \<and> distinct (map sto_id (storages d)) \<and>
      distinct (map con_id (connections d)) \<and>
      one_active (runs d) \<and>
      set (map run_task (runs d)) \<subseteq> set (map task_id (tasks d)) \<and>
      set (map art_run (artifacts d)) \<subseteq> set (map run_id (runs d)) \<and>
      set (map art_storage (artifacts d)) \<subseteq> set (map sto_id (storages d)) \<and>
      set (map task_connection (tasks d)) \<subseteq> set (map con_id (connections d)) \<and>
      set (map task_storage (tasks d)) \<subseteq> set (map sto_id (storages d)) \<and>
      set (map wdr_task (wd_alerts d)) \<subseteq> set (map task_id (tasks d)))"

lemma db_ok_empty [simp]: "db_ok (empty_db t fs)"
  by (simp add: db_ok_def empty_db_def one_active_def)

lemma db_ok_faults [simp]: "db_ok (d\<lparr>faults := fs\<rparr>) = db_ok d"
  by (simp add: db_ok_def)

lemma db_ok_same_tables: "same_tables d d' \<Longrightarrow> db_ok d' = db_ok d"
  by (auto simp: same_tables_iff)

lemma one_active_iff:
  assumes "distinct (map run_id rs)"
  shows "one_active rs \<longleftrightarrow>
    (\<forall>r \<in> set rs. \<forall>s \<in> set rs. is_active (run_status r) \<longrightarrow> is_active (run_status s) \<longrightarrow>
       run_task r = run_task s \<longrightarrow> r = s)"
proof -
  have "distinct rs" using assms by (simp add: distinct_map)
  then show ?thesis by (auto simp: one_active_def distinct_map inj_on_def)
qed

text \<open>At most one active run per task, as a count.\<close>

lemma one_active_count: "one_active rs \<Longrightarrow> length (filter (active_for tid) rs) \<le> 1"
proof (induction rs)
  case (Cons r rs)
  have "filter (active_for tid) rs = []" if "active_for tid r"
    using Cons.prems that
    by (auto simp: one_active_def active_for_def filter_empty_conv intro: rev_image_eqI)
  moreover have "one_active rs"
    using Cons.prems by (auto simp: one_active_def split: if_splits)
  ultimately show ?case using Cons.IH by auto
qed simp

end
