(* ===== verification/Queue.thy ===== *)
theory Queue
  imports Store "HOL-Library.Multiset"
begin

text \<open>
  The job queue of internal/store/sqlite/queue.go, with StartManualRun of repo.go: inserting,
  claiming, finishing, retrying and reaping runs. The lemmas show that every operation keeps the
  schema's constraints, that the queue is first-in first-out, and that a run is handed out once.
\<close>

subsection \<open>The operations\<close>

definition new_run :: "rowid \<Rightarrow> run_status \<Rightarrow> int \<Rightarrow> bool \<Rightarrow> db \<Rightarrow> run" where
  "new_run tid st att start d =
     \<lparr>run_id = next_id (map run_id (runs d)), run_task = tid, run_status = st, run_worker = [],
      run_attempt = att, run_started = (if start then Some (now_time d) else None),
      run_finished = None, run_error = [], run_log = [], run_created = now_time d\<rparr>"

definition insert_run ::
  "rowid \<Rightarrow> run_status \<Rightarrow> int \<Rightarrow> bool \<Rightarrow> db \<Rightarrow> (err + rowid) \<times> db" where
  "insert_run tid st att start d =
     (if is_active st \<and> list_ex (active_for tid) (runs d) then (Inl unique_violation, d)
      else if tid \<notin> set (map task_id (tasks d)) then (Inl foreign_key_violation, d)
      else let r = new_run tid st att start d
           in (Inr (run_id r), d\<lparr>runs := runs d @ [r]\<rparr>))"

text \<open>The error of an insert: the unique index means that the task already has an active run.\<close>

definition active_run_error :: "string \<Rightarrow> err \<Rightarrow> err" where
  "active_run_error what e = Wrap what (if e = unique_violation then ErrAlreadyActive else e)"

definition Enqueue :: "rowid \<Rightarrow> (db, rowid) op" where
  "Enqueue tid =
     (let what = ''enqueue task '' @ dec tid @ '': '' in
      stmt what (\<lambda>d. case insert_run tid StatusQueued 1 False d of
        (Inl e, d') \<Rightarrow> (Inl (active_run_error what e), d')
      | (Inr i, d') \<Rightarrow> (Inr i, d')))"

definition Requeue :: "rowid \<Rightarrow> int \<Rightarrow> int \<Rightarrow> (db, rowid) op" where
  "Requeue tid nextAttempt maxAttempts d =
     (if nextAttempt > maxAttempts then (Inr 0, d)
      else let what = ''requeue task '' @ dec tid @ '': '' in
        stmt what (\<lambda>d. case insert_run tid StatusQueued nextAttempt False d of
          (Inl e, d') \<Rightarrow> (Inl (active_run_error what e), d')
        | (Inr i, d') \<Rightarrow> (Inr i, d')) d)"

definition StartManualRun :: "rowid \<Rightarrow> (db, rowid) op" where
  "StartManualRun tid =
     stmt ''start manual run: '' (\<lambda>d. case insert_run tid StatusRunning 1 True d of
       (Inl e, d') \<Rightarrow> (Inl (Wrap ''start manual run: '' e), d')
     | (Inr i, d') \<Rightarrow> (Inr i, d'))"

definition update_runs :: "(run \<Rightarrow> bool) \<Rightarrow> (run \<Rightarrow> run) \<Rightarrow> db \<Rightarrow> db" where
  "update_runs P f d = d\<lparr>runs := map (\<lambda>r. if P r then f r else r) (runs d)\<rparr>"

definition queued :: "db \<Rightarrow> run list" where
  "queued d = filter (\<lambda>r. run_status r = StatusQueued) (runs d)"

definition oldest_queued :: "db \<Rightarrow> run option" where
  "oldest_queued d = (case sort_key run_id (queued d) of [] \<Rightarrow> None | r # rs \<Rightarrow> Some r)"

definition claim :: "string \<Rightarrow> time \<Rightarrow> run \<Rightarrow> run" where
  "claim worker t r = r\<lparr>run_status := StatusRunning, run_worker := worker, run_started := Some t\<rparr>"

definition ClaimNext :: "string \<Rightarrow> (db, run) op" where
  "ClaimNext worker = stmt ''claim next: '' (\<lambda>d.
     case oldest_queued d of
       None \<Rightarrow> (Inl ErrNoQueuedRun, d)
     | Some q \<Rightarrow>
         (Inr \<lparr>run_id = run_id q, run_task = run_task q, run_status = StatusRunning,
               run_worker = worker, run_attempt = run_attempt q, run_started = Some (now_time d),
               run_finished = None, run_error = [], run_log = [], run_created = run_created q\<rparr>,
          update_runs (\<lambda>r. run_id r = run_id q) (claim worker (now_time d)) d))"

definition Finish :: "rowid \<Rightarrow> run_status \<Rightarrow> string \<Rightarrow> string \<Rightarrow> (db, unit) op" where
  "Finish rid status log msg =
     stmt (''finish run '' @ dec rid @ '': '') (\<lambda>d.
       (Inr (), update_runs (\<lambda>r. run_id r = rid)
          (\<lambda>r. r\<lparr>run_status := status, run_finished := Some (now_time d), run_log := log,
                 run_error := msg\<rparr>) d))"

definition ReapStale :: "(db, rowid list) op" where
  "ReapStale = stmt ''reap stale: '' (\<lambda>d.
     (Inr (map run_id (filter (\<lambda>r. run_status r = StatusRunning) (runs d))),
      update_runs (\<lambda>r. run_status r = StatusRunning)
        (\<lambda>r. r\<lparr>run_status := StatusFailed, run_finished := Some (now_time d),
               run_error := ''reaped: worker gone (process restart)''\<rparr>) d))"

subsection \<open>Invariant\<close>

lemma insert_run_cases:
  assumes "insert_run tid st att start d = (r, d')"
  obtains (refused) e where "r = Inl e" "d' = d"
      "e = unique_violation \<and> is_active st \<and> list_ex (active_for tid) (runs d) \<or>
       e = foreign_key_violation \<and> tid \<notin> set (map task_id (tasks d))"
  | (inserted) "\<not> (is_active st \<and> list_ex (active_for tid) (runs d))" "tid \<in> set (map task_id (tasks d))"
      "r = Inr (next_id (map run_id (runs d)))"
      "d' = d\<lparr>runs := runs d @ [new_run tid st att start d]\<rparr>"
proof (cases "is_active st \<and> list_ex (active_for tid) (runs d)")
  case True
  with assms show ?thesis by (intro refused [of unique_violation]) (simp_all add: insert_run_def)
next
  case free: False
  show ?thesis
  proof (cases "tid \<in> set (map task_id (tasks d))")
    case True
    from assms free True have "r = Inr (run_id (new_run tid st att start d)) \<and>
        d' = d\<lparr>runs := runs d @ [new_run tid st att start d]\<rparr>"
      unfolding insert_run_def Let_def by (simp only: if_False if_True not_True_eq_False) simp
    then show ?thesis by (intro inserted [OF free True]) (simp_all add: new_run_def)
  next
    case False
    with assms free show ?thesis
      unfolding insert_run_def
      by (intro refused [of foreign_key_violation]) (simp_all only: if_False if_True not_False_eq_True, auto)
  qed
qed

lemma insert_run_ok [inv_intros]:
  assumes "insert_run tid st att start d = (r, d')" "db_ok d"
  shows "db_ok d'"
  using assms(1)
proof (rule insert_run_cases)
  assume new: "\<not> (is_active st \<and> list_ex (active_for tid) (runs d))" "tid \<in> set (map task_id (tasks d))"
    and d': "d' = d\<lparr>runs := runs d @ [new_run tid st att start d]\<rparr>"
  let ?r = "new_run tid st att start d"
  have r: "run_id ?r \<notin> run_id ` set (runs d)" "run_task ?r = tid" "run_status ?r = st"
    using next_id_fresh [of "map run_id (runs d)"] by (simp_all add: new_run_def)
  have "one_active (runs d @ [?r])"
    using assms(2) new r
    by (auto simp: db_ok_def one_active_def list_ex_iff active_for_def)
  then show ?thesis
    using assms(2) new r unfolding d' by (auto simp: db_ok_def)
qed (use assms(2) in simp)

lemma one_active_map:
  assumes "one_active rs" "\<And>r. run_task (f r) = run_task r"
    "\<And>r. is_active (run_status (f r)) \<Longrightarrow> is_active (run_status r)"
  shows "one_active (map f rs)"
  using assms(1)
proof (induction rs)
  case (Cons r rs)
  then have "one_active (map f rs)"
    by (auto simp: one_active_def split: if_splits)
  moreover have "run_task r \<notin> run_task ` {x \<in> f ` set rs. is_active (run_status x)}"
    if "is_active (run_status (f r))"
    using Cons.prems assms(2,3) that by (auto simp: one_active_def)
  ultimately show ?case
    by (auto simp: one_active_def assms(2))
qed (simp add: one_active_def)

lemma db_ok_runs:
  assumes "db_ok d" "map run_id rs = map run_id (runs d)" "map run_task rs = map run_task (runs d)"
    "one_active rs"
  shows "db_ok (d\<lparr>runs := rs\<rparr>)"
  using assms by (simp add: db_ok_def del: set_map)

lemma update_runs_ok:
  assumes "db_ok d"
    and "\<And>r. run_id (f r) = run_id r" "\<And>r. run_task (f r) = run_task r"
    and "\<And>r. P r \<Longrightarrow> is_active (run_status (f r)) \<Longrightarrow> r \<in> set (runs d) \<Longrightarrow> is_active (run_status r)"
  shows "db_ok (update_runs P f d)"
proof -
  let ?g = "\<lambda>r. if P r then f r else r"
  let ?h = "\<lambda>r. if P r \<and> r \<in> set (runs d) then f r else r"
  have "one_active (map ?h (runs d))"
    using assms by (intro one_active_map) (auto simp: db_ok_def split: if_splits)
  moreover have "map ?h (runs d) = map ?g (runs d)" by simp
  ultimately have "one_active (map ?g (runs d))" by metis
  then show ?thesis
    unfolding update_runs_def
    by (intro db_ok_runs [OF assms(1)]) (simp_all add: assms(2,3))
qed

lemma oldest_queued_Some:
  assumes "oldest_queued d = Some q"
  shows "q \<in> set (runs d)" "run_status q = StatusQueued"
    "\<forall>r \<in> set (runs d). run_status r = StatusQueued \<longrightarrow> run_id q \<le> run_id r"
proof -
  obtain rs where s: "sort_key run_id (queued d) = q # rs"
    using assms by (auto simp: oldest_queued_def split: list.splits)
  have set: "set (q # rs) = set (queued d)" by (metis s set_sort)
  then show "q \<in> set (runs d)" "run_status q = StatusQueued"
    by (auto simp: queued_def)
  have "sorted (map run_id (q # rs))" by (metis s sorted_sort_key)
  then have "\<forall>r \<in> set (q # rs). run_id q \<le> run_id r" by auto
  then show "\<forall>r \<in> set (runs d). run_status r = StatusQueued \<longrightarrow> run_id q \<le> run_id r"
    by (simp only: set) (simp add: queued_def)
qed

lemma oldest_queued_None: "oldest_queued d = None \<longleftrightarrow> queued d = []"
proof -
  have "sort_key run_id (queued d) = [] \<longleftrightarrow> queued d = []"
    by (metis length_0_conv length_sort)
  then show ?thesis
    by (auto simp: oldest_queued_def split: list.splits)
qed

lemma Enqueue_ok [inv_intros]: "Enqueue tid d = (r, d') \<Longrightarrow> db_ok d \<Longrightarrow> db_ok d'"
  unfolding Enqueue_def Let_def
  by (erule stmt_cases) (auto split: prod.splits sum.splits dest: insert_run_ok)

lemma Requeue_ok [inv_intros]: "Requeue tid n m d = (r, d') \<Longrightarrow> db_ok d \<Longrightarrow> db_ok d'"
  unfolding Requeue_def Let_def
  by (split if_split_asm, simp, erule stmt_cases)
    (auto split: prod.splits sum.splits dest: insert_run_ok)

lemma StartManualRun_ok [inv_intros]: "StartManualRun tid d = (r, d') \<Longrightarrow> db_ok d \<Longrightarrow> db_ok d'"
  unfolding StartManualRun_def
  by (erule stmt_cases) (auto split: prod.splits sum.splits dest: insert_run_ok)

lemma ClaimNext_ok [inv_intros]:
  assumes "ClaimNext worker d = (r, d')" "db_ok d"
  shows "db_ok d'"
  using assms(1) unfolding ClaimNext_def
proof (rule stmt_cases)
  fix bs
  let ?d = "d\<lparr>faults := bs\<rparr>"
  assume ran: "(case oldest_queued ?d of None \<Rightarrow> (Inl ErrNoQueuedRun, ?d) | Some q \<Rightarrow>
      (Inr \<lparr>run_id = run_id q, run_task = run_task q, run_status = StatusRunning,
         run_worker = worker, run_attempt = run_attempt q, run_started = Some (now_time ?d),
         run_finished = None, run_error = [], run_log = [], run_created = run_created q\<rparr>,
       update_runs (\<lambda>r. run_id r = run_id q) (claim worker (now_time ?d)) ?d)) = (r, d')"
  show ?thesis
  proof (cases "oldest_queued ?d")
    case None
    with ran assms(2) show ?thesis by auto
  next
    case (Some q)
    have ok: "db_ok ?d" using assms(2) by simp
    have "db_ok (update_runs (\<lambda>r. run_id r = run_id q) (claim worker (now_time ?d)) ?d)"
    proof (rule update_runs_ok [OF ok])
      fix r assume "run_id r = run_id q" "r \<in> set (runs ?d)"
      then have "r = q"
        using ok oldest_queued_Some(1) [OF Some] by (auto simp: db_ok_def intro: distinct_map_eq)
      then show "is_active (run_status r)"
        using oldest_queued_Some(2) [OF Some] by simp
    qed (simp_all add: claim_def)
    with ran Some show ?thesis by auto
  qed
qed (use assms(2) in auto)

lemma Finish_ok [inv_intros]:
  assumes "Finish rid status log msg d = (r, d')" "\<not> is_active status" "db_ok d"
  shows "db_ok d'"
  using assms(1) unfolding Finish_def
  by (rule stmt_cases) (use assms(2,3) in \<open>auto intro!: update_runs_ok\<close>)

lemma ReapStale_ok [inv_intros]:
  assumes "ReapStale d = (r, d')" "db_ok d"
  shows "db_ok d'"
  using assms(1) unfolding ReapStale_def
  by (rule stmt_cases) (use assms(2) in \<open>auto intro!: update_runs_ok\<close>)

subsection \<open>What the operations do\<close>

lemma Enqueue_refused:
  assumes "list_ex (active_for tid) (runs d)" "faults d = []"
  shows "Enqueue tid d =
    (Inl (Wrap (''enqueue task '' @ dec tid @ '': '') ErrAlreadyActive), d)"
  using assms by (simp add: Enqueue_def Let_def insert_run_def active_run_error_def)

lemma Enqueue_inserts:
  assumes "\<not> list_ex (active_for tid) (runs d)" "tid \<in> set (map task_id (tasks d))" "faults d = []"
  shows "Enqueue tid d =
    (Inr (next_id (map run_id (runs d))),
     d\<lparr>runs := runs d @ [new_run tid StatusQueued 1 False d]\<rparr>)"
  using assms by (simp add: Enqueue_def Let_def insert_run_def) (simp add: new_run_def)

lemma ClaimNext_cases:
  assumes "ClaimNext worker d = (r, d')"
  obtains (error) e where "r = Inl e" "same_tables d d'"
  | (claimed) q bs where "oldest_queued d = Some q"
      "d' = update_runs (\<lambda>r. run_id r = run_id q) (claim worker (now_time d)) (d\<lparr>faults := bs\<rparr>)"
      "r = Inr \<lparr>run_id = run_id q, run_task = run_task q, run_status = StatusRunning,
         run_worker = worker, run_attempt = run_attempt q, run_started = Some (now_time d),
         run_finished = None, run_error = [], run_log = [], run_created = run_created q\<rparr>"
  using assms unfolding ClaimNext_def
proof (rule stmt_cases)
  fix bs
  have oq: "oldest_queued (d\<lparr>faults := bs\<rparr>) = oldest_queued d" "now_time (d\<lparr>faults := bs\<rparr>) = now_time d"
    by (simp_all add: oldest_queued_def queued_def now_time_def)
  assume "(case oldest_queued (d\<lparr>faults := bs\<rparr>) of
      None \<Rightarrow> (Inl ErrNoQueuedRun, d\<lparr>faults := bs\<rparr>)
    | Some q \<Rightarrow>
        (Inr \<lparr>run_id = run_id q, run_task = run_task q, run_status = StatusRunning,
            run_worker = worker, run_attempt = run_attempt q,
            run_started = Some (now_time (d\<lparr>faults := bs\<rparr>)),
            run_finished = None, run_error = [], run_log = [], run_created = run_created q\<rparr>,
         update_runs (\<lambda>r. run_id r = run_id q)
          (claim worker (now_time (d\<lparr>faults := bs\<rparr>))) (d\<lparr>faults := bs\<rparr>))) = (r, d')"
  then show thesis
    unfolding oq by (auto split: option.splits intro: error claimed)
qed (auto intro: error)

text \<open>
  C5: A run is handed out to one worker only: what ClaimNext returns was the queued run with the
  smallest id, is running afterwards, and no later claim on the resulting queue returns it again;
  the next claim returns a run with a larger id.
\<close>

theorem claim_fifo_exclusive:
  assumes "db_ok d" "ClaimNext w1 d = (Inr r1, d1)" "ClaimNext w2 d1 = (Inr r2, d2)"
  shows "(\<forall>r \<in> set (queued d). run_id r1 \<le> run_id r) \<and> run_id r1 < run_id r2 \<and>
    (\<forall>r \<in> set (runs d2). run_id r = run_id r1 \<longrightarrow> run_status r = StatusRunning \<and> run_worker r = w1) \<and>
    (\<forall>r \<in> set (runs d2). run_id r = run_id r2 \<longrightarrow> run_status r = StatusRunning \<and> run_worker r = w2)"
  using assms(2)
proof (rule ClaimNext_cases)
  fix q1 b1
  assume q1: "oldest_queued d = Some q1"
    and d1: "d1 = update_runs (\<lambda>r. run_id r = run_id q1) (claim w1 (now_time d)) (d\<lparr>faults := b1\<rparr>)"
    and r1: "Inr r1 = (Inr \<lparr>run_id = run_id q1, run_task = run_task q1, run_status = StatusRunning,
         run_worker = w1, run_attempt = run_attempt q1, run_started = Some (now_time d),
         run_finished = None, run_error = [], run_log = [], run_created = run_created q1\<rparr> :: err + run)"
  have id1: "run_id r1 = run_id q1" using r1 by simp
  from assms(3) show ?thesis
  proof (rule ClaimNext_cases)
    fix q2 b2
    assume q2: "oldest_queued d1 = Some q2"
      and d2: "d2 = update_runs (\<lambda>r. run_id r = run_id q2) (claim w2 (now_time d1)) (d1\<lparr>faults := b2\<rparr>)"
      and r2: "Inr r2 = (Inr \<lparr>run_id = run_id q2, run_task = run_task q2, run_status = StatusRunning,
         run_worker = w2, run_attempt = run_attempt q2, run_started = Some (now_time d1),
         run_finished = None, run_error = [], run_log = [], run_created = run_created q2\<rparr> :: err + run)"
    have id2: "run_id r2 = run_id q2" using r2 by simp
    have q2': "q2 \<in> set (runs d)" "run_id q2 \<noteq> run_id q1" "run_status q2 = StatusQueued"
      using oldest_queued_Some(1,2) [OF q2] unfolding d1
      by (auto simp: update_runs_def claim_def split: if_splits)
    have "run_id q1 \<le> run_id q2"
      using oldest_queued_Some(3) [OF q1] q2' by blast
    then have less: "run_id q1 < run_id q2" using q2'(2) by simp
    moreover have "\<forall>r \<in> set (queued d). run_id q1 \<le> run_id r"
      using oldest_queued_Some(3) [OF q1] by (simp add: queued_def)
    ultimately show ?thesis
      unfolding id1 id2 d2 d1 by (auto simp: update_runs_def claim_def)
  qed simp
qed simp

text \<open>Claiming until the queue is empty.\<close>

fun claim_all :: "nat \<Rightarrow> string \<Rightarrow> db \<Rightarrow> rowid list \<times> db" where
  "claim_all 0 w d = ([], d)"
| "claim_all (Suc n) w d =
     (case ClaimNext w d of
        (Inl e, d') \<Rightarrow> ([], d')
      | (Inr r, d') \<Rightarrow> (let (ids, d'') = claim_all n w d' in (run_id r # ids, d'')))"

lemma ClaimNext_no_faults:
  assumes "faults d = []" "distinct (map run_id (runs d))"
    and s: "sort_key run_id (queued d) = q # qs"
  obtains r d' where "ClaimNext w d = (Inr r, d')" "run_id r = run_id q" "faults d' = []"
    "distinct (map run_id (runs d'))" "sort_key run_id (queued d') = qs"
proof -
  define d' where "d' = update_runs (\<lambda>r. run_id r = run_id q) (claim w (now_time d)) d"
  have oq: "oldest_queued d = Some q" using s by (simp add: oldest_queued_def)
  have ids: "map run_id (runs d') = map run_id (runs d)"
    by (simp add: d'_def update_runs_def claim_def)
  have "queued d' = filter (\<lambda>r. run_id r \<noteq> run_id q) (queued d)"
  proof -
    have "filter (\<lambda>r. run_status r = StatusQueued)
        (map (\<lambda>r. if run_id r = run_id q then claim w t r else r) rs) =
      filter (\<lambda>r. run_id r \<noteq> run_id q) (filter (\<lambda>r. run_status r = StatusQueued) rs)" for t rs
      by (induction rs) (auto simp: claim_def)
    then show ?thesis by (simp add: queued_def d'_def update_runs_def)
  qed
  then have "sort_key run_id (queued d') = filter (\<lambda>r. run_id r \<noteq> run_id q) (q # qs)"
    by (simp add: s filter_sort flip: s)
  moreover have "distinct (map run_id (q # qs))"
  proof -
    have "distinct (map run_id (queued d))"
      unfolding queued_def using assms(2) by (rule map_filter_distinct)
    moreover have "mset (map run_id (q # qs)) = mset (map run_id (queued d))"
      by (metis s mset_map mset_sort)
    ultimately show ?thesis by (metis mset_eq_imp_distinct_iff)
  qed
  ultimately have "sort_key run_id (queued d') = qs"
    by (simp add: filter_id_conv) (metis imageI)
  then show ?thesis
    using that [of _ d'] assms(1,2) oq ids
    by (simp add: ClaimNext_def flip: d'_def) (simp add: d'_def update_runs_def)
qed

text \<open>
  C6: With no database faults, claiming as often as there are queued runs hands out every one of
  them, each once, in the order in which they were enqueued, and leaves the queue empty.
\<close>

theorem queue_drains_in_order:
  assumes "faults d = []" "distinct (map run_id (runs d))"
  shows "fst (claim_all (length (queued d)) w d) = map run_id (sort_key run_id (queued d)) \<and>
    queued (snd (claim_all (length (queued d)) w d)) = []"
proof -
  have "fst (claim_all (length qs) w d) = map run_id qs \<and> queued (snd (claim_all (length qs) w d)) = []"
    if "sort_key run_id (queued d) = qs" "faults d = []" "distinct (map run_id (runs d))" for qs
    using that
  proof (induction qs arbitrary: d)
    case Nil
    then have "oldest_queued d = None" by (simp add: oldest_queued_def)
    then show ?case by (simp add: oldest_queued_None)
  next
    case (Cons q qs)
    obtain r d' where "ClaimNext w d = (Inr r, d')" "run_id r = run_id q" "faults d' = []"
      "distinct (map run_id (runs d'))" "sort_key run_id (queued d') = qs"
      using ClaimNext_no_faults [OF Cons.prems(2,3,1)] by blast
    then show ?case using Cons.IH [of d'] by (simp add: Let_def split_beta)
  qed
  from this [OF refl assms] show ?thesis by simp
qed

end
