(* ===== verification/Repo.thy ===== *)
theory Repo
  imports Queue
begin

text \<open>
  The catalog operations of internal/store/sqlite/repo.go and delete.go: connections, storages,
  tasks, artifacts and the run history. JSON columns hold the value of the text; unique and
  foreign-key constraints are written out as the schema states them, ON DELETE CASCADE included.
\<close>

definition trunc_div :: "int \<Rightarrow> int \<Rightarrow> int" where
  "trunc_div a b = (if 0 \<le> a then a div b else - ((- a) div b))"

subsection \<open>Connections and storages\<close>

definition CreateConnection :: "connection \<Rightarrow> (db, rowid) op" where
  "CreateConnection c =
     (let what = ''create connection '' @ quoted (con_name c) @ '': '' in
      stmt what (\<lambda>d.
        if con_name c \<in> set (map con_name (connections d)) then (Inl (Wrap what unique_violation), d)
        else let i = next_id (map con_id (connections d)) in
          (Inr i, d\<lparr>connections := connections d @
             [c\<lparr>con_id := i, con_config := raw_or_empty_object (con_config c),
                con_created := now_time d\<rparr>]\<rparr>)))"

definition UpdateConnection :: "connection \<Rightarrow> (db, unit) op" where
  "UpdateConnection c =
     (let what = ''update connection '' @ dec (con_id c) @ '': '' in
      stmt what (\<lambda>d.
        if con_id c \<notin> set (map con_id (connections d)) then (Inl ErrNotFound, d)
        else if list_ex (\<lambda>x. con_id x \<noteq> con_id c \<and> con_name x = con_name c) (connections d)
        then (Inl (Wrap what unique_violation), d)
        else (Inr (), d\<lparr>connections := map (\<lambda>x. if con_id x = con_id c
                then c\<lparr>con_config := raw_or_empty_object (con_config c), con_created := con_created x\<rparr>
                else x) (connections d)\<rparr>)))"

definition GetConnection :: "rowid \<Rightarrow> (db, connection) op" where
  "GetConnection i = query_row ''scan connection: '' (\<lambda>d. find (\<lambda>c. con_id c = i) (connections d))"

definition ListConnections :: "(db, connection list) op" where
  "ListConnections = query ''list connections: '' (\<lambda>d. sort_key con_id (connections d))"

definition CreateStorage :: "storage \<Rightarrow> (db, rowid) op" where
  "CreateStorage s =
     (let what = ''create storage '' @ quoted (sto_name s) @ '': '' in
      stmt what (\<lambda>d.
        if sto_name s \<in> set (map sto_name (storages d)) then (Inl (Wrap what unique_violation), d)
        else let i = next_id (map sto_id (storages d)) in
          (Inr i, d\<lparr>storages := storages d @
             [s\<lparr>sto_id := i, sto_config := raw_or_empty_object (sto_config s),
                sto_created := now_time d\<rparr>]\<rparr>)))"

definition UpdateStorage :: "storage \<Rightarrow> (db, unit) op" where
  "UpdateStorage s =
     (let what = ''update storage '' @ dec (sto_id s) @ '': '' in
      stmt what (\<lambda>d.
        if sto_id s \<notin> set (map sto_id (storages d)) then (Inl ErrNotFound, d)
        else if list_ex (\<lambda>x. sto_id x \<noteq> sto_id s \<and> sto_name x = sto_name s) (storages d)
        then (Inl (Wrap what unique_violation), d)
        else (Inr (), d\<lparr>storages := map (\<lambda>x. if sto_id x = sto_id s
                then s\<lparr>sto_config := raw_or_empty_object (sto_config s), sto_created := sto_created x\<rparr>
                else x) (storages d)\<rparr>)))"

definition GetStorage :: "rowid \<Rightarrow> (db, storage) op" where
  "GetStorage i = query_row ''scan storage: '' (\<lambda>d. find (\<lambda>s. sto_id s = i) (storages d))"

definition ListStorages :: "(db, storage list) op" where
  "ListStorages = query ''list storages: '' (\<lambda>d. sort_key sto_id (storages d))"

subsection \<open>Tasks\<close>

definition stored_task :: "task \<Rightarrow> task" where
  "stored_task t =
     (let timeoutSec = trunc_div (task_timeout t) second in
      t\<lparr>task_opts := raw_or_empty_object (task_opts t),
        task_misfire := (if task_misfire t = MisfireOther [] then MisfireRunOnceNow else task_misfire t),
        task_timeout := (if timeoutSec = 0 then 1800 else timeoutSec) * second,
        task_watchdog := trunc_div (task_watchdog t) second * second\<rparr>)"

definition task_refs_ok :: "task \<Rightarrow> db \<Rightarrow> bool" where
  "task_refs_ok t d = (task_connection t \<in> set (map con_id (connections d)) \<and>
     task_storage t \<in> set (map sto_id (storages d)))"

definition CreateTask :: "task \<Rightarrow> (db, rowid) op" where
  "CreateTask t =
     (let what = ''create task '' @ quoted (task_name t) @ '': '' in
      stmt what (\<lambda>d.
        if task_name t \<in> set (map task_name (tasks d)) then (Inl (Wrap what unique_violation), d)
        else if \<not> task_refs_ok t d then (Inl (Wrap what foreign_key_violation), d)
        else let i = next_id (map task_id (tasks d)) in
          (Inr i, d\<lparr>tasks := tasks d @
             [(stored_task t)\<lparr>task_id := i, task_enabled_at := now_time d, task_created := now_time d\<rparr>]\<rparr>)))"

definition UpdateTask :: "task \<Rightarrow> (db, unit) op" where
  "UpdateTask t =
     (let what = ''update task '' @ dec (task_id t) @ '': '' in
      stmt what (\<lambda>d.
        if task_id t \<notin> set (map task_id (tasks d)) then (Inl ErrNotFound, d)
        else if list_ex (\<lambda>x. task_id x \<noteq> task_id t \<and> task_name x = task_name t) (tasks d)
        then (Inl (Wrap what unique_violation), d)
        else if \<not> task_refs_ok t d then (Inl (Wrap what foreign_key_violation), d)
        else (Inr (), d\<lparr>tasks := map (\<lambda>x. if task_id x = task_id t
                then (stored_task t)\<lparr>
                  task_enabled_at := (if \<not> task_enabled x \<and> task_enabled t then now_time d
                                      else task_enabled_at x),
                  task_created := task_created x\<rparr>
                else x) (tasks d)\<rparr>)))"

definition GetTask :: "rowid \<Rightarrow> (db, task) op" where
  "GetTask i = query_row ''scan task: '' (\<lambda>d. find (\<lambda>t. task_id t = i) (tasks d))"

definition GetTaskByName :: "string \<Rightarrow> (db, task) op" where
  "GetTaskByName n = query_row ''scan task: '' (\<lambda>d. find (\<lambda>t. task_name t = n) (tasks d))"

definition ListTasks :: "(db, task list) op" where
  "ListTasks = query ''list tasks: '' (\<lambda>d. sort_key task_id (tasks d))"

definition ListEnabledTasks :: "(db, task list) op" where
  "ListEnabledTasks =
     query ''list enabled tasks: '' (\<lambda>d. sort_key task_id (filter task_enabled (tasks d)))"

subsection \<open>Runs and artifacts\<close>

definition runs_matching :: "rowid \<Rightarrow> run_status option \<Rightarrow> run list \<Rightarrow> run list" where
  "runs_matching tid st rs = filter (\<lambda>r. (tid \<noteq> 0 \<longrightarrow> run_task r = tid) \<and>
     (case st of None \<Rightarrow> True | Some s \<Rightarrow> run_status r = s)) rs"

definition ListRuns :: "rowid \<Rightarrow> run_status option \<Rightarrow> (db, run list) op" where
  "ListRuns tid st =
     query ''list runs: '' (\<lambda>d. rev (sort_key run_id (runs_matching tid st (runs d))))"

definition ListRunsPage ::
  "rowid \<Rightarrow> run_status option \<Rightarrow> int \<Rightarrow> rowid \<Rightarrow> rowid \<Rightarrow> rowid \<Rightarrow> (db, run list) op" where
  "ListRunsPage tid st limit beforeID afterID anchorID =
     query ''list runs page: '' (\<lambda>d.
       (if limit < 0 then id else take (nat limit)) (rev (sort_key run_id
         (filter (\<lambda>r. (beforeID \<noteq> 0 \<longrightarrow> run_id r < beforeID) \<and> (afterID \<noteq> 0 \<longrightarrow> run_id r > afterID) \<and>
            (anchorID \<noteq> 0 \<longrightarrow> run_id r \<le> anchorID)) (runs_matching tid st (runs d))))))"

definition GetRun :: "rowid \<Rightarrow> (db, run) op" where
  "GetRun i = query_row ''scan run: '' (\<lambda>d. find (\<lambda>r. run_id r = i) (runs d))"

definition task_artifacts :: "rowid \<Rightarrow> db \<Rightarrow> artifact list" where
  "task_artifacts tid d =
     filter (\<lambda>a. list_ex (\<lambda>r. run_id r = art_run a \<and> run_task r = tid) (runs d)) (artifacts d)"

definition ListArtifactsByTask :: "rowid \<Rightarrow> (db, artifact list) op" where
  "ListArtifactsByTask tid =
     query (''list artifacts by task '' @ dec tid @ '': '')
       (\<lambda>d. sort_key by_age (task_artifacts tid d))"

definition InsertArtifact :: "artifact \<Rightarrow> (db, rowid) op" where
  "InsertArtifact a = stmt ''insert artifact: '' (\<lambda>d.
     if art_run a \<notin> set (map run_id (runs d)) \<or> art_storage a \<notin> set (map sto_id (storages d))
     then (Inl (Wrap ''insert artifact: '' foreign_key_violation), d)
     else let i = next_id (map art_id (artifacts d)) in
       (Inr i, d\<lparr>artifacts := artifacts d @
          [a\<lparr>art_id := i, art_created := now_time d, art_expires := None\<rparr>]\<rparr>))"

definition DeleteArtifact :: "rowid \<Rightarrow> (db, unit) op" where
  "DeleteArtifact i = stmt (''delete artifact '' @ dec i @ '': '') (\<lambda>d.
     (Inr (), d\<lparr>artifacts := filter (\<lambda>a. art_id a \<noteq> i) (artifacts d)\<rparr>))"

definition GetArtifact :: "rowid \<Rightarrow> (db, artifact) op" where
  "GetArtifact i = query_row ''scan artifact: '' (\<lambda>d. find (\<lambda>a. art_id a = i) (artifacts d))"

definition GetArtifactByRun :: "rowid \<Rightarrow> (db, artifact) op" where
  "GetArtifactByRun rid = query_row ''scan artifact by run: ''
     (\<lambda>d. case rev (sort_key art_id (filter (\<lambda>a. art_run a = rid) (artifacts d))) of
            [] \<Rightarrow> None | a # as \<Rightarrow> Some a)"

text \<open>
  Artifacts joined with the successful runs of a task, newest run first; SQL leaves the order of
  several artifacts of one run open, here it is the order of insertion.
\<close>

definition success_sizes :: "rowid \<Rightarrow> db \<Rightarrow> (rowid \<times> int) list" where
  "success_sizes tid d =
     sort_key (\<lambda>(i, _). - i)
       (map (\<lambda>a. (art_run a, art_size a))
          (filter (\<lambda>a. list_ex (\<lambda>r. run_id r = art_run a \<and> run_task r = tid \<and>
                     run_status r = StatusSuccess) (runs d)) (artifacts d)))"

definition LastSuccessfulArtifactSize :: "rowid \<Rightarrow> (db, int) op" where
  "LastSuccessfulArtifactSize tid =
     query (''last artifact size for task '' @ dec tid @ '': '')
       (\<lambda>d. case success_sizes tid d of [] \<Rightarrow> 0 | (_, s) # _ \<Rightarrow> s)"

subsection \<open>Deletion\<close>

definition DeleteConnection :: "rowid \<Rightarrow> (db, unit) op" where
  "DeleteConnection i =
     (let what = ''delete connection '' @ dec i @ '': '' in
      stmt what (\<lambda>d.
        if i \<notin> set (map con_id (connections d)) then (Inl ErrNotFound, d)
        else if list_ex (\<lambda>t. task_connection t = i) (tasks d) then (Inl (Wrap what ErrInUse), d)
        else (Inr (), d\<lparr>connections := filter (\<lambda>c. con_id c \<noteq> i) (connections d)\<rparr>)))"

definition DeleteStorage :: "rowid \<Rightarrow> (db, unit) op" where
  "DeleteStorage i =
     (let what = ''delete storage '' @ dec i @ '': '' in
      stmt what (\<lambda>d.
        if i \<notin> set (map sto_id (storages d)) then (Inl ErrNotFound, d)
        else if list_ex (\<lambda>t. task_storage t = i) (tasks d) \<or>
                list_ex (\<lambda>a. art_storage a = i) (artifacts d)
        then (Inl (Wrap what ErrInUse), d)
        else (Inr (), d\<lparr>storages := filter (\<lambda>s. sto_id s \<noteq> i) (storages d)\<rparr>)))"

definition cascade_task :: "rowid \<Rightarrow> db \<Rightarrow> db" where
  "cascade_task tid d =
     d\<lparr>tasks := filter (\<lambda>t. task_id t \<noteq> tid) (tasks d),
       runs := filter (\<lambda>r. run_task r \<noteq> tid) (runs d),
       artifacts := filter (\<lambda>a. \<not> list_ex (\<lambda>r. run_id r = art_run a \<and> run_task r = tid) (runs d)) (artifacts d),
       wd_alerts := filter (\<lambda>w. wdr_task w \<noteq> tid) (wd_alerts d)\<rparr>"

definition DeleteTask :: "rowid \<Rightarrow> (db, unit) op" where
  "DeleteTask tid d =
     (let what = ''delete task '' @ dec tid @ '': '' in
      case query (what @ ''check active run: '') (\<lambda>d. length (filter (active_for tid) (runs d))) d of
        (Inl e, d) \<Rightarrow> (Inl e, d)
      | (Inr active, d) \<Rightarrow>
          if active > 0 then (Inl (Wrap what ErrInUse), d)
          else stmt what (\<lambda>d.
            if tid \<notin> set (map task_id (tasks d)) then (Inl ErrNotFound, d)
            else (Inr (), cascade_task tid d)) d)"

subsection \<open>Invariant\<close>

lemmas read_defs = GetConnection_def ListConnections_def GetStorage_def ListStorages_def GetTask_def
  GetTaskByName_def ListTasks_def ListEnabledTasks_def ListRuns_def ListRunsPage_def GetRun_def
  ListArtifactsByTask_def GetArtifact_def GetArtifactByRun_def LastSuccessfulArtifactSize_def

lemma db_okD:
  assumes "db_ok d"
  shows "distinct (map run_id (runs d))" "distinct (map task_id (tasks d))"
    "distinct (map art_id (artifacts d))" "distinct (map sto_id (storages d))"
    "distinct (map con_id (connections d))" "one_active (runs d)"
  using assms by (simp_all add: db_ok_def)

lemma db_ok_fk:
  assumes "db_ok d"
  shows "r \<in> set (runs d) \<Longrightarrow> run_task r \<in> task_id ` set (tasks d)"
    and "a \<in> set (artifacts d) \<Longrightarrow> art_run a \<in> run_id ` set (runs d)"
    and "a \<in> set (artifacts d) \<Longrightarrow> art_storage a \<in> sto_id ` set (storages d)"
    and "t \<in> set (tasks d) \<Longrightarrow> task_connection t \<in> con_id ` set (connections d)"
    and "t \<in> set (tasks d) \<Longrightarrow> task_storage t \<in> sto_id ` set (storages d)"
    and "w \<in> set (wd_alerts d) \<Longrightarrow> wdr_task w \<in> task_id ` set (tasks d)"
  using assms by (auto simp: db_ok_def)

lemma db_ok_connections:
  assumes "db_ok d" "distinct (map con_id cs)"
    "\<And>t. t \<in> set (tasks d) \<Longrightarrow> task_connection t \<in> con_id ` set cs"
  shows "db_ok (d\<lparr>connections := cs\<rparr>)"
  using assms by (simp add: db_ok_def image_subset_iff)

lemma db_ok_storages:
  assumes "db_ok d" "distinct (map sto_id ss)"
    "\<And>t. t \<in> set (tasks d) \<Longrightarrow> task_storage t \<in> sto_id ` set ss"
    "\<And>a. a \<in> set (artifacts d) \<Longrightarrow> art_storage a \<in> sto_id ` set ss"
  shows "db_ok (d\<lparr>storages := ss\<rparr>)"
  using assms by (simp add: db_ok_def image_subset_iff)

lemma db_ok_tasks:
  assumes "db_ok d" "distinct (map task_id ts)" "task_id ` set (tasks d) \<subseteq> task_id ` set ts"
    "\<And>t. t \<in> set ts \<Longrightarrow> task_refs_ok t d"
  shows "db_ok (d\<lparr>tasks := ts\<rparr>)"
proof -
  have "run_task ` set (runs d) \<subseteq> task_id ` set ts" "wdr_task ` set (wd_alerts d) \<subseteq> task_id ` set ts"
    using db_ok_fk(1,6) [OF assms(1)] assms(3) by blast+
  then show ?thesis
    using assms(1,2,4) by (simp add: db_ok_def task_refs_ok_def image_subset_iff)
qed

lemma db_ok_artifacts:
  assumes "db_ok d" "distinct (map art_id as)"
    "\<And>a. a \<in> set as \<Longrightarrow> art_run a \<in> run_id ` set (runs d) \<and> art_storage a \<in> sto_id ` set (storages d)"
  shows "db_ok (d\<lparr>artifacts := as\<rparr>)"
  using assms by (simp add: db_ok_def image_subset_iff)

lemma db_ok_refs: "db_ok d \<Longrightarrow> t \<in> set (tasks d) \<Longrightarrow> task_refs_ok t d"
  by (simp add: db_ok_fk task_refs_ok_def)

lemma task_refs_ok_faults [simp]: "task_refs_ok t (d\<lparr>faults := fs\<rparr>) = task_refs_ok t d"
  by (simp add: task_refs_ok_def)

text \<open>How an operation that is one statement keeps the invariant: its body does.\<close>

lemma stmt_ok:
  assumes "stmt what f d = (r, d')" "db_ok d"
    and "\<And>e. db_ok e \<Longrightarrow> db_ok (snd (f e))"
  shows "db_ok d'"
  using assms(1) by (rule stmt_cases) (use assms(2) assms(3) in \<open>auto dest!: arg_cong [where f = snd]\<close>)

lemma distinct_snoc_next: "distinct (map k xs) \<Longrightarrow> k x = next_id (map k xs) \<Longrightarrow> distinct (map k (xs @ [x]))"
  using next_id_fresh [of "map k xs"] by auto

lemma CreateConnection_ok [inv_intros]:
  "CreateConnection c d = (r, d') \<Longrightarrow> db_ok d \<Longrightarrow> db_ok d'"
  unfolding CreateConnection_def Let_def
  by (erule stmt_ok, assumption)
    (auto intro!: db_ok_connections distinct_snoc_next dest: db_okD(5) simp: db_ok_fk simp del: distinct_append map_append)

lemma CreateStorage_ok [inv_intros]:
  "CreateStorage s d = (r, d') \<Longrightarrow> db_ok d \<Longrightarrow> db_ok d'"
  unfolding CreateStorage_def Let_def
  by (erule stmt_ok, assumption)
    (auto intro!: db_ok_storages distinct_snoc_next dest: db_okD(4) simp: db_ok_fk simp del: distinct_append map_append)

lemma stored_task_simps [simp]:
  "task_id (stored_task t) = task_id t" "task_connection (stored_task t) = task_connection t"
  "task_storage (stored_task t) = task_storage t" "task_name (stored_task t) = task_name t"
  "task_enabled (stored_task t) = task_enabled t" "task_retention (stored_task t) = task_retention t"
  by (simp_all add: stored_task_def Let_def)

lemma CreateTask_ok [inv_intros]:
  "CreateTask t d = (r, d') \<Longrightarrow> db_ok d \<Longrightarrow> db_ok d'"
  unfolding CreateTask_def Let_def
  by (erule stmt_ok, assumption)
    (auto intro!: db_ok_tasks distinct_snoc_next dest: db_okD(2)
      simp: task_refs_ok_def db_ok_fk simp del: distinct_append map_append)

lemma distinct_map_update:
  assumes "distinct (map k xs)" "\<And>x. P x \<Longrightarrow> k (f x) = k x"
  shows "distinct (map k (map (\<lambda>x. if P x then f x else x) xs))"
proof -
  have "map k (map (\<lambda>x. if P x then f x else x) xs) = map k xs"
    using assms(2) by simp
  then show ?thesis using assms(1) by (simp only:)
qed

lemma image_map_update:
  assumes "\<And>x. P x \<Longrightarrow> k (f x) = k x"
  shows "k ` set (map (\<lambda>x. if P x then f x else x) xs) = k ` set xs"
proof -
  have "map k (map (\<lambda>x. if P x then f x else x) xs) = map k xs"
    using assms by simp
  then have "set (map k (map (\<lambda>x. if P x then f x else x) xs)) = set (map k xs)"
    by (simp only:)
  then show ?thesis by (simp only: set_map)
qed

lemma UpdateConnection_ok [inv_intros]:
  "UpdateConnection c d = (r, d') \<Longrightarrow> db_ok d \<Longrightarrow> db_ok d'"
  unfolding UpdateConnection_def Let_def
proof (erule stmt_ok, assumption)
  fix e assume e: "db_ok e"
  let ?cs = "map (\<lambda>x. if con_id x = con_id c then c\<lparr>con_config := raw_or_empty_object (con_config c),
      con_created := con_created x\<rparr> else x) (connections e)"
  have "db_ok (e\<lparr>connections := ?cs\<rparr>)"
    by (intro db_ok_connections e distinct_map_update db_okD(5); (subst image_map_update)?)
      (simp_all add: db_ok_fk [OF e])
  with e show "db_ok (snd (if con_id c \<notin> set (map con_id (connections e)) then (Inl ErrNotFound, e)
      else if list_ex (\<lambda>x. con_id x \<noteq> con_id c \<and> con_name x = con_name c) (connections e)
      then (Inl (Wrap (''update connection '' @ dec (con_id c) @ '': '') unique_violation), e)
      else (Inr (), e\<lparr>connections := ?cs\<rparr>)))"
    by simp
qed

lemma UpdateStorage_ok [inv_intros]:
  "UpdateStorage s d = (r, d') \<Longrightarrow> db_ok d \<Longrightarrow> db_ok d'"
  unfolding UpdateStorage_def Let_def
proof (erule stmt_ok, assumption)
  fix e assume e: "db_ok e"
  let ?ss = "map (\<lambda>x. if sto_id x = sto_id s then s\<lparr>sto_config := raw_or_empty_object (sto_config s),
      sto_created := sto_created x\<rparr> else x) (storages e)"
  have "db_ok (e\<lparr>storages := ?ss\<rparr>)"
    by (intro db_ok_storages e distinct_map_update db_okD(4); (subst image_map_update)?)
      (simp_all add: db_ok_fk [OF e])
  with e show "db_ok (snd (if sto_id s \<notin> set (map sto_id (storages e)) then (Inl ErrNotFound, e)
      else if list_ex (\<lambda>x. sto_id x \<noteq> sto_id s \<and> sto_name x = sto_name s) (storages e)
      then (Inl (Wrap (''update storage '' @ dec (sto_id s) @ '': '') unique_violation), e)
      else (Inr (), e\<lparr>storages := ?ss\<rparr>)))"
    by simp
qed

lemma UpdateTask_ok [inv_intros]:
  "UpdateTask t d = (r, d') \<Longrightarrow> db_ok d \<Longrightarrow> db_ok d'"
  unfolding UpdateTask_def Let_def
proof (erule stmt_ok, assumption)
  fix e assume e: "db_ok e"
  let ?f = "\<lambda>x. (stored_task t)\<lparr>task_enabled_at := (if \<not> task_enabled x \<and> task_enabled t
      then now_time e else task_enabled_at x), task_created := task_created x\<rparr>"
  let ?ts = "map (\<lambda>x. if task_id x = task_id t then ?f x else x) (tasks e)"
  have "db_ok (e\<lparr>tasks := ?ts\<rparr>)" if "task_refs_ok t e"
  proof (intro db_ok_tasks e)
    show "distinct (map task_id ?ts)"
      by (intro distinct_map_update db_okD(2) e) simp
    show "task_id ` set (tasks e) \<subseteq> task_id ` set ?ts"
      by (subst image_map_update) simp_all
    show "task_refs_ok u e" if "u \<in> set ?ts" for u
      using that \<open>task_refs_ok t e\<close> db_ok_refs [OF e]
      by (auto simp: task_refs_ok_def split: if_splits)
  qed
  with e show "db_ok (snd (if task_id t \<notin> set (map task_id (tasks e)) then (Inl ErrNotFound, e)
      else if list_ex (\<lambda>x. task_id x \<noteq> task_id t \<and> task_name x = task_name t) (tasks e)
      then (Inl (Wrap (''update task '' @ dec (task_id t) @ '': '') unique_violation), e)
      else if \<not> task_refs_ok t e
      then (Inl (Wrap (''update task '' @ dec (task_id t) @ '': '') foreign_key_violation), e)
      else (Inr (), e\<lparr>tasks := ?ts\<rparr>)))"
    by simp
qed

lemma InsertArtifact_ok [inv_intros]:
  "InsertArtifact a d = (r, d') \<Longrightarrow> db_ok d \<Longrightarrow> db_ok d'"
  unfolding InsertArtifact_def Let_def
  by (erule stmt_ok, assumption)
    (auto intro!: db_ok_artifacts distinct_snoc_next dest: db_okD(3) simp: db_ok_fk simp del: distinct_append map_append)

lemma DeleteArtifact_ok [inv_intros]:
  "DeleteArtifact i d = (r, d') \<Longrightarrow> db_ok d \<Longrightarrow> db_ok d'"
  unfolding DeleteArtifact_def
  by (erule stmt_ok, assumption)
    (auto intro!: db_ok_artifacts map_filter_distinct dest: db_okD(3) simp: db_ok_fk)

lemma image_filter_neq:
  "a \<in> k ` set xs \<Longrightarrow> a \<noteq> i \<Longrightarrow> a \<in> k ` set (filter (\<lambda>x. k x \<noteq> i) xs)"
  by auto

lemma DeleteConnection_ok [inv_intros]:
  "DeleteConnection i d = (r, d') \<Longrightarrow> db_ok d \<Longrightarrow> db_ok d'"
  unfolding DeleteConnection_def Let_def
proof (erule stmt_ok, assumption)
  fix e assume e: "db_ok e"
  have "db_ok (e\<lparr>connections := filter (\<lambda>c. con_id c \<noteq> i) (connections e)\<rparr>)"
    if "\<not> list_ex (\<lambda>t. task_connection t = i) (tasks e)"
    by (intro db_ok_connections e map_filter_distinct db_okD(5) image_filter_neq db_ok_fk)
      (use that in \<open>auto simp: list_ex_iff\<close>)
  with e show "db_ok (snd (if i \<notin> set (map con_id (connections e)) then (Inl ErrNotFound, e)
      else if list_ex (\<lambda>t. task_connection t = i) (tasks e)
      then (Inl (Wrap (''delete connection '' @ dec i @ '': '') ErrInUse), e)
      else (Inr (), e\<lparr>connections := filter (\<lambda>c. con_id c \<noteq> i) (connections e)\<rparr>)))"
    by (simp split: if_split)
qed

lemma DeleteStorage_ok [inv_intros]:
  "DeleteStorage i d = (r, d') \<Longrightarrow> db_ok d \<Longrightarrow> db_ok d'"
  unfolding DeleteStorage_def Let_def
proof (erule stmt_ok, assumption)
  fix e assume e: "db_ok e"
  have "db_ok (e\<lparr>storages := filter (\<lambda>s. sto_id s \<noteq> i) (storages e)\<rparr>)"
    if "\<not> (list_ex (\<lambda>t. task_storage t = i) (tasks e) \<or> list_ex (\<lambda>a. art_storage a = i) (artifacts e))"
    by (intro db_ok_storages e map_filter_distinct db_okD(4) image_filter_neq db_ok_fk)
      (use that in \<open>auto simp: list_ex_iff\<close>)
  with e show "db_ok (snd (if i \<notin> set (map sto_id (storages e)) then (Inl ErrNotFound, e)
      else if list_ex (\<lambda>t. task_storage t = i) (tasks e) \<or> list_ex (\<lambda>a. art_storage a = i) (artifacts e)
      then (Inl (Wrap (''delete storage '' @ dec i @ '': '') ErrInUse), e)
      else (Inr (), e\<lparr>storages := filter (\<lambda>s. sto_id s \<noteq> i) (storages e)\<rparr>)))"
    by (simp split: if_split)
qed

lemma one_active_filter: "one_active rs \<Longrightarrow> one_active (filter P rs)"
proof -
  assume "one_active rs"
  then have "distinct (map run_task (filter P (filter (\<lambda>r. is_active (run_status r)) rs)))"
    unfolding one_active_def by (rule map_filter_distinct)
  then show ?thesis by (simp add: one_active_def conj_commute)
qed

lemma cascade_task_ok:
  assumes "db_ok d"
  shows "db_ok (cascade_task tid d)"
proof -
  have "set (map run_task (filter (\<lambda>r. run_task r \<noteq> tid) (runs d))) \<subseteq>
      set (map task_id (filter (\<lambda>t. task_id t \<noteq> tid) (tasks d)))"
    using assms by (auto simp: db_ok_def image_iff subset_iff)
  moreover have "set (map art_run (artifacts (cascade_task tid d))) \<subseteq> set (map run_id (runs (cascade_task tid d)))"
  proof
    fix i assume "i \<in> set (map art_run (artifacts (cascade_task tid d)))"
    then obtain a where a: "a \<in> set (artifacts d)" "i = art_run a"
      "\<forall>r \<in> set (runs d). run_id r = art_run a \<longrightarrow> run_task r \<noteq> tid"
      by (auto simp: cascade_task_def list_ex_iff)
    then obtain r where "r \<in> set (runs d)" "run_id r = art_run a"
      using assms by (auto simp: db_ok_def subset_iff image_iff)
    with a show "i \<in> set (map run_id (runs (cascade_task tid d)))"
      by (auto simp: cascade_task_def intro: rev_image_eqI)
  qed
  moreover have "set (map wdr_task (wd_alerts (cascade_task tid d))) \<subseteq>
      set (map task_id (tasks (cascade_task tid d)))"
    using assms by (auto simp: db_ok_def cascade_task_def image_iff subset_iff)
  ultimately show ?thesis
    using assms one_active_filter
    by (auto simp: db_ok_def cascade_task_def map_filter_distinct)
qed

lemma DeleteTask_cases:
  assumes "DeleteTask tid d = (r, d')"
  obtains (kept) e where "r = Inl e" "same_tables d d'"
  | (deleted) bs where "r = Inr ()" "filter (active_for tid) (runs d) = []"
      "tid \<in> set (map task_id (tasks d))" "d' = cascade_task tid (d\<lparr>faults := bs\<rparr>)"
proof -
  let ?q = "query ((''delete task '' @ dec tid @ '': '') @ ''check active run: '')
     (\<lambda>d. length (filter (active_for tid) (runs d))) d"
  obtain x d1 where q: "?q = (x, d1)" by (cases ?q)
  then have same: "same_tables d d1" by (rule query_same)
  show ?thesis
  proof (cases x)
    case (Inl e)
    then have "r = Inl e" "d' = d1" using assms q by (simp_all add: DeleteTask_def Let_def)
    then show ?thesis using kept same by blast
  next
    case (Inr n)
    have n: "n = length (filter (active_for tid) (runs d))"
      using query_ok [OF q [unfolded Inr]] by (simp add: table_fun_def)
    show ?thesis
    proof (cases "n > 0")
      case True
      then have "r = Inl (Wrap (''delete task '' @ dec tid @ '': '') ErrInUse)" "d' = d1"
        using assms q Inr by (simp_all add: DeleteTask_def Let_def)
      then show ?thesis using kept same by blast
    next
      case False
      with assms q Inr have "stmt (''delete task '' @ dec tid @ '': '')
          (\<lambda>d. if tid \<notin> set (map task_id (tasks d)) then (Inl ErrNotFound, d)
               else (Inr (), cascade_task tid d)) d1 = (r, d')"
        by (simp add: DeleteTask_def Let_def)
      then show ?thesis
      proof (rule stmt_cases)
        fix bs assume "r = Inl (Wrap (''delete task '' @ dec tid @ '': '') db_error)" "d' = d1\<lparr>faults := bs\<rparr>"
        moreover from this have "same_tables d d'"
          using same_tables_trans [OF same same_tables_faults] by simp
        ultimately show ?thesis using kept by blast
      next
        fix bs
        obtain fs where d1: "d1 = d\<lparr>faults := fs\<rparr>" using same by (auto simp: same_tables_iff)
        assume "(if tid \<notin> set (map task_id (tasks (d1\<lparr>faults := bs\<rparr>)))
               then (Inl ErrNotFound, d1\<lparr>faults := bs\<rparr>)
               else (Inr (), cascade_task tid (d1\<lparr>faults := bs\<rparr>))) = (r, d')"
        then show ?thesis
          using kept [of ErrNotFound] deleted [of bs] False n unfolding d1
          by (cases "tid \<in> set (map task_id (tasks d))") auto
      qed
    qed
  qed
qed

lemma DeleteTask_ok [inv_intros]:
  assumes "DeleteTask tid d = (r, d')" "db_ok d"
  shows "db_ok d'"
  using assms(1)
  by (rule DeleteTask_cases) (use assms(2) in \<open>auto simp: db_ok_same_tables intro!: cascade_task_ok\<close>)

end
