(* ===== verification/Localfs.thy ===== *)
theory Localfs
  imports Prune Repo "HOL-Library.List_Lexorder" "HOL-Library.Char_ord"
begin

text \<open>
  The local storage plugin, internal/storage/localfs/localfs.go, over a disk of files and
  directories named by their cleaned absolute paths. Every system call may fail by a schedule of
  faults. The lemmas show that a write is atomic (the key holds the whole new content or what it
  held before, and nothing else changes but for a temporary file that could not be removed) and
  that keys and paths determine each other.
\<close>

subsection \<open>Paths\<close>

fun split_on :: "char \<Rightarrow> string \<Rightarrow> string list" where
  "split_on c [] = [[]]"
| "split_on c (x # xs) =
     (if x = c then [] # split_on c xs
      else (case split_on c xs of [] \<Rightarrow> [[x]] | s # ss \<Rightarrow> (x # s) # ss))"

fun join_with :: "char \<Rightarrow> string list \<Rightarrow> string" where
  "join_with c [] = []"
| "join_with c [s] = s"
| "join_with c (s # t # ss) = s @ c # join_with c (t # ss)"

definition clean_step :: "string list \<Rightarrow> string \<Rightarrow> string list" where
  "clean_step acc s =
     (if s = [] \<or> s = ''.'' then acc else if s = ''..'' then tl acc else s # acc)"

text \<open>filepath.Clean of a path taken from the file system's root.\<close>

definition clean :: "string \<Rightarrow> string list" where
  "clean p = rev (foldl clean_step [] (split_on (CHR ''/'') p))"

definition fs_path :: "string \<Rightarrow> string \<Rightarrow> string list" where
  "fs_path root key = clean (root @ ''/'' @ key)"

lemma split_on_not_Nil [simp]: "split_on c s \<noteq> []"
  by (induction s) (auto split: list.splits)

lemma join_split [simp]: "join_with c (split_on c s) = s"
proof (induction s)
  case (Cons x s)
  obtain t ts where s: "split_on c s = t # ts" using split_on_not_Nil by (cases "split_on c s") auto
  then show ?case using Cons by (cases ts) auto
qed simp

lemma split_on_append: "split_on c (s @ c # t) = split_on c s @ split_on c t"
  by (induction s) (auto split: list.splits)

lemma split_no_sep: "c \<notin> set s \<Longrightarrow> split_on c s = [s]"
  by (induction s) auto

lemma split_on_sep: "\<forall>t \<in> set (split_on c s). c \<notin> set t"
  by (induction s) (auto split: list.splits)

lemma split_join [simp]:
  "ss \<noteq> [] \<Longrightarrow> \<forall>t \<in> set ss. c \<notin> set t \<Longrightarrow> split_on c (join_with c ss) = ss"
  by (induction c ss rule: join_with.induct) (simp_all add: split_no_sep split_on_append)

text \<open>Keys in canonical form: what BuildArtifactKey writes for names that slug to a plain segment.\<close>

definition plain_segment :: "string \<Rightarrow> bool" where
  "plain_segment s = (s \<noteq> [] \<and> s \<noteq> ''.'' \<and> s \<noteq> ''..'')"

definition good_key :: "string \<Rightarrow> bool" where
  "good_key k = list_all plain_segment (split_on (CHR ''/'') k)"

lemma foldl_clean_plain:
  "list_all plain_segment ss \<Longrightarrow> foldl clean_step acc ss = rev ss @ acc"
  by (induction ss arbitrary: acc) (simp_all add: clean_step_def plain_segment_def)

lemma fs_path_good: "good_key k \<Longrightarrow> fs_path root k = clean root @ split_on (CHR ''/'') k"
  by (simp add: fs_path_def clean_def split_on_append foldl_clean_plain good_key_def)

lemma fs_path_inj:
  "good_key k \<Longrightarrow> good_key k' \<Longrightarrow> fs_path root k = fs_path root k' \<longleftrightarrow> k = k'"
  by (metis fs_path_good join_split same_append_eq)

subsection \<open>The disk\<close>

record stored =
  fl_data :: string
  fl_mtime :: time

record disk =
  dk_files :: "(string list \<times> stored) list"
  dk_dirs :: "string list list"
  dk_locked :: "string list list"
  dk_clock :: time
  dk_faults :: "bool list"

definition file_at :: "disk \<Rightarrow> string list \<Rightarrow> stored option" where
  "file_at d p = map_of (dk_files d) p"

definition is_dir :: "disk \<Rightarrow> string list \<Rightarrow> bool" where
  "is_dir d p = (p = [] \<or> p \<in> set (dk_dirs d))"

definition put_file :: "string list \<Rightarrow> stored \<Rightarrow> disk \<Rightarrow> disk" where
  "put_file p f d = d\<lparr>dk_files := (p, f) # filter (\<lambda>(q, _). q \<noteq> p) (dk_files d)\<rparr>"

definition drop_file :: "string list \<Rightarrow> disk \<Rightarrow> disk" where
  "drop_file p d = d\<lparr>dk_files := filter (\<lambda>(q, _). q \<noteq> p) (dk_files d)\<rparr>"

definition os_error :: "string \<Rightarrow> err" where "os_error s = Errorf s"

text \<open>A system call fails when the schedule says so.\<close>

definition syscall :: "(disk \<Rightarrow> (err + 'a) \<times> disk) \<Rightarrow> (disk, 'a) op" where
  "syscall f d =
     (case dk_faults d of
        [] \<Rightarrow> f d
      | b # bs \<Rightarrow> if b then (Inl (os_error ''input/output error''), d\<lparr>dk_faults := bs\<rparr>) else f (d\<lparr>dk_faults := bs\<rparr>))"

definition proper_prefixes :: "'a list \<Rightarrow> 'a list list" where
  "proper_prefixes p = map (\<lambda>n. take n p) [0..<length p]"

text \<open>Some parent of the path is a file: ENOTDIR.\<close>

definition through_file :: "disk \<Rightarrow> string list \<Rightarrow> bool" where
  "through_file d p = list_ex (\<lambda>q. file_at d q \<noteq> None) (proper_prefixes p)"

definition MkdirAll :: "string list \<Rightarrow> (disk, unit) op" where
  "MkdirAll p = syscall (\<lambda>d.
     if through_file d p \<or> file_at d p \<noteq> None then (Inl (os_error ''not a directory''), d)
     else (Inr (), d\<lparr>dk_dirs := remdups (proper_prefixes p @ p # dk_dirs d)\<rparr>))"

text \<open>
  os.CreateTemp replaces the star by digits until the name is new; here by more digits than any
  name of the disk is long.
\<close>

definition temp_name :: "disk \<Rightarrow> string" where
  "temp_name d = ''.dr-'' @ replicate (Suc (sum_list (map length (concat (map fst (dk_files d)))))) (CHR ''0'') @ ''.tmp''"

definition CreateTemp :: "string list \<Rightarrow> (disk, string list) op" where
  "CreateTemp dir = syscall (\<lambda>d.
     if \<not> is_dir d dir then (Inl (os_error ''no such file or directory''), d)
     else let p = dir @ [temp_name d] in
       (Inr p, put_file p \<lparr>fl_data = [], fl_mtime = dk_clock d\<rparr> d))"

text \<open>A reader yields its bytes and then ends or fails.\<close>

type_synonym reader = "string \<times> err option"

definition Copy :: "string list \<Rightarrow> reader \<Rightarrow> (disk, nat) op" where
  "Copy p r = syscall (\<lambda>d.
     (case snd r of None \<Rightarrow> Inr (length (fst r)) | Some e \<Rightarrow> Inl e,
      put_file p \<lparr>fl_data = fst r, fl_mtime = dk_clock d\<rparr> d))"

definition Sync :: "(disk, unit) op" where "Sync = syscall (\<lambda>d. (Inr (), d))"
definition Close :: "(disk, unit) op" where "Close = syscall (\<lambda>d. (Inr (), d))"

definition Rename :: "string list \<Rightarrow> string list \<Rightarrow> (disk, unit) op" where
  "Rename p q = syscall (\<lambda>d.
     if is_dir d q then (Inl (os_error ''file exists''), d)
     else (case file_at d p of
             None \<Rightarrow> (Inl (os_error ''no such file or directory''), d)
           | Some f \<Rightarrow> (Inr (), put_file q f (drop_file p d))))"

definition dir_empty :: "disk \<Rightarrow> string list \<Rightarrow> bool" where
  "dir_empty d p = (\<not> list_ex (\<lambda>(q, _). strict_prefix p q) (dk_files d) \<and> \<not> list_ex (strict_prefix p) (dk_dirs d))"

text \<open>The result tells apart the error os.IsNotExist accepts.\<close>

datatype remove_result = Removed | NotExist | RemoveFailed err

definition remove_entry :: "string list \<Rightarrow> disk \<Rightarrow> remove_result \<times> disk" where
  "remove_entry p d =
     (if through_file d p then (RemoveFailed (os_error ''not a directory''), d)
      else if file_at d p \<noteq> None then
        (if p \<in> set (dk_locked d) then (RemoveFailed (os_error ''permission denied''), d)
         else (Removed, drop_file p d))
      else if p = [] \<or> is_dir d p \<and> \<not> dir_empty d p
      then (RemoveFailed (os_error ''directory not empty''), d)
      else if is_dir d p then (Removed, d\<lparr>dk_dirs := removeAll p (dk_dirs d)\<rparr>)
      else (NotExist, d))"

definition Remove :: "string list \<Rightarrow> disk \<Rightarrow> remove_result \<times> disk" where
  "Remove p d =
     (case syscall (\<lambda>d. case remove_entry p d of (r, d) \<Rightarrow> (Inr r, d)) d of
        (Inl e, d) \<Rightarrow> (RemoveFailed e, d)
      | (Inr r, d) \<Rightarrow> (r, d))"

subsection \<open>The plugin\<close>

record localfs_storage =
  lf_root :: string

text \<open>
  New: the root of the config. encoding/json matches the field name without regard to case, and
  the last matching member of the right type wins; a member of another type is an error.
\<close>

definition json_field :: "string \<Rightarrow> (string \<times> json) list \<Rightarrow> json list" where
  "json_field name kvs = map snd (filter (\<lambda>(k, _). map to_lower k = name) kvs)"

definition New :: "raw \<Rightarrow> err + localfs_storage" where
  "New r =
     (let bad = Inl (Wrap ''localfs: bad config: '' (Errorf ''invalid JSON''));
          mk = (\<lambda>root. if root = [] then Inl (Errorf ''localfs: root is required'') else Inr \<lparr>lf_root = root\<rparr>)
      in if r = raw_empty then mk []
         else case r of
           BadRaw _ \<Rightarrow> bad
         | Raw JNull \<Rightarrow> mk []
         | Raw (JObj kvs) \<Rightarrow>
             (if list_all (\<lambda>v. case v of JNull \<Rightarrow> True | JStr _ \<Rightarrow> True | _ \<Rightarrow> False) (json_field ''root'' kvs)
              then mk (foldl (\<lambda>acc v. case v of JStr s \<Rightarrow> s | _ \<Rightarrow> acc) [] (json_field ''root'' kvs))
              else bad)
         | Raw _ \<Rightarrow> bad)"

record object_meta =
  om_key :: string
  om_size :: int

text \<open>
  The deferred os.Remove of the temporary file runs on every error return after CreateTemp; its
  own error is dropped.
\<close>

definition discard :: "string list \<Rightarrow> err \<Rightarrow> disk \<Rightarrow> (err + object_meta) \<times> disk" where
  "discard tmp e d = (Inl e, snd (Remove tmp d))"

definition Write :: "localfs_storage \<Rightarrow> string \<Rightarrow> reader \<Rightarrow> (disk, object_meta) op" where
  "Write s key r d =
     (let dst = fs_path (lf_root s) key; dir = butlast dst in
      case MkdirAll dir d of
        (Inl e, d) \<Rightarrow> (Inl (Wrap ''localfs: mkdir: '' e), d)
      | (Inr _, d) \<Rightarrow>
      (case CreateTemp dir d of
        (Inl e, d) \<Rightarrow> (Inl (Wrap ''localfs: temp: '' e), d)
      | (Inr tmp, d) \<Rightarrow>
      (case Copy tmp r d of
        (Inl e, d) \<Rightarrow> discard tmp (Wrap ''localfs: copy: '' e) (snd (Close d))
      | (Inr n, d) \<Rightarrow>
      (case Sync d of
        (Inl e, d) \<Rightarrow> discard tmp (Wrap ''localfs: sync: '' e) (snd (Close d))
      | (Inr _, d) \<Rightarrow>
      (case Close d of
        (Inl e, d) \<Rightarrow> discard tmp (Wrap ''localfs: close: '' e) d
      | (Inr _, d) \<Rightarrow>
      (case Rename tmp dst d of
        (Inl e, d) \<Rightarrow> discard tmp (Wrap ''localfs: rename: '' e) d
      | (Inr _, d) \<Rightarrow> (Inr \<lparr>om_key = key, om_size = int n\<rparr>, d)))))))"

text \<open>Read, to the end of the file: opening a directory succeeds, reading it does not.\<close>

definition Read :: "localfs_storage \<Rightarrow> string \<Rightarrow> (disk, string) op" where
  "Read s key d =
     (let p = fs_path (lf_root s) key in
      case syscall (\<lambda>d. (case file_at d p of
             Some f \<Rightarrow> Inr (fl_data f)
           | None \<Rightarrow> Inl (os_error (if is_dir d p then ''is a directory'' else ''no such file or directory'')), d)) d of
        (Inl e, d) \<Rightarrow> (Inl (Wrap (''localfs: open '' @ key @ '': '') e), d)
      | (Inr x, d) \<Rightarrow> (Inr x, d))"

text \<open>WalkDir visits the entries of a directory by name, so files come in the order of their paths.\<close>

definition rel_key :: "string list \<Rightarrow> string list \<Rightarrow> string" where
  "rel_key base p = (if p = base then ''.'' else join_with (CHR ''/'') (drop (length base) p))"

definition walk_files :: "string list \<Rightarrow> disk \<Rightarrow> (string list \<times> stored) list" where
  "walk_files base d = sort_key fst (filter (\<lambda>(p, _). prefix base p) (dk_files d))"

definition List :: "localfs_storage \<Rightarrow> string \<Rightarrow> (disk, object list) op" where
  "List s pfx d =
     (let base = clean (lf_root s) in
      case syscall (\<lambda>d.
        (if \<not> is_dir d base \<and> file_at d base = None
         then Inl (os_error ''no such file or directory'')
         else Inr (map (\<lambda>(p, f). \<lparr>obj_key = rel_key base p, obj_size = int (length (fl_data f)),
                                    obj_modified = fl_mtime f\<rparr>)
                     (filter (\<lambda>(p, _). prefix pfx (rel_key base p)) (walk_files base d))), d)) d of
        (Inl e, d) \<Rightarrow> (Inl (Wrap ''localfs: list: '' e), d)
      | (Inr x, d) \<Rightarrow> (Inr x, d))"

definition Delete :: "localfs_storage \<Rightarrow> string \<Rightarrow> (disk, unit) op" where
  "Delete s key d =
     (case Remove (fs_path (lf_root s) key) d of
        (RemoveFailed e, d) \<Rightarrow> (Inl (Wrap (''localfs: delete '' @ key @ '': '') e), d)
      | (_, d) \<Rightarrow> (Inr (), d))"

subsection \<open>Frames\<close>

lemma map_of_filter_neq: "map_of (filter (\<lambda>(q, _). q \<noteq> p) xs) q = (if q = p then None else map_of xs q)"
  by (induction xs) auto

lemma file_at_put [simp]: "file_at (put_file p f d) q = (if q = p then Some f else file_at d q)"
  by (simp add: file_at_def put_file_def map_of_filter_neq)

lemma file_at_drop [simp]: "file_at (drop_file p d) q = (if q = p then None else file_at d q)"
  by (simp add: file_at_def drop_file_def map_of_filter_neq)

lemma file_at_update [simp]:
  "file_at (d\<lparr>dk_faults := bs\<rparr>) = file_at d" "file_at (d\<lparr>dk_dirs := ps\<rparr>) = file_at d"
  by (simp_all add: file_at_def fun_eq_iff)

lemma syscall_cases:
  assumes "syscall f d = (r, d')"
  obtains (fault) e bs where "r = Inl e" "d' = d\<lparr>dk_faults := bs\<rparr>"
  | (ran) bs where "f (d\<lparr>dk_faults := bs\<rparr>) = (r, d')"
proof (cases "dk_faults d")
  case Nil
  have "d\<lparr>dk_faults := []\<rparr> = d" using Nil by (cases d) simp
  moreover have "f d = (r, d')" using assms Nil by (simp add: syscall_def)
  ultimately show ?thesis using ran by metis
next
  case (Cons b bs)
  then show ?thesis
    using assms by (cases b) (auto simp: syscall_def intro: fault ran)
qed

text \<open>Which files a call leaves alone: all but those at the given paths.\<close>

definition only_at :: "string list set \<Rightarrow> disk \<Rightarrow> disk \<Rightarrow> bool" where
  "only_at ps d d' = (\<forall>q. q \<notin> ps \<longrightarrow> file_at d' q = file_at d q)"

lemma only_at_refl [simp]: "only_at ps d d"
  by (simp add: only_at_def)

lemma only_at_trans: "only_at ps d e \<Longrightarrow> only_at ps e f \<Longrightarrow> only_at ps d f"
  by (simp add: only_at_def)

lemma only_at_mono: "only_at ps d e \<Longrightarrow> ps \<subseteq> qs \<Longrightarrow> only_at qs d e"
  by (auto simp: only_at_def)

lemma MkdirAll_frame: "MkdirAll p d = (r, d') \<Longrightarrow> only_at {} d d'"
  unfolding MkdirAll_def by (erule syscall_cases) (auto simp: only_at_def split: if_splits)

lemma Sync_frame: "Sync d = (r, d') \<Longrightarrow> only_at {} d d'"
  unfolding Sync_def by (erule syscall_cases) (auto simp: only_at_def)

lemma Close_frame: "Close d = (r, d') \<Longrightarrow> only_at {} d d'"
  unfolding Close_def by (erule syscall_cases) (auto simp: only_at_def)

lemma temp_name_fresh: "file_at d (dir @ [temp_name d]) = None"
proof (rule ccontr)
  assume "file_at d (dir @ [temp_name d]) \<noteq> None"
  then obtain f where "(dir @ [temp_name d], f) \<in> set (dk_files d)"
    by (auto simp: file_at_def dest: map_of_SomeD)
  then have "temp_name d \<in> set (concat (map fst (dk_files d)))" by force
  then have "length (temp_name d) \<le> sum_list (map length (concat (map fst (dk_files d))))"
    by (intro member_le_sum_list) auto
  then show False by (simp add: temp_name_def)
qed

lemma CreateTemp_cases:
  assumes "CreateTemp dir d = (r, d')"
  obtains (error) e where "r = Inl e" "only_at {} d d'"
  | (created) p where "r = Inr p" "butlast p = dir" "p \<noteq> []" "prefix ''.dr-'' (last p)" "file_at d p = None"
      "only_at {p} d d'"
  using assms unfolding CreateTemp_def
proof (rule syscall_cases)
  fix bs
  let ?p = "dir @ [temp_name (d\<lparr>dk_faults := bs\<rparr>)]"
  assume "(if \<not> is_dir (d\<lparr>dk_faults := bs\<rparr>) dir
     then (Inl (os_error ''no such file or directory''), d\<lparr>dk_faults := bs\<rparr>)
     else let p = ?p in (Inr p, put_file p \<lparr>fl_data = [], fl_mtime = dk_clock (d\<lparr>dk_faults := bs\<rparr>)\<rparr> (d\<lparr>dk_faults := bs\<rparr>))) = (r, d')"
  moreover have "file_at d ?p = None" using temp_name_fresh [of "d\<lparr>dk_faults := bs\<rparr>" dir] by simp
  moreover have "prefix ''.dr-'' (temp_name (d\<lparr>dk_faults := bs\<rparr>))" by (simp add: temp_name_def)
  ultimately show thesis
    by (cases "is_dir (d\<lparr>dk_faults := bs\<rparr>) dir")
      (auto simp: Let_def only_at_def intro: error created)
qed (auto simp: only_at_def intro: error)

lemma Copy_frame:
  "Copy p rd d = (r, d') \<Longrightarrow> only_at {p} d d' \<and>
     (\<forall>n. r = Inr n \<longrightarrow> n = length (fst rd) \<and> snd rd = None \<and> map_option fl_data (file_at d' p) = Some (fst rd))"
  unfolding Copy_def by (erule syscall_cases) (auto simp: only_at_def split: option.splits)

lemma Rename_frame:
  "Rename p q d = (r, d') \<Longrightarrow>
     (case r of Inl _ \<Rightarrow> only_at {} d d'
      | Inr _ \<Rightarrow> only_at {p, q} d d' \<and> file_at d p \<noteq> None \<and> file_at d' q = file_at d p \<and> (p \<noteq> q \<longrightarrow> file_at d' p = None))"
  unfolding Rename_def by (erule syscall_cases) (auto simp: only_at_def split: if_splits option.splits)

lemma Remove_frame:
  "Remove p d = (r, d') \<Longrightarrow>
     only_at {p} d d' \<and> (file_at d' p = None \<or> file_at d' p = file_at d p) \<and>
     ((\<forall>e. r \<noteq> RemoveFailed e) \<longrightarrow> file_at d' p = None)"
  unfolding Remove_def
  by (auto split: prod.splits sum.splits if_splits elim!: syscall_cases simp: remove_entry_def only_at_def)

lemma discard_frame: "discard tmp e d = (r, d') \<Longrightarrow> r = Inl e \<and> only_at {tmp} d d'"
  using Remove_frame [of tmp d "fst (Remove tmp d)" "snd (Remove tmp d)"]
  by (auto simp: discard_def)

text \<open>Everything Write does before the rename stays at the temporary file.\<close>

lemma Write_cases:
  assumes "Write s key rd d = (r, d')"
  obtains (no_temp) e where "r = Inl e" "only_at {} d d'"
  | (failed) e tmp where "r = Inl e" "only_at {tmp} d d'" "butlast tmp = butlast (fs_path (lf_root s) key)"
      "prefix ''.dr-'' (last tmp)" "tmp \<noteq> []" "file_at d tmp = None"
  | (written) tmp where "r = Inr \<lparr>om_key = key, om_size = int (length (fst rd))\<rparr>" "snd rd = None"
      "only_at {tmp, fs_path (lf_root s) key} d d'"
      "map_option fl_data (file_at d' (fs_path (lf_root s) key)) = Some (fst rd)"
      "prefix ''.dr-'' (last tmp)" "file_at d tmp = None"
      "tmp \<noteq> fs_path (lf_root s) key \<longrightarrow> file_at d' tmp = None"
proof -
  let ?dst = "fs_path (lf_root s) key"
  obtain r1 d1 where m: "MkdirAll (butlast ?dst) d = (r1, d1)" by fastforce
  note f1 = MkdirAll_frame [OF m]
  obtain r2 d2 where c: "CreateTemp (butlast ?dst) d1 = (r2, d2)" by fastforce
  show thesis
  proof (cases r1)
    case (Inl e)
    with assms m f1 show thesis by (auto simp: Write_def Let_def intro: no_temp)
  next
    case r1: (Inr u)
    from c show thesis
    proof (rule CreateTemp_cases)
      fix e assume "r2 = Inl e" "only_at {} d1 d2"
      with assms m r1 c only_at_trans [OF f1] show thesis
        by (auto simp: Write_def Let_def intro: no_temp)
    next
      fix tmp
      assume r2: "r2 = Inr tmp" and t: "butlast tmp = butlast ?dst" "tmp \<noteq> []" "prefix ''.dr-'' (last tmp)"
        and none: "file_at d1 tmp = None" and f2: "only_at {tmp} d1 d2"
      have none: "file_at d tmp = None" using none f1 by (simp add: only_at_def)
      have f2: "only_at {tmp} d d2" using only_at_trans [OF only_at_mono [OF f1] f2] by simp
      have sub: "only_at {tmp} x y" if "only_at {} x y" for x y using only_at_mono [OF that] by simp
      obtain r3 d3 where cp: "Copy tmp rd d2 = (r3, d3)" by fastforce
      note f3 = only_at_trans [OF f2 conjunct1 [OF Copy_frame [OF cp]]]
      obtain r4 d4 where sy: "Sync d3 = (r4, d4)" by fastforce
      note f4 = only_at_trans [OF f3 sub [OF Sync_frame [OF sy]]]
      obtain r5 d5 where cl: "Close d4 = (r5, d5)" by fastforce
      note f5 = only_at_trans [OF f4 sub [OF Close_frame [OF cl]]]
      obtain r6 d6 where rn: "Rename tmp ?dst d5 = (r6, d6)" by fastforce
      have closed: "only_at {tmp} d (snd (Close x))" if "only_at {tmp} d x" for x
        using only_at_trans [OF that sub [OF Close_frame [of x]]] by (metis prod.collapse)
      have fails: thesis if "discard tmp e x = (r, d')" "only_at {tmp} d x" for e x
      proof -
        from discard_frame [OF that(1)] have "r = Inl e" "only_at {tmp} d d'"
          using only_at_trans [OF that(2)] by auto
        then show thesis using t none by (intro failed)
      qed
      note w = assms m r1 c r2 cp sy cl rn and wr = Write_def Let_def
      show thesis
      proof (cases r3)
        case (Inl e)
        with w show thesis by (intro fails [OF _ closed [OF f3]]) (simp add: wr)
      next
        case r3: (Inr n)
        show thesis
        proof (cases r4)
          case (Inl e)
          with w r3 show thesis by (intro fails [OF _ closed [OF f4]]) (simp add: wr)
        next
          case r4: (Inr u4)
          show thesis
          proof (cases r5)
            case (Inl e)
            with w r3 r4 show thesis by (intro fails [OF _ f5]) (simp add: wr)
          next
            case r5: (Inr u5)
            show thesis
            proof (cases r6)
              case (Inl e)
              then have "only_at {} d5 d6" using Rename_frame [OF rn] by simp
              with w r3 r4 r5 Inl show thesis
                by (intro fails [OF _ only_at_trans [OF f5 sub]]) (simp_all add: wr)
            next
              case r6: (Inr u6)
              have d': "r = Inr \<lparr>om_key = key, om_size = int n\<rparr>" "d' = d6"
                using w r3 r4 r5 r6 by (simp_all add: wr)
              have n: "n = length (fst rd)" "snd rd = None" "map_option fl_data (file_at d3 tmp) = Some (fst rd)"
                using Copy_frame [OF cp] r3 by auto
              have "file_at d5 tmp = file_at d3 tmp"
                using Sync_frame [OF sy] Close_frame [OF cl] by (simp add: only_at_def)
              with n Rename_frame [OF rn] r6 have x: "map_option fl_data (file_at d6 ?dst) = Some (fst rd)"
                "only_at {tmp, ?dst} d5 d6" "tmp \<noteq> ?dst \<longrightarrow> file_at d6 tmp = None"
                by auto
              have "only_at {tmp, ?dst} d d6" using only_at_trans [OF only_at_mono [OF f5] x(2)] by simp
              with x n d' t none show thesis by (intro written [of tmp]) auto
            qed
          qed
        qed
      qed
    qed
  qed
qed

text \<open>
  C32: Write is atomic: on success the key reads back as exactly the bytes of the reader, on any
  error (of a system call or of the reader) it holds what it held before, and in both cases no
  other file changes, except that a temporary file may stay behind after an error.
\<close>

theorem localfs_write_atomic:
  assumes "Write s key rd d = (r, d')" "\<not> prefix ''.dr-'' (last (fs_path (lf_root s) key))"
  shows "(case r of
       Inr m \<Rightarrow> om_size m = int (length (fst rd)) \<and> snd rd = None \<and>
         map_option fl_data (file_at d' (fs_path (lf_root s) key)) = Some (fst rd) \<and>
         (\<forall>q. q \<noteq> fs_path (lf_root s) key \<longrightarrow> file_at d' q = file_at d q)
     | Inl e \<Rightarrow> file_at d' (fs_path (lf_root s) key) = file_at d (fs_path (lf_root s) key) \<and>
         (\<forall>q. file_at d' q = file_at d q \<or> file_at d q = None \<and> prefix ''.dr-'' (last q)))"
  using assms(1)
proof (rule Write_cases)
  fix e assume "r = Inl e" "only_at {} d d'"
  then show ?thesis by (simp add: only_at_def)
next
  fix e tmp
  assume "r = Inl e" "only_at {tmp} d d'" "prefix ''.dr-'' (last tmp)" "file_at d tmp = None"
  then have "\<forall>q. file_at d' q = file_at d q \<or> q = tmp" by (auto simp: only_at_def)
  moreover have "fs_path (lf_root s) key \<noteq> tmp"
    using \<open>prefix ''.dr-'' (last tmp)\<close> assms(2) by auto
  ultimately show ?thesis
    using \<open>r = Inl e\<close> \<open>prefix ''.dr-'' (last tmp)\<close> \<open>file_at d tmp = None\<close> by (simp, metis)
next
  fix tmp
  assume "r = Inr \<lparr>om_key = key, om_size = int (length (fst rd))\<rparr>" "snd rd = None"
    "only_at {tmp, fs_path (lf_root s) key} d d'"
    "map_option fl_data (file_at d' (fs_path (lf_root s) key)) = Some (fst rd)"
    "prefix ''.dr-'' (last tmp)" "file_at d tmp = None"
    "tmp \<noteq> fs_path (lf_root s) key \<longrightarrow> file_at d' tmp = None"
  moreover from this have "tmp \<noteq> fs_path (lf_root s) key" using assms(2) by auto
  ultimately have *: "r = Inr \<lparr>om_key = key, om_size = int (length (fst rd))\<rparr>" "snd rd = None"
    "map_option fl_data (file_at d' (fs_path (lf_root s) key)) = Some (fst rd)"
    and frame: "\<forall>q. q \<noteq> tmp \<and> q \<noteq> fs_path (lf_root s) key \<longrightarrow> file_at d' q = file_at d q"
    and tmp: "file_at d' tmp = file_at d tmp"
    by (auto simp: only_at_def)
  have "file_at d' q = file_at d q" if "q \<noteq> fs_path (lf_root s) key" for q
    using frame tmp that by (cases "q = tmp") auto
  with * show ?thesis by simp
qed

definition sample_disk :: disk where
  "sample_disk = \<lparr>dk_files = [([''srv'', ''a'', ''x''], \<lparr>fl_data = ''old'', fl_mtime = 0\<rparr>)],
     dk_dirs = [[''srv''], [''srv'', ''a'']], dk_locked = [], dk_clock = 5, dk_faults = []\<rparr>"

theorem localfs_write_atomic_witness:
  "map_option fl_data (file_at (snd (Write \<lparr>lf_root = ''/srv''\<rparr> ''a/x'' (''new'', None) sample_disk))
     [''srv'', ''a'', ''x'']) = Some ''new'' \<and>
   map_option fl_data (file_at (snd (Write \<lparr>lf_root = ''/srv''\<rparr> ''a/x'' (''new'', Some (Errorf ''eof'')) sample_disk))
     [''srv'', ''a'', ''x'']) = Some ''old''"
proof -
  have p: "fs_path ''/srv'' ''a/x'' = [''srv'', ''a'', ''x'']"
    by (simp add: fs_path_def clean_def clean_step_def)
  have ok: "is_ok (fst (Write \<lparr>lf_root = ''/srv''\<rparr> ''a/x'' (''new'', None) sample_disk))"
    "\<not> is_ok (fst (Write \<lparr>lf_root = ''/srv''\<rparr> ''a/x'' (''new'', Some (Errorf ''eof'')) sample_disk))"
    by code_simp+
  note w = localfs_write_atomic [OF prod.collapse [symmetric], of "\<lparr>lf_root = ''/srv''\<rparr>" "''a/x''", simplified p localfs_storage.simps]
  show ?thesis
    using w [of "(''new'', None)" sample_disk] w [of "(''new'', Some (Errorf ''eof''))" sample_disk] ok
    by (auto simp: p is_ok_def sample_disk_def file_at_def split: sum.splits)
qed

end
