(* ===== verification/AlertStore.thy ===== *)
theory AlertStore
  imports Repo "HOL-Library.List_Lexorder" "HOL-Library.Char_ord"
begin

text \<open>
  The remaining catalog statements: alert episodes and run history (alert.go), watchdog markers
  (watchdog.go), sweep history (sweep.go) and channels with the delivery log (notifier.go).
\<close>

subsection \<open>Alert episodes\<close>

definition is_alert :: "string \<Rightarrow> string \<Rightarrow> alert_row \<Rightarrow> bool" where
  "is_alert k s a = (al_kind a = k \<and> al_subject a = s)"

definition alert_level :: "string \<Rightarrow> string \<Rightarrow> db \<Rightarrow> int" where
  "alert_level k s d = (case find (is_alert k s) (alert_state d) of None \<Rightarrow> 0 | Some a \<Rightarrow> al_level a)"

definition upsert_alert :: "string \<Rightarrow> string \<Rightarrow> int \<Rightarrow> time \<Rightarrow> db \<Rightarrow> db" where
  "upsert_alert k s level at d =
     (if list_ex (is_alert k s) (alert_state d)
      then d\<lparr>alert_state := map (\<lambda>a. if is_alert k s a then a\<lparr>al_level := level\<rparr> else a) (alert_state d)\<rparr>
      else d\<lparr>alert_state := alert_state d @
        [\<lparr>al_kind = k, al_subject = s, al_level = level, al_opened = unix_to_time (unix at)\<rparr>]\<rparr>)"

definition OpenAlert :: "string \<Rightarrow> string \<Rightarrow> int \<Rightarrow> time \<Rightarrow> (db, int) op" where
  "OpenAlert k s level at =
     stmt ''open alert: '' (\<lambda>d. (Inr (alert_level k s d), upsert_alert k s level at d))"

definition CloseAlert :: "string \<Rightarrow> string \<Rightarrow> (db, bool) op" where
  "CloseAlert k s =
     stmt ''close alert: '' (\<lambda>d. (Inr (list_ex (is_alert k s) (alert_state d)),
       d\<lparr>alert_state := filter (\<lambda>a. \<not> is_alert k s a) (alert_state d)\<rparr>))"

definition AlertLevel :: "string \<Rightarrow> string \<Rightarrow> (db, int) op" where
  "AlertLevel k s = query ''alert level: '' (alert_level k s)"

text \<open>The primary key of alert_state, and levels above 0 for open episodes.\<close>

definition alerts_ok :: "db \<Rightarrow> bool" where
  "alerts_ok d = (distinct (map (\<lambda>a. (al_kind a, al_subject a)) (alert_state d)) \<and>
     list_all (\<lambda>a. al_level a > 0) (alert_state d))"

definition RecentArtifactSizes :: "rowid \<Rightarrow> rowid \<Rightarrow> nat \<Rightarrow> (db, int list) op" where
  "RecentArtifactSizes tid beforeRun n =
     query ''recent artifact sizes: ''
       (\<lambda>d. take n (map snd (filter (\<lambda>(i, s). i < beforeRun) (success_sizes tid d))))"

definition run_duration :: "run \<Rightarrow> duration option" where
  "run_duration r = (case (run_started r, run_finished r) of
     (Some s, Some f) \<Rightarrow> Some (f - s) | _ \<Rightarrow> None)"

definition RecentRunDurations :: "rowid \<Rightarrow> nat \<Rightarrow> (db, duration list) op" where
  "RecentRunDurations tid n =
     query ''recent run durations: ''
       (\<lambda>d. take n (map (the \<circ> run_duration) (rev (sort_key run_id
          (filter (\<lambda>r. run_task r = tid \<and> run_status r = StatusSuccess \<and> run_duration r \<noteq> None) (runs d))))))"

subsection \<open>Watchdog markers\<close>

definition last_success :: "db \<Rightarrow> rowid \<Rightarrow> time option" where
  "last_success d tid =
     (let ts = map (\<lambda>r. case run_finished r of Some t \<Rightarrow> t | None \<Rightarrow> run_created r)
                 (filter (\<lambda>r. run_task r = tid \<and> run_status r = StatusSuccess) (runs d))
      in if ts = [] then None else Some (Max (set ts)))"

definition LastSuccessByTask :: "(db, rowid \<Rightarrow> time option) op" where
  "LastSuccessByTask = query ''last success by task: '' last_success"

definition ListWatchdogAlerts :: "(db, wd_record list) op" where
  "ListWatchdogAlerts = query ''list watchdog alerts: '' wd_alerts"

definition stored_wd :: "wd_record \<Rightarrow> wd_record" where
  "stored_wd w = \<lparr>wdr_task = wdr_task w, wdr_alerted = unix_to_time (unix (wdr_alerted w)),
     wdr_last_success = map_option (\<lambda>t. unix_to_time (unix t)) (wdr_last_success w)\<rparr>"

definition MarkWatchdogAlerted :: "wd_record \<Rightarrow> (db, unit) op" where
  "MarkWatchdogAlerted w =
     (let what = ''mark watchdog alert for task '' @ dec (wdr_task w) @ '': '' in
      stmt what (\<lambda>d.
        if wdr_task w \<notin> set (map task_id (tasks d)) then (Inl (Wrap what foreign_key_violation), d)
        else if wdr_task w \<in> set (map wdr_task (wd_alerts d))
        then (Inr (), d\<lparr>wd_alerts := map (\<lambda>x. if wdr_task x = wdr_task w then stored_wd w else x) (wd_alerts d)\<rparr>)
        else (Inr (), d\<lparr>wd_alerts := wd_alerts d @ [stored_wd w]\<rparr>)))"

definition ClearWatchdogAlert :: "rowid \<Rightarrow> (db, unit) op" where
  "ClearWatchdogAlert tid =
     stmt (''clear watchdog alert for task '' @ dec tid @ '': '')
       (\<lambda>d. (Inr (), d\<lparr>wd_alerts := filter (\<lambda>w. wdr_task w \<noteq> tid) (wd_alerts d)\<rparr>))"

subsection \<open>Sweep history\<close>

definition InsertSweep :: "sweep \<Rightarrow> (db, rowid) op" where
  "InsertSweep s = stmt ''insert retention sweep: '' (\<lambda>d.
     let i = next_id (map sweep_id (sweeps d)) in
     (Inr i, d\<lparr>sweeps := sweeps d @
        [s\<lparr>sweep_id := i, sweep_started := unix_to_time (unix (sweep_started s)),
           sweep_finished := unix_to_time (unix (sweep_finished s))\<rparr>]\<rparr>))"

definition defaultSweepLimit :: int where "defaultSweepLimit = 50"

definition ListSweeps :: "int \<Rightarrow> (db, sweep list) op" where
  "ListSweeps limit =
     query ''list retention sweeps: '' (\<lambda>d.
       take (nat (if limit \<le> 0 then defaultSweepLimit else limit))
         (sort_key (\<lambda>s. Newest (sweep_started s) (sweep_id s)) (sweeps d)))"

definition ArtifactStatsByTask :: "(db, rowid \<Rightarrow> (int \<times> int) option) op" where
  "ArtifactStatsByTask =
     query ''artifact stats by task: '' (\<lambda>d tid.
       let as = task_artifacts tid d in
       if as = [] then None else Some (int (length as), sum_list (map art_size as)))"

subsection \<open>Channels\<close>

definition ListNotifiers :: "(db, channel list) op" where
  "ListNotifiers = query ''list notifiers: '' (\<lambda>d. sort_key ch_id (channels d))"

definition GetNotifier :: "rowid \<Rightarrow> (db, channel) op" where
  "GetNotifier i = query_row ''scan notifier: '' (\<lambda>d. find (\<lambda>c. ch_id c = i) (channels d))"

definition CreateNotifier :: "channel \<Rightarrow> (db, rowid) op" where
  "CreateNotifier c =
     (let what = ''create notifier '' @ quoted (ch_name c) @ '': '' in
      stmt what (\<lambda>d.
        if ch_name c \<in> set (map ch_name (channels d)) then (Inl (Wrap what unique_violation), d)
        else let i = next_id (map ch_id (channels d)) in
          (Inr i, d\<lparr>channels := channels d @
             [c\<lparr>ch_id := i, ch_config := raw_or_empty_object (ch_config c), ch_created := now_time d\<rparr>]\<rparr>)))"

definition rename_in :: "string \<Rightarrow> string \<Rightarrow> task \<Rightarrow> task" where
  "rename_in old new t =
     t\<lparr>task_notifiers := map (\<lambda>n. if n = old then new else n) (task_notifiers t)\<rparr>"

definition UpdateNotifier :: "channel \<Rightarrow> (db, unit) op" where
  "UpdateNotifier c =
     (let what = ''update notifier '' @ dec (ch_id c) @ '': '' in
      stmt what (\<lambda>d.
        case find (\<lambda>x. ch_id x = ch_id c) (channels d) of
          None \<Rightarrow> (Inl ErrNotFound, d)
        | Some old \<Rightarrow>
            if list_ex (\<lambda>x. ch_id x \<noteq> ch_id c \<and> ch_name x = ch_name c) (channels d)
            then (Inl (Wrap what unique_violation), d)
            else let d' = d\<lparr>channels := map (\<lambda>x. if ch_id x = ch_id c
                   then c\<lparr>ch_config := raw_or_empty_object (ch_config c), ch_created := ch_created x\<rparr>
                   else x) (channels d)\<rparr>
                 in (Inr (), if ch_name old \<noteq> ch_name c
                   then d'\<lparr>tasks := map (\<lambda>t. if ch_name old \<in> set (task_notifiers t)
                          then rename_in (ch_name old) (ch_name c) t else t) (tasks d')\<rparr>
                   else d')))"

definition notifier_users :: "string \<Rightarrow> db \<Rightarrow> string list" where
  "notifier_users n d =
     sort (concat (map (\<lambda>t. map (\<lambda>_. task_name t) (filter (\<lambda>x. x = n) (task_notifiers t))) (tasks d)))"

definition NotifierUsers :: "string \<Rightarrow> (db, string list) op" where
  "NotifierUsers n = query (''notifier users for '' @ quoted n @ '': '') (notifier_users n)"

definition go_list :: "string list \<Rightarrow> string" where
  "go_list xs = ''['' @ concat (case xs of [] \<Rightarrow> [] | y # ys \<Rightarrow> y # map (\<lambda>x. '' '' @ x) ys) @ '']''"

definition DeleteNotifier :: "rowid \<Rightarrow> (db, unit) op" where
  "DeleteNotifier i d =
     (case GetNotifier i d of
        (Inl e, d) \<Rightarrow> (Inl e, d)
      | (Inr ch, d) \<Rightarrow>
          (case NotifierUsers (ch_name ch) d of
             (Inl e, d) \<Rightarrow> (Inl e, d)
           | (Inr users, d) \<Rightarrow>
               if users \<noteq> [] then (Inl (Detail ErrInUse ('': used by '' @ go_list users)), d)
               else stmt (''delete notifier '' @ dec i @ '': '') (\<lambda>d.
                 if i \<notin> set (map ch_id (channels d)) then (Inl ErrNotFound, d)
                 else (Inr (), d\<lparr>channels := filter (\<lambda>c. ch_id c \<noteq> i) (channels d)\<rparr>)) d))"

subsection \<open>The delivery log\<close>

definition InsertNotification :: "notification \<Rightarrow> (db, rowid) op" where
  "InsertNotification n = stmt ''insert notification: '' (\<lambda>d.
     let i = next_id (map ntf_id (notifications d)) in
     (Inr i, d\<lparr>notifications := notifications d @
        [n\<lparr>ntf_id := i, ntf_created := unix_to_time (unix (ntf_created n))\<rparr>]\<rparr>))"

definition log_order :: "notification \<Rightarrow> newest" where
  "log_order n = Newest (ntf_created n) (ntf_id n)"

definition defaultNotificationLimit :: int where "defaultNotificationLimit = 50"
definition defaultNotificationKeep :: int where "defaultNotificationKeep = 5000"

definition ListNotifications :: "int \<Rightarrow> (db, notification list) op" where
  "ListNotifications limit =
     query ''list notifications: '' (\<lambda>d.
       take (nat (if limit \<le> 0 then defaultNotificationLimit else limit))
         (sort_key log_order (notifications d)))"

definition PruneNotifications :: "int \<Rightarrow> (db, int) op" where
  "PruneNotifications keep = stmt ''prune notifications: '' (\<lambda>d.
     let keep = (if keep \<le> 0 then defaultNotificationKeep else keep);
         kept = set (map ntf_id (take (nat keep) (sort_key log_order (notifications d))))
     in (Inr (int (length (filter (\<lambda>n. ntf_id n \<notin> kept) (notifications d)))),
         d\<lparr>notifications := filter (\<lambda>n. ntf_id n \<in> kept) (notifications d)\<rparr>))"

subsection \<open>Secrets\<close>

definition strip_prefix :: "string \<Rightarrow> string \<Rightarrow> string" where
  "strip_prefix p s = (if prefix p s then drop (length p) s else s)"

definition GetSecretByRef :: "string \<Rightarrow> (db, secret) op" where
  "GetSecretByRef ref =
     (let name = strip_prefix ''secret://'' ref in
      query_row ''scan secret: '' (\<lambda>d. find (\<lambda>s. sec_name s = name) (secrets d)))"

definition PutSecret :: "secret \<Rightarrow> (db, unit) op" where
  "PutSecret s = stmt (''put secret '' @ quoted (sec_name s) @ '': '') (\<lambda>d.
     if sec_name s \<in> set (map sec_name (secrets d))
     then (Inr (), d\<lparr>secrets := map (\<lambda>x. if sec_name x = sec_name s
            then x\<lparr>sec_type := sec_type s, sec_cipher := sec_cipher s, sec_key := sec_key s\<rparr> else x) (secrets d)\<rparr>)
     else (Inr (), d\<lparr>secrets := secrets d @ [s\<lparr>sec_id := next_id (map sec_id (secrets d)),
            sec_created := now_time d, sec_last_used := None\<rparr>]\<rparr>))"

definition DeleteSecret :: "rowid \<Rightarrow> (db, unit) op" where
  "DeleteSecret i = stmt (''delete secret '' @ dec i @ '': '') (\<lambda>d.
     if i \<notin> set (map sec_id (secrets d)) then (Inl ErrNotFound, d)
     else (Inr (), d\<lparr>secrets := filter (\<lambda>s. sec_id s \<noteq> i) (secrets d)\<rparr>))"

subsection \<open>Alert episodes: the effect of each statement\<close>

lemma alert_level_upsert:
  "alert_level k s (upsert_alert k' s' l t d) =
     (if k = k' \<and> s = s' then l else alert_level k s d)"
proof -
  have map_other: "find (is_alert k s) (map (\<lambda>a. if is_alert k' s' a then a\<lparr>al_level := l\<rparr> else a) as) =
      find (is_alert k s) as" if "(k, s) \<noteq> (k', s')" for as
    using that by (induction as) (auto simp: is_alert_def)
  have map_same: "list_ex (is_alert k s) as \<Longrightarrow>
      \<exists>a. find (is_alert k s) (map (\<lambda>a. if is_alert k s a then a\<lparr>al_level := l\<rparr> else a) as) = Some (a\<lparr>al_level := l\<rparr>)" for as
    by (induction as) (auto simp: is_alert_def)
  have app: "find P (as @ [a]) = (case find P as of Some x \<Rightarrow> Some x | None \<Rightarrow> if P a then Some a else None)"
    for P and as :: "alert_row list" and a
    by (induction as) auto
  have none: "\<not> list_ex P as \<Longrightarrow> find P as = None" for P and as :: "alert_row list"
    by (auto simp: list_ex_iff find_None_iff)
  show ?thesis
  proof (cases "k = k' \<and> s = s'")
    case True
    then show ?thesis
      using map_same [of "alert_state d"] none [of "is_alert k s" "alert_state d"]
      by (auto simp: upsert_alert_def alert_level_def app) (simp add: is_alert_def)
  next
    case False
    then show ?thesis
      using map_other [of "alert_state d"]
      by (auto simp: upsert_alert_def alert_level_def app is_alert_def split: option.split)
  qed
qed

lemma alert_level_faults [simp]: "alert_level k s (d\<lparr>faults := fs\<rparr>) = alert_level k s d"
  by (simp add: alert_level_def)

lemma alert_level_runs [simp]: "alert_level k s (d\<lparr>runs := rs\<rparr>) = alert_level k s d"
  by (simp add: alert_level_def)

lemma alert_level_filter:
  "alert_level k s (d\<lparr>alert_state := filter (\<lambda>a. \<not> is_alert k' s' a) (alert_state d)\<rparr>) =
     (if k = k' \<and> s = s' then 0 else alert_level k s d)"
proof -
  have "find (is_alert k s) (filter (\<lambda>a. \<not> is_alert k' s' a) as) =
      (if k = k' \<and> s = s' then None else find (is_alert k s) as)" for as
    by (induction as) (auto simp: is_alert_def [abs_def])
  then show ?thesis by (simp add: alert_level_def)
qed

lemma alert_open_iff: "alerts_ok d \<Longrightarrow> list_ex (is_alert k s) (alert_state d) \<longleftrightarrow> alert_level k s d > 0"
proof -
  have "list_all (\<lambda>a. al_level a > 0) as \<Longrightarrow>
    list_ex (is_alert k s) as = (case find (is_alert k s) as of None \<Rightarrow> False | Some a \<Rightarrow> al_level a > 0)" for as
    by (induction as) auto
  then show "alerts_ok d \<Longrightarrow> ?thesis"
    by (auto simp: alerts_ok_def alert_level_def split: option.split)
qed

lemma upsert_alert_ok:
  assumes "alerts_ok d" "l > 0"
  shows "alerts_ok (upsert_alert k s l t d)"
proof (cases "list_ex (is_alert k s) (alert_state d)")
  case True
  let ?f = "\<lambda>a. if is_alert k s a then a\<lparr>al_level := l\<rparr> else a"
  have "map (\<lambda>a. (al_kind a, al_subject a)) (map ?f (alert_state d)) = map (\<lambda>a. (al_kind a, al_subject a)) (alert_state d)"
    by simp
  then show ?thesis
    using True assms unfolding alerts_ok_def upsert_alert_def
    by (simp del: map_map) (auto simp: list_all_iff)
next
  case False
  then show ?thesis
    using assms by (auto simp: alerts_ok_def upsert_alert_def list_ex_iff is_alert_def)
qed

lemma OpenAlert_cases:
  assumes "OpenAlert k s l t d = (r, d')"
  obtains (error) e where "r = Inl e" "same_tables d d'"
  | (opened) bs where "r = Inr (alert_level k s d)" "d' = upsert_alert k s l t (d\<lparr>faults := bs\<rparr>)"
  using assms unfolding OpenAlert_def by (rule stmt_cases) (auto intro: error opened)

lemma CloseAlert_cases:
  assumes "CloseAlert k s d = (r, d')"
  obtains (error) e where "r = Inl e" "same_tables d d'"
  | (closed) bs where "r = Inr (list_ex (is_alert k s) (alert_state d))"
      "d' = d\<lparr>faults := bs, alert_state := filter (\<lambda>a. \<not> is_alert k s a) (alert_state d)\<rparr>"
  using assms unfolding CloseAlert_def by (rule stmt_cases) (auto intro: error closed)

lemma alerts_ok_same: "same_tables d d' \<Longrightarrow> alerts_ok d' = alerts_ok d"
  by (auto simp: alerts_ok_def same_tables_selectors)

lemma alert_level_same: "same_tables d d' \<Longrightarrow> alert_level k s d' = alert_level k s d"
  by (simp add: alert_level_def same_tables_selectors)

lemma upsert_alert_db_ok [simp]: "db_ok (upsert_alert k s l t d) = db_ok d"
  by (simp add: upsert_alert_def db_ok_def)

lemma db_ok_alert_state [simp]: "db_ok (d\<lparr>alert_state := as\<rparr>) = db_ok d"
  by (simp add: db_ok_def)

lemma OpenAlert_ok [inv_intros]: "OpenAlert k s l t d = (r, d') \<Longrightarrow> db_ok d \<Longrightarrow> db_ok d'"
  by (erule OpenAlert_cases) (auto simp: db_ok_same_tables)

lemma CloseAlert_ok [inv_intros]: "CloseAlert k s d = (r, d') \<Longrightarrow> db_ok d \<Longrightarrow> db_ok d'"
  by (erule CloseAlert_cases) (auto simp: db_ok_same_tables db_ok_alert_state)

lemma MarkWatchdogAlerted_ok [inv_intros]:
  "MarkWatchdogAlerted w d = (r, d') \<Longrightarrow> db_ok d \<Longrightarrow> db_ok d'"
  unfolding MarkWatchdogAlerted_def Let_def
  by (erule stmt_ok, assumption) (auto simp: db_ok_def stored_wd_def split: if_splits)

lemma ClearWatchdogAlert_ok [inv_intros]:
  "ClearWatchdogAlert tid d = (r, d') \<Longrightarrow> db_ok d \<Longrightarrow> db_ok d'"
  unfolding ClearWatchdogAlert_def
  by (erule stmt_ok, assumption) (auto simp: db_ok_def)

end
