(* ===== verification/StoreSteps.thy ===== *)
theory StoreSteps
  imports AlertStore
begin

text \<open>
  The life of the catalog: a step relation with one rule per operation that changes it, the
  states reachable from an empty database, and what holds in all of them.
\<close>

inductive store_step :: "db \<Rightarrow> db \<Rightarrow> bool" where
  enqueue: "Enqueue tid d = (r, d') \<Longrightarrow> store_step d d'"
| requeue: "Requeue tid n m d = (r, d') \<Longrightarrow> store_step d d'"
| manual: "StartManualRun tid d = (r, d') \<Longrightarrow> store_step d d'"
| claim: "ClaimNext w d = (r, d') \<Longrightarrow> store_step d d'"
| finish: "Finish rid st lg msg d = (r, d') \<Longrightarrow> \<not> is_active st \<Longrightarrow> store_step d d'"
| reap: "ReapStale d = (r, d') \<Longrightarrow> store_step d d'"
| create_connection: "CreateConnection c d = (r, d') \<Longrightarrow> store_step d d'"
| update_connection: "UpdateConnection c d = (r, d') \<Longrightarrow> store_step d d'"
| delete_connection: "DeleteConnection i d = (r, d') \<Longrightarrow> store_step d d'"
| create_storage: "CreateStorage s d = (r, d') \<Longrightarrow> store_step d d'"
| update_storage: "UpdateStorage s d = (r, d') \<Longrightarrow> store_step d d'"
| delete_storage: "DeleteStorage i d = (r, d') \<Longrightarrow> store_step d d'"
| create_task: "CreateTask t d = (r, d') \<Longrightarrow> store_step d d'"
| update_task: "UpdateTask t d = (r, d') \<Longrightarrow> store_step d d'"
| delete_task: "DeleteTask i d = (r, d') \<Longrightarrow> store_step d d'"
| insert_artifact: "InsertArtifact a d = (r, d') \<Longrightarrow> store_step d d'"
| delete_artifact: "DeleteArtifact i d = (r, d') \<Longrightarrow> store_step d d'"
| open_alert: "OpenAlert k s l t d = (r, d') \<Longrightarrow> store_step d d'"
| close_alert: "CloseAlert k s d = (r, d') \<Longrightarrow> store_step d d'"
| mark_watchdog: "MarkWatchdogAlerted w d = (r, d') \<Longrightarrow> store_step d d'"
| clear_watchdog: "ClearWatchdogAlert i d = (r, d') \<Longrightarrow> store_step d d'"
| insert_sweep: "InsertSweep s d = (r, d') \<Longrightarrow> store_step d d'"
| create_notifier: "CreateNotifier c d = (r, d') \<Longrightarrow> store_step d d'"
| update_notifier: "UpdateNotifier c d = (r, d') \<Longrightarrow> store_step d d'"
| delete_notifier: "DeleteNotifier i d = (r, d') \<Longrightarrow> store_step d d'"
| insert_notification: "InsertNotification n d = (r, d') \<Longrightarrow> store_step d d'"
| prune_notifications: "PruneNotifications k d = (r, d') \<Longrightarrow> store_step d d'"
| put_secret: "PutSecret s d = (r, d') \<Longrightarrow> store_step d d'"
| delete_secret: "DeleteSecret i d = (r, d') \<Longrightarrow> store_step d d'"
| read: "same_tables d d' \<Longrightarrow> store_step d d'"
| tick: "d' = d\<lparr>clock := t\<rparr> \<Longrightarrow> store_step d d'"

inductive reachable_db :: "db \<Rightarrow> bool" where
  start: "reachable_db (empty_db t fs)"
| step: "reachable_db d \<Longrightarrow> store_step d d' \<Longrightarrow> reachable_db d'"

text \<open>Operations on tables the invariant does not mention.\<close>

lemma db_ok_other [simp]:
  "db_ok (d\<lparr>sweeps := x1\<rparr>) = db_ok d" "db_ok (d\<lparr>channels := x2\<rparr>) = db_ok d"
  "db_ok (d\<lparr>notifications := x3\<rparr>) = db_ok d" "db_ok (d\<lparr>secrets := x4\<rparr>) = db_ok d"
  "db_ok (d\<lparr>clock := t\<rparr>) = db_ok d"
  by (simp_all add: db_ok_def)

lemma InsertSweep_ok [inv_intros]: "InsertSweep s d = (r, d') \<Longrightarrow> db_ok d \<Longrightarrow> db_ok d'"
  unfolding InsertSweep_def by (erule stmt_ok, assumption) (simp add: Let_def)

lemma CreateNotifier_ok [inv_intros]: "CreateNotifier c d = (r, d') \<Longrightarrow> db_ok d \<Longrightarrow> db_ok d'"
  unfolding CreateNotifier_def Let_def by (erule stmt_ok, assumption) (simp split: if_split)

lemma InsertNotification_ok [inv_intros]: "InsertNotification n d = (r, d') \<Longrightarrow> db_ok d \<Longrightarrow> db_ok d'"
  unfolding InsertNotification_def by (erule stmt_ok, assumption) (simp add: Let_def)

lemma PruneNotifications_ok [inv_intros]: "PruneNotifications k d = (r, d') \<Longrightarrow> db_ok d \<Longrightarrow> db_ok d'"
  unfolding PruneNotifications_def by (erule stmt_ok, assumption) (simp add: Let_def)

lemma PutSecret_ok [inv_intros]: "PutSecret s d = (r, d') \<Longrightarrow> db_ok d \<Longrightarrow> db_ok d'"
  unfolding PutSecret_def by (erule stmt_ok, assumption) (simp split: if_split)

lemma DeleteSecret_ok [inv_intros]: "DeleteSecret i d = (r, d') \<Longrightarrow> db_ok d \<Longrightarrow> db_ok d'"
  unfolding DeleteSecret_def by (erule stmt_ok, assumption) (simp split: if_split)

lemma rename_in_simps [simp]:
  "task_id (rename_in a b t) = task_id t" "task_connection (rename_in a b t) = task_connection t"
  "task_storage (rename_in a b t) = task_storage t"
  by (simp_all add: rename_in_def)

lemma rename_tasks_ok:
  assumes "db_ok d"
  shows "db_ok (d\<lparr>tasks := map (\<lambda>t. if P t then rename_in a b t else t) (tasks d)\<rparr>)"
proof (intro db_ok_tasks assms distinct_map_update db_okD(2))
  show "task_id ` set (tasks d) \<subseteq> task_id ` set (map (\<lambda>t. if P t then rename_in a b t else t) (tasks d))"
    by (subst image_map_update) simp_all
  show "task_refs_ok t d" if "t \<in> set (map (\<lambda>t. if P t then rename_in a b t else t) (tasks d))" for t
    using that db_ok_refs [OF assms] by (auto simp: task_refs_ok_def split: if_splits)
qed simp

lemma UpdateNotifier_ok [inv_intros]: "UpdateNotifier c d = (r, d') \<Longrightarrow> db_ok d \<Longrightarrow> db_ok d'"
  unfolding UpdateNotifier_def Let_def
proof (erule stmt_ok, assumption, goal_cases)
  case (1 e)
  let ?e = "e\<lparr>channels := map (\<lambda>x. if ch_id x = ch_id c
                   then c\<lparr>ch_config := raw_or_empty_object (ch_config c), ch_created := ch_created x\<rparr>
                   else x) (channels e)\<rparr>"
  have "db_ok ?e" using 1 by simp
  from rename_tasks_ok [OF this] this show ?case
    using 1 by (simp only: snd_conv if_distrib [of snd] split: option.split if_split) simp
qed

lemma DeleteNotifier_ok [inv_intros]:
  assumes "DeleteNotifier i d = (r, d')" "db_ok d"
  shows "db_ok d'"
proof -
  obtain x d1 where g: "GetNotifier i d = (x, d1)" by fastforce
  then have "same_tables d d1" unfolding GetNotifier_def by (rule query_row_same)
  then have 1: "db_ok d1" using assms(2) by (simp add: db_ok_same_tables)
  show ?thesis
  proof (cases x)
    case (Inl e)
    then show ?thesis using assms(1) g 1 by (simp add: DeleteNotifier_def)
  next
    case (Inr ch)
    obtain y d2 where u: "NotifierUsers (ch_name ch) d1 = (y, d2)" by fastforce
    then have "same_tables d1 d2" unfolding NotifierUsers_def by (rule query_same)
    then have 2: "db_ok d2" using 1 by (simp add: db_ok_same_tables)
    have del: "stmt what (\<lambda>d. if i \<notin> set (map ch_id (channels d)) then (Inl ErrNotFound, d)
        else (Inr (), d\<lparr>channels := filter (\<lambda>c. ch_id c \<noteq> i) (channels d)\<rparr>)) d2 = (r, d') \<Longrightarrow> db_ok d'" for what
      by (erule stmt_ok, rule 2) (simp split: if_split)
    show ?thesis
      using assms(1) g u Inr 2 del by (auto simp: DeleteNotifier_def split: sum.splits if_splits)
  qed
qed

lemma store_step_ok: "store_step d d' \<Longrightarrow> db_ok d \<Longrightarrow> db_ok d'"
  by (induction rule: store_step.induct) (auto intro: inv_intros simp: db_ok_same_tables)

lemma reachable_db_ok: "reachable_db d \<Longrightarrow> db_ok d"
  by (induction rule: reachable_db.induct) (auto intro: store_step_ok)

text \<open>
  C4: Whatever the daemon, the API and the workers do to the catalog, in whatever order and
  whichever statements fail, a task never has two queued or running runs.
\<close>

theorem one_active_run_per_task:
  assumes "reachable_db d"
  shows "length (filter (active_for tid) (runs d)) \<le> 1"
  using one_active_count db_okD(6) [OF reachable_db_ok [OF assms]] by blast

text \<open>
  C21: In every reachable catalog each run has its task, each artifact its run and its storage,
  each task its connection and its storage, and ids identify rows.
\<close>

theorem references_never_dangle:
  assumes "reachable_db d"
  shows "run_task ` set (runs d) \<subseteq> task_id ` set (tasks d) \<and>
    art_run ` set (artifacts d) \<subseteq> run_id ` set (runs d) \<and>
    art_storage ` set (artifacts d) \<subseteq> sto_id ` set (storages d) \<and>
    task_connection ` set (tasks d) \<subseteq> con_id ` set (connections d) \<and>
    task_storage ` set (tasks d) \<subseteq> sto_id ` set (storages d) \<and>
    distinct (map run_id (runs d)) \<and> distinct (map task_id (tasks d)) \<and>
    distinct (map art_id (artifacts d))"
  using reachable_db_ok [OF assms] by (simp add: db_ok_def)

subsection \<open>A concrete catalog\<close>

definition sample_connection :: connection where
  "sample_connection = \<lparr>con_id = 0, con_name = ''pg'', con_engine = ''postgres'', con_type = ''direct'',
     con_config = raw_empty, con_user = ''u'', con_secret_ref = [], con_created = 0\<rparr>"

definition sample_storage :: storage where
  "sample_storage = \<lparr>sto_id = 0, sto_name = ''disk'', sto_type = ''localfs'', sto_config = raw_empty,
     sto_secret_ref = [], sto_created = 0\<rparr>"

definition sample_task :: task where
  "sample_task = \<lparr>task_id = 0, task_name = ''nightly'', task_connection = 1, task_opts = raw_empty,
     task_codecs = [''zstd''], task_storage = 1, task_cron = ''0 3 * * *'',
     task_retention = \<lparr>keep_last = 3, ret_gfs = None\<rparr>, task_notifiers = [''log''],
     task_enabled = True, task_misfire = MisfireSkip, task_retries = 1, task_timeout = 0,
     task_watchdog = 0, task_enabled_at = 0, task_created = 0\<rparr>"

definition sample_catalog :: db where
  "sample_catalog = snd (CreateTask sample_task (snd (CreateStorage sample_storage
     (snd (CreateConnection sample_connection (empty_db 1000 []))))))"

definition sample_db :: db where
  "sample_db = snd (Enqueue 1 sample_catalog)"

lemma reachable_op:
  assumes "reachable_db d" "\<And>r d'. f d = (r, d') \<Longrightarrow> store_step d d'"
  shows "reachable_db (snd (f d))"
  using reachable_db.step [OF assms(1)] assms(2) by (metis prod.collapse)

lemma reachable_sample_catalog: "reachable_db sample_catalog"
  unfolding sample_catalog_def
  by (rule reachable_op, rule reachable_op, rule reachable_op, rule reachable_db.start)
    (erule create_connection create_storage create_task)+

lemma reachable_sample_db: "reachable_db sample_db"
  unfolding sample_db_def by (rule reachable_op [OF reachable_sample_catalog]) (erule enqueue)

theorem one_active_run_per_task_witness:
  "length (filter (active_for 1) (runs sample_db)) \<le> 1"
  by (rule one_active_run_per_task [OF reachable_sample_db])

theorem references_never_dangle_witness:
  "run_task ` set (runs sample_db) \<subseteq> task_id ` set (tasks sample_db)"
  using references_never_dangle [OF reachable_sample_db] by (rule conjunct1)

text \<open>A second task, so that two runs wait.\<close>

definition sample_db2 :: db where
  "sample_db2 = snd (Enqueue 2 (snd (CreateTask (sample_task\<lparr>task_name := ''hourly''\<rparr>) sample_db)))"

lemma reachable_sample_db2: "reachable_db sample_db2"
  unfolding sample_db2_def
  by (rule reachable_op, rule reachable_op [OF reachable_sample_db]) (erule create_task enqueue)+

lemma sample_db2_queue: "map run_id (sort_key run_id (queued sample_db2)) = [1, 2]"
  by code_simp

lemma sample_db2_faults: "faults sample_db2 = []"
  by code_simp

definition sample_claim1 :: "(err + run) \<times> db" where "sample_claim1 = ClaimNext ''w0'' sample_db2"
definition sample_claim2 :: "(err + run) \<times> db" where
  "sample_claim2 = ClaimNext ''w1'' (snd sample_claim1)"

lemma sample_claims: "map_sum id run_id (fst sample_claim1) = Inr 1" "map_sum id run_id (fst sample_claim2) = Inr 2"
  by (code_simp)+

theorem claim_fifo_exclusive_witness:
  "\<exists>r1 r2. fst sample_claim1 = Inr r1 \<and> fst sample_claim2 = Inr r2 \<and> run_id r1 < run_id r2"
proof -
  obtain r1 where r1: "fst sample_claim1 = Inr r1"
    using sample_claims(1) by (cases "fst sample_claim1") auto
  obtain r2 where r2: "fst sample_claim2 = Inr r2"
    using sample_claims(2) by (cases "fst sample_claim2") auto
  have c1: "ClaimNext ''w0'' sample_db2 = (Inr r1, snd sample_claim1)"
    using r1 by (metis prod.collapse sample_claim1_def)
  have c2: "ClaimNext ''w1'' (snd sample_claim1) = (Inr r2, snd sample_claim2)"
    using r2 by (metis prod.collapse sample_claim2_def)
  have "run_id r1 < run_id r2"
    using claim_fifo_exclusive [OF reachable_db_ok [OF reachable_sample_db2] c1 c2]
    by (elim conjE)
  with r1 r2 show ?thesis by blast
qed

theorem queue_drains_in_order_witness:
  "fst (claim_all (length (queued sample_db2)) ''w0'' sample_db2) = [1, 2]"
  using queue_drains_in_order [OF sample_db2_faults db_okD(1) [OF reachable_db_ok [OF reachable_sample_db2]],
      of "''w0''", unfolded sample_db2_queue]
  by (rule conjunct1)

end
