(* ===== verification/Alerts.thy ===== *)
theory Alerts
  imports StoreSteps
begin

text \<open>
  What the run-derived alerts share: the events a component sends, with the messages of the code
  as constructors over their arguments (the texts are Russian prose), the subjects of alert
  episodes, and the interface AlertStore as a locale with its laws, proved for the catalog.
\<close>

subsection \<open>Events\<close>

datatype message =
    MsgText string
  | MsgCause err
  | MsgBackupEmpty int
  | MsgBackupSmall int int nat
  | MsgRecoveredAfterFailure
  | MsgFreshSuccess
  | MsgInterrupted "time option"
  | MsgSlow duration duration nat
  | MsgUnreachable string string err
  | MsgReachableAgain string
  | MsgSpaceFreed int int int
  | MsgSpaceLow int int int
  | MsgSpaceCritical int int int
  | MsgPruned nat int
  | MsgStale duration duration bool

text \<open>An event about a task or, with an empty task name, about a subject.\<close>

record event =
  ev_kind :: event_kind
  ev_task :: string
  ev_run :: rowid
  ev_message :: message
  ev_subject :: string

definition is_test :: "event \<Rightarrow> bool" where
  "is_test ev = (kind_text (ev_kind ev) = kind_text EventSuccess \<and> ev_run ev = 0)"

definition about :: "event \<Rightarrow> string" where
  "about ev = (if ev_task ev \<noteq> [] then ev_task ev
     else if ev_subject ev \<noteq> [] then ev_subject ev else ''Duskrun'')"

definition task_event :: "task \<Rightarrow> event_kind \<Rightarrow> rowid \<Rightarrow> message \<Rightarrow> event" where
  "task_event t k rid m = \<lparr>ev_kind = k, ev_task = task_name t, ev_run = rid, ev_message = m, ev_subject = []\<rparr>"

definition system_event :: "event_kind \<Rightarrow> string \<Rightarrow> message \<Rightarrow> event" where
  "system_event k s m = \<lparr>ev_kind = k, ev_task = [], ev_run = 0, ev_message = m, ev_subject = s\<rparr>"

subsection \<open>Subjects\<close>

definition alertFailure :: string where "alertFailure = ''failure''"
definition taskSubject :: "rowid \<Rightarrow> string" where "taskSubject i = ''task:'' @ dec i"
definition storageSubject :: "rowid \<Rightarrow> string" where "storageSubject i = ''storage:'' @ dec i"

lemma subject_inj [simp]:
  "taskSubject i = taskSubject j \<longleftrightarrow> i = j" "storageSubject i = storageSubject j \<longleftrightarrow> i = j"
  "taskSubject i \<noteq> storageSubject j" "storageSubject i \<noteq> taskSubject j"
  by (simp_all add: taskSubject_def storageSubject_def)

subsection \<open>The interface\<close>

record 'w alert_store =
  as_open :: "string \<Rightarrow> string \<Rightarrow> int \<Rightarrow> time \<Rightarrow> ('w, int) op"
  as_close :: "string \<Rightarrow> string \<Rightarrow> ('w, bool) op"
  as_level :: "string \<Rightarrow> string \<Rightarrow> ('w, int) op"

text \<open>
  The contract: opening returns the level before and sets it, closing reports whether the
  episode was open and resets it, reading reads, a failed call changes nothing, and no call
  touches another episode.
\<close>

locale alert_contract =
  fixes A :: "'w alert_store" and level :: "string \<Rightarrow> string \<Rightarrow> 'w \<Rightarrow> int" and ok :: "'w \<Rightarrow> bool"
  assumes open_ok: "ok w \<Longrightarrow> 0 < l \<Longrightarrow> as_open A k s l t w = (Inr p, w') \<Longrightarrow>
      p = level k s w \<and> ok w' \<and> (\<forall>k' s'. level k' s' w' = (if k' = k \<and> s' = s then l else level k' s' w))"
    and open_err: "ok w \<Longrightarrow> as_open A k s l t w = (Inl e, w') \<Longrightarrow>
      ok w' \<and> (\<forall>k' s'. level k' s' w' = level k' s' w)"
    and close_ok: "ok w \<Longrightarrow> as_close A k s w = (Inr b, w') \<Longrightarrow>
      b = (0 < level k s w) \<and> ok w' \<and> (\<forall>k' s'. level k' s' w' = (if k' = k \<and> s' = s then 0 else level k' s' w))"
    and close_err: "ok w \<Longrightarrow> as_close A k s w = (Inl e, w') \<Longrightarrow>
      ok w' \<and> (\<forall>k' s'. level k' s' w' = level k' s' w)"
    and level_ok: "ok w \<Longrightarrow> as_level A k s w = (r, w') \<Longrightarrow>
      (\<forall>l. r = Inr l \<longrightarrow> l = level k s w) \<and> ok w' \<and> (\<forall>k' s'. level k' s' w' = level k' s' w)"
    and level_nonneg: "ok w \<Longrightarrow> 0 \<le> level k s w"
begin

text \<open>An episode that was opened is reported by the close that ends it, and only by that one.\<close>

lemma close_after_open:
  assumes "ok w" "0 < l" "as_open A k s l t w = (Inr p, w1)" "as_close A k s w1 = (Inr b, w2)"
    "as_close A k s w2 = (Inr c, w3)"
  shows "b \<and> \<not> c \<and> level k s w2 = 0"
  using open_ok [OF assms(1-3)] close_ok [of w1 k s b w2] close_ok [of w2 k s c w3] assms by auto

text \<open>Of two opens in a row, only the first finds the episode closed.\<close>

lemma open_twice:
  assumes "ok w" "0 < l" "as_open A k s l t w = (Inr p, w1)" "0 < l'" "as_open A k s l' t' w1 = (Inr q, w2)"
  shows "q = l \<and> q \<noteq> 0"
  using open_ok [OF assms(1-3)] open_ok [of w1 l' k s t' q w2] assms by auto

lemma open_frame:
  assumes "ok w" "0 < l" "as_open A k s l t w = (r, w')" "k' \<noteq> k \<or> s' \<noteq> s"
  shows "level k' s' w' = level k' s' w \<and> ok w'"
proof (cases r)
  case (Inl e) then show ?thesis using open_err [of w k s l t e w'] assms by simp
next
  case (Inr p) then show ?thesis using open_ok [of w l k s t p w'] assms by auto
qed

lemma close_frame:
  assumes "ok w" "as_close A k s w = (r, w')" "k' \<noteq> k \<or> s' \<noteq> s"
  shows "level k' s' w' = level k' s' w \<and> ok w'"
proof (cases r)
  case (Inl e) then show ?thesis using close_err [of w k s e w'] assms by simp
next
  case (Inr p) then show ?thesis using close_ok [of w k s p w'] assms by auto
qed

end

definition db_alert_store :: "db alert_store" where
  "db_alert_store = \<lparr>as_open = OpenAlert, as_close = CloseAlert, as_level = AlertLevel\<rparr>"

lemma AlertLevel_result:
  "AlertLevel k s d = (r, d') \<Longrightarrow> same_tables d d' \<and> (\<forall>l. r = Inr l \<longrightarrow> l = alert_level k s d)"
  unfolding AlertLevel_def
  by (auto dest: query_same query_ok simp: table_fun_def)

lemma alerts_ok_close: "alerts_ok d \<Longrightarrow>
    alerts_ok (d\<lparr>faults := bs, alert_state := filter (\<lambda>a. \<not> is_alert k s a) (alert_state d)\<rparr>)"
  by (auto simp: alerts_ok_def list_all_iff intro: map_filter_distinct)

lemma alert_level_filter_faults:
  "alert_level k s (d\<lparr>faults := bs, alert_state := filter (\<lambda>a. \<not> is_alert k' s' a) (alert_state d)\<rparr>) =
     (if k = k' \<and> s = s' then 0 else alert_level k s d)"
  using alert_level_filter [where d = "d\<lparr>faults := bs\<rparr>"] by simp

lemma alerts_ok_faults [simp]: "alerts_ok (d\<lparr>faults := bs\<rparr>) = alerts_ok d"
  by (simp add: alerts_ok_def)

lemma db_level_nonneg: "alerts_ok d \<Longrightarrow> 0 \<le> alert_level k s d"
  by (auto simp: alerts_ok_def alert_level_def list_all_iff split: option.split dest!: find_Some_in
      intro: less_imp_le)

interpretation db_alerts: alert_contract db_alert_store alert_level alerts_ok
proof unfold_locales
  fix d l k s t p d'
  assume "alerts_ok d" "0 < l" "as_open db_alert_store k s l t d = (Inr p, d')"
  then show "p = alert_level k s d \<and> alerts_ok d' \<and>
      (\<forall>k' s'. alert_level k' s' d' = (if k' = k \<and> s' = s then l else alert_level k' s' d))"
    unfolding db_alert_store_def alert_store.simps
    by (elim OpenAlert_cases) (simp_all add: upsert_alert_ok alert_level_upsert)
next
  fix d k s l t e d'
  assume "alerts_ok d" "as_open db_alert_store k s l t d = (Inl e, d')"
  then show "alerts_ok d' \<and> (\<forall>k' s'. alert_level k' s' d' = alert_level k' s' d)"
    unfolding db_alert_store_def alert_store.simps
    by (elim OpenAlert_cases) (simp_all add: alerts_ok_same alert_level_same)
next
  fix d k s b d'
  assume "alerts_ok d" "as_close db_alert_store k s d = (Inr b, d')"
  then show "b = (0 < alert_level k s d) \<and> alerts_ok d' \<and>
      (\<forall>k' s'. alert_level k' s' d' = (if k' = k \<and> s' = s then 0 else alert_level k' s' d))"
    unfolding db_alert_store_def alert_store.simps
    by (elim CloseAlert_cases)
      (simp_all add: alerts_ok_close alert_open_iff alert_level_filter_faults)
next
  fix d k s e d'
  assume "alerts_ok d" "as_close db_alert_store k s d = (Inl e, d')"
  then show "alerts_ok d' \<and> (\<forall>k' s'. alert_level k' s' d' = alert_level k' s' d)"
    unfolding db_alert_store_def alert_store.simps
    by (elim CloseAlert_cases) (simp_all add: alerts_ok_same alert_level_same)
next
  fix d k s r d'
  assume "alerts_ok d" "as_level db_alert_store k s d = (r, d')"
  then show "(\<forall>l. r = Inr l \<longrightarrow> l = alert_level k s d) \<and> alerts_ok d' \<and>
      (\<forall>k' s'. alert_level k' s' d' = alert_level k' s' d)"
    unfolding db_alert_store_def alert_store.simps
    using AlertLevel_result [of k s d r d'] alerts_ok_same [of d d'] alert_level_same [of d d'] by simp
next
  fix d k s assume "alerts_ok d" then show "0 \<le> alert_level k s d" by (rule db_level_nonneg)
qed

end
