(* ===== verification/Registry.thy ===== *)
theory Registry
  imports Model "HOL-Library.List_Lexorder" "HOL-Library.Char_ord"
begin

text \<open>
  The plugin registries of internal/plugin/registry.go: a map from plugin keys to factories.
  A duplicate registration panics, which is the value None.
\<close>

type_synonym 'p factory = "raw \<Rightarrow> err + 'p"

record 'p registry =
  reg_kind :: string
  reg_m :: "string \<Rightarrow> 'p factory option"
  reg_keys :: "string list"

definition NewRegistry :: "string \<Rightarrow> 'p registry" where
  "NewRegistry kind = \<lparr>reg_kind = kind, reg_m = Map.empty, reg_keys = []\<rparr>"

definition Register :: "string \<Rightarrow> 'p factory \<Rightarrow> 'p registry \<Rightarrow> 'p registry option" where
  "Register key f r =
     (case reg_m r key of
        Some _ \<Rightarrow> None
      | None \<Rightarrow> Some (r\<lparr>reg_m := (reg_m r)(key \<mapsto> f), reg_keys := reg_keys r @ [key]\<rparr>))"

definition Create :: "'p registry \<Rightarrow> string \<Rightarrow> 'p factory" where
  "Create r key cfg =
     (case reg_m r key of
        None \<Rightarrow> Inl (Detail ErrNotRegistered ('': '' @ reg_kind r @ '' '' @ quoted key))
      | Some f \<Rightarrow> f cfg)"

definition Has :: "'p registry \<Rightarrow> string \<Rightarrow> bool" where
  "Has r key = (reg_m r key \<noteq> None)"

definition Names :: "'p registry \<Rightarrow> string list" where
  "Names r = sort (reg_keys r)"

text \<open>A registry filled by the init functions of the packages, in order; None when one panics.\<close>

fun register_all :: "(string \<times> 'p factory) list \<Rightarrow> 'p registry \<Rightarrow> 'p registry option" where
  "register_all [] r = Some r"
| "register_all ((k, f) # fs) r =
     (case Register k f r of None \<Rightarrow> None | Some r \<Rightarrow> register_all fs r)"

definition registry_ok :: "'p registry \<Rightarrow> bool" where
  "registry_ok r = (distinct (reg_keys r) \<and> set (reg_keys r) = dom (reg_m r))"

lemma registry_ok_new [simp]: "registry_ok (NewRegistry kind)"
  by (simp add: registry_ok_def NewRegistry_def)

lemma Register_ok: "Register k f r = Some r' \<Longrightarrow> registry_ok r \<Longrightarrow> registry_ok r'"
  by (auto simp: Register_def registry_ok_def split: option.splits)

lemma Create_register:
  "Register k f r = Some r' \<Longrightarrow> Create r' k = f \<and> Has r' k \<and> (\<forall>j. j \<noteq> k \<longrightarrow> Create r' j = Create r j)"
  by (auto simp: Register_def Create_def Has_def fun_eq_iff split: option.splits)

lemma Register_kind [simp]: "Register k f r = Some r' \<Longrightarrow> reg_kind r' = reg_kind r"
  by (auto simp: Register_def split: option.splits)

text \<open>Init functions with different keys never panic, in whatever order the packages run them.\<close>

lemma register_all_ok:
  "distinct (map fst fs) \<Longrightarrow> (\<forall>k \<in> set (map fst fs). reg_m r k = None) \<Longrightarrow>
   \<exists>r'. register_all fs r = Some r' \<and> reg_m r' = reg_m r ++ map_of fs"
proof (induction fs arbitrary: r)
  case (Cons p fs)
  obtain k f where p: "p = (k, f)" by fastforce
  let ?r = "r\<lparr>reg_m := (reg_m r)(k \<mapsto> f), reg_keys := reg_keys r @ [k]\<rparr>"
  have reg: "Register k f r = Some ?r" using Cons.prems p by (simp add: Register_def)
  have none: "\<forall>j \<in> set (map fst fs). reg_m ?r j = None"
    using Cons.prems p by (auto split: if_splits)
  obtain r' where r': "register_all fs ?r = Some r'" "reg_m r' = reg_m ?r ++ map_of fs"
    using Cons.IH [OF _ none] Cons.prems(1) by (metis distinct.simps(2) list.simps(9))
  have "map_of fs k = None" using Cons.prems p by (simp add: map_of_eq_None_iff)
  then have "reg_m ?r ++ map_of fs = reg_m r ++ map_of ((k, f) # fs)"
    by (auto simp: fun_eq_iff map_add_def split: option.splits)
  then have "reg_m r' = reg_m r ++ map_of (p # fs)" unfolding p using r'(2) by (simp only: simp_thms)
  moreover have "register_all (p # fs) r = Some r'" using reg r'(1) p by simp
  ultimately show ?case by (intro exI [of _ r'] conjI)
qed simp

end
