(* ===== verification/Vault.thy ===== *)
theory Vault
  imports Localfs Alerts Registry
begin

text \<open>
  The concrete world the components are composed in: the catalog, the disk behind the local
  storages, the channels' outbox. Retention is instantiated on it: the catalog provides the rows,
  the local storage plugin the objects, and the laws of the retention contract are proved for
  both.
\<close>

subsection \<open>The world\<close>

record world =
  wdb :: db
  wdisk :: disk
  outbox :: "(string \<times> event) list"
  net_faults :: "bool list"

definition on_db :: "(db, 'a) op \<Rightarrow> (world, 'a) op" where
  "on_db f w = (case f (wdb w) of (r, d) \<Rightarrow> (r, w\<lparr>wdb := d\<rparr>))"

definition on_disk :: "(disk, 'a) op \<Rightarrow> (world, 'a) op" where
  "on_disk f w = (case f (wdisk w) of (r, d) \<Rightarrow> (r, w\<lparr>wdisk := d\<rparr>))"

lemma on_dbE:
  assumes "on_db f w = (r, w')"
  obtains d where "f (wdb w) = (r, d)" "w' = w\<lparr>wdb := d\<rparr>"
  using assms by (auto simp: on_db_def split: prod.splits)

lemma on_diskE:
  assumes "on_disk f w = (r, w')"
  obtains d where "f (wdisk w) = (r, d)" "w' = w\<lparr>wdisk := d\<rparr>"
  using assms by (auto simp: on_disk_def split: prod.splits)

subsection \<open>Opening a storage\<close>

definition localfs_plugin :: "localfs_storage \<Rightarrow> world storage_plugin" where
  "localfs_plugin s = \<lparr>sp_list = \<lambda>pfx. on_disk (Localfs.List s pfx), sp_delete = \<lambda>k. on_disk (Delete s k),
     sp_close = id\<rparr>"

definition Storages :: "world storage_plugin registry" where
  "Storages = (case Register ''localfs'' (\<lambda>cfg. map_sum id localfs_plugin (New cfg)) (NewRegistry ''storage'') of
     Some r \<Rightarrow> r | None \<Rightarrow> NewRegistry ''storage'')"

definition open_storage :: "storage \<Rightarrow> (world, world storage_plugin) op" where
  "open_storage st w = (Create Storages (sto_type st) (sto_config st), w)"

text \<open>Sweeper.storageOpener.\<close>

definition storageOpener ::
  "(rowid \<Rightarrow> ('w, storage) op) \<Rightarrow> (storage \<Rightarrow> ('w, 'w storage_plugin) op) \<Rightarrow> 'w opener" where
  "storageOpener get_storage openStorage i w =
     (case get_storage i w of
        (Inl e, w) \<Rightarrow> (Inl e, w)
      | (Inr st, w) \<Rightarrow>
          (case openStorage st w of
             (Inl e, w) \<Rightarrow> (Inl (Wrap (''storage '' @ quoted (sto_name st) @ '': '') e), w)
           | (Inr s, w) \<Rightarrow> (Inr s, w)))"

definition world_opener :: "world opener" where
  "world_opener = storageOpener (\<lambda>i. on_db (GetStorage i)) open_storage"

definition world_retention :: "world retention_store" where
  "world_retention = \<lparr>rs_list = \<lambda>i. on_db (ListArtifactsByTask i), rs_delete = \<lambda>i. on_db (DeleteArtifact i)\<rparr>"

subsection \<open>What the world holds\<close>

definition local_root :: "storage list \<Rightarrow> rowid \<Rightarrow> localfs_storage option" where
  "local_root ss i =
     (case find (\<lambda>s. sto_id s = i) ss of
        None \<Rightarrow> None
      | Some st \<Rightarrow> if sto_type st = ''localfs'' then (case New (sto_config st) of Inl _ \<Rightarrow> None | Inr l \<Rightarrow> Some l)
                   else None)"

definition object_path :: "storage list \<Rightarrow> rowid \<Rightarrow> string \<Rightarrow> string list option" where
  "object_path ss i k = map_option (\<lambda>l. fs_path (lf_root l) k) (local_root ss i)"

definition world_objects :: "storage list \<Rightarrow> world \<Rightarrow> (rowid \<times> string) set" where
  "world_objects ss w =
     {(i, k). good_key k \<and> (\<exists>p. object_path ss i k = Some p \<and> file_at (wdisk w) p \<noteq> None)}"

definition disk_ok :: "disk \<Rightarrow> bool" where
  "disk_ok d = (\<forall>(p, f) \<in> set (dk_files d). \<forall>s \<in> set p. plain_segment s \<and> CHR ''/'' \<notin> set s)"

text \<open>No storage root lies inside another, and none is a file.\<close>

definition roots_ok :: "storage list \<Rightarrow> disk \<Rightarrow> bool" where
  "roots_ok ss d =
     ((\<forall>i j l m. local_root ss i = Some l \<longrightarrow> local_root ss j = Some m \<longrightarrow> i \<noteq> j \<longrightarrow>
         \<not> prefix (clean (lf_root l)) (clean (lf_root m))) \<and>
      (\<forall>i l. local_root ss i = Some l \<longrightarrow> file_at d (clean (lf_root l)) = None))"

definition world_ok :: "storage list \<Rightarrow> (artifact \<Rightarrow> rowid) \<Rightarrow> world \<Rightarrow> bool" where
  "world_ok ss own w =
     (db_ok (wdb w) \<and> storages (wdb w) = ss \<and> (\<forall>a \<in> set (artifacts (wdb w)). good_key (art_key a)) \<and>
      (\<forall>a \<in> set (artifacts (wdb w)). \<exists>r \<in> set (runs (wdb w)). run_id r = art_run a \<and> run_task r = own a) \<and>
      disk_ok (wdisk w) \<and> roots_ok ss (wdisk w))"

definition world_serves :: "storage list \<Rightarrow> rowid \<Rightarrow> world storage_plugin \<Rightarrow> bool" where
  "world_serves ss i s = (\<exists>l. local_root ss i = Some l \<and> s = localfs_plugin l)"

definition world_rows :: "world \<Rightarrow> artifact set" where "world_rows w = set (artifacts (wdb w))"

definition world_listing :: "rowid \<Rightarrow> world \<Rightarrow> artifact list" where
  "world_listing tid w = sort_key by_age (task_artifacts tid (wdb w))"

subsection \<open>Keys and files\<close>

lemma world_objects_iff:
  "(i, k) \<in> world_objects ss w \<longleftrightarrow> good_key k \<and>
     (\<exists>l. local_root ss i = Some l \<and> file_at (wdisk w) (clean (lf_root l) @ split_on (CHR ''/'') k) \<noteq> None)"
  by (auto simp: world_objects_def object_path_def fs_path_good)

lemma rel_key_good:
  assumes "disk_ok d" "(p, f) \<in> set (dk_files d)" "prefix base p" "p \<noteq> base"
  shows "good_key (rel_key base p) \<and> base @ split_on (CHR ''/'') (rel_key base p) = p"
proof -
  from assms(3) obtain r where p: "p = base @ r" by (auto simp: prefix_def)
  then have r: "r \<noteq> []" "\<forall>s \<in> set r. plain_segment s \<and> CHR ''/'' \<notin> set s"
    using assms by (auto simp: disk_ok_def)
  then have "split_on (CHR ''/'') (join_with (CHR ''/'') r) = r" by (intro split_join) auto
  with r p show ?thesis by (auto simp: rel_key_def good_key_def list_all_iff)
qed

lemma rel_key_path: "rel_key base (base @ split_on (CHR ''/'') k) = k"
  by (simp add: rel_key_def)

lemma file_at_mem: "file_at d p \<noteq> None \<longleftrightarrow> (\<exists>f. (p, f) \<in> set (dk_files d))"
  by (auto simp: file_at_def map_of_eq_None_iff image_iff) force+

lemma walk_keys:
  assumes "disk_ok d" "file_at d base = None"
  shows "rel_key base ` fst ` set (walk_files base d) =
    {k. good_key k \<and> file_at d (base @ split_on (CHR ''/'') k) \<noteq> None}"
proof (rule set_eqI, rule iffI)
  fix k assume "k \<in> rel_key base ` fst ` set (walk_files base d)"
  then obtain p f where pf: "(p, f) \<in> set (dk_files d)" "prefix base p" "k = rel_key base p"
    by (auto simp: walk_files_def)
  then have "p \<noteq> base" using assms(2) file_at_mem [of d base] by auto
  with rel_key_good [OF assms(1) pf(1,2)] pf show "k \<in> {k. good_key k \<and> file_at d (base @ split_on (CHR ''/'') k) \<noteq> None}"
    using file_at_mem [of d p] by auto
next
  fix k assume k: "k \<in> {k. good_key k \<and> file_at d (base @ split_on (CHR ''/'') k) \<noteq> None}"
  let ?p = "base @ split_on (CHR ''/'') k"
  from k obtain f where "(?p, f) \<in> set (dk_files d)" using file_at_mem [of d ?p] by auto
  then have "?p \<in> fst ` set (walk_files base d)" by (force simp: walk_files_def)
  then show "k \<in> rel_key base ` fst ` set (walk_files base d)" by (metis image_eqI rel_key_path)
qed

lemma List_cases:
  assumes "Localfs.List l pfx d = (r, d')" "disk_ok d" "file_at d (clean (lf_root l)) = None"
  shows "(\<exists>bs. d' = d\<lparr>dk_faults := bs\<rparr>) \<and>
    (\<forall>os. r = Inr os \<longrightarrow> obj_key ` set os =
       {k. good_key k \<and> file_at d (clean (lf_root l) @ split_on (CHR ''/'') k) \<noteq> None \<and> prefix pfx k})"
proof -
  let ?b = "clean (lf_root l)"
  obtain q e where s: "syscall (\<lambda>d.
        (if \<not> is_dir d ?b \<and> file_at d ?b = None
         then Inl (os_error ''no such file or directory'')
         else Inr (map (\<lambda>(p, f). \<lparr>obj_key = rel_key ?b p, obj_size = int (length (fl_data f)),
                                    obj_modified = fl_mtime f\<rparr>)
                     (filter (\<lambda>(p, _). prefix pfx (rel_key ?b p)) (walk_files ?b d))), d)) d = (q, e)" by fastforce
  have same: "walk_files ?b (d\<lparr>dk_faults := bs\<rparr>) = walk_files ?b d" for bs by (simp add: walk_files_def)
  have keys: "obj_key ` set (map (\<lambda>(p, f). \<lparr>obj_key = rel_key ?b p, obj_size = int (length (fl_data f)), obj_modified = fl_mtime f\<rparr>)
      (filter (\<lambda>(p, _). prefix pfx (rel_key ?b p)) (walk_files ?b d))) =
    {k. good_key k \<and> file_at d (?b @ split_on (CHR ''/'') k) \<noteq> None \<and> prefix pfx k}"
  proof -
    have "obj_key ` set (map (\<lambda>(p, f). \<lparr>obj_key = rel_key ?b p, obj_size = int (length (fl_data f)), obj_modified = fl_mtime f\<rparr>)
      (filter (\<lambda>(p, _). prefix pfx (rel_key ?b p)) (walk_files ?b d))) = {k \<in> rel_key ?b ` fst ` set (walk_files ?b d). prefix pfx k}"
      by force
    then show ?thesis using walk_keys [OF assms(2,3)] by auto
  qed
  from s show ?thesis
  proof (rule syscall_cases)
    fix e' bs assume "q = Inl e'" "e = d\<lparr>dk_faults := bs\<rparr>"
    with assms(1) s show ?thesis by (auto simp: Localfs.List_def)
  next
    fix bs
    assume "((if \<not> is_dir (d\<lparr>dk_faults := bs\<rparr>) ?b \<and> file_at (d\<lparr>dk_faults := bs\<rparr>) ?b = None
         then Inl (os_error ''no such file or directory'')
         else Inr (map (\<lambda>(p, f). \<lparr>obj_key = rel_key ?b p, obj_size = int (length (fl_data f)),
                                    obj_modified = fl_mtime f\<rparr>)
                     (filter (\<lambda>(p, _). prefix pfx (rel_key ?b p)) (walk_files ?b (d\<lparr>dk_faults := bs\<rparr>))))), d\<lparr>dk_faults := bs\<rparr>) = (q, e)"
    then show ?thesis
      using assms(1) s keys unfolding same by (auto simp: Localfs.List_def split: if_splits)
  qed
qed

lemma Delete_frame:
  "Delete l k d = (r, d') \<Longrightarrow> only_at {fs_path (lf_root l) k} d d' \<and>
     (file_at d' (fs_path (lf_root l) k) = None \<or> file_at d' (fs_path (lf_root l) k) = file_at d (fs_path (lf_root l) k)) \<and>
     (is_ok r \<longrightarrow> file_at d' (fs_path (lf_root l) k) = None)"
  unfolding Delete_def
  by (auto split: prod.splits remove_result.splits dest!: Remove_frame)

lemma disk_ok_iff:
  "disk_ok d \<longleftrightarrow> (\<forall>p. file_at d p \<noteq> None \<longrightarrow> (\<forall>s \<in> set p. plain_segment s \<and> CHR ''/'' \<notin> set s))"
  unfolding file_at_mem by (auto simp: disk_ok_def)

subsection \<open>The laws\<close>

lemma Storages_create:
  "Create Storages t cfg =
     (if t = ''localfs'' then map_sum id localfs_plugin (New cfg) else Inl (Detail ErrNotRegistered ('': storage '' @ quoted t)))"
  by (simp add: Storages_def Register_def NewRegistry_def Create_def)

lemma world_same_tables:
  assumes "same_tables (wdb w) d" "w' = w\<lparr>wdb := d\<rparr>"
  shows "world_ok ss own w' = world_ok ss own w" "world_rows w' = world_rows w"
    "world_objects ss w' = world_objects ss w" "world_listing i w' = world_listing i w"
  using assms same_tables_selectors [OF assms(1)] db_ok_same_tables [OF assms(1)]
  by (auto simp: world_ok_def world_rows_def world_objects_def world_listing_def task_artifacts_def)

lemma world_opener_cases:
  assumes "world_opener i w = (r, w')" "storages (wdb w) = ss"
  obtains (error) e d where "r = Inl e" "same_tables (wdb w) d" "w' = w\<lparr>wdb := d\<rparr>"
  | (opened) l d where "r = Inr (localfs_plugin l)" "local_root ss i = Some l" "same_tables (wdb w) d" "w' = w\<lparr>wdb := d\<rparr>"
proof -
  obtain q d where g: "GetStorage i (wdb w) = (q, d)" by fastforce
  have same: "same_tables (wdb w) d" using g unfolding GetStorage_def by (rule query_row_same)
  show thesis
  proof (cases q)
    case (Inl e)
    with assms(1) g same show thesis
      by (auto simp: world_opener_def storageOpener_def on_db_def intro: error)
  next
    case (Inr st)
    have f: "find (\<lambda>s. sto_id s = i) ss = Some st"
      using g unfolding Inr GetStorage_def assms(2) [symmetric] by (rule query_row_ok) (simp add: table_fun_def)
    show thesis
    proof (cases "Create Storages (sto_type st) (sto_config st)")
      case (Inl e)
      with assms(1) g Inr same show thesis
        by (auto simp: world_opener_def storageOpener_def on_db_def open_storage_def intro: error)
    next
      case (Inr s)
      then obtain l where "sto_type st = ''localfs''" "New (sto_config st) = Inr l" "s = localfs_plugin l"
        by (cases "New (sto_config st)") (auto simp: Storages_create split: if_splits)
      with assms(1) g \<open>q = Inr st\<close> same f Inr show thesis
        by (intro opened [of l d]) (auto simp: world_opener_def storageOpener_def on_db_def open_storage_def local_root_def)
    qed
  qed
qed

lemma roots_ok_only:
  assumes "roots_ok ss d" "\<forall>q. file_at d' q = None \<or> file_at d' q = file_at d q"
  shows "roots_ok ss d'"
  using assms unfolding roots_ok_def by metis

lemma other_object:
  assumes "roots_ok ss d" "local_root ss i = Some l" "local_root ss j = Some m"
    "good_key k" "good_key k'" "(j, k') \<noteq> (i, k)"
  shows "clean (lf_root m) @ split_on (CHR ''/'') k' \<noteq> clean (lf_root l) @ split_on (CHR ''/'') k"
proof (cases "j = i")
  case True
  with assms show ?thesis by (auto dest: arg_cong [where f = "join_with (CHR ''/'')"])
next
  case False
  show ?thesis
  proof
    assume "clean (lf_root m) @ split_on (CHR ''/'') k' = clean (lf_root l) @ split_on (CHR ''/'') k"
    then have "prefix (clean (lf_root m)) (clean (lf_root l)) \<or> prefix (clean (lf_root l)) (clean (lf_root m))"
      by (metis prefixI prefix_same_cases)
    with assms False show False by (auto simp: roots_ok_def)
  qed
qed

lemma world_delete_object:
  assumes "world_ok ss own w" "world_serves ss i s" "good_key k" "sp_delete s k w = (r, w')"
  shows "world_ok ss own w' \<and> world_rows w' = world_rows w \<and>
    world_objects ss w - {(i, k)} \<subseteq> world_objects ss w' \<and> world_objects ss w' \<subseteq> world_objects ss w \<and>
    (is_ok r \<longrightarrow> (i, k) \<notin> world_objects ss w')"
proof -
  obtain l where l: "local_root ss i = Some l" "s = localfs_plugin l" using assms(2) by (auto simp: world_serves_def)
  obtain d where d: "Delete l k (wdisk w) = (r, d)" "w' = w\<lparr>wdisk := d\<rparr>"
    using assms(4) l by (auto simp: localfs_plugin_def elim: on_diskE)
  let ?p = "fs_path (lf_root l) k"
  have p: "?p = clean (lf_root l) @ split_on (CHR ''/'') k" using assms(3) by (rule fs_path_good)
  note f = Delete_frame [OF d(1)]
  then have shrink: "\<forall>q. file_at d q = None \<or> file_at d q = file_at (wdisk w) q"
    unfolding only_at_def by (metis singletonD)
  have ok: "disk_ok (wdisk w)" "roots_ok ss (wdisk w)" using assms(1) by (simp_all add: world_ok_def)
  have "disk_ok d" using ok(1) shrink unfolding disk_ok_iff by metis
  moreover have "roots_ok ss d" using roots_ok_only [OF ok(2) shrink] .
  ultimately have "world_ok ss own w'" using assms(1) d(2) by (simp add: world_ok_def)
  moreover have "world_rows w' = world_rows w" using d(2) by (simp add: world_rows_def)
  moreover have "world_objects ss w' \<subseteq> world_objects ss w"
  proof
    fix x assume "x \<in> world_objects ss w'"
    then obtain j k' m where x: "x = (j, k')" "good_key k'" "local_root ss j = Some m"
      "file_at d (clean (lf_root m) @ split_on (CHR ''/'') k') \<noteq> None"
      using d(2) by (cases x) (auto simp: world_objects_iff)
    with shrink [rule_format, of "clean (lf_root m) @ split_on (CHR ''/'') k'"]
    show "x \<in> world_objects ss w" by (auto simp: world_objects_iff)
  qed
  moreover have "world_objects ss w - {(i, k)} \<subseteq> world_objects ss w'"
  proof
    fix x assume x: "x \<in> world_objects ss w - {(i, k)}"
    obtain j k' where jk: "x = (j, k')" by fastforce
    with x obtain m where m: "good_key k'" "local_root ss j = Some m"
      "file_at (wdisk w) (clean (lf_root m) @ split_on (CHR ''/'') k') \<noteq> None" by (auto simp: world_objects_iff)
    have "clean (lf_root m) @ split_on (CHR ''/'') k' \<noteq> ?p"
      unfolding p using other_object [OF ok(2) l(1) m(2) assms(3) m(1)] x jk by auto
    with m f d(2) show "x \<in> world_objects ss w'" by (auto simp: world_objects_iff jk only_at_def)
  qed
  moreover have "is_ok r \<longrightarrow> (i, k) \<notin> world_objects ss w'"
    using f d(2) l(1) by (auto simp: world_objects_iff p)
  ultimately show ?thesis by blast
qed

lemma world_list_objects:
  assumes "world_ok ss own w" "world_serves ss i s" "sp_list s pfx w = (r, w')"
  shows "world_ok ss own w' \<and> world_rows w' = world_rows w \<and> world_objects ss w' = world_objects ss w \<and>
    (\<forall>os. r = Inr os \<longrightarrow> obj_key ` set os = {k. (i, k) \<in> world_objects ss w \<and> prefix pfx k})"
proof -
  obtain l where l: "local_root ss i = Some l" "s = localfs_plugin l" using assms(2) by (auto simp: world_serves_def)
  obtain d where d: "Localfs.List l pfx (wdisk w) = (r, d)" "w' = w\<lparr>wdisk := d\<rparr>"
    using assms(3) l by (auto simp: localfs_plugin_def elim: on_diskE)
  have "disk_ok (wdisk w)" "file_at (wdisk w) (clean (lf_root l)) = None"
    using assms(1) l by (auto simp: world_ok_def roots_ok_def)
  from List_cases [OF d(1) this] obtain bs where "d = (wdisk w)\<lparr>dk_faults := bs\<rparr>"
    "\<forall>os. r = Inr os \<longrightarrow> obj_key ` set os = {k. good_key k \<and>
       file_at (wdisk w) (clean (lf_root l) @ split_on (CHR ''/'') k) \<noteq> None \<and> prefix pfx k}" by blast
  moreover from this have "world_ok ss own w' = world_ok ss own w" "world_objects ss w' = world_objects ss w" "world_rows w' = world_rows w"
    using d(2) by (auto simp: world_ok_def world_rows_def world_objects_def disk_ok_iff roots_ok_def)
  ultimately show ?thesis using assms(1) l(1) by (auto simp: world_objects_iff)
qed

lemma DeleteArtifact_cases:
  assumes "DeleteArtifact i d = (r, d')"
  obtains (error) e where "r = Inl e" "same_tables d d'"
  | (deleted) bs where "r = Inr ()" "d' = d\<lparr>faults := bs, artifacts := filter (\<lambda>a. art_id a \<noteq> i) (artifacts d)\<rparr>"
  using assms unfolding DeleteArtifact_def by (rule stmt_cases) (auto intro: error deleted)

lemma run_of_artifact:
  assumes "db_ok d" "a \<in> set (artifacts d)" "r \<in> set (runs d)" "run_id r = art_run a"
  shows "a \<in> set (task_artifacts tid d) \<longleftrightarrow> run_task r = tid"
proof
  assume "a \<in> set (task_artifacts tid d)"
  then obtain r' where "r' \<in> set (runs d)" "run_id r' = art_run a" "run_task r' = tid"
    by (auto simp: task_artifacts_def list_ex_iff)
  with assms(3,4) distinct_map_eq [OF db_okD(1) [OF assms(1)], of r r'] show "run_task r = tid" by simp
qed (use assms in \<open>auto simp: task_artifacts_def list_ex_iff\<close>)

lemma world_listing_facts:
  assumes "world_ok ss own w"
  shows "set (world_listing tid w) = {a \<in> world_rows w. own a = tid}" "distinct (map art_id (world_listing tid w))"
    "\<forall>a \<in> set (world_listing tid w). good_key (art_key a)"
proof -
  have d: "distinct (map art_id (artifacts (wdb w)))" "\<forall>a \<in> set (artifacts (wdb w)). good_key (art_key a)" "db_ok (wdb w)"
    using assms by (auto simp: world_ok_def db_ok_def)
  then show "distinct (map art_id (world_listing tid w))" "\<forall>a \<in> set (world_listing tid w). good_key (art_key a)"
    by (auto simp: world_listing_def world_rows_def task_artifacts_def distinct_map inj_on_def)
  have "a \<in> set (task_artifacts tid (wdb w)) \<longleftrightarrow> own a = tid" if "a \<in> set (artifacts (wdb w))" for a
    using assms that run_of_artifact [OF d(3) that] by (fastforce simp: world_ok_def)
  moreover have "set (task_artifacts tid (wdb w)) \<subseteq> set (artifacts (wdb w))" by (auto simp: task_artifacts_def)
  ultimately show "set (world_listing tid w) = {a \<in> world_rows w. own a = tid}"
    by (auto simp: world_listing_def world_rows_def)
qed

interpretation vault: retention_contract world_retention world_opener world_rows world_listing
  "world_objects ss" "world_serves ss" good_key own "world_ok ss own" for ss own
proof unfold_locales
  fix w :: world and tid ra w'
  assume ok: "world_ok ss own w" and l: "rs_list world_retention tid w = (ra, w')"
  obtain d where d: "ListArtifactsByTask tid (wdb w) = (ra, d)" "w' = w\<lparr>wdb := d\<rparr>"
    using l by (auto simp: world_retention_def elim: on_dbE)
  have "same_tables (wdb w) d" using d(1) unfolding ListArtifactsByTask_def by (rule query_same)
  note same = world_same_tables [OF this d(2)]
  have "as = world_listing tid w" if "ra = Inr as" for as
    using d(1) unfolding that ListArtifactsByTask_def world_listing_def
    by (rule query_ok) (simp add: table_fun_def task_artifacts_def)
  then show "world_ok ss own w' \<and> world_rows w' = world_rows w \<and> world_objects ss w' = world_objects ss w \<and>
      (\<forall>as. ra = Inr as \<longrightarrow> as = world_listing tid w)"
    using ok same by simp
next
  fix w :: world and tid
  assume "world_ok ss own w"
  then show "set (world_listing tid w) = {a \<in> world_rows w. own a = tid} \<and> distinct (map art_id (world_listing tid w)) \<and>
      (\<forall>a \<in> set (world_listing tid w). good_key (art_key a))"
    using world_listing_facts by blast
next
  fix w :: world and i r w'
  assume ok: "world_ok ss own w" and l: "rs_delete world_retention i w = (r, w')"
  obtain d where d: "DeleteArtifact i (wdb w) = (r, d)" "w' = w\<lparr>wdb := d\<rparr>"
    using l by (auto simp: world_retention_def elim: on_dbE)
  from d(1) show "world_ok ss own w' \<and> world_objects ss w' = world_objects ss w \<and>
      world_rows w' = (if is_ok r then {a \<in> world_rows w. art_id a \<noteq> i} else world_rows w)"
  proof (rule DeleteArtifact_cases)
    fix e assume "r = Inl e" "same_tables (wdb w) d"
    with world_same_tables [OF this(2) d(2)] ok show ?thesis by simp
  next
    fix bs assume x: "r = Inr ()" "d = (wdb w)\<lparr>faults := bs, artifacts := filter (\<lambda>a. art_id a \<noteq> i) (artifacts (wdb w))\<rparr>"
    have "db_ok d" using DeleteArtifact_ok [OF d(1)] ok by (simp add: world_ok_def)
    with x d(2) ok show ?thesis by (auto simp: world_ok_def world_rows_def world_objects_def)
  qed
next
  fix w :: world and i rp w'
  assume ok: "world_ok ss own w" and l: "world_opener i w = (rp, w')"
  from ok have "storages (wdb w) = ss" by (simp add: world_ok_def)
  from l this show "world_ok ss own w' \<and> world_rows w' = world_rows w \<and> world_objects ss w' = world_objects ss w \<and>
      (\<forall>s. rp = Inr s \<longrightarrow> world_serves ss i s)"
    by (rule world_opener_cases) (use ok world_same_tables in \<open>auto simp: world_serves_def\<close>)
next
  fix w :: world and i s pfx ro w'
  assume "world_ok ss own w" "world_serves ss i s" "sp_list s pfx w = (ro, w')"
  then show "world_ok ss own w' \<and> world_rows w' = world_rows w \<and> world_objects ss w' = world_objects ss w \<and>
    (\<forall>os. ro = Inr os \<longrightarrow> obj_key ` set os = {k. (i, k) \<in> world_objects ss w \<and> prefix pfx k})"
    by (rule world_list_objects)
next
  fix w :: world and i s k r w'
  assume "world_ok ss own w" "world_serves ss i s" "good_key k" "sp_delete s k w = (r, w')"
  then show "world_ok ss own w' \<and> world_rows w' = world_rows w \<and>
    world_objects ss w - {(i, k)} \<subseteq> world_objects ss w' \<and> world_objects ss w' \<subseteq> world_objects ss w \<and>
    (is_ok r \<longrightarrow> (i, k) \<notin> world_objects ss w')"
    by (rule world_delete_object)
next
  fix w :: world and i s
  assume "world_ok ss own w" "world_serves ss i s"
  then show "world_ok ss own (sp_close s w) \<and> world_rows (sp_close s w) = world_rows w \<and>
      world_objects ss (sp_close s w) = world_objects ss w"
    by (auto simp: world_serves_def localfs_plugin_def)
qed

subsection \<open>A healthy world\<close>

definition world_locked :: "storage list \<Rightarrow> world \<Rightarrow> (rowid \<times> string) set" where
  "world_locked ss w =
     {(i, k). \<exists>p. object_path ss i k = Some p \<and> p \<in> set (dk_locked (wdisk w))}"

text \<open>
  No faults ahead, every artifact's storage opens, and its path can be a file: no parent is a
  file, it is no directory, and it exists if it is locked.
\<close>

definition path_live :: "disk \<Rightarrow> string list \<Rightarrow> bool" where
  "path_live d p = (\<not> through_file d p \<and> \<not> is_dir d p \<and> (p \<in> set (dk_locked d) \<longrightarrow> file_at d p \<noteq> None))"

definition world_live :: "storage list \<Rightarrow> (artifact \<Rightarrow> rowid) \<Rightarrow> world \<Rightarrow> bool" where
  "world_live ss own w =
     (world_ok ss own w \<and> faults (wdb w) = [] \<and> dk_faults (wdisk w) = [] \<and>
      (\<forall>a \<in> set (artifacts (wdb w)). \<exists>p. object_path ss (art_storage a) (art_key a) = Some p \<and> path_live (wdisk w) p))"

lemma syscall_no_faults [simp]: "dk_faults d = [] \<Longrightarrow> syscall f d = f d"
  by (simp add: syscall_def)

lemma Delete_live:
  assumes "dk_faults d = []" "path_live d (fs_path (lf_root l) k)" "Delete l k d = (r, d')"
  shows "(is_ok r \<longleftrightarrow> fs_path (lf_root l) k \<notin> set (dk_locked d)) \<and>
    (d' = d \<or> d' = drop_file (fs_path (lf_root l) k) d \<and> fs_path (lf_root l) k \<notin> set (dk_locked d))"
  using assms
  by (auto simp: Delete_def Remove_def remove_entry_def path_live_def is_dir_def split: if_splits)

lemma path_live_drop:
  assumes "path_live d p" "q \<notin> set (dk_locked d)"
  shows "path_live (drop_file q d) p"
proof -
  have "dk_locked (drop_file q d) = dk_locked d" "dk_dirs (drop_file q d) = dk_dirs d"
    by (simp_all add: drop_file_def)
  then show ?thesis
    using assms by (auto simp: path_live_def through_file_def is_dir_def list_ex_iff split: if_splits)
qed

interpretation vault_live: retention_live world_retention world_opener world_rows world_listing
  "world_objects ss" "world_serves ss" good_key own "world_ok ss own" "world_locked ss" "world_live ss own" for ss own
proof unfold_locales
  fix w :: world assume "world_live ss own w" then show "world_ok ss own w" by (simp add: world_live_def)
next
  fix w :: world and tid assume live: "world_live ss own w"
  then have "ListArtifactsByTask tid (wdb w) = (Inr (world_listing tid w), wdb w)"
    by (simp add: world_live_def ListArtifactsByTask_def query_def world_listing_def)
  then have "rs_list world_retention tid w = (Inr (world_listing tid w), w)"
    by (simp add: world_retention_def on_db_def)
  with live show "\<exists>as w'. rs_list world_retention tid w = (Inr as, w') \<and> world_live ss own w' \<and>
      world_locked ss w' = world_locked ss w" by blast
next
  fix w :: world and i assume live: "world_live ss own w"
  let ?d = "(wdb w)\<lparr>artifacts := filter (\<lambda>a. art_id a \<noteq> i) (artifacts (wdb w))\<rparr>"
  have d: "DeleteArtifact i (wdb w) = (Inr (), ?d)" using live by (simp add: world_live_def DeleteArtifact_def)
  then have "rs_delete world_retention i w = (Inr (), w\<lparr>wdb := ?d\<rparr>)"
    by (simp add: world_retention_def on_db_def)
  moreover from this have "world_ok ss own (w\<lparr>wdb := ?d\<rparr>)"
    using vault.delete_row [of ss own w i] live by (auto simp: world_live_def)
  ultimately show "\<exists>w'. rs_delete world_retention i w = (Inr (), w') \<and> world_live ss own w' \<and>
      world_locked ss w' = world_locked ss w"
    using live by (auto simp: world_live_def world_locked_def)
next
  fix w :: world and a assume live: "world_live ss own w" and a: "a \<in> world_rows w"
  then obtain l where l: "local_root ss (art_storage a) = Some l"
    by (auto simp: world_live_def world_rows_def object_path_def)
  then obtain st where st: "find (\<lambda>s. sto_id s = art_storage a) ss = Some st" "sto_type st = ''localfs''" "New (sto_config st) = Inr l"
    by (auto simp: local_root_def split: option.splits if_splits sum.splits)
  have "storages (wdb w) = ss" "faults (wdb w) = []" using live by (simp_all add: world_live_def world_ok_def)
  then have "world_opener (art_storage a) w = (Inr (localfs_plugin l), w)"
    using st by (simp add: world_opener_def storageOpener_def on_db_def GetStorage_def query_row_def
        open_storage_def Storages_create)
  with live show "\<exists>s w'. world_opener (art_storage a) w = (Inr s, w') \<and> world_live ss own w' \<and>
      world_locked ss w' = world_locked ss w" by blast
next
  fix w :: world and a s
  assume live: "world_live ss own w" and a: "a \<in> world_rows w" and s: "world_serves ss (art_storage a) s"
  obtain l where l: "local_root ss (art_storage a) = Some l" "s = localfs_plugin l" using s by (auto simp: world_serves_def)
  let ?p = "fs_path (lf_root l) (art_key a)"
  have p: "object_path ss (art_storage a) (art_key a) = Some ?p" using l by (simp add: object_path_def)
  have pl: "path_live (wdisk w) ?p" "dk_faults (wdisk w) = []" "good_key (art_key a)"
    using live a p by (auto simp: world_live_def world_rows_def world_ok_def)
  obtain r d where d: "Delete l (art_key a) (wdisk w) = (r, d)" by fastforce
  have del: "sp_delete s (art_key a) w = (r, w\<lparr>wdisk := d\<rparr>)"
    using d l(2) by (simp add: localfs_plugin_def on_disk_def)
  note D = Delete_live [OF pl(2,1) d]
  have ok: "world_ok ss own (w\<lparr>wdisk := d\<rparr>)"
    using world_delete_object [OF _ s pl(3) del] live by (simp add: world_live_def)
  have "dk_faults d = []" "dk_locked d = dk_locked (wdisk w)" "\<forall>q. path_live (wdisk w) q \<longrightarrow> path_live d q"
    using D pl(2) path_live_drop by (auto simp: drop_file_def)
  then have "world_live ss own (w\<lparr>wdisk := d\<rparr>) \<and> world_locked ss (w\<lparr>wdisk := d\<rparr>) = world_locked ss w"
    using live ok by (fastforce simp: world_live_def world_locked_def)
  moreover have "is_ok r \<longleftrightarrow> location a \<notin> world_locked ss w"
    using D p by (simp add: world_locked_def location_def)
  ultimately show "\<exists>r w'. sp_delete s (art_key a) w = (r, w') \<and> world_live ss own w' \<and>
      world_locked ss w' = world_locked ss w \<and> (is_ok r \<longleftrightarrow> location a \<notin> world_locked ss w)"
    using del by blast
qed

end
