(* ===== verification/Scrub.thy ===== *)
theory Scrub
  imports Prelude
begin

text \<open>
  The masking of credentials in free text, internal/obs/log.go: the three rewrite rules of Scrub
  as scanners over byte strings. Each rule is a regular expression without backtracking: every
  repetition is over a class that excludes what must follow, so a match at a position is found by
  spans. The case folding of the third rule is the ASCII one. The text of an error is rendered
  here too, as far as the model keeps it.
\<close>

subsection \<open>Error texts\<close>

fun err_text :: "err \<Rightarrow> string" where
  "err_text ErrAlreadyActive = ''core: task already has an active run''"
| "err_text ErrNoQueuedRun = ''core: no queued run''"
| "err_text ErrNotFound = ''sqlite: not found''"
| "err_text ErrInUse = ''sqlite: in use''"
| "err_text ErrLastAdmin = ''sqlite: would leave no active admin''"
| "err_text ErrSelfTarget = ''self target''"
| "err_text ErrNotRegistered = ''plugin: not registered''"
| "err_text ErrModeUnsupported = ''plugin: dump mode unsupported''"
| "err_text ErrCanceled = ''context canceled''"
| "err_text (Errorf s) = s"
| "err_text (Wrap p e) = p @ err_text e"
| "err_text (Detail e s) = err_text e @ s"
| "err_text (Joined []) = []"
| "err_text (Joined [e]) = err_text e"
| "err_text (Joined (e # f # es)) = err_text e @ [CHR 0x0A] @ err_text (Joined (f # es))"

subsection \<open>Classes and spans\<close>

definition redacted :: string where
  "redacted = [CHR 0xC2, CHR 0xAB] @ ''REDACTED'' @ [CHR 0xC2, CHR 0xBB]"

definition is_digit :: "char \<Rightarrow> bool" where
  "is_digit c = (48 \<le> (of_char c :: nat) \<and> (of_char c :: nat) \<le> 57)"

definition is_letter :: "char \<Rightarrow> bool" where
  "is_letter c = (65 \<le> (of_char c :: nat) \<and> (of_char c :: nat) \<le> 90 \<or> 97 \<le> (of_char c :: nat) \<and> (of_char c :: nat) \<le> 122)"

definition is_blank :: "char \<Rightarrow> bool" where
  "is_blank c = (of_char c \<in> {9, 10, 12, 13, 32 :: nat})"

definition token_char :: "char \<Rightarrow> bool" where
  "token_char c = (is_letter c \<or> is_digit c \<or> c = CHR ''_'' \<or> c = CHR ''-'')"

definition user_char :: "char \<Rightarrow> bool" where
  "user_char c = (c \<noteq> CHR ''/'' \<and> c \<noteq> CHR ''@'' \<and> c \<noteq> CHR '':'' \<and> \<not> is_blank c)"

definition pass_char :: "char \<Rightarrow> bool" where
  "pass_char c = (c \<noteq> CHR ''/'' \<and> c \<noteq> CHR ''@'' \<and> \<not> is_blank c)"

definition value_char :: "char \<Rightarrow> bool" where
  "value_char c = (c \<noteq> CHR ''&'' \<and> c \<noteq> CHR 0x22 \<and> c \<noteq> CHR 0x27 \<and> \<not> is_blank c)"

subsection \<open>The rules\<close>

text \<open>A rule matches a prefix of the text: what replaces it, and the rest.\<close>

type_synonym rule = "string \<Rightarrow> (string \<times> string) option"

definition bot_token :: rule where
  "bot_token s =
     (let ds = takeWhile is_digit s; r = dropWhile is_digit s in
      case r of
        [] \<Rightarrow> None
      | c # r \<Rightarrow>
          let ts = takeWhile token_char r in
          if c = CHR '':'' \<and> 6 \<le> length ds \<and> 30 \<le> length ts then Some (redacted, dropWhile token_char r) else None)"

definition url_password :: rule where
  "url_password s =
     (if take 3 s = ''://'' then
        let u = takeWhile user_char (drop 3 s); r = dropWhile user_char (drop 3 s) in
        case r of
          [] \<Rightarrow> None
        | c # r \<Rightarrow>
            let p = takeWhile pass_char r; q = dropWhile pass_char r in
            if c = CHR '':'' \<and> p \<noteq> [] \<and> q \<noteq> [] \<and> hd q = CHR ''@''
            then Some (''://'' @ u @ '':'' @ redacted @ ''@'', tl q) else None
      else None)"

definition credential_params :: "string list" where
  "credential_params = [''token'', ''access_token'', ''api_key'', ''apikey'', ''key'', ''secret'', ''password'', ''sig'', ''signature'']"

definition query_param :: rule where
  "query_param s =
     (case s of
        [] \<Rightarrow> None
      | c # r \<Rightarrow>
          if c \<noteq> CHR ''?'' \<and> c \<noteq> CHR ''&'' then None
          else (case find (\<lambda>n. map to_lower (take (length n) r) = n \<and> take 1 (drop (length n) r) = ''='') credential_params of
                  None \<Rightarrow> None
                | Some n \<Rightarrow>
                    let v = takeWhile value_char (drop (length n + 1) r) in
                    if v = [] then None
                    else Some (c # take (length n + 1) r @ redacted, dropWhile value_char (drop (length n + 1) r))))"

text \<open>ReplaceAllString: the leftmost match first, then on from its end.\<close>

fun replace_all :: "nat \<Rightarrow> rule \<Rightarrow> string \<Rightarrow> string" where
  "replace_all 0 f s = s"
| "replace_all (Suc n) f [] = []"
| "replace_all (Suc n) f (c # s) =
     (case f (c # s) of
        Some (out, rest) \<Rightarrow> out @ replace_all n f rest
      | None \<Rightarrow> c # replace_all n f s)"

definition apply_rule :: "rule \<Rightarrow> string \<Rightarrow> string" where
  "apply_rule f s = replace_all (length s) f s"

definition Scrub :: "string \<Rightarrow> string" where
  "Scrub s = apply_rule query_param (apply_rule url_password (apply_rule bot_token s))"

subsection \<open>Fuel\<close>

definition shrinking :: "rule \<Rightarrow> bool" where
  "shrinking f = (\<forall>s out rest. f s = Some (out, rest) \<longrightarrow> length rest < length s)"

lemma shrinking_rules: "shrinking bot_token" "shrinking url_password" "shrinking query_param"
proof -
  have d: "length (dropWhile P xs) \<le> length xs" for P and xs :: string
    by (rule length_dropWhile_le)
  show "shrinking bot_token"
    unfolding shrinking_def bot_token_def Let_def
  proof (intro allI impI)
    fix s out rest
    assume "(case dropWhile is_digit s of [] \<Rightarrow> None | c # r \<Rightarrow>
      if c = CHR '':'' \<and> 6 \<le> length (takeWhile is_digit s) \<and> 30 \<le> length (takeWhile token_char r)
      then Some (redacted, dropWhile token_char r) else None) = Some (out, rest)"
    then obtain c r where "dropWhile is_digit s = c # r" "rest = dropWhile token_char r"
      by (auto split: list.splits if_splits)
    then show "length rest < length s" using d [of is_digit s] d [of token_char r] by simp
  qed
  show "shrinking url_password"
    unfolding shrinking_def
  proof (intro allI impI)
    fix s out rest assume "url_password s = Some (out, rest)"
    then obtain c r where r: "dropWhile user_char (drop 3 s) = c # r" "rest = tl (dropWhile pass_char r)" "take 3 s = ''://''"
      by (auto simp: url_password_def Let_def split: list.splits if_splits)
    then have "3 \<le> length s" by (metis length_take list.size(3,4) min_def_raw nat_le_linear numeral_3_eq_3 plus_1_eq_Suc One_nat_def add.commute min.absorb_iff2)
    then show "length rest < length s" using r d [of user_char "drop 3 s"] d [of pass_char r] by simp
  qed
  have e: "length (dropWhile P (drop n xs)) \<le> length xs" for P n and xs :: string
    using d [of P "drop n xs"] by simp
  show "shrinking query_param"
    unfolding shrinking_def query_param_def
    using e [of value_char] by (auto simp: Let_def less_Suc_eq_le split: list.splits if_splits option.splits)
qed

lemma shrinkingD: "shrinking f \<Longrightarrow> f s = Some (out, rest) \<Longrightarrow> length rest < length s"
  unfolding shrinking_def by blast

text \<open>The length of the text is fuel enough: more changes nothing.\<close>

lemma replace_all_fuel:
  assumes "shrinking f"
  shows "length s \<le> n \<Longrightarrow> replace_all n f s = replace_all (length s) f s"
proof (induction n arbitrary: s rule: less_induct)
  case (less n)
  show ?case
  proof (cases s)
    case (Cons c t)
    then obtain m where n: "n = Suc m" using less.prems by (cases n) auto
    show ?thesis
    proof (cases "f (c # t)")
      case None
      with less.IH [of m t] less.prems n Cons show ?thesis by simp
    next
      case (Some p)
      obtain out rest where p: "p = (out, rest)" by fastforce
      have "length rest < length s" using shrinkingD [OF assms] Some p Cons by metis
      then have "replace_all m f rest = replace_all (length rest) f rest"
        "replace_all (length t) f rest = replace_all (length rest) f rest"
        using less.IH [of m rest] less.IH [of "length t" rest] less.prems n Cons by auto
      then show ?thesis using Some p n Cons by simp
    qed
  qed (cases n; simp)
qed

lemma apply_rule_Nil [simp]: "apply_rule f [] = []"
  by (simp add: apply_rule_def)

lemma apply_rule_Cons:
  assumes "shrinking f"
  shows "apply_rule f (c # s) =
    (case f (c # s) of Some (out, rest) \<Rightarrow> out @ apply_rule f rest | None \<Rightarrow> c # apply_rule f s)"
proof (cases "f (c # s)")
  case None
  then show ?thesis by (simp add: apply_rule_def)
next
  case (Some p)
  obtain out rest where p: "p = (out, rest)" by fastforce
  have "length rest \<le> length s" using shrinkingD [OF assms Some [unfolded p]] by simp
  with replace_all_fuel [OF assms this] Some p show ?thesis by (simp add: apply_rule_def)
qed

end
