(* ===== verification/ConfigMask.thy ===== *)
theory ConfigMask
  imports Model
begin

text \<open>
  Masking of inline credentials in plugin configs, internal/api/config_mask.go, on JSON values:
  what a listing shows instead of a credential, and how an edit that sends the shown config back
  restores what was stored. A Go map is the list of its members, whose keys are distinct.
\<close>

subsection \<open>The code\<close>

definition refSuffix :: string where "refSuffix = ''_ref''"

definition has_suffix :: "string \<Rightarrow> string \<Rightarrow> bool" where
  "has_suffix s suf = suffix suf s"

definition secretishKeys :: "string list" where
  "secretishKeys = [''token'', ''password'', ''passphrase'', ''secret'', ''key'', ''auth'']"

definition isSecretish :: "string \<Rightarrow> bool" where
  "isSecretish k =
     (if has_suffix k ''_ref'' then False
      else list_ex (\<lambda>s. k = s \<or> has_suffix k (CHR ''_'' # s)) secretishKeys)"

text \<open>Four bullets, U+2022, in UTF-8.\<close>

definition secretMask :: string where
  "secretMask = concat (replicate 4 (map char_of [226 :: nat, 128, 162]))"

fun maskValue :: "json \<Rightarrow> json" and maskMembers :: "(string \<times> json) list \<Rightarrow> (string \<times> json) list"
  and maskItems :: "json list \<Rightarrow> json list" where
  "maskValue (JObj kvs) = JObj (maskMembers kvs)"
| "maskValue (JArr vs) = JArr (maskItems vs)"
| "maskValue v = v"
| "maskMembers [] = []"
| "maskMembers ((k, JStr s) # kvs) =
     (k, JStr (if isSecretish k \<and> s \<noteq> [] then secretMask else s)) # maskMembers kvs"
| "maskMembers ((k, v) # kvs) = (k, maskValue v) # maskMembers kvs"
| "maskItems [] = []"
| "maskItems (v # vs) = maskValue v # maskItems vs"

definition maskSecrets :: "raw \<Rightarrow> raw" where
  "maskSecrets r =
     (if r = raw_empty then r
      else case r of BadRaw _ \<Rightarrow> Raw (JObj []) | Raw v \<Rightarrow> Raw (maskValue v))"

definition members :: "json option \<Rightarrow> (string \<times> json) list" where
  "members v = (case v of Some (JObj kvs) \<Rightarrow> kvs | _ \<Rightarrow> [])"

definition items :: "json option \<Rightarrow> json list" where
  "items v = (case v of Some (JArr vs) \<Rightarrow> vs | _ \<Rightarrow> [])"

fun unmaskValue :: "json \<Rightarrow> json option \<Rightarrow> json"
  and unmaskMembers :: "(string \<times> json) list \<Rightarrow> (string \<times> json) list \<Rightarrow> (string \<times> json) list"
  and unmaskItems :: "json list \<Rightarrow> json list \<Rightarrow> json list" where
  "unmaskValue (JObj kvs) stored = JObj (unmaskMembers kvs (members stored))"
| "unmaskValue (JArr vs) stored = JArr (unmaskItems vs (items stored))"
| "unmaskValue v stored = v"
| "unmaskMembers [] prev = []"
| "unmaskMembers ((k, JStr s) # kvs) prev =
     (if s \<noteq> secretMask then (k, JStr s) # unmaskMembers kvs prev
      else case map_of prev k of
             Some v \<Rightarrow> (k, v) # unmaskMembers kvs prev
           | None \<Rightarrow> unmaskMembers kvs prev)"
| "unmaskMembers ((k, v) # kvs) prev = (k, unmaskValue v (map_of prev k)) # unmaskMembers kvs prev"
| "unmaskItems [] prev = []"
| "unmaskItems (v # vs) prev =
     unmaskValue v (case prev of [] \<Rightarrow> None | p # ps \<Rightarrow> Some p) # unmaskItems vs (tl prev)"

definition unmaskSecrets :: "raw \<Rightarrow> raw \<Rightarrow> raw" where
  "unmaskSecrets req current =
     (case (req, current) of
        (Raw v, Raw stored) \<Rightarrow> Raw (unmaskValue v (Some stored))
      | _ \<Rightarrow> req)"

subsection \<open>What must hold\<close>

text \<open>The objects of a parsed JSON text have distinct keys.\<close>

fun keys_distinct :: "json \<Rightarrow> bool" and members_distinct :: "(string \<times> json) list \<Rightarrow> bool"
  and items_distinct :: "json list \<Rightarrow> bool" where
  "keys_distinct (JObj kvs) = (distinct (map fst kvs) \<and> members_distinct kvs)"
| "keys_distinct (JArr vs) = items_distinct vs"
| "keys_distinct v = True"
| "members_distinct [] = True"
| "members_distinct ((k, v) # kvs) = (keys_distinct v \<and> members_distinct kvs)"
| "items_distinct [] = True"
| "items_distinct (v # vs) = (keys_distinct v \<and> items_distinct vs)"

text \<open>The strings stored under a key that names a credential, at any depth.\<close>

fun credentials :: "json \<Rightarrow> string list" and member_credentials :: "(string \<times> json) list \<Rightarrow> string list"
  and item_credentials :: "json list \<Rightarrow> string list" where
  "credentials (JObj kvs) = member_credentials kvs"
| "credentials (JArr vs) = item_credentials vs"
| "credentials v = []"
| "member_credentials [] = []"
| "member_credentials ((k, JStr s) # kvs) =
     (if isSecretish k then [s] else []) @ member_credentials kvs"
| "member_credentials ((k, v) # kvs) = credentials v @ member_credentials kvs"
| "item_credentials [] = []"
| "item_credentials (v # vs) = credentials v @ item_credentials vs"

text \<open>Everything else: the config with its credentials blanked.\<close>

fun blank :: "json \<Rightarrow> json" and blank_members :: "(string \<times> json) list \<Rightarrow> (string \<times> json) list"
  and blank_items :: "json list \<Rightarrow> json list" where
  "blank (JObj kvs) = JObj (blank_members kvs)"
| "blank (JArr vs) = JArr (blank_items vs)"
| "blank v = v"
| "blank_members [] = []"
| "blank_members ((k, JStr s) # kvs) = (k, JStr (if isSecretish k then [] else s)) # blank_members kvs"
| "blank_members ((k, v) # kvs) = (k, blank v) # blank_members kvs"
| "blank_items [] = []"
| "blank_items (v # vs) = blank v # blank_items vs"

text \<open>A mask left in a config: as the value of a member, at any depth.\<close>

fun shows_mask :: "json \<Rightarrow> bool" and member_mask :: "(string \<times> json) list \<Rightarrow> bool"
  and item_mask :: "json list \<Rightarrow> bool" where
  "shows_mask (JObj kvs) = member_mask kvs"
| "shows_mask (JArr vs) = item_mask vs"
| "shows_mask v = False"
| "member_mask [] = False"
| "member_mask ((k, JStr s) # kvs) = (s = secretMask \<or> member_mask kvs)"
| "member_mask ((k, v) # kvs) = (shows_mask v \<or> member_mask kvs)"
| "item_mask [] = False"
| "item_mask (v # vs) = (shows_mask v \<or> item_mask vs)"

lemma mask_credentials:
  "set (credentials (maskValue v)) \<subseteq> {[], secretMask}"
  "set (member_credentials (maskMembers kvs)) \<subseteq> {[], secretMask}"
  "set (item_credentials (maskItems vs)) \<subseteq> {[], secretMask}"
  by (induction v and kvs and vs rule: maskValue_maskMembers_maskItems.induct) auto

lemma mask_blank:
  "blank (maskValue v) = blank v"
  "blank_members (maskMembers kvs) = blank_members kvs"
  "blank_items (maskItems vs) = blank_items vs"
  by (induction v and kvs and vs rule: maskValue_maskMembers_maskItems.induct) auto

text \<open>
  C24: A listing shows no inline credential: under every key that names one, at any depth, the
  masked config holds the mask or the empty string, and everything else is as it was stored.
\<close>

theorem mask_hides_credentials:
  "set (credentials (maskValue v)) \<subseteq> {[], secretMask} \<and> blank (maskValue v) = blank v"
  using mask_credentials(1) mask_blank(1) by blast

lemma unmask_mask:
  "keys_distinct v \<Longrightarrow> unmaskValue (maskValue v) (Some v) = v"
  "\<forall>(k, v) \<in> set kvs. map_of prev k = Some v \<Longrightarrow> members_distinct kvs \<Longrightarrow>
     unmaskMembers (maskMembers kvs) prev = kvs"
  "items_distinct vs \<Longrightarrow> unmaskItems (maskItems vs) vs = vs"
proof (induction v and kvs and vs arbitrary: and prev and rule: maskValue_maskMembers_maskItems.induct)
  case (1 kvs)
  have "\<forall>(k, v) \<in> set kvs. map_of kvs k = Some v"
    using "1.prems" by (auto intro: map_of_is_SomeI)
  with "1.IH" "1.prems" show ?case by (simp add: members_def)
qed (auto simp: members_def items_def)

lemma member_mask_Cons:
  "member_mask ((k, v) # kvs) = (v = JStr secretMask \<or> shows_mask v \<or> member_mask kvs)"
  by (cases v) auto

lemma member_mask_lookup:
  "\<not> member_mask kvs \<Longrightarrow> map_of kvs k = Some v \<Longrightarrow> v \<noteq> JStr secretMask \<and> \<not> shows_mask v"
  by (induction kvs) (auto simp: member_mask_Cons split: if_splits)

lemma lookup_no_mask:
  "\<not> member_mask kvs \<Longrightarrow> \<not> (case map_of kvs k of Some s \<Rightarrow> shows_mask s | None \<Rightarrow> False)"
  using member_mask_lookup [of kvs k] by (auto split: option.splits)

lemma no_mask_left:
  "\<not> (case stored of Some s \<Rightarrow> shows_mask s | None \<Rightarrow> False) \<Longrightarrow> \<not> shows_mask (unmaskValue v stored)"
  "\<not> member_mask prev \<Longrightarrow> \<not> member_mask (unmaskMembers kvs prev)"
  "\<not> item_mask prevs \<Longrightarrow> \<not> item_mask (unmaskItems vs prevs)"
proof (induction v stored and kvs prev and vs prevs rule: unmaskValue_unmaskMembers_unmaskItems.induct)
  case (1 kvs stored)
  have "\<not> member_mask (members stored)"
    using "1.prems" by (cases stored) (auto simp: members_def split: json.splits)
  with "1.IH" show ?case by simp
next
  case (2 vs stored)
  have "\<not> item_mask (items stored)"
    using "2.prems" by (cases stored) (auto simp: items_def split: json.splits)
  with "2.IH" show ?case by simp
qed (use lookup_no_mask in \<open>auto simp: member_mask_Cons dest: member_mask_lookup split: list.splits option.split\<close>)



text \<open>
  An edit never persists a mask over a credential: if the stored config holds no mask, the
  saved one holds none, whatever the client sends.
\<close>

theorem edit_never_persists_mask:
  assumes "\<not> shows_mask stored"
  shows "\<not> shows_mask (unmaskValue v (Some stored))"
  using no_mask_left(1) [of "Some stored"] assms by simp

theorem edit_never_persists_mask_witness:
  "\<not> shows_mask (unmaskValue (JObj [(''token'', JStr secretMask), (''password'', JStr secretMask)])
     (Some (JObj [(''token'', JStr ''t'')])))"
  by (rule edit_never_persists_mask) code_simp

lemma mask_sample:
  "maskValue (JObj [(''ssh'', JObj [(''private_key'', JStr ''k''), (''host'', JStr ''h'')])]) =
   JObj [(''ssh'', JObj [(''private_key'', JStr secretMask), (''host'', JStr ''h'')])]"
  by code_simp

end
