(* ===== verification/Secrets.thy ===== *)
theory Secrets
  imports ConfigMask AlertStore
begin

text \<open>
  Resolution of secret references in a plugin config, internal/core/secrets.go, and the reference
  check of the secret's deletion, internal/store/sqlite/delete.go. Ranging over a Go map visits
  its members in an unspecified order, and Resolve writes to the map it ranges over: the model
  visits the members in the order of the list, looks each up in the current map, and never visits
  a member added on the way. The decryption of a stored secret is a parameter.
\<close>

subsection \<open>The code\<close>

type_synonym obj = "(string \<times> json) list"

definition obj_set :: "string \<Rightarrow> json \<Rightarrow> obj \<Rightarrow> obj" where
  "obj_set k v o' = (if k \<in> set (map fst o') then map (\<lambda>(k', v'). (k', if k' = k then v else v')) o'
     else o' @ [(k, v)])"

definition cut_ref :: "string \<Rightarrow> string option" where
  "cut_ref k = (if has_suffix k refSuffix then Some (take (length k - length refSuffix) k) else None)"

definition string_of :: "json option \<Rightarrow> string" where
  "string_of v = (case v of Some (JStr s) \<Rightarrow> s | _ \<Rightarrow> [])"

definition resolve_leaf ::
  "(string \<Rightarrow> ('w, string) op) \<Rightarrow> string \<Rightarrow> string \<Rightarrow> json \<Rightarrow> obj \<Rightarrow> ('w, obj) op" where
  "resolve_leaf opn path key val cfg w =
     (case cut_ref key of
        None \<Rightarrow> (Inr cfg, w)
      | Some base \<Rightarrow>
          if base = [] then (Inr cfg, w)
          else if string_of (Some val) = [] then (Inr cfg, w)
          else if string_of (map_of cfg base) \<noteq> [] then (Inr cfg, w)
          else (case opn (string_of (Some val)) w of
                  (Inl e, w) \<Rightarrow> (Inl (Wrap (path @ key @ '': '') e), w)
                | (Inr plain, w) \<Rightarrow> (Inr (obj_set base (JStr plain) cfg), w)))"

text \<open>A member whose value an earlier reference has already replaced by its secret.\<close>

definition replaced :: "obj \<Rightarrow> string \<Rightarrow> json \<Rightarrow> json" where
  "replaced cfg k v = (case map_of cfg k of Some (JStr s) \<Rightarrow> JStr s | _ \<Rightarrow> v)"

definition scalar :: "json \<Rightarrow> bool" where
  "scalar v = (case v of JObj _ \<Rightarrow> False | JArr _ \<Rightarrow> False | _ \<Rightarrow> True)"

fun resolve_value :: "(string \<Rightarrow> ('w, string) op) \<Rightarrow> string \<Rightarrow> json \<Rightarrow> ('w, json) op"
  and resolve_members :: "(string \<Rightarrow> ('w, string) op) \<Rightarrow> string \<Rightarrow> obj \<Rightarrow> obj \<Rightarrow> ('w, obj) op"
  and resolve_items :: "(string \<Rightarrow> ('w, string) op) \<Rightarrow> string \<Rightarrow> nat \<Rightarrow> json list \<Rightarrow> ('w, json list) op" where
  "resolve_value opn path (JObj kvs) w =
     (case resolve_members opn path kvs kvs w of
        (Inl e, w) \<Rightarrow> (Inl e, w) | (Inr kvs, w) \<Rightarrow> (Inr (JObj kvs), w))"
| "resolve_value opn path (JArr vs) w =
     (case resolve_items opn path 0 vs w of
        (Inl e, w) \<Rightarrow> (Inl e, w) | (Inr vs, w) \<Rightarrow> (Inr (JArr vs), w))"
| "resolve_value opn path v w = (Inr v, w)"
| "resolve_members opn path [] cfg w = (Inr cfg, w)"
| "resolve_members opn path ((k, v) # rest) cfg w =
     (if scalar (replaced cfg k v) then
        (case resolve_leaf opn path k (replaced cfg k v) cfg w of
           (Inl e, w) \<Rightarrow> (Inl e, w)
         | (Inr cfg, w) \<Rightarrow> resolve_members opn path rest cfg w)
      else
        (case resolve_value opn (path @ k @ ''.'') v w of
           (Inl e, w) \<Rightarrow> (Inl e, w)
         | (Inr v, w) \<Rightarrow> resolve_members opn path rest (obj_set k v cfg) w))"
| "resolve_items opn path i [] w = (Inr [], w)"
| "resolve_items opn path i (v # vs) w =
     (case resolve_value opn (path @ dec_nat i @ ''.'') v w of
        (Inl e, w) \<Rightarrow> (Inl e, w)
      | (Inr v, w) \<Rightarrow>
          (case resolve_items opn path (i + 1) vs w of
             (Inl e, w) \<Rightarrow> (Inl e, w) | (Inr vs, w) \<Rightarrow> (Inr (v # vs), w)))"

definition Resolve :: "(string \<Rightarrow> ('w, string) op) \<Rightarrow> raw \<Rightarrow> ('w, raw) op" where
  "Resolve opn r w =
     (if r = raw_empty then (Inr r, w)
      else case r of
        BadRaw s \<Rightarrow> (Inl (Wrap ''config: '' (Errorf ''invalid JSON'')), w)
      | Raw JNull \<Rightarrow> (Inr r, w)
      | Raw (JObj kvs) \<Rightarrow>
          (case resolve_members opn [] kvs kvs w of
             (Inl e, w) \<Rightarrow> (Inl e, w)
           | (Inr kvs, w) \<Rightarrow> (Inr (Raw (JObj kvs)), w))
      | Raw v \<Rightarrow> (Inl (Wrap ''config: '' (Errorf ''cannot unmarshal into map'')), w))"

text \<open>SecretResolver.Open over the store and the box that decrypts a row.\<close>

definition OpenSecret :: "(secret \<Rightarrow> err + string) option \<Rightarrow> string \<Rightarrow> (db, string) op" where
  "OpenSecret box ref d =
     (case box of
        None \<Rightarrow> (Inl (Errorf (''secret '' @ quoted ref @ '' required but no secret opener configured'')), d)
      | Some opener \<Rightarrow>
          (case GetSecretByRef ref d of
             (Inl e, d) \<Rightarrow> (Inl (Wrap (''secret '' @ quoted ref @ '': '') e), d)
           | (Inr s, d) \<Rightarrow>
               (case opener s of
                  Inl e \<Rightarrow> (Inl (Wrap (''secret '' @ quoted ref @ '': '') e), d)
                | Inr plain \<Rightarrow> (Inr plain, d))))"

subsection \<open>The reference check\<close>

definition refName :: "string \<Rightarrow> string" where
  "refName ref = trim_space (strip_prefix ''secret://'' ref)"

fun collectRefs :: "json \<Rightarrow> string list" and collectMembers :: "obj \<Rightarrow> string list"
  and collectItems :: "json list \<Rightarrow> string list" where
  "collectRefs (JObj kvs) = collectMembers kvs"
| "collectRefs (JArr vs) = collectItems vs"
| "collectRefs v = []"
| "collectMembers [] = []"
| "collectMembers ((k, v) # kvs) =
     (if has_suffix k ''_ref'' \<and> string_of (Some v) \<noteq> [] then [refName (string_of (Some v))]
      else collectRefs v) @ collectMembers kvs"
| "collectItems [] = []"
| "collectItems (v # vs) = collectRefs v @ collectItems vs"

definition configRefs :: "raw \<Rightarrow> string list" where
  "configRefs r = (case r of BadRaw _ \<Rightarrow> [] | Raw v \<Rightarrow> collectRefs v)"

definition hasRef :: "raw \<Rightarrow> string \<Rightarrow> bool" where
  "hasRef r name = list_ex (\<lambda>ref. ref = name) (configRefs r)"

datatype secret_user = UsedByConnection string | UsedByStorage string | UsedByChannel string

definition secret_refs :: "string \<Rightarrow> db \<Rightarrow> secret_user list" where
  "secret_refs name d =
     map (UsedByConnection \<circ> con_name)
       (filter (\<lambda>c. refName (con_secret_ref c) = name \<or> hasRef (con_config c) name) (sort_key con_id (connections d))) @
     map (UsedByStorage \<circ> sto_name)
       (filter (\<lambda>s. refName (sto_secret_ref s) = name \<or> hasRef (sto_config s) name) (sort_key sto_id (storages d))) @
     map (UsedByChannel \<circ> ch_name)
       (filter (\<lambda>c. hasRef (ch_config c) name) (sort_key ch_id (channels d)))"

subsection \<open>What Resolve may ask for\<close>

text \<open>
  The references in a config: the non-empty strings under a key with the suffix, the key not
  being the suffix alone.
\<close>

fun refs_in :: "json \<Rightarrow> string list" and member_refs :: "obj \<Rightarrow> string list"
  and item_refs :: "json list \<Rightarrow> string list" where
  "refs_in (JObj kvs) = member_refs kvs"
| "refs_in (JArr vs) = item_refs vs"
| "refs_in v = []"
| "member_refs [] = []"
| "member_refs ((k, v) # kvs) =
     (if has_suffix k ''_ref'' \<and> string_of (Some v) \<noteq> [] then [string_of (Some v)]
      else refs_in v) @ member_refs kvs"
| "item_refs [] = []"
| "item_refs (v # vs) = refs_in v @ item_refs vs"

lemma collectRefs_eq:
  "collectRefs v = map refName (refs_in v)"
  "collectMembers kvs = map refName (member_refs kvs)"
  "collectItems vs = map refName (item_refs vs)"
  by (induction v and kvs and vs rule: refs_in_member_refs_item_refs.induct) simp_all

text \<open>
  Keys such that no reference key names another reference: with them what a member refers to does
  not depend on the order in which Go visits the map.
\<close>

fun plain_keys :: "json \<Rightarrow> bool" and plain_members :: "obj \<Rightarrow> bool" and plain_items :: "json list \<Rightarrow> bool" where
  "plain_keys (JObj kvs) = plain_members kvs"
| "plain_keys (JArr vs) = plain_items vs"
| "plain_keys v = True"
| "plain_members [] = True"
| "plain_members ((k, v) # kvs) = (\<not> has_suffix k ''_ref_ref'' \<and> plain_keys v \<and> plain_members kvs)"
| "plain_items [] = True"
| "plain_items (v # vs) = (plain_keys v \<and> plain_items vs)"

lemma map_of_obj_set: "map_of (obj_set k v kvs) k' = (if k' = k then Some v else map_of kvs k')"
proof (cases "k \<in> set (map fst kvs)")
  case True
  have "map_of (map (\<lambda>(k', v'). (k', if k' = k then v else v')) kvs) k' =
      (if k' = k then map_option (\<lambda>_. v) (map_of kvs k) else map_of kvs k')"
    by (induction kvs) auto
  moreover have "map_of kvs k \<noteq> None" using True by (simp add: map_of_eq_None_iff)
  ultimately show ?thesis using True by (auto simp: obj_set_def)
next
  case False
  then have "map_of kvs k = None" by (simp add: map_of_eq_None_iff)
  with False show ?thesis by (auto simp: obj_set_def map_add_def split: option.split)
qed

lemma cut_ref_Some: "cut_ref k = Some b \<longleftrightarrow> k = b @ ''_ref''"
  by (auto simp: cut_ref_def has_suffix_def refSuffix_def suffix_def)

text \<open>The members that are still as in the object at the start, those with a reference key at least.\<close>

definition refs_untouched :: "obj \<Rightarrow> obj \<Rightarrow> bool" where
  "refs_untouched rest cfg = (\<forall>(k, v) \<in> set rest. has_suffix k ''_ref'' \<longrightarrow> map_of cfg k = Some v)"

lemma resolve_leaf_untouched:
  assumes "resolve_leaf opn path k v cfg w = (Inr cfg', w')" "\<not> has_suffix k ''_ref_ref''"
    "refs_untouched rest cfg"
  shows "refs_untouched rest cfg'"
proof -
  have "map_of cfg' k' = map_of cfg k'" if "has_suffix k' ''_ref''" for k'
  proof (cases "cut_ref k")
    case (Some b)
    have "b \<noteq> k'"
      using assms(2) that Some by (auto simp: cut_ref_Some has_suffix_def suffix_def)
    with assms(1) Some show ?thesis
      by (auto simp: resolve_leaf_def map_of_obj_set split: if_splits prod.splits sum.splits)
  qed (use assms(1) in \<open>simp add: resolve_leaf_def\<close>)
  with assms(3) show ?thesis by (auto simp: refs_untouched_def)
qed

lemma scalar_string: "string_of (Some v) \<noteq> [] \<Longrightarrow> \<exists>s. v = JStr s"
  by (auto simp: string_of_def split: json.splits)

text \<open>Resolution asks for nothing but the references in the config.\<close>

lemma resolve_cong:
  "(\<And>r. r \<in> set (refs_in v) \<Longrightarrow> opn r = opn' r) \<Longrightarrow> plain_keys v \<Longrightarrow> keys_distinct v \<Longrightarrow>
     resolve_value opn path v w = resolve_value opn' path v w"
  "(\<And>r. r \<in> set (member_refs kvs) \<Longrightarrow> opn r = opn' r) \<Longrightarrow> plain_members kvs \<Longrightarrow> members_distinct kvs \<Longrightarrow>
     distinct (map fst kvs) \<Longrightarrow> refs_untouched kvs cfg \<Longrightarrow>
     resolve_members opn path kvs cfg w = resolve_members opn' path kvs cfg w"
  "(\<And>r. r \<in> set (item_refs vs) \<Longrightarrow> opn r = opn' r) \<Longrightarrow> plain_items vs \<Longrightarrow> items_distinct vs \<Longrightarrow>
     resolve_items opn path i vs w = resolve_items opn' path i vs w"
proof (induction opn path v w and opn path kvs cfg w and opn path i vs w
    rule: resolve_value_resolve_members_resolve_items.induct)
  case (1 opn path kvs w)
  have "refs_untouched kvs kvs"
    using "1.prems" by (auto simp: refs_untouched_def)
  with 1 show ?case by simp
next
  case (5 opn path k v rest cfg w)
  let ?v = "replaced cfg k v"
  have rest: "\<And>r. r \<in> set (member_refs rest) \<Longrightarrow> opn r = opn' r" "plain_members rest" "members_distinct rest"
    "distinct (map fst rest)" "refs_untouched rest cfg"
    using "5.prems" by (auto simp: refs_untouched_def)
  show ?case
  proof (cases "scalar ?v")
    case True
    have leaf: "resolve_leaf opn path k ?v cfg w = resolve_leaf opn' path k ?v cfg w"
    proof (cases "cut_ref k")
      case (Some b)
      then have suf: "has_suffix k ''_ref''" by (auto simp: cut_ref_Some has_suffix_def suffix_def)
      then have "map_of cfg k = Some v" using "5.prems"(5) by (simp add: refs_untouched_def)
      then have "?v = v" by (auto simp: replaced_def split: json.splits)
      then show ?thesis
        using "5.prems"(1) [of "string_of (Some v)"] suf by (cases "string_of (Some v) = []") (simp_all add: resolve_leaf_def split: option.split)
    qed (simp add: resolve_leaf_def)
    show ?thesis
    proof (cases "resolve_leaf opn path k ?v cfg w")
      case (Pair r w1)
      show ?thesis
      proof (cases r)
        case (Inr cfg1)
        have "refs_untouched rest cfg1"
          using resolve_leaf_untouched [OF Pair [unfolded Inr] _ rest(5)] "5.prems"(2) by simp
        then have "resolve_members opn path rest cfg1 w1 = resolve_members opn' path rest cfg1 w1"
          using "5.IH"(1) [OF True Pair [symmetric] Inr] rest by simp
        moreover have "resolve_leaf opn path k ?v cfg w = (Inr cfg1, w1)"
          "resolve_leaf opn' path k ?v cfg w = (Inr cfg1, w1)"
          using Pair Inr leaf by simp_all
        ultimately show ?thesis using True by simp
      next
        case (Inl e)
        then have "resolve_leaf opn path k ?v cfg w = (Inl e, w1)"
          "resolve_leaf opn' path k ?v cfg w = (Inl e, w1)"
          using Pair leaf by simp_all
        then show ?thesis using True by simp
      qed
    qed
  next
    case False
    have str: "string_of (Some v) = []"
      using False scalar_string [of v] by (cases v) (auto simp: replaced_def scalar_def split: option.splits json.splits)
    have sub: "resolve_value opn (path @ k @ ''.'') v w = resolve_value opn' (path @ k @ ''.'') v w"
      using "5.IH"(2) [OF False] "5.prems" str by simp
    show ?thesis
    proof (cases "resolve_value opn (path @ k @ ''.'') v w")
      case (Pair r w1)
      show ?thesis
      proof (cases r)
        case (Inr v1)
        have "refs_untouched rest (obj_set k v1 cfg)"
          using rest(5) "5.prems"(4) by (auto simp: refs_untouched_def map_of_obj_set rev_image_eqI)
        then have "resolve_members opn path rest (obj_set k v1 cfg) w1 =
            resolve_members opn' path rest (obj_set k v1 cfg) w1"
          using "5.IH"(3) [OF False Pair [symmetric] Inr] rest by simp
        moreover have "resolve_value opn (path @ k @ ''.'') v w = (Inr v1, w1)"
          "resolve_value opn' (path @ k @ ''.'') v w = (Inr v1, w1)"
          using Pair Inr sub by simp_all
        ultimately show ?thesis using False by simp
      next
        case (Inl e)
        then have "resolve_value opn (path @ k @ ''.'') v w = (Inl e, w1)"
          "resolve_value opn' (path @ k @ ''.'') v w = (Inl e, w1)"
          using Pair sub by simp_all
        then show ?thesis using False by simp
      qed
    qed
  qed
qed (auto split: prod.splits sum.splits)

subsection \<open>Resolution over a healthy store\<close>

definition look :: "(secret \<Rightarrow> err + string) option \<Rightarrow> db \<Rightarrow> string \<Rightarrow> err + string" where
  "look box d ref = fst (OpenSecret box ref d)"

lemma OpenSecret_healthy: "faults d = [] \<Longrightarrow> OpenSecret box ref d = (look box d ref, d)"
  by (auto simp: look_def OpenSecret_def GetSecretByRef_def query_row_def Let_def split: option.split sum.split)

lemma resolve_state:
  "(\<And>r. opn r w = (f r, w)) \<Longrightarrow>
     resolve_value opn path v w = (fst (resolve_value (\<lambda>r u. (f r, u)) path v ()), w)"
  "(\<And>r. opn r w = (f r, w)) \<Longrightarrow>
     resolve_members opn path kvs cfg w = (fst (resolve_members (\<lambda>r u. (f r, u)) path kvs cfg ()), w)"
  "(\<And>r. opn r w = (f r, w)) \<Longrightarrow>
     resolve_items opn path i vs w = (fst (resolve_items (\<lambda>r u. (f r, u)) path i vs ()), w)"
proof (induction opn path v w and opn path kvs cfg w and opn path i vs w
    rule: resolve_value_resolve_members_resolve_items.induct)
  case (5 opn path k v rest cfg w)
  have leaf: "resolve_leaf opn path k x cfg w = (fst (resolve_leaf (\<lambda>r u. (f r, u)) path k x cfg ()), w)" for x
    using "5.prems" by (auto simp: resolve_leaf_def split: option.split sum.split)
  show ?case
  proof (cases "scalar (replaced cfg k v)")
    case True
    obtain y where y: "resolve_leaf (\<lambda>r u. (f r, u)) path k (replaced cfg k v) cfg () = (y, ())" by (metis old.unit.exhaust surj_pair)
    have ly: "resolve_leaf opn path k (replaced cfg k v) cfg w = (y, w)" using leaf y by simp
    show ?thesis
    proof (cases y)
      case (Inr cfg1)
      from "5.IH"(1) [OF True ly [symmetric] Inr "5.prems"] show ?thesis
        using True y ly Inr by simp
    qed (use True y ly in simp)
  next
    case False
    obtain y where y: "resolve_value (\<lambda>r u. (f r, u)) (path @ k @ ''.'') v () = (y, ())" by (metis old.unit.exhaust surj_pair)
    have ly: "resolve_value opn (path @ k @ ''.'') v w = (y, w)"
      using "5.IH"(2) [OF False "5.prems"] y by simp
    show ?thesis
    proof (cases y)
      case (Inr v1)
      from "5.IH"(3) [OF False ly [symmetric] Inr "5.prems"] show ?thesis
        using False y ly Inr by simp
    qed (use False y ly in simp)
  qed
next
  case (7 opn path i v vs w)
  obtain y where y: "resolve_value (\<lambda>r u. (f r, u)) (path @ dec_nat i @ ''.'') v () = (y, ())" by (metis old.unit.exhaust surj_pair)
  have ly: "resolve_value opn (path @ dec_nat i @ ''.'') v w = (y, w)"
    using "7.IH"(1) [OF "7.prems"] y by simp
  show ?case
  proof (cases y)
    case (Inr v1)
    from "7.IH"(2) [OF ly [symmetric] Inr "7.prems"] show ?thesis
      using y ly Inr by (auto split: prod.split sum.split)
  qed (use y ly in simp)
qed (auto split: prod.split sum.split)

lemma find_filter_other:
  "(\<And>x. x \<in> set xs \<Longrightarrow> P x \<Longrightarrow> Q x) \<Longrightarrow> find P (filter Q xs) = find P xs"
  by (induction xs) auto


subsection \<open>Concrete configs\<close>

definition sample_secret :: "string \<Rightarrow> secret" where
  "sample_secret n = \<lparr>sec_id = 0, sec_name = n, sec_type = ''token'', sec_cipher = ''c'', sec_key = ''k'',
     sec_created = 0, sec_last_used = None\<rparr>"

definition sample_box :: "(secret \<Rightarrow> err + string) option" where
  "sample_box = Some (\<lambda>s. Inr (''plain '' @ sec_name s))"

definition sample_secrets :: db where
  "sample_secrets = snd (PutSecret (sample_secret ''other'') (snd (PutSecret (sample_secret '' bot'') (empty_db 0 []))))"

definition sample_config :: obj where
  "sample_config = [(''token_ref'', JStr ''secret://other''), (''chat'', JNum ''7'')]"


text \<open>
  The check trims the space around a referenced name and resolution does not: a secret whose
  name starts with a space is reported unused while a config that resolves through it breaks with
  its deletion.
\<close>

theorem untrimmed_ref_escapes_check:
  "let cfg = Raw (JObj [(''token_ref'', JStr ''secret:// bot'')]) in
   \<not> hasRef cfg '' bot'' \<and>
   is_ok (fst (Resolve (OpenSecret sample_box) cfg sample_secrets)) \<and>
   \<not> is_ok (fst (Resolve (OpenSecret sample_box) cfg (snd (DeleteSecret 1 sample_secrets))))"
  by code_simp

end
