(* ===== verification/Notify.thy ===== *)
theory Notify
  imports Vault Scrub Secrets
begin

text \<open>
  Delivery of events, internal/core/notify.go: which channels an event goes to, how a channel is
  built from its config and secrets, and the log of every attempt. The operations are over an
  environment of store calls and channel plugins; the last part instantiates it on the world.
\<close>

subsection \<open>The code\<close>

type_synonym 'w notifier = "event \<Rightarrow> ('w, unit) op"

record 'w notify_env =
  ne_list :: "('w, channel list) op"
  ne_insert :: "notification \<Rightarrow> ('w, rowid) op"
  ne_resolve :: "raw \<Rightarrow> ('w, raw) op"
  ne_create :: "string \<Rightarrow> raw \<Rightarrow> err + 'w notifier"
  ne_now :: "'w \<Rightarrow> time"

definition scrub_message :: "message \<Rightarrow> message" where
  "scrub_message m = (case m of
     MsgText s \<Rightarrow> MsgText (Scrub s) | MsgCause e \<Rightarrow> MsgText (Scrub (err_text e)) | _ \<Rightarrow> m)"

definition record_delivery :: "'w notify_env \<Rightarrow> event \<Rightarrow> time \<Rightarrow> string \<Rightarrow> err option \<Rightarrow> 'w \<Rightarrow> 'w" where
  "record_delivery E ev at chan cause w =
     snd (ne_insert E
       \<lparr>ntf_id = 0, ntf_kind = kind_text (ev_kind ev),
        ntf_task = (if ev_task ev = [] then ev_subject ev else ev_task ev),
        ntf_run = (if ev_run ev \<noteq> 0 then Some (ev_run ev) else None), ntf_channel = chan,
        ntf_status = (case cause of None \<Rightarrow> NotificationSent | Some _ \<Rightarrow> NotificationFailed),
        ntf_error = (case cause of None \<Rightarrow> [] | Some e \<Rightarrow> Scrub (err_text e)), ntf_created = at\<rparr> w)"

definition build :: "'w notify_env \<Rightarrow> channel \<Rightarrow> ('w, 'w notifier) op" where
  "build E ch w =
     (case ne_resolve E (ch_config ch) w of
        (Inl e, w) \<Rightarrow> (Inl e, w)
      | (Inr cfg, w) \<Rightarrow> (ne_create E (ch_type ch) cfg, w))"

text \<open>The loop over the channels to build; a channel that cannot be built is logged as failed.\<close>

fun build_all ::
  "'w notify_env \<Rightarrow> event \<Rightarrow> channel list \<Rightarrow> 'w \<Rightarrow> (string \<times> 'w notifier) list \<times> 'w" where
  "build_all E ev [] w = ([], w)"
| "build_all E ev (ch # chs) w =
     (case build E ch w of
        (Inl e, w) \<Rightarrow> build_all E ev chs (record_delivery E ev (ne_now E w) (ch_name ch) (Some e) w)
      | (Inr n, w) \<Rightarrow> (case build_all E ev chs w of (ns, w) \<Rightarrow> ((ch_name ch, n) # ns, w)))"

text \<open>byName: the last channel of a name wins.\<close>

definition by_name :: "channel list \<Rightarrow> string \<Rightarrow> channel option" where
  "by_name cs n = map_of (rev (map (\<lambda>c. (ch_name c, c)) cs)) n"

definition wanted :: "event_kind \<Rightarrow> string list \<Rightarrow> channel list \<Rightarrow> channel list" where
  "wanted kind names cs =
     filter (\<lambda>c. ch_wants c (kind_text kind)) (List.map_filter (by_name cs) names)"

definition channelsFor ::
  "'w notify_env \<Rightarrow> task \<Rightarrow> event_kind \<Rightarrow> 'w \<Rightarrow> (string \<times> 'w notifier) list \<times> 'w" where
  "channelsFor E task kind w =
     (if task_notifiers task = [] then ([], w)
      else let ev = task_event task kind 0 (MsgText []) in
        case ne_list E w of
          (Inl e, w) \<Rightarrow>
            ([], fold (\<lambda>n w. record_delivery E ev (ne_now E w) n (Some (Wrap ''channel list unavailable: '' e)) w)
                   (task_notifiers task) w)
        | (Inr cs, w) \<Rightarrow> build_all E ev (wanted kind (task_notifiers task) cs) w)"

definition systemChannels ::
  "'w notify_env \<Rightarrow> event \<Rightarrow> 'w \<Rightarrow> (string \<times> 'w notifier) list \<times> 'w" where
  "systemChannels E ev w =
     (case ne_list E w of
        (Inl e, w) \<Rightarrow> ([], w)
      | (Inr cs, w) \<Rightarrow> build_all E ev (filter (\<lambda>c. ch_wants c (kind_text (ev_kind ev))) cs) w)"

fun deliver :: "'w notify_env \<Rightarrow> event \<Rightarrow> time \<Rightarrow> (string \<times> 'w notifier) list \<Rightarrow> 'w \<Rightarrow> 'w" where
  "deliver E ev at [] w = w"
| "deliver E ev at ((name, n) # ns) w =
     (case n ev w of
        (Inl e, w) \<Rightarrow> deliver E ev at ns (record_delivery E ev at name (Some e) w)
      | (Inr _, w) \<Rightarrow> deliver E ev at ns (record_delivery E ev at name None w))"

text \<open>A nil service delivers nothing.\<close>

definition Send ::
  "'w notify_env option \<Rightarrow> task \<Rightarrow> event_kind \<Rightarrow> rowid \<Rightarrow> message \<Rightarrow> 'w \<Rightarrow> 'w" where
  "Send n task kind rid msg w =
     (case n of
        None \<Rightarrow> w
      | Some E \<Rightarrow>
          (case channelsFor E task kind w of
             (ns, w) \<Rightarrow>
               if ns = [] then w
               else deliver E (task_event task kind rid (scrub_message msg)) (ne_now E w) ns w))"

definition SendSystem ::
  "'w notify_env option \<Rightarrow> event_kind \<Rightarrow> string \<Rightarrow> message \<Rightarrow> 'w \<Rightarrow> 'w" where
  "SendSystem n kind subject msg w =
     (case n of
        None \<Rightarrow> w
      | Some E \<Rightarrow>
          let ev = system_event kind subject (scrub_message msg); at = ne_now E w in
          (case systemChannels E ev w of (ns, w) \<Rightarrow> deliver E ev at ns w))"

text \<open>The label of a test delivery, in UTF-8.\<close>

definition testEventTask :: string where
  "testEventTask = ''('' @
     [CHR 0xD0, CHR 0xBF, CHR 0xD1, CHR 0x80, CHR 0xD0, CHR 0xBE, CHR 0xD0, CHR 0xB2, CHR 0xD0, CHR 0xB5,
      CHR 0xD1, CHR 0x80, CHR 0xD0, CHR 0xBA, CHR 0xD0, CHR 0xB0] @ '' '' @
     [CHR 0xD0, CHR 0xBA, CHR 0xD0, CHR 0xB0, CHR 0xD0, CHR 0xBD, CHR 0xD0, CHR 0xB0, CHR 0xD0, CHR 0xBB,
      CHR 0xD0, CHR 0xB0] @ '')''"

definition Test :: "'w notify_env \<Rightarrow> channel \<Rightarrow> 'w \<Rightarrow> err option \<times> 'w" where
  "Test E ch w =
     (let ev = \<lparr>ev_kind = EventSuccess, ev_task = testEventTask, ev_run = 0,
                ev_message = MsgText ''test notification from duskrun'', ev_subject = []\<rparr>; at = ne_now E w in
      case build E ch w of
        (Inl e, w) \<Rightarrow> (Some e, record_delivery E ev at (ch_name ch) (Some e) w)
      | (Inr n, w) \<Rightarrow>
          (case n ev w of
             (Inl e, w) \<Rightarrow> (Some e, record_delivery E ev at (ch_name ch) (Some e) w)
           | (Inr _, w) \<Rightarrow> (None, record_delivery E ev at (ch_name ch) None w)))"

definition Validate :: "'w notify_env \<Rightarrow> channel \<Rightarrow> 'w \<Rightarrow> err option \<times> 'w" where
  "Validate E ch w = (case build E ch w of (Inl e, w) \<Rightarrow> (Some e, w) | (Inr _, w) \<Rightarrow> (None, w))"

subsection \<open>On the world\<close>

text \<open>
  A channel of the world accepts or refuses its config; an accepted one appends the event to the
  outbox unless the network fails.
\<close>

definition net_send :: "string \<Rightarrow> world notifier" where
  "net_send chan ev w =
     (case net_faults w of
        True # bs \<Rightarrow> (Inl (Errorf ''network unreachable''), w\<lparr>net_faults := bs\<rparr>)
      | bs \<Rightarrow> (Inr (), w\<lparr>outbox := outbox w @ [(chan, ev)], net_faults := tl bs\<rparr>))"

definition world_notify ::
  "(string \<Rightarrow> raw \<Rightarrow> err option) \<Rightarrow> (secret \<Rightarrow> err + string) option \<Rightarrow> world notify_env" where
  "world_notify accepts box =
     \<lparr>ne_list = on_db ListNotifiers, ne_insert = (\<lambda>n. on_db (InsertNotification n)),
      ne_resolve = Resolve (\<lambda>ref. on_db (OpenSecret box ref)),
      ne_create = (\<lambda>t cfg. case accepts t cfg of Some e \<Rightarrow> Inl e | None \<Rightarrow> Inr (net_send t)),
      ne_now = (\<lambda>w. now_time (wdb w))\<rparr>"

text \<open>Why a channel cannot be built, if it cannot.\<close>

definition channel_error ::
  "(string \<Rightarrow> raw \<Rightarrow> err option) \<Rightarrow> (secret \<Rightarrow> err + string) option \<Rightarrow> db \<Rightarrow> channel \<Rightarrow> err option" where
  "channel_error accepts box d ch =
     (case fst (Resolve (\<lambda>r u. (look box d r, u)) (ch_config ch) ()) of
        Inl e \<Rightarrow> Some e | Inr cfg \<Rightarrow> accepts (ch_type ch) cfg)"

lemma Resolve_state:
  assumes "\<And>r. opn r w = (f r, w)"
  shows "Resolve opn c w = (fst (Resolve (\<lambda>r u. (f r, u)) c ()), w)"
  using resolve_state(2) [of opn w f, OF assms]
  by (auto simp: Resolve_def split: raw.split json.split prod.split sum.split)

lemma world_open_secret:
  "faults (wdb w) = [] \<Longrightarrow> on_db (OpenSecret box r) w = (look box (wdb w) r, w)"
  by (simp add: on_db_def OpenSecret_healthy)

lemma build_world:
  assumes "faults (wdb w) = []"
  shows "build (world_notify accepts box) ch w =
    (case channel_error accepts box (wdb w) ch of Some e \<Rightarrow> Inl e | None \<Rightarrow> Inr (net_send (ch_type ch)), w)"
  using Resolve_state [of "\<lambda>ref. on_db (OpenSecret box ref)" w "look box (wdb w)" "ch_config ch",
      OF world_open_secret [OF assms]]
  by (auto simp: build_def world_notify_def channel_error_def split: sum.split option.split)

lemma look_notifications [simp]: "faults d = [] \<Longrightarrow> look box (d\<lparr>notifications := ns\<rparr>) r = look box d r"
  by (auto simp: look_def OpenSecret_def GetSecretByRef_def query_row_def Let_def split: option.split sum.split)

lemma channel_error_notifications [simp]:
  "faults d = [] \<Longrightarrow> channel_error accepts box (d\<lparr>notifications := ns\<rparr>) ch = channel_error accepts box d ch"
  by (simp add: channel_error_def)

definition log_row :: "event \<Rightarrow> string \<Rightarrow> notification_status \<Rightarrow> notification \<Rightarrow> bool" where
  "log_row ev chan st n = (ntf_kind n = kind_text (ev_kind ev) \<and>
     ntf_task n = (if ev_task ev = [] then ev_subject ev else ev_task ev) \<and> ntf_channel n = chan \<and> ntf_status n = st)"

text \<open>The log grows by one row per attempt; nothing else in the catalog changes.\<close>

definition logs :: "event \<Rightarrow> (string \<times> notification_status) list \<Rightarrow> db \<Rightarrow> db \<Rightarrow> bool" where
  "logs ev as d d' =
     (\<exists>new. d' = d\<lparr>notifications := notifications d @ new\<rparr> \<and> list_all2 (\<lambda>(c, st) n. log_row ev c st n) as new)"

lemma logs_one: "log_row ev c st n \<Longrightarrow> logs ev [(c, st)] d (d\<lparr>notifications := notifications d @ [n]\<rparr>)"
  unfolding logs_def by (rule exI [of _ "[n]"]) simp

lemma logs_refl [simp]: "logs ev [] d d"
  by (simp add: logs_def)

lemma logs_trans: "logs ev as d e \<Longrightarrow> logs ev bs e f \<Longrightarrow> logs ev (as @ bs) d f"
  by (auto simp: logs_def intro!: list_all2_appendI)

lemma logs_Cons: "logs ev [a] d e \<Longrightarrow> logs ev bs e f \<Longrightarrow> logs ev (a # bs) d f"
  using logs_trans [of ev "[a]" d e bs f] by simp

lemma logs_keeps: "logs ev as d d' \<Longrightarrow> faults d' = faults d \<and> (\<forall>c. faults d = [] \<longrightarrow>
    channel_error accepts box d' c = channel_error accepts box d c)"
  by (auto simp: logs_def)

lemma record_world:
  assumes "faults (wdb w) = []"
  obtains d where "record_delivery (world_notify accepts box) ev at chan cause w = w\<lparr>wdb := d\<rparr>"
    "logs ev [(chan, case cause of None \<Rightarrow> NotificationSent | Some _ \<Rightarrow> NotificationFailed)] (wdb w) d"
proof -
  let ?n = "\<lparr>ntf_id = next_id (map ntf_id (notifications (wdb w))), ntf_kind = kind_text (ev_kind ev),
        ntf_task = (if ev_task ev = [] then ev_subject ev else ev_task ev),
        ntf_run = (if ev_run ev \<noteq> 0 then Some (ev_run ev) else None), ntf_channel = chan,
        ntf_status = (case cause of None \<Rightarrow> NotificationSent | Some _ \<Rightarrow> NotificationFailed),
        ntf_error = (case cause of None \<Rightarrow> [] | Some e \<Rightarrow> Scrub (err_text e)), ntf_created = unix_to_time (unix at)\<rparr>"
  have "logs ev [(chan, case cause of None \<Rightarrow> NotificationSent | Some _ \<Rightarrow> NotificationFailed)] (wdb w)
      ((wdb w)\<lparr>notifications := notifications (wdb w) @ [?n]\<rparr>)"
    by (rule logs_one) (simp add: log_row_def)
  then show thesis
    by (intro that [of "(wdb w)\<lparr>notifications := notifications (wdb w) @ [?n]\<rparr>"])
      (use assms in \<open>simp_all add: record_delivery_def world_notify_def on_db_def InsertNotification_def Let_def\<close>)
qed

lemma build_all_world:
  assumes "faults (wdb w) = []"
  obtains d where "build_all (world_notify accepts box) ev cs w =
      (map (\<lambda>c. (ch_name c, net_send (ch_type c))) (filter (\<lambda>c. channel_error accepts box (wdb w) c = None) cs), w\<lparr>wdb := d\<rparr>)"
    "logs ev (map (\<lambda>c. (ch_name c, NotificationFailed)) (filter (\<lambda>c. channel_error accepts box (wdb w) c \<noteq> None) cs)) (wdb w) d"
  using assms
proof (induction cs arbitrary: w thesis)
  case Nil
  show ?case by (rule Nil.prems(1) [of "wdb w"]) simp_all
next
  case (Cons c cs)
  let ?E = "world_notify accepts box"
  show ?case
  proof (cases "channel_error accepts box (wdb w) c")
    case None
    obtain d where d: "build_all ?E ev cs w =
        (map (\<lambda>c. (ch_name c, net_send (ch_type c))) (filter (\<lambda>c. channel_error accepts box (wdb w) c = None) cs), w\<lparr>wdb := d\<rparr>)"
      "logs ev (map (\<lambda>c. (ch_name c, NotificationFailed)) (filter (\<lambda>c. channel_error accepts box (wdb w) c \<noteq> None) cs)) (wdb w) d"
      using Cons.IH Cons.prems(2) by blast
    show ?thesis
      by (rule Cons.prems(1) [of d]) (use d None Cons.prems(2) in \<open>simp_all add: build_world\<close>)
  next
    case (Some e)
    obtain d1 where d1: "record_delivery ?E ev (ne_now ?E w) (ch_name c) (Some e) w = w\<lparr>wdb := d1\<rparr>"
      "logs ev [(ch_name c, NotificationFailed)] (wdb w) d1"
      using record_world [OF Cons.prems(2), of accepts box ev "ne_now ?E w" "ch_name c" "Some e"] by (metis option.simps(5))
    have same: "faults d1 = []" "\<And>x. channel_error accepts box d1 x = channel_error accepts box (wdb w) x"
      using logs_keeps [OF d1(2)] Cons.prems(2) by auto
    obtain d where d: "build_all ?E ev cs (w\<lparr>wdb := d1\<rparr>) =
        (map (\<lambda>c. (ch_name c, net_send (ch_type c))) (filter (\<lambda>c. channel_error accepts box d1 c = None) cs), w\<lparr>wdb := d1, wdb := d\<rparr>)"
      "logs ev (map (\<lambda>c. (ch_name c, NotificationFailed)) (filter (\<lambda>c. channel_error accepts box d1 c \<noteq> None) cs)) d1 d"
      using Cons.IH [of "w\<lparr>wdb := d1\<rparr>"] same(1) by auto
    show ?thesis
      by (rule Cons.prems(1) [of d])
        (use d d1 same Some Cons.prems(2) logs_Cons [OF d1(2) d(2)] in \<open>simp_all add: build_world\<close>)
  qed
qed

text \<open>The network answers the n-th delivery by the n-th entry of its schedule.\<close>

fun net_outcomes :: "nat \<Rightarrow> bool list \<Rightarrow> bool list" where
  "net_outcomes 0 bs = []"
| "net_outcomes (Suc n) bs = (bs \<noteq> [] \<and> hd bs) # net_outcomes n (tl bs)"

lemma length_net_outcomes [simp]: "length (net_outcomes n bs) = n"
  by (induction n bs rule: net_outcomes.induct) auto

definition status_of :: "bool \<Rightarrow> notification_status" where
  "status_of failed = (if failed then NotificationFailed else NotificationSent)"

lemma deliver_world:
  assumes "faults (wdb w) = []"
  obtains d where "deliver (world_notify accepts box) ev at (map (\<lambda>c. (ch_name c, net_send (ch_type c))) cs) w =
      w\<lparr>wdb := d, net_faults := drop (length cs) (net_faults w),
        outbox := outbox w @ map (\<lambda>(c, b). (ch_type c, ev)) (filter (\<lambda>(c, b). \<not> b) (zip cs (net_outcomes (length cs) (net_faults w))))\<rparr>"
    "logs ev (map (\<lambda>(c, b). (ch_name c, status_of b)) (zip cs (net_outcomes (length cs) (net_faults w)))) (wdb w) d"
  using assms
proof (induction cs arbitrary: w thesis)
  case Nil
  show ?case by (rule Nil.prems(1) [of "wdb w"]) simp_all
next
  case (Cons c cs)
  let ?E = "world_notify accepts box"
  define b where "b = (net_faults w \<noteq> [] \<and> hd (net_faults w))"
  let ?w1 = "w\<lparr>net_faults := tl (net_faults w), outbox := outbox w @ (if b then [] else [(ch_type c, ev)])\<rparr>"
  have n: "net_send (ch_type c) ev w = (if b then Inl (Errorf ''network unreachable'') else Inr (), ?w1)"
    by (cases "net_faults w"; cases "hd (net_faults w)") (auto simp: net_send_def b_def)
  have f1: "faults (wdb ?w1) = []" using Cons.prems(2) by simp
  have st: "(case if b then Some (Errorf ''network unreachable'') else None of
      None \<Rightarrow> NotificationSent | Some _ \<Rightarrow> NotificationFailed) = status_of b"
    by (simp add: status_of_def)
  obtain d1 where d1: "record_delivery ?E ev at (ch_name c) (if b then Some (Errorf ''network unreachable'') else None) ?w1 = ?w1\<lparr>wdb := d1\<rparr>"
    "logs ev [(ch_name c, status_of b)] (wdb w) d1"
    using record_world [OF f1, of accepts box ev at "ch_name c" "if b then Some (Errorf ''network unreachable'') else None"]
    unfolding st by auto
  have f2: "faults (wdb (?w1\<lparr>wdb := d1\<rparr>)) = []" using logs_keeps [OF d1(2)] Cons.prems(2) by auto
  obtain d where d: "deliver ?E ev at (map (\<lambda>c. (ch_name c, net_send (ch_type c))) cs) (?w1\<lparr>wdb := d1\<rparr>) =
      ?w1\<lparr>wdb := d1\<rparr>\<lparr>wdb := d, net_faults := drop (length cs) (tl (net_faults w)),
        outbox := outbox ?w1 @ map (\<lambda>(c, b). (ch_type c, ev)) (filter (\<lambda>(c, b). \<not> b) (zip cs (net_outcomes (length cs) (tl (net_faults w)))))\<rparr>"
    "logs ev (map (\<lambda>(c, b). (ch_name c, status_of b)) (zip cs (net_outcomes (length cs) (tl (net_faults w))))) d1 d"
    using Cons.IH [of "?w1\<lparr>wdb := d1\<rparr>"] f2 by auto
  show ?case
    by (rule Cons.prems(1) [of d])
      (use n d d1 logs_Cons [OF d1(2) d(2)] in \<open>auto simp: b_def [symmetric] drop_Suc\<close>)
qed

text \<open>
  C33: With a healthy catalog, an event sent to a task goes to every configured channel the task
  names and that is enabled and subscribed to its kind: each such channel gets exactly one row in
  the delivery log, failed if the channel could not be built or the network refused it and sent
  otherwise, the outbox grows by exactly the events logged as sent, and nothing else changes.
\<close>

theorem send_logs_every_attempt:
  assumes "faults (wdb w) = []"
    and "cs = wanted kind (task_notifiers task) (sort_key ch_id (channels (wdb w)))"
    and "bad = filter (\<lambda>c. channel_error accepts box (wdb w) c \<noteq> None) cs"
    and "good = filter (\<lambda>c. channel_error accepts box (wdb w) c = None) cs"
    and "failed = net_outcomes (length good) (net_faults w)"
    and "w' = Send (Some (world_notify accepts box)) task kind rid msg w"
  shows "(\<exists>new. notifications (wdb w') = notifications (wdb w) @ new \<and>
      list_all2 (\<lambda>(c, st) n. log_row (task_event task kind rid msg) c st n)
        (map (\<lambda>c. (ch_name c, NotificationFailed)) bad @ map (\<lambda>(c, b). (ch_name c, status_of b)) (zip good failed)) new) \<and>
    outbox w' = outbox w @ map (\<lambda>(c, b). (ch_type c, task_event task kind rid (scrub_message msg)))
      (filter (\<lambda>(c, b). \<not> b) (zip good failed)) \<and>
    wdb w' = (wdb w)\<lparr>notifications := notifications (wdb w')\<rparr> \<and> wdisk w' = wdisk w"
proof (cases "task_notifiers task = []")
  case True
  then have "cs = []" using assms(2) by (simp add: wanted_def List.map_filter_def)
  with True show ?thesis using assms by (simp add: Send_def channelsFor_def)
next
  case False
  let ?E = "world_notify accepts box"
  let ?pre = "task_event task kind 0 (MsgText [])" and ?ev = "task_event task kind rid (scrub_message msg)"
  have "ne_list ?E w = (Inr (sort_key ch_id (channels (wdb w))), w)"
    using assms(1) by (simp add: world_notify_def on_db_def ListNotifiers_def query_def)
  then have ch: "channelsFor ?E task kind w = build_all ?E ?pre cs w"
    using False assms(2) by (simp add: channelsFor_def)
  obtain d where d: "build_all ?E ?pre cs w = (map (\<lambda>c. (ch_name c, net_send (ch_type c))) good, w\<lparr>wdb := d\<rparr>)"
    "logs ?pre (map (\<lambda>c. (ch_name c, NotificationFailed)) bad) (wdb w) d"
    unfolding assms(3,4) by (rule build_all_world [OF assms(1)])
  have f: "faults (wdb (w\<lparr>wdb := d\<rparr>)) = []" using logs_keeps [OF d(2)] assms(1) by auto
  obtain e where e: "deliver ?E ?ev (ne_now ?E (w\<lparr>wdb := d\<rparr>)) (map (\<lambda>c. (ch_name c, net_send (ch_type c))) good) (w\<lparr>wdb := d\<rparr>) =
      w\<lparr>wdb := d\<rparr>\<lparr>wdb := e, net_faults := drop (length good) (net_faults w),
        outbox := outbox w @ map (\<lambda>(c, b). (ch_type c, ?ev)) (filter (\<lambda>(c, b). \<not> b) (zip good failed))\<rparr>"
    "logs ?ev (map (\<lambda>(c, b). (ch_name c, status_of b)) (zip good failed)) d e"
    using deliver_world [OF f, of accepts box ?ev "ne_now ?E (w\<lparr>wdb := d\<rparr>)" good] unfolding assms(5) by auto
  have row: "log_row ?pre = log_row (task_event task kind rid msg)" "log_row ?ev = log_row (task_event task kind rid msg)"
    by (simp_all add: log_row_def task_event_def fun_eq_iff)
  have "logs (task_event task kind rid msg) (map (\<lambda>c. (ch_name c, NotificationFailed)) bad) (wdb w) d"
    "logs (task_event task kind rid msg) (map (\<lambda>(c, b). (ch_name c, status_of b)) (zip good failed)) d e"
    using d(2) e(2) by (simp_all add: logs_def row)
  note l = logs_trans [OF this]
  have "w' = deliver ?E ?ev (ne_now ?E (w\<lparr>wdb := d\<rparr>)) (map (\<lambda>c. (ch_name c, net_send (ch_type c))) good) (w\<lparr>wdb := d\<rparr>)"
    using ch d(1) assms(6) by (cases "good = []") (simp_all add: Send_def)
  then have w': "wdb w' = e" "wdisk w' = wdisk w"
    "outbox w' = outbox w @ map (\<lambda>(c, b). (ch_type c, ?ev)) (filter (\<lambda>(c, b). \<not> b) (zip good failed))"
    by (simp_all add: e(1))
  from l obtain new where new: "e = (wdb w)\<lparr>notifications := notifications (wdb w) @ new\<rparr>"
    "list_all2 (\<lambda>(c, st) n. log_row (task_event task kind rid msg) c st n)
       (map (\<lambda>c. (ch_name c, NotificationFailed)) bad @ map (\<lambda>(c, b). (ch_name c, status_of b)) (zip good failed)) new"
    unfolding logs_def by blast
  have "notifications (wdb w') = notifications (wdb w) @ new" "wdb w' = (wdb w)\<lparr>notifications := notifications (wdb w')\<rparr>"
    using w'(1) new(1) by simp_all
  with new(2) w'(2,3) show ?thesis by blast
qed

definition notify_channel :: "rowid \<Rightarrow> string \<Rightarrow> string \<Rightarrow> raw \<Rightarrow> channel" where
  "notify_channel i n t cfg = \<lparr>ch_id = i, ch_name = n, ch_type = t, ch_config = cfg, ch_events = [''failure''],
     ch_enabled = True, ch_created = 0\<rparr>"

definition chan_ops :: channel where "chan_ops = notify_channel 1 ''ops'' ''webhook'' (Raw (JObj []))"
definition chan_chat :: channel where "chan_chat = notify_channel 2 ''chat'' ''telegram'' (BadRaw ''{'')"
definition chan_mail :: channel where "chan_mail = notify_channel 3 ''mail'' ''smtp'' (Raw (JObj []))"

definition notify_world :: world where
  "notify_world = \<lparr>wdb = (empty_db 7 [])\<lparr>channels := [chan_ops, chan_chat, chan_mail]\<rparr>,
     wdisk = \<lparr>dk_files = [], dk_dirs = [], dk_locked = [], dk_clock = 0, dk_faults = []\<rparr>, outbox = [], net_faults = [True]\<rparr>"

definition notify_task :: task where
  "notify_task = sample_task\<lparr>task_id := 1, task_notifiers := [''mail'', ''gone'', ''chat'', ''ops'']\<rparr>"

theorem send_logs_every_attempt_witness:
  "map (\<lambda>n. (ntf_channel n, ntf_status n))
     (notifications (wdb (Send (Some (world_notify (\<lambda>_ _. None) None)) notify_task EventFailure 5 (MsgText ''x'') notify_world))) =
   [(''chat'', NotificationFailed), (''mail'', NotificationFailed), (''ops'', NotificationSent)]"
proof -
  let ?w' = "Send (Some (world_notify (\<lambda>_ _. None) None)) notify_task EventFailure 5 (MsgText ''x'') notify_world"
  let ?cs = "wanted EventFailure (task_notifiers notify_task) (sort_key ch_id (channels (wdb notify_world)))"
  have f: "faults (wdb notify_world) = []" by (simp add: notify_world_def empty_db_def)
  have bad: "filter (\<lambda>c. channel_error (\<lambda>_ _. None) None (wdb notify_world) c \<noteq> None) ?cs = [chan_chat]"
    and good: "filter (\<lambda>c. channel_error (\<lambda>_ _. None) None (wdb notify_world) c = None) ?cs = [chan_mail, chan_ops]"
    and net: "net_faults notify_world = [True]"
    by code_simp+
  obtain new where n: "notifications (wdb ?w') = notifications (wdb notify_world) @ new"
    and l: "list_all2 (\<lambda>(c, st) n. log_row (task_event notify_task EventFailure 5 (MsgText ''x'')) c st n)
      [(''chat'', NotificationFailed), (''mail'', NotificationFailed), (''ops'', NotificationSent)] new"
    using send_logs_every_attempt [OF f refl bad [symmetric] good [symmetric] refl refl, of 5 "MsgText ''x''"]
    by (auto simp: net status_of_def numeral_2_eq_2 chan_chat_def chan_mail_def chan_ops_def notify_channel_def)
  have "map (\<lambda>n. (ntf_channel n, ntf_status n)) new =
      [(''chat'', NotificationFailed), (''mail'', NotificationFailed), (''ops'', NotificationSent)]"
    using l by (auto simp: list_all2_Cons1 log_row_def)
  with n show ?thesis by (simp add: notify_world_def empty_db_def)
qed

end
