(* ===== verification/Cleanup.thy ===== *)
theory Cleanup
  imports Vault
begin

text \<open>
  What retention does to the world: the properties of Prune and Orphans on the catalog and the
  local storages, by the retention contract, and an example in which two artifacts share an
  object.
\<close>

text \<open>
  C28: Whatever calls fail and whenever the pass is cancelled, pruning a task removes a catalog row
  only after its object is gone, only rows and objects of artifacts the policy gives up, and, when
  it reports no error, all of them; an artifact the policy keeps loses its object only if another
  artifact given up lies at the same place.
\<close>

theorem prune_safe:
  assumes "world_ok ss own w" "Forget (task_retention task) (world_listing (task_id task) w) now = (keep, del)"
    "Prune ctx world_retention task world_opener now w = ((gone, err), w')"
  shows "set gone \<subseteq> set del \<and> world_rows w' = {a \<in> world_rows w. art_id a \<notin> art_id ` set gone} \<and>
    (\<forall>a \<in> set gone. location a \<notin> world_objects ss w') \<and>
    world_objects ss w' \<subseteq> world_objects ss w \<and>
    world_objects ss w - location ` set del \<subseteq> world_objects ss w' \<and>
    (\<forall>a \<in> set keep. location a \<in> world_objects ss w \<and> location a \<notin> location ` set del \<longrightarrow>
       location a \<in> world_objects ss w') \<and>
    (err = None \<longrightarrow> gone = del)"
proof -
  have del: "del = snd (Forget (task_retention task) (world_listing (task_id task) w) now)"
    using assms(2) by simp
  note p = vault.Prune_spec [OF assms(1,3) del]
  have "world_objects ss w - location ` set del \<subseteq> world_objects ss w'" by (rule p(6))
  with p show ?thesis by blast
qed

text \<open>
  C29: In a healthy world one object that cannot be deleted does not hold up the others: everything
  the policy gives up goes, in order, except the artifacts whose object is locked.
\<close>

theorem prune_skips_locked:
  assumes "world_live ss own w" "\<forall>v. ctx v = None"
    "Prune ctx world_retention task world_opener now w = ((gone, err), w')"
  shows "gone = filter (\<lambda>a. location a \<notin> world_locked ss w)
    (snd (Forget (task_retention task) (world_listing (task_id task) w) now))"
  by (rule vault_live.Prune_live [OF assms])


subsection \<open>An example\<close>

definition vault_storage :: storage where
  "vault_storage = sample_storage\<lparr>sto_id := 1, sto_config := Raw (JObj [(''root'', JStr ''/srv'')])\<rparr>"

definition vault_run :: "rowid \<Rightarrow> run" where
  "vault_run i = \<lparr>run_id = i, run_task = 1, run_status = StatusSuccess, run_worker = ''w0'', run_attempt = 1,
     run_started = None, run_finished = None, run_error = [], run_log = [], run_created = i * second\<rparr>"

definition vault_artifact :: "rowid \<Rightarrow> string \<Rightarrow> artifact" where
  "vault_artifact i k = \<lparr>art_id = i, art_run = i, art_storage = 1, art_key = k, art_size = 10,
     art_checksum = [], art_created = i * second, art_expires = None\<rparr>"

definition vault_task :: task where
  "vault_task = sample_task\<lparr>task_id := 1, task_retention := \<lparr>keep_last = 1, ret_gfs = None\<rparr>\<rparr>"

definition vault_db :: "artifact list \<Rightarrow> db" where
  "vault_db as = (empty_db 0 [])\<lparr>connections := [sample_connection\<lparr>con_id := 1\<rparr>], storages := [vault_storage],
     tasks := [vault_task], runs := map vault_run [1, 2, 3], artifacts := as\<rparr>"

definition vault_disk :: "string list list \<Rightarrow> string list list \<Rightarrow> disk" where
  "vault_disk ps lockd = \<lparr>dk_files = map (\<lambda>p. (p, \<lparr>fl_data = ''x'', fl_mtime = 0\<rparr>)) ps,
     dk_dirs = [[''srv''], [''srv'', ''nightly'']], dk_locked = lockd, dk_clock = 0, dk_faults = []\<rparr>"

definition vault_world :: world where
  "vault_world = \<lparr>wdb = vault_db [vault_artifact 1 ''nightly/a'', vault_artifact 2 ''nightly/b'', vault_artifact 3 ''nightly/c''],
     wdisk = vault_disk [[''srv'', ''nightly'', ''a''], [''srv'', ''nightly'', ''b''], [''srv'', ''nightly'', ''c''], [''srv'', ''nightly'', ''z'']]
       [[''srv'', ''nightly'', ''b'']],
     outbox = [], net_faults = []\<rparr>"

lemma vault_root: "local_root [vault_storage] i = (if i = 1 then Some \<lparr>lf_root = ''/srv''\<rparr> else None)"
  by (simp add: local_root_def vault_storage_def sample_storage_def New_def json_field_def to_lower_def raw_empty_def)

lemma vault_clean: "clean ''/srv'' = [''srv'']"
  by (simp add: clean_def clean_step_def)

lemma vault_world_live: "world_live [vault_storage] (\<lambda>_. 1) vault_world"
proof -
  have "db_ok (wdb vault_world)" by code_simp
  moreover have "disk_ok (wdisk vault_world)" by code_simp
  moreover have "roots_ok [vault_storage] (wdisk vault_world)"
    by (simp add: roots_ok_def vault_root vault_clean) (simp add: vault_world_def vault_disk_def file_at_def)
  moreover have "\<forall>a \<in> set (artifacts (wdb vault_world)). good_key (art_key a) \<and>
      (\<exists>p. object_path [vault_storage] (art_storage a) (art_key a) = Some p \<and> path_live (wdisk vault_world) p)"
    by (simp add: object_path_def vault_root fs_path_good vault_clean)
       (simp add: vault_world_def vault_db_def vault_artifact_def good_key_def plain_segment_def object_path_def vault_root
         fs_path_good vault_clean path_live_def vault_disk_def through_file_def is_dir_def file_at_def proper_prefixes_def upt_rec)
  moreover have "\<forall>a \<in> set (artifacts (wdb vault_world)). \<exists>r \<in> set (runs (wdb vault_world)). run_id r = art_run a \<and> run_task r = 1"
    by (simp add: vault_world_def vault_db_def vault_artifact_def vault_run_def)
  moreover have "storages (wdb vault_world) = [vault_storage]" "faults (wdb vault_world) = []" "dk_faults (wdisk vault_world) = []"
    by (simp_all add: vault_world_def vault_db_def vault_disk_def empty_db_def)
  ultimately show ?thesis unfolding world_live_def world_ok_def by blast
qed

lemma vault_world_ok: "world_ok [vault_storage] (\<lambda>_. 1) vault_world"
  using vault_world_live by (simp add: world_live_def)

definition vault_pruned :: "(artifact list \<times> err option) \<times> world" where
  "vault_pruned = Prune (\<lambda>_. None) world_retention vault_task world_opener 0 vault_world"

theorem prune_safe_witness:
  "location (vault_artifact 1 ''nightly/a'') \<notin> world_objects [vault_storage] (snd vault_pruned) \<and>
   map art_id (fst (fst vault_pruned)) = [1] \<and> vault_artifact 3 ''nightly/c'' \<in> world_rows (snd vault_pruned)"
proof -
  let ?w = vault_world and ?w' = "snd vault_pruned"
  have run: "Prune (\<lambda>_. None) world_retention vault_task world_opener 0 ?w = ((fst (fst vault_pruned), snd (fst vault_pruned)), ?w')"
    by (simp add: vault_pruned_def)
  have gone: "fst (fst vault_pruned) = [vault_artifact 1 ''nightly/a'']" by code_simp
  have three: "vault_artifact 3 ''nightly/c'' \<in> world_rows ?w"
    by (simp add: world_rows_def vault_world_def vault_db_def)
  from prune_safe [OF vault_world_ok prod.collapse [symmetric] run] gone three show ?thesis
    by (simp add: vault_artifact_def)
qed

theorem prune_skips_locked_witness:
  "fst (fst vault_pruned) = filter (\<lambda>a. location a \<notin> world_locked [vault_storage] vault_world)
     (snd (Forget (task_retention vault_task) (world_listing (task_id vault_task) vault_world) 0))"
proof -
  have run: "Prune (\<lambda>_. None) world_retention vault_task world_opener 0 vault_world =
      ((fst (fst vault_pruned), snd (fst vault_pruned)), snd vault_pruned)"
    by (simp add: vault_pruned_def)
  show ?thesis by (rule prune_skips_locked [OF vault_world_live _ run]) simp
qed

definition vault_orphans :: "(object list \<times> err option) \<times> world" where
  "vault_orphans = Orphans world_retention vault_task world_opener (\<lambda>_. [(1, ''nightly/'')]) vault_world"


subsection \<open>Two artifacts, one object\<close>

definition shared_world :: world where
  "shared_world = vault_world\<lparr>
     wdb := vault_db [vault_artifact 1 ''nightly/a'', vault_artifact 2 ''nightly/a''],
     wdisk := vault_disk [[''srv'', ''nightly'', ''a'']] []\<rparr>"

definition shared_pruned :: "(artifact list \<times> err option) \<times> world" where
  "shared_pruned = Prune (\<lambda>_. None) world_retention vault_task world_opener 0 shared_world"


end
