(* ===== verification/Sweeper.thy ===== *)
theory Sweeper
  imports Notify Cleanup "HOL-Library.Product_Lexorder"
begin

text \<open>
  The retention sweep of internal/core/sweep.go: every task is pruned by its policy and searched
  for orphans, a failing task does not stop the pass, and the outcome is recorded. The lemmas
  show that the record accounts for exactly what was deleted.
\<close>

subsection \<open>The code\<close>

record 'w sweeper =
  sw_store :: "'w retention_store"
  sw_tasks :: "('w, task list) op"
  sw_get :: "rowid \<Rightarrow> ('w, storage) op"
  sw_insert :: "sweep \<Rightarrow> ('w, rowid) op"
  sw_prune_log :: "int \<Rightarrow> ('w, int) op"
  sw_open :: "storage \<Rightarrow> ('w, 'w storage_plugin) op"
  sw_notify :: "'w notify_env option"
  sw_now :: "'w \<Rightarrow> time"
  sw_order :: "(rowid \<times> string) set \<Rightarrow> (rowid \<times> string) list"
  sw_ctx :: "'w context_err"

definition ManualSweepTimeout :: duration where "ManualSweepTimeout = 15 * minute"
definition NotificationKeep :: int where "NotificationKeep = 5000"
definition maxSweepErrLen :: nat where "maxSweepErrLen = 2000"

text \<open>The ellipsis is three bytes of UTF-8.\<close>

definition truncateErr :: "string \<Rightarrow> nat \<Rightarrow> string" where
  "truncateErr s m =
     (if length s \<le> m then s
      else trim_space (take m s) @ [CHR 0xE2, CHR 0x80, CHR 0xA6] @ '' (truncated)'')"

definition sweepTask :: "'w sweeper \<Rightarrow> task \<Rightarrow> 'w \<Rightarrow> (nat \<times> int \<times> nat \<times> err option) \<times> 'w" where
  "sweepTask S task w =
     (let opn = storageOpener (sw_get S) (sw_open S) in
      case (if ret_enabled (task_retention task)
            then Prune (sw_ctx S) (sw_store S) task opn (sw_now S w) w else (([], None), w)) of
        ((gone, pruneErr), w) \<Rightarrow>
          (case Orphans (sw_store S) task opn (sw_order S) w of
             ((found, orphanErr), w) \<Rightarrow>
               ((length gone, sum_list (map art_size gone), length found,
                 errors_join ((case pruneErr of None \<Rightarrow> [] | Some e \<Rightarrow> [e]) @
                              (case orphanErr of None \<Rightarrow> [] | Some e \<Rightarrow> [Wrap ''orphans: '' e]))), w)))"

definition notifyError :: "'w sweeper \<Rightarrow> task \<Rightarrow> err \<Rightarrow> 'w \<Rightarrow> 'w" where
  "notifyError S task e = Send (sw_notify S) task EventRetentionError 0 (MsgCause e)"

fun sweep_loop :: "'w sweeper \<Rightarrow> task list \<Rightarrow> 'w \<Rightarrow> (nat \<times> int \<times> nat \<times> err list) \<times> 'w" where
  "sweep_loop S [] w = ((0, 0, 0, []), w)"
| "sweep_loop S (t # ts) w =
     (case sweepTask S t w of
        ((deleted, freed, orphans, e), w) \<Rightarrow>
          let errs = (case e of None \<Rightarrow> [] | Some e \<Rightarrow> [Wrap (''task '' @ quoted (task_name t) @ '': '') e]);
              w = (case e of None \<Rightarrow> w | Some e \<Rightarrow> notifyError S t e w);
              w = (if deleted > 0 then Send (sw_notify S) t EventRetentionDone 0 (MsgPruned deleted freed) w else w)
          in (case sw_ctx S w of
                Some c \<Rightarrow> ((deleted, freed, orphans, errs @ [c]), w)
              | None \<Rightarrow>
                  (case sweep_loop S ts w of
                     ((ds, fs, os, es), w) \<Rightarrow> ((deleted + ds, freed + fs, orphans + os, errs @ es), w))))"

definition pruneNotifications :: "'w sweeper \<Rightarrow> 'w \<Rightarrow> 'w" where
  "pruneNotifications S w =
     (case sw_ctx S w of Some _ \<Rightarrow> w | None \<Rightarrow> snd (sw_prune_log S NotificationKeep w))"

definition record_sweep :: "'w sweeper \<Rightarrow> sweep \<Rightarrow> err option \<Rightarrow> 'w \<Rightarrow> (sweep \<times> err option) \<times> 'w" where
  "record_sweep S sw cause w =
     (let sw = sw\<lparr>sweep_finished := sw_now S w, sweep_status := SweepSuccess\<rparr>;
          sw = (case cause of None \<Rightarrow> sw
                | Some e \<Rightarrow> sw\<lparr>sweep_status := SweepFailed, sweep_error := truncateErr (Scrub (err_text e)) maxSweepErrLen\<rparr>)
      in case sw_insert S sw w of
           (Inl e, w) \<Rightarrow> ((sw, errors_join ((case cause of None \<Rightarrow> [] | Some c \<Rightarrow> [c]) @ [e])), w)
         | (Inr i, w) \<Rightarrow> ((sw\<lparr>sweep_id := i\<rparr>, cause), w))"

definition new_sweep :: "time \<Rightarrow> sweep_source \<Rightarrow> sweep" where
  "new_sweep started src = \<lparr>sweep_id = 0, sweep_started = started, sweep_finished = zero_time,
     sweep_status = SweepSuccess, sweep_source = src, sweep_deleted = 0, sweep_freed = 0, sweep_orphans = 0, sweep_error = []\<rparr>"

definition sweepLocked :: "'w sweeper \<Rightarrow> sweep_source \<Rightarrow> 'w \<Rightarrow> (sweep \<times> err option) \<times> 'w" where
  "sweepLocked S src w =
     (let started = sw_now S w in
      case sw_tasks S w of
        (Inl e, w) \<Rightarrow> record_sweep S (new_sweep started src) (Some e) w
      | (Inr ts, w) \<Rightarrow>
          (case sweep_loop S ts w of
             ((deleted, freed, orphans, errs), w) \<Rightarrow>
               record_sweep S ((new_sweep started src)\<lparr>sweep_deleted := int deleted, sweep_freed := freed, sweep_orphans := int orphans\<rparr>)
                 (errors_join errs) (pruneNotifications S w)))"

text \<open>TrySweep with the state of the mutex: busy while another sweep runs.\<close>

definition TrySweep ::
  "bool \<Rightarrow> 'w sweeper \<Rightarrow> sweep_source \<Rightarrow> 'w \<Rightarrow> (sweep \<times> err option) option \<times> 'w" where
  "TrySweep busy S src w =
     (if busy then (None, w) else (case sweepLocked S src w of (r, w) \<Rightarrow> (Some r, w)))"

subsection \<open>The contract\<close>

text \<open>
  A sweeper over stores that keep the retention contract: the other calls leave rows and objects
  alone, whether they succeed or not.
\<close>

locale sweep_contract =
  retention_contract "sw_store S" "storageOpener (sw_get S) (sw_open S)" rows listing objs serves key_ok owner ok
  for S :: "'w sweeper" and rows :: "'w \<Rightarrow> artifact set" and listing objs serves key_ok owner ok +
  fixes all_tasks :: "'w \<Rightarrow> task list"
  assumes rows_ids: "ok w \<Longrightarrow> finite (rows w) \<and> inj_on art_id (rows w)"
    and tasks_frame: "ok w \<Longrightarrow> sw_tasks S w = (rt, w') \<Longrightarrow> ok w' \<and> rows w' = rows w \<and> objs w' = objs w \<and>
      (\<forall>ts. rt = Inr ts \<longrightarrow> ts = all_tasks w)"
    and insert_frame: "ok w \<Longrightarrow> sw_insert S sw w = (ri, w') \<Longrightarrow> ok w' \<and> rows w' = rows w \<and> objs w' = objs w"
    and log_frame: "ok w \<Longrightarrow> sw_prune_log S k w = (rl, w') \<Longrightarrow> ok w' \<and> rows w' = rows w \<and> objs w' = objs w"
    and send_frame: "ok w \<Longrightarrow> Send (sw_notify S) t kind rid msg w = w' \<Longrightarrow> ok w' \<and> rows w' = rows w \<and> objs w' = objs w"
    and order_scopes: "finite A \<Longrightarrow> set (sw_order S A) = A"
begin

text \<open>What a pass may take away: artifacts of tasks with a policy, and objects at their places.\<close>

definition may_go :: "task list \<Rightarrow> artifact \<Rightarrow> bool" where
  "may_go ts a = (\<exists>t \<in> set ts. ret_enabled (task_retention t) \<and> owner a = task_id t)"

definition takes :: "task list \<Rightarrow> 'w \<Rightarrow> 'w \<Rightarrow> artifact set \<Rightarrow> bool" where
  "takes ts w w' G = (ok w' \<and> G \<subseteq> {a \<in> rows w. may_go ts a} \<and> rows w' = rows w - G \<and>
     objs w' \<subseteq> objs w \<and> objs w - objs w' \<subseteq> location ` {a \<in> rows w. may_go ts a} \<and>
     location ` G \<inter> objs w' = {})"

lemma takes_none: "ok w' \<Longrightarrow> rows w' = rows w \<Longrightarrow> objs w' = objs w \<Longrightarrow> takes ts w w' {}"
  by (simp add: takes_def)

lemma takes_trans:
  assumes "takes ts w v G" "takes us v u H"
  shows "takes (ts @ us) w u (G \<union> H)" "G \<inter> H = {}"
proof -
  let ?T = "{a \<in> rows w. may_go ts a}" and ?U = "{a \<in> rows v. may_go us a}"
    and ?V = "{a \<in> rows w. may_go (ts @ us) a}"
  have T: "?T \<subseteq> ?V" by (auto simp: may_go_def)
  have U: "?U \<subseteq> ?V" using assms(1) by (auto simp: may_go_def takes_def)
  have w: "G \<subseteq> ?T" "rows v = rows w - G" "objs v \<subseteq> objs w" "objs w - objs v \<subseteq> location ` ?T" "location ` G \<inter> objs v = {}"
    using assms(1) by (simp_all add: takes_def)
  have v: "ok u" "H \<subseteq> ?U" "rows u = rows v - H" "objs u \<subseteq> objs v" "objs v - objs u \<subseteq> location ` ?U" "location ` H \<inter> objs u = {}"
    using assms(2) by (simp_all add: takes_def)
  show "takes (ts @ us) w u (G \<union> H)" unfolding takes_def
  proof (intro conjI)
    show "G \<union> H \<subseteq> ?V" using w(1) v(2) T U by blast
    show "rows u = rows w - (G \<union> H)" using w(2) v(3) by blast
    show "objs u \<subseteq> objs w" using w(3) v(4) by blast
    have "objs w - objs u \<subseteq> location ` ?T \<union> location ` ?U" using w(4) v(5) by blast
    also have "\<dots> \<subseteq> location ` ?V" using T U by blast
    finally show "objs w - objs u \<subseteq> location ` ?V" .
    show "location ` (G \<union> H) \<inter> objs u = {}" using w(5) v(4,6) by blast
  qed (rule v(1))
  show "G \<inter> H = {}" using w(2) v(2) by blast
qed

lemma sweepTask_spec:
  assumes "ok w" "sweepTask S t w = ((deleted, freed, orphans, e), w')"
  obtains G where "takes [t] w w' G" "deleted = card G" "freed = (\<Sum>a \<in> G. art_size a)"
proof -
  let ?opn = "storageOpener (sw_get S) (sw_open S)"
  obtain gone perr w1 where p: "(if ret_enabled (task_retention t)
      then Prune (sw_ctx S) (sw_store S) t ?opn (sw_now S w) w else (([], None), w)) = ((gone, perr), w1)"
    by (metis surj_pair)
  obtain found oerr w2 where o': "Orphans (sw_store S) t ?opn (sw_order S) w1 = ((found, oerr), w2)"
    by (metis surj_pair)
  have res: "deleted = length gone" "freed = sum_list (map art_size gone)" "w' = w2"
    using assms(2) p o' by (simp_all add: sweepTask_def Let_def)
  have g: "takes [t] w w1 (set gone) \<and> distinct (map art_id gone)"
  proof (cases "ret_enabled (task_retention t)")
    case False
    with p assms(1) show ?thesis by (auto intro: takes_none)
  next
    case True
    let ?del = "snd (Forget (task_retention t) (listing (task_id t) w) (sw_now S w))"
    have p: "Prune (sw_ctx S) (sw_store S) t ?opn (sw_now S w) w = ((gone, perr), w1)" using p True by simp
    note q = Prune_spec [OF assms(1) p refl]
    have sub: "set ?del \<subseteq> {a \<in> rows w. owner a = task_id t}"
      using listing_rows [OF assms(1), of "task_id t"] by (auto simp: Forget_def Let_def)
    have inj: "inj_on art_id (rows w)" using rows_ids [OF assms(1)] by blast
    have "set gone \<subseteq> rows w" using q(4) sub by blast
    then have "{a \<in> rows w. art_id a \<notin> art_id ` set gone} = rows w - set gone"
      using inj by (auto simp: inj_on_def)
    with q(2) have c1: "rows w1 = rows w - set gone" by simp
    have del: "set ?del \<subseteq> {a \<in> rows w. may_go [t] a}" using sub True by (auto simp: may_go_def)
    have c2: "set gone \<subseteq> {a \<in> rows w. may_go [t] a}" by (rule order_trans [OF q(4) del])
    have "objs w - objs w1 \<subseteq> location ` set ?del" using q(6) by (simp add: Diff_subset_conv Un_commute)
    then have c3: "objs w - objs w1 \<subseteq> location ` {a \<in> rows w. may_go [t] a}"
      by (rule order_trans [OF _ image_mono [OF del]])
    have c4: "location ` set gone \<inter> objs w1 = {}" using q(5) by blast
    have "takes [t] w w1 (set gone)" unfolding takes_def
      by (intro conjI q(1) q(3) c1 c2 c3 c4)
    then show ?thesis using Prune_distinct [OF assms(1) p] by blast
  qed
  have ok1: "ok w1" using g by (simp add: takes_def)
  have "finite (orphan_scopes t (listing (task_id t) w1))" by (simp add: orphan_scopes_def)
  note r = Orphans_spec [OF ok1 o' order_scopes [OF this]]
  have "takes [t] w w' (set gone)" using g r res(3) by (simp add: takes_def)
  moreover have "distinct gone" using g by (simp add: distinct_map)
  ultimately show thesis
    using that [of "set gone"] res(1,2) by (simp add: distinct_card sum_list_distinct_conv_sum_set)
qed

definition counted :: "task list \<Rightarrow> 'w \<Rightarrow> 'w \<Rightarrow> nat \<Rightarrow> int \<Rightarrow> bool" where
  "counted ts w w' deleted freed =
     (\<exists>G. takes ts w w' G \<and> deleted = card G \<and> freed = (\<Sum>a \<in> G. art_size a))"

lemma counted_ok: "counted ts w w' d f \<Longrightarrow> ok w'"
  by (auto simp: counted_def takes_def)

lemma counted_none: "ok w' \<Longrightarrow> rows w' = rows w \<Longrightarrow> objs w' = objs w \<Longrightarrow> counted ts w w' 0 0"
  unfolding counted_def by (rule exI [of _ "{}"]) (simp add: takes_none)

lemma counted_trans:
  assumes "ok w" "counted ts w v d f" "counted us v u d' f'"
  shows "counted (ts @ us) w u (d + d') (f + f')"
proof -
  obtain G where G: "takes ts w v G" "d = card G" "f = (\<Sum>a \<in> G. art_size a)"
    using assms(2) by (auto simp: counted_def)
  obtain H where H: "takes us v u H" "d' = card H" "f' = (\<Sum>a \<in> H. art_size a)"
    using assms(3) by (auto simp: counted_def)
  note both = takes_trans [OF G(1) H(1)]
  have "G \<subseteq> rows w" using G(1) by (auto simp: takes_def)
  moreover have "H \<subseteq> rows w" using G(1) H(1) by (auto simp: takes_def)
  ultimately have "finite G" "finite H" using rows_ids [OF assms(1)] by (auto intro: finite_subset)
  with both(2) have "d + d' = card (G \<union> H)" "f + f' = (\<Sum>a \<in> G \<union> H. art_size a)"
    unfolding G(2,3) H(2,3) by (simp_all add: card_Un_disjoint sum.union_disjoint)
  then show ?thesis using both(1) unfolding counted_def by blast
qed

text \<open>Calls that leave rows and objects alone may come before and after.\<close>

lemma counted_after:
  assumes "counted ts w v d f" "ok u" "rows u = rows v" "objs u = objs v"
  shows "counted ts w u d f"
  using assms by (simp add: counted_def takes_def)

lemma counted_before:
  assumes "rows v = rows w" "objs v = objs w" "counted ts v u d f"
  shows "counted ts w u d f"
  using assms by (simp add: counted_def takes_def)

lemma counted_more: "ok w \<Longrightarrow> counted ts w v d f \<Longrightarrow> counted (ts @ us) w v d f"
  using counted_trans [of w ts v d f us v 0 0] counted_none [of v v us] counted_ok by simp

lemma send_counted: "counted ts w v d f \<Longrightarrow> counted ts w (Send (sw_notify S) t k i m v) d f"
  by (rule counted_after) (use send_frame [OF counted_ok refl] in blast)+

lemma sweep_loop_spec:
  assumes "ok w" "sweep_loop S ts w = ((deleted, freed, orphans, errs), w')"
  shows "counted ts w w' deleted freed"
  using assms
proof (induction ts arbitrary: w w' deleted freed orphans errs)
  case Nil
  then show ?case by (simp add: counted_none)
next
  case (Cons t ts)
  obtain d f n e w1 where t: "sweepTask S t w = ((d, f, n, e), w1)" by (metis surj_pair)
  obtain G where "takes [t] w w1 G" "d = card G" "f = (\<Sum>a \<in> G. art_size a)"
    using sweepTask_spec [OF Cons.prems(1) t] .
  then have c: "counted [t] w w1 d f" by (auto simp: counted_def)
  define w2 where "w2 = (case e of None \<Rightarrow> w1 | Some e \<Rightarrow> notifyError S t e w1)"
  define w3 where "w3 = (if d > 0 then Send (sw_notify S) t EventRetentionDone 0 (MsgPruned d f) w2 else w2)"
  have "counted [t] w w2 d f" using c by (auto simp: w2_def notifyError_def send_counted split: option.split)
  then have c3: "counted [t] w w3 d f" by (cases "d > 0") (simp_all add: w3_def send_counted)
  let ?es = "case e of None \<Rightarrow> [] | Some e \<Rightarrow> [Wrap (''task '' @ quoted (task_name t) @ '': '') e]"
  have step: "sweep_loop S (t # ts) w =
      (case sw_ctx S w3 of
         Some c \<Rightarrow> ((d, f, n, ?es @ [c]), w3)
       | None \<Rightarrow> (case sweep_loop S ts w3 of
           ((ds, fs, os, es), w) \<Rightarrow> ((d + ds, f + fs, n + os, ?es @ es), w)))"
    unfolding w3_def w2_def by (simp add: t Let_def)
  show ?case
  proof (cases "sw_ctx S w3")
    case (Some x)
    then have "deleted = d" "freed = f" "w' = w3"
      using Cons.prems(2) unfolding step by simp_all
    with counted_more [OF Cons.prems(1) c3, of ts] show ?thesis by simp
  next
    case None
    obtain ds fs os es u where r: "sweep_loop S ts w3 = ((ds, fs, os, es), u)" by (metis surj_pair)
    have "deleted = d + ds" "freed = f + fs" "w' = u"
      using Cons.prems(2) unfolding step by (simp_all add: None r)
    with counted_trans [OF Cons.prems(1) c3 Cons.IH [OF counted_ok [OF c3] r]] show ?thesis by simp
  qed
qed

lemma record_sweep_spec:
  assumes "ok w" "record_sweep S sw cause w = ((sw', err), w')"
  shows "ok w' \<and> rows w' = rows w \<and> objs w' = objs w \<and> sweep_deleted sw' = sweep_deleted sw \<and>
    sweep_freed sw' = sweep_freed sw \<and> (sweep_status sw' = SweepSuccess \<longleftrightarrow> cause = None)"
proof -
  let ?sw = "case cause of None \<Rightarrow> sw\<lparr>sweep_finished := sw_now S w, sweep_status := SweepSuccess\<rparr>
    | Some e \<Rightarrow> sw\<lparr>sweep_finished := sw_now S w, sweep_status := SweepFailed,
                   sweep_error := truncateErr (Scrub (err_text e)) maxSweepErrLen\<rparr>"
  obtain r u where i: "sw_insert S ?sw w = (r, u)" by fastforce
  have "w' = u \<and> sweep_deleted sw' = sweep_deleted sw \<and> sweep_freed sw' = sweep_freed sw \<and>
      (sweep_status sw' = SweepSuccess \<longleftrightarrow> cause = None)"
    using assms(2) i by (cases cause; cases r) (auto simp: record_sweep_def Let_def)
  with insert_frame [OF assms(1) i] show ?thesis by simp
qed

lemma sweepLocked_spec:
  assumes "ok w" "sweepLocked S src w = ((sw, err), w')"
  obtains deleted where "counted (all_tasks w) w w' deleted (sweep_freed sw)" "sweep_deleted sw = int deleted"
proof -
  obtain rt w1 where t: "sw_tasks S w = (rt, w1)" by fastforce
  note f = tasks_frame [OF assms(1) t]
  show thesis
  proof (cases rt)
    case (Inl e)
    with assms(2) t have "record_sweep S (new_sweep (sw_now S w) src) (Some e) w1 = ((sw, err), w')"
      by (simp add: sweepLocked_def Let_def)
    from record_sweep_spec [OF _ this] f show thesis
      by (intro that [of 0]) (simp_all add: new_sweep_def counted_none)
  next
    case (Inr ts)
    obtain d fr n es w2 where l: "sweep_loop S ts w1 = ((d, fr, n, es), w2)" by (metis surj_pair)
    have c: "counted ts w1 w2 d fr" by (rule sweep_loop_spec [OF _ l]) (use f in blast)
    have p: "ok (pruneNotifications S w2) \<and> rows (pruneNotifications S w2) = rows w2 \<and> objs (pruneNotifications S w2) = objs w2"
      using counted_ok [OF c] log_frame [of w2 NotificationKeep]
      by (auto simp: pruneNotifications_def split: option.split intro: prod.collapse [symmetric])
    have "record_sweep S ((new_sweep (sw_now S w) src)\<lparr>sweep_deleted := int d, sweep_freed := fr, sweep_orphans := int n\<rparr>)
        (errors_join es) (pruneNotifications S w2) = ((sw, err), w')"
      using assms(2) t l Inr by (simp add: sweepLocked_def Let_def)
    note r = record_sweep_spec [OF _ this]
    have "counted ts w w2 d fr" by (rule counted_before [OF _ _ c]) (use f in blast)+
    then have "counted ts w w' d fr" by (rule counted_after) (use p r in blast)+
    moreover have "sweep_deleted sw = int d" "sweep_freed sw = fr" using r p by simp_all
    moreover have "ts = all_tasks w" using f Inr by blast
    ultimately show thesis by (intro that [of d]) simp_all
  qed
qed

end

end
