(* ===== verification/Quiet.thy ===== *)
theory Quiet
  imports Notify Cleanup
begin

text \<open>
  What sending an event leaves alone. A relation that every call of the notification
  environment keeps is kept by a whole delivery; on the world, a delivery changes the
  delivery log, the outbox and the fault schedules and nothing else.
\<close>

subsection \<open>Relations respected by a call\<close>

locale frame =
  fixes R :: "'w \<Rightarrow> 'w \<Rightarrow> bool"
  assumes same: "R w w" and chain: "R u v \<Longrightarrow> R v w \<Longrightarrow> R u w"
begin

definition keeps :: "('w \<Rightarrow> 'a \<times> 'w) \<Rightarrow> bool" where
  "keeps f = (\<forall>w. R w (snd (f w)))"

lemma keepsD: "keeps f \<Longrightarrow> f w = (x, w') \<Longrightarrow> R w w'"
  by (metis keeps_def snd_conv)

lemma keepsI: "(\<And>w x w'. f w = (x, w') \<Longrightarrow> R w w') \<Longrightarrow> keeps f"
  unfolding keeps_def by (metis prod.collapse)

lemma keeps_pure [simp]: "keeps (\<lambda>w. (g w, w))"
  by (simp add: keeps_def same)

lemma leaf_keeps: "(\<And>r. keeps (opn r)) \<Longrightarrow> R w (snd (resolve_leaf opn path k v cfg w))"
  by (auto simp: resolve_leaf_def same split: option.split sum.split prod.split dest: keepsD)

lemma resolve_keeps:
  assumes "\<And>r. keeps (opn r)"
  shows "R w (snd (resolve_value opn path v w))"
    "R w (snd (resolve_members opn path kvs cfg w))"
    "R w (snd (resolve_items opn path i vs w))"
  using assms
proof (induction opn path v w and opn path kvs cfg w and opn path i vs w
    rule: resolve_value_resolve_members_resolve_items.induct)
  case (1 opn path kvs w)
  then show ?case by (auto split: prod.split sum.split)
next
  case (2 opn path vs w)
  then show ?case by (auto split: prod.split sum.split)
next
  case (5 opn path k v rest cfg w)
  show ?case
  proof (cases "scalar (replaced cfg k v)")
    case True
    obtain y u where y: "resolve_leaf opn path k (replaced cfg k v) cfg w = (y, u)" by fastforce
    have "R w u" using leaf_keeps [of opn w path k "replaced cfg k v" cfg] "5.prems" y by simp
    with "5.IH"(1) [OF True y [symmetric] _ "5.prems"] True y show ?thesis
      by (cases y) (auto intro: chain)
  next
    case False
    obtain y u where y: "resolve_value opn (path @ k @ ''.'') v w = (y, u)" by fastforce
    have "R w u" using "5.IH"(2) [OF False "5.prems"] y by simp
    with "5.IH"(3) [OF False y [symmetric] _ "5.prems"] False y show ?thesis
      by (cases y) (auto intro: chain)
  qed
next
  case (7 opn path i v vs w)
  obtain y u where y: "resolve_value opn (path @ dec_nat i @ ''.'') v w = (y, u)" by fastforce
  have u: "R w u" using "7.IH"(1) [OF "7.prems"] y by simp
  show ?case
  proof (cases y)
    case (Inr v')
    obtain z t where z: "resolve_items opn path (i + 1) vs u = (z, t)" by fastforce
    have "R u t" using "7.IH"(2) [OF y [symmetric] Inr "7.prems"] z by simp
    with u Inr y z show ?thesis by (cases z) (auto intro: chain)
  qed (use u y in simp)
qed (simp_all add: same)

lemma Resolve_keeps:
  assumes "\<And>r. keeps (opn r)"
  shows "keeps (Resolve opn c)"
proof -
  have m: "R w u" if "resolve_members opn [] kvs kvs w = (y, u)" for kvs y w u
    using resolve_keeps(2) [where w = w and kvs = kvs and cfg = kvs and path = "[]" and opn = opn] assms that by simp
  have "R w (snd (Resolve opn c w))" for w
    by (auto simp: Resolve_def same split: raw.split json.split prod.split sum.split dest: m)
  then show ?thesis by (simp add: keeps_def)
qed

end

subsection \<open>Deliveries\<close>

locale notify_frame = frame R for R :: "'w \<Rightarrow> 'w \<Rightarrow> bool" +
  fixes E :: "'w notify_env"
  assumes env_list: "keeps (ne_list E)"
    and env_insert: "keeps (ne_insert E n)"
    and env_resolve: "keeps (ne_resolve E c)"
    and env_send: "ne_create E t c = Inr s \<Longrightarrow> keeps (s ev)"
begin

definition respectful :: "(string \<times> 'w notifier) list \<Rightarrow> bool" where
  "respectful ns = (\<forall>(c, s) \<in> set ns. \<forall>ev. keeps (s ev))"

lemma record_keeps: "R u w \<Longrightarrow> R u (record_delivery E ev at c e w)"
  using env_insert unfolding record_delivery_def keeps_def by (blast intro: chain)

lemma build_keeps:
  assumes "build E ch w = (r, w')"
  shows "R w w' \<and> (\<forall>s. r = Inr s \<longrightarrow> (\<forall>ev. keeps (s ev)))"
proof -
  obtain q u where q: "ne_resolve E (ch_config ch) w = (q, u)" by fastforce
  have "R w u" by (rule keepsD [OF env_resolve q])
  with assms q env_send show ?thesis by (cases q) (auto simp: build_def)
qed

lemma build_all_keeps:
  "build_all E ev chs w = (ns, w') \<Longrightarrow> R w w' \<and> respectful ns"
proof (induction chs arbitrary: w w' ns)
  case Nil
  then show ?case by (simp add: same respectful_def)
next
  case (Cons ch chs)
  obtain q u where q: "build E ch w = (q, u)" by fastforce
  note b = build_keeps [OF q]
  show ?case
  proof (cases q)
    case (Inl e)
    with Cons.prems q have "build_all E ev chs (record_delivery E ev (ne_now E u) (ch_name ch) (Some e) u) = (ns, w')"
      by simp
    from Cons.IH [OF this] b show ?thesis by (blast intro: chain record_keeps)
  next
    case (Inr s)
    obtain ms t where m: "build_all E ev chs u = (ms, t)" by fastforce
    with Cons.prems q Inr have "ns = (ch_name ch, s) # ms" "w' = t" by simp_all
    with Cons.IH [OF m] b Inr show ?thesis by (auto simp: respectful_def intro: chain)
  qed
qed

lemma deliver_keeps: "respectful ns \<Longrightarrow> R w (deliver E ev at ns w)"
proof (induction ns arbitrary: w)
  case Nil
  then show ?case by (simp add: same)
next
  case (Cons p ns)
  obtain c s where p: "p = (c, s)" by fastforce
  obtain q u where q: "s ev w = (q, u)" by fastforce
  have u: "R w u" using Cons.prems q unfolding respectful_def p by (auto dest: keepsD)
  have ns: "respectful ns" using Cons.prems by (simp add: respectful_def)
  show ?case
    using chain [OF record_keeps [OF u] Cons.IH [OF ns]] p q by (cases q) auto
qed

lemma record_fold_keeps:
  "R u w \<Longrightarrow> R u (fold (\<lambda>n w. record_delivery E ev (ne_now E w) n e w) ns w)"
  by (induction ns arbitrary: w) (simp_all add: record_keeps)

lemma channels_keeps:
  assumes "channelsFor E task kind w = (ns, w')"
  shows "R w w' \<and> respectful ns"
proof (cases "task_notifiers task = []")
  case True
  with assms show ?thesis by (simp add: channelsFor_def same respectful_def)
next
  case False
  obtain q u where q: "ne_list E w = (q, u)" by fastforce
  have u: "R w u" by (rule keepsD [OF env_list q])
  show ?thesis
  proof (cases q)
    case (Inl e)
    with assms q False have "ns = []" "w' = fold (\<lambda>n w. record_delivery E (task_event task kind 0 (MsgText [])) (ne_now E w) n
        (Some (Wrap ''channel list unavailable: '' e)) w) (task_notifiers task) u"
      by (simp_all add: channelsFor_def Let_def)
    with record_fold_keeps [OF u] show ?thesis by (simp add: respectful_def)
  next
    case (Inr cs)
    with assms q False have "build_all E (task_event task kind 0 (MsgText [])) (wanted kind (task_notifiers task) cs) u = (ns, w')"
      by (simp add: channelsFor_def Let_def)
    from build_all_keeps [OF this] u show ?thesis by (blast intro: chain)
  qed
qed

lemma Send_keeps: "R w (Send (Some E) task kind rid msg w)"
proof -
  obtain ns u where c: "channelsFor E task kind w = (ns, u)" by fastforce
  note cr = channels_keeps [OF c]
  then have "R u (deliver E ev at ns u)" for ev at by (simp add: deliver_keeps)
  with cr c show ?thesis by (auto simp: Send_def intro: chain)
qed

lemma SendSystem_keeps: "R w (SendSystem (Some E) kind subject msg w)"
proof -
  let ?ev = "system_event kind subject (scrub_message msg)"
  obtain q u where q: "ne_list E w = (q, u)" by fastforce
  have u: "R w u" by (rule keepsD [OF env_list q])
  obtain ns t where s: "systemChannels E ?ev w = (ns, t)" by fastforce
  have "R w t \<and> respectful ns"
  proof (cases q)
    case (Inl e)
    with s q u show ?thesis by (simp add: systemChannels_def respectful_def)
  next
    case (Inr cs)
    with s q have "build_all E ?ev (filter (\<lambda>c. ch_wants c (kind_text (ev_kind ?ev))) cs) u = (ns, t)"
      by (simp add: systemChannels_def)
    from build_all_keeps [OF this] u show ?thesis by (blast intro: chain)
  qed
  then show ?thesis
    using s deliver_keeps by (auto simp: SendSystem_def Let_def intro: chain)
qed

end

subsection \<open>On the world\<close>

definition core :: "db \<Rightarrow> db" where
  "core d = d\<lparr>faults := [], sweeps := [], notifications := []\<rparr>"

definition quiet :: "world \<Rightarrow> world \<Rightarrow> bool" where
  "quiet w w' = (wdisk w' = wdisk w \<and> core (wdb w') = core (wdb w))"

lemma core_updates [simp]:
  "core (d\<lparr>faults := fs\<rparr>) = core d" "core (d\<lparr>sweeps := ss\<rparr>) = core d" "core (d\<lparr>notifications := ns\<rparr>) = core d"
  by (simp_all add: core_def)

lemma core_selectors:
  assumes "core d' = core d"
  shows "connections d' = connections d" "storages d' = storages d" "tasks d' = tasks d"
    "runs d' = runs d" "artifacts d' = artifacts d" "wd_alerts d' = wd_alerts d"
    "alert_state d' = alert_state d" "channels d' = channels d" "secrets d' = secrets d" "clock d' = clock d"
  using assms by (cases d; cases d'; simp add: core_def)+

lemma core_db_ok: "core d' = core d \<Longrightarrow> db_ok d' = db_ok d"
  using core_selectors [of d' d] by (simp add: db_ok_def)

interpretation world_frame: frame quiet
  by unfold_locales (simp_all add: quiet_def)

lemma on_db_quiet:
  assumes "\<And>d r d'. f d = (r, d') \<Longrightarrow> core d' = core d"
  shows "world_frame.keeps (on_db f)"
  by (rule world_frame.keepsI) (use assms in \<open>auto simp: quiet_def elim: on_dbE\<close>)

lemma same_tables_core: "same_tables d d' \<Longrightarrow> core d' = core d"
  by (auto simp: same_tables_iff)

lemma OpenSecret_same: "OpenSecret box ref d = (r, d') \<Longrightarrow> same_tables d d'"
  by (auto simp: OpenSecret_def GetSecretByRef_def Let_def split: option.splits prod.splits sum.splits dest: query_row_same)

lemma stmt_core:
  assumes "stmt what f d = (r, d')" "\<And>d r d'. f d = (r, d') \<Longrightarrow> core d' = core d"
  shows "core d' = core d"
  using assms(1) by (rule stmt_cases) (use assms(2) in \<open>force+\<close>)

lemma InsertNotification_core: "InsertNotification n d = (r, d') \<Longrightarrow> core d' = core d"
  unfolding InsertNotification_def by (erule stmt_core) (auto simp: Let_def)

lemma PruneNotifications_core: "PruneNotifications k d = (r, d') \<Longrightarrow> core d' = core d"
  unfolding PruneNotifications_def by (erule stmt_core) (auto simp: Let_def)

lemma InsertSweep_core: "InsertSweep s d = (r, d') \<Longrightarrow> core d' = core d"
  unfolding InsertSweep_def by (erule stmt_core) (auto simp: Let_def)

lemma net_send_quiet: "world_frame.keeps (net_send t ev)"
  by (rule world_frame.keepsI) (auto simp: net_send_def quiet_def split: list.splits bool.splits)

interpretation world_quiet: notify_frame quiet "world_notify accepts box" for accepts box
proof unfold_locales
  show "world_frame.keeps (ne_list (world_notify accepts box))"
    by (simp add: world_notify_def, rule on_db_quiet)
      (auto simp: ListNotifiers_def intro: same_tables_core query_same)
  show "world_frame.keeps (ne_insert (world_notify accepts box) n)" for n
    by (simp add: world_notify_def, rule on_db_quiet) (rule InsertNotification_core)
  show "world_frame.keeps (ne_resolve (world_notify accepts box) c)" for c
    by (simp add: world_notify_def, rule world_frame.Resolve_keeps, rule on_db_quiet)
      (auto intro: same_tables_core OpenSecret_same)
  show "world_frame.keeps (s ev)" if "ne_create (world_notify accepts box) t c = Inr s" for t c s ev
    using that by (auto simp: world_notify_def net_send_quiet split: option.splits)
qed

end
