(* ===== verification/Retention.thy ===== *)
theory Retention
  imports Sweeper Quiet
begin

text \<open>
  The sweep on the world: the retention contract comes from the catalog and the local storages,
  and the calls of the sweep itself touch neither rows nor objects.
\<close>

definition world_sweeper ::
  "(string \<Rightarrow> raw \<Rightarrow> err option) \<Rightarrow> (secret \<Rightarrow> err + string) option \<Rightarrow> world context_err \<Rightarrow> world sweeper" where
  "world_sweeper accepts box ctx =
     \<lparr>sw_store = world_retention, sw_tasks = on_db ListTasks, sw_get = (\<lambda>i. on_db (GetStorage i)),
      sw_insert = (\<lambda>s. on_db (InsertSweep s)), sw_prune_log = (\<lambda>k. on_db (PruneNotifications k)),
      sw_open = open_storage, sw_notify = Some (world_notify accepts box), sw_now = (\<lambda>w. now_time (wdb w)),
      sw_order = sorted_list_of_set, sw_ctx = ctx\<rparr>"

definition world_tasks :: "world \<Rightarrow> task list" where
  "world_tasks w = sort_key task_id (tasks (wdb w))"

lemma world_sweeper_opener:
  "sw_store (world_sweeper accepts box ctx) = world_retention"
  "storageOpener (sw_get (world_sweeper accepts box ctx)) (sw_open (world_sweeper accepts box ctx)) = world_opener"
  by (simp_all add: world_sweeper_def world_opener_def)

lemma quiet_frame:
  assumes "quiet w w'"
  shows "world_ok ss own w' = world_ok ss own w" "world_rows w' = world_rows w"
    "world_objects ss w' = world_objects ss w"
proof -
  have c: "core (wdb w') = core (wdb w)" "wdisk w' = wdisk w" using assms by (simp_all add: quiet_def)
  note s = core_selectors [OF c(1)]
  show "world_ok ss own w' = world_ok ss own w" by (simp add: world_ok_def s c(2) core_db_ok [OF c(1)])
  show "world_rows w' = world_rows w" by (simp add: world_rows_def s)
  show "world_objects ss w' = world_objects ss w" by (simp add: world_objects_def c(2))
qed

lemma on_db_frame:
  assumes "world_ok ss own w" "on_db f w = (r, w')" "\<And>d r d'. f d = (r, d') \<Longrightarrow> core d' = core d"
  shows "world_ok ss own w' \<and> world_rows w' = world_rows w \<and> world_objects ss w' = world_objects ss w"
proof -
  have "quiet w w'" using assms(2,3) by (auto simp: quiet_def elim: on_dbE)
  with assms(1) show ?thesis by (simp add: quiet_frame)
qed

interpretation vault_sweep: sweep_contract "world_sweeper accepts box ctx" world_rows world_listing
  "world_objects ss" "world_serves ss" good_key own "world_ok ss own" world_tasks for accepts box ctx ss own
proof (intro sweep_contract.intro sweep_contract_axioms.intro)
  let ?S = "world_sweeper accepts box ctx"
  show "retention_contract (sw_store ?S) (storageOpener (sw_get ?S) (sw_open ?S)) world_rows world_listing
      (world_objects ss) (world_serves ss) good_key own (world_ok ss own)"
    unfolding world_sweeper_opener by (rule vault.retention_contract_axioms)
  fix w assume ok: "world_ok ss own w"
  show "finite (world_rows w) \<and> inj_on art_id (world_rows w)"
    using ok by (simp add: world_rows_def world_ok_def db_ok_def distinct_map)
  show "world_ok ss own w' \<and> world_rows w' = world_rows w \<and> world_objects ss w' = world_objects ss w \<and>
      (\<forall>ts. rt = Inr ts \<longrightarrow> ts = world_tasks w)" if "sw_tasks ?S w = (rt, w')" for rt w'
  proof -
    have l: "on_db ListTasks w = (rt, w')" using that by (simp add: world_sweeper_def)
    then obtain d where d: "ListTasks (wdb w) = (rt, d)" by (rule on_dbE)
    have "ts = world_tasks w" if "rt = Inr ts" for ts
      using d unfolding that ListTasks_def world_tasks_def by (rule query_ok) (simp add: table_fun_def)
    moreover have "core d' = core d" if "ListTasks d = (r, d')" for d r d'
      using that unfolding ListTasks_def by (intro same_tables_core) (rule query_same)
    ultimately show ?thesis using on_db_frame [OF ok l] by blast
  qed
  show "world_ok ss own w' \<and> world_rows w' = world_rows w \<and> world_objects ss w' = world_objects ss w"
    if "sw_insert ?S sw w = (ri, w')" for sw ri w'
    using on_db_frame [OF ok _ InsertSweep_core] that by (simp add: world_sweeper_def)
  show "world_ok ss own w' \<and> world_rows w' = world_rows w \<and> world_objects ss w' = world_objects ss w"
    if "sw_prune_log ?S k w = (rl, w')" for k rl w'
    using on_db_frame [OF ok _ PruneNotifications_core] that by (simp add: world_sweeper_def)
  show "world_ok ss own w' \<and> world_rows w' = world_rows w \<and> world_objects ss w' = world_objects ss w"
    if "Send (sw_notify ?S) t kind rid msg w = w'" for t kind rid msg w'
    using quiet_frame [OF world_quiet.Send_keeps [of w accepts box t kind rid msg]] that ok
    by (auto simp: world_sweeper_def)
qed (simp add: world_sweeper_def)

text \<open>
  C27: Whatever fails during a sweep and whenever it is cancelled, its record is the truth: the
  artifacts gone from the catalog are as many and as large as it says, all belong to tasks with an
  enabled policy and have lost their objects, and every other object is where it was unless it
  lies at the place of such an artifact. So a task without a policy loses no artifact.
\<close>

theorem sweep_truthful:
  assumes "world_ok ss own w"
    and "sweepLocked (world_sweeper accepts box ctx) src w = ((sw, err), w')"
    and "prunable = {a \<in> world_rows w. \<exists>t \<in> set (tasks (wdb w)). ret_enabled (task_retention t) \<and> own a = task_id t}"
  shows "world_ok ss own w' \<and> world_rows w' \<subseteq> world_rows w \<and>
    int (card (world_rows w - world_rows w')) = sweep_deleted sw \<and>
    (\<Sum>a \<in> world_rows w - world_rows w'. art_size a) = sweep_freed sw \<and>
    world_rows w - world_rows w' \<subseteq> prunable \<and>
    (\<forall>a \<in> world_rows w - world_rows w'. location a \<notin> world_objects ss w') \<and>
    world_objects ss w' \<subseteq> world_objects ss w \<and>
    world_objects ss w - world_objects ss w' \<subseteq> location ` prunable"
proof -
  obtain n where n: "vault_sweep.counted ss own (world_tasks w) w w' n (sweep_freed sw)" "sweep_deleted sw = int n"
    using vault_sweep.sweepLocked_spec [OF assms(1,2)] by blast
  then obtain G where G: "vault_sweep.takes ss own (world_tasks w) w w' G" "n = card G" "sweep_freed sw = (\<Sum>a \<in> G. art_size a)"
    by (auto simp: vault_sweep.counted_def)
  have may: "{a \<in> world_rows w. vault_sweep.may_go own (world_tasks w) a} = prunable"
    by (simp add: vault_sweep.may_go_def world_tasks_def assms(3))
  have t: "world_ok ss own w'" "G \<subseteq> prunable" "world_rows w' = world_rows w - G"
    "world_objects ss w' \<subseteq> world_objects ss w" "world_objects ss w - world_objects ss w' \<subseteq> location ` prunable"
    "location ` G \<inter> world_objects ss w' = {}"
    using G(1) unfolding vault_sweep.takes_def may by blast+
  have sub: "G \<subseteq> world_rows w" using t(2) assms(3) by blast
  have gone: "world_rows w - world_rows w' = G" using t(3) sub by blast
  have lost: "\<forall>a \<in> G. location a \<notin> world_objects ss w'" using t(6) by blast
  have fewer: "world_rows w' \<subseteq> world_rows w" using t(3) by blast
  have num: "int (card G) = sweep_deleted sw" "(\<Sum>a \<in> G. art_size a) = sweep_freed sw"
    using G(2,3) n(2) by simp_all
  show ?thesis unfolding gone
    by (intro conjI t(1,2,4,5) lost fewer num)
qed

definition sweep_outcome :: "(sweep \<times> err option) \<times> world" where
  "sweep_outcome = sweepLocked (world_sweeper (\<lambda>_ _. None) None (\<lambda>_. None)) SweepManual vault_world"

theorem sweep_truthful_witness:
  "sweep_deleted (fst (fst sweep_outcome)) = 1 \<and> sweep_freed (fst (fst sweep_outcome)) = 10 \<and>
   card (world_rows vault_world - world_rows (snd sweep_outcome)) = 1"
proof -
  have "sweep_deleted (fst (fst sweep_outcome)) = 1" "sweep_freed (fst (fst sweep_outcome)) = 10" by code_simp+
  moreover have run: "sweepLocked (world_sweeper (\<lambda>_ _. None) None (\<lambda>_. None)) SweepManual vault_world =
      ((fst (fst sweep_outcome), snd (fst sweep_outcome)), snd sweep_outcome)"
    by (simp add: sweep_outcome_def)
  ultimately show ?thesis
    using sweep_truthful [OF vault_world_ok run refl] by simp
qed

end
