(* ===== verification/Dispatcher.thy ===== *)
theory Dispatcher
  imports StoreSteps
begin

text \<open>
  The scheduler of internal/core/dispatcher.go and schedule.go. The cron library is a parameter:
  a parser from expressions to schedules, a schedule being the function Next. The store interface
  DispatchStore is a record of operations; the code's store is the catalog of theory Repo. The
  lemmas say which tasks a tick enqueues and that consecutive ticks leave no activation out.
\<close>

subsection \<open>The code\<close>

type_synonym schedule = "time \<Rightarrow> time"
type_synonym cron_parser = "string \<Rightarrow> err + schedule"

record 'w dispatch_store =
  ds_list :: "('w, task list) op"
  ds_enqueue :: "rowid \<Rightarrow> ('w, rowid) op"

record dispatcher =
  last_tick :: time

definition NewDispatcher :: "time \<Rightarrow> dispatcher" where
  "NewDispatcher now = \<lparr>last_tick = now\<rparr>"

definition ParseCron :: "cron_parser \<Rightarrow> string \<Rightarrow> err + schedule" where
  "ParseCron parse expr =
     (case parse expr of
        Inl e \<Rightarrow> Inl (Wrap (''cron '' @ quoted expr @ '': '') e)
      | Inr sch \<Rightarrow> Inr sch)"

definition NextRun :: "cron_parser \<Rightarrow> string \<Rightarrow> time \<Rightarrow> err + time" where
  "NextRun parse expr from =
     (case ParseCron parse expr of Inl e \<Rightarrow> Inl e | Inr sch \<Rightarrow> Inr (sch from))"

fun tick_loop ::
  "'w dispatch_store \<Rightarrow> cron_parser \<Rightarrow> time \<Rightarrow> time \<Rightarrow> task list \<Rightarrow> nat \<Rightarrow> 'w \<Rightarrow> nat \<times> 'w" where
  "tick_loop st parse lastT now [] n w = (n, w)"
| "tick_loop st parse lastT now (t # ts) n w =
     (case NextRun parse (task_cron t) lastT of
        Inl e \<Rightarrow> tick_loop st parse lastT now ts n w
      | Inr next_at \<Rightarrow>
          if next_at > now then tick_loop st parse lastT now ts n w
          else (case ds_enqueue st (task_id t) w of
                  (Inl e, w) \<Rightarrow> tick_loop st parse lastT now ts n w
                | (Inr i, w) \<Rightarrow> tick_loop st parse lastT now ts (n + 1) w))"

definition Tick ::
  "'w dispatch_store \<Rightarrow> cron_parser \<Rightarrow> time \<Rightarrow> dispatcher \<Rightarrow> 'w \<Rightarrow> (err + nat) \<times> dispatcher \<times> 'w" where
  "Tick st parse now d w =
     (case ds_list st w of
        (Inl e, w) \<Rightarrow> (Inl e, d, w)
      | (Inr ts, w) \<Rightarrow>
          (case tick_loop st parse (last_tick d) now ts 0 w of
             (n, w) \<Rightarrow> (Inr n, d\<lparr>last_tick := now\<rparr>, w)))"

text \<open>The code's store.\<close>

definition db_dispatch_store :: "db dispatch_store" where
  "db_dispatch_store = \<lparr>ds_list = ListEnabledTasks, ds_enqueue = Enqueue\<rparr>"

subsection \<open>Which tasks are due\<close>

definition due :: "cron_parser \<Rightarrow> time \<Rightarrow> time \<Rightarrow> task \<Rightarrow> bool" where
  "due parse lastT now t =
     (case parse (task_cron t) of Inl e \<Rightarrow> False | Inr sch \<Rightarrow> sch lastT \<le> now)"

text \<open>
  What the cron library documents of Next: the earliest activation strictly after its argument,
  or the zero time when it finds none.
\<close>

definition next_activation :: "(time \<Rightarrow> bool) \<Rightarrow> schedule \<Rightarrow> bool" where
  "next_activation fires sch =
     (\<forall>t. if is_zero_time (sch t) then \<forall>u > t. \<not> fires u
          else t < sch t \<and> fires (sch t) \<and> (\<forall>u. t < u \<and> u < sch t \<longrightarrow> \<not> fires u))"

lemma next_activation_due:
  assumes "next_activation fires sch" "\<not> is_zero_time (sch lastT)"
  shows "sch lastT \<le> now \<longleftrightarrow> (\<exists>u. lastT < u \<and> u \<le> now \<and> fires u)"
proof -
  have law: "lastT < sch lastT" "fires (sch lastT)" "\<And>u. lastT < u \<Longrightarrow> u < sch lastT \<Longrightarrow> \<not> fires u"
    using assms unfolding next_activation_def by metis+
  then show ?thesis by (meson linorder_not_le order.trans)
qed

lemma tick_loop_due:
  "tick_loop st parse lastT now ts n w = tick_loop st parse lastT now (filter (due parse lastT now) ts) n w"
proof (induction ts arbitrary: n w)
  case (Cons t ts)
  then show ?case
    by (cases "parse (task_cron t)")
      (auto simp: due_def NextRun_def ParseCron_def split: prod.splits sum.splits)
qed simp

text \<open>Enqueueing a list of tasks, one after the other.\<close>

fun enqueue_all :: "'w dispatch_store \<Rightarrow> rowid list \<Rightarrow> 'w \<Rightarrow> nat \<times> 'w" where
  "enqueue_all st [] w = (0, w)"
| "enqueue_all st (i # is) w =
     (case ds_enqueue st i w of
        (Inl e, w) \<Rightarrow> enqueue_all st is w
      | (Inr _, w) \<Rightarrow> (case enqueue_all st is w of (n, w) \<Rightarrow> (n + 1, w)))"

lemma tick_loop_enqueue_all:
  "list_all (due parse lastT now) ts \<Longrightarrow>
   tick_loop st parse lastT now ts n w =
     (case enqueue_all st (map task_id ts) w of (m, w) \<Rightarrow> (n + m, w))"
proof (induction ts arbitrary: n w)
  case (Cons t ts)
  then show ?case
    by (cases "parse (task_cron t)")
      (auto simp: due_def NextRun_def ParseCron_def split: prod.splits sum.splits)
qed simp

lemma Tick_eq:
  "Tick st parse now d w =
     (case ds_list st w of
        (Inl e, w) \<Rightarrow> (Inl e, d, w)
      | (Inr ts, w) \<Rightarrow>
          (case enqueue_all st (map task_id (filter (due parse (last_tick d) now) ts)) w of
             (n, w) \<Rightarrow> (Inr n, d\<lparr>last_tick := now\<rparr>, w)))"
proof -
  have "tick_loop st parse (last_tick d) now ts 0 w =
    enqueue_all st (map task_id (filter (due parse (last_tick d) now) ts)) w" for ts w
    by (subst tick_loop_due, subst tick_loop_enqueue_all) (auto simp: list_all_iff split: prod.split)
  then show ?thesis
    unfolding Tick_def by (simp split: prod.split sum.split)
qed

subsection \<open>A tick on the catalog\<close>

definition enabled_tasks :: "db \<Rightarrow> task list" where
  "enabled_tasks d = sort_key task_id (filter task_enabled (tasks d))"

lemma enqueue_all_db:
  assumes "faults d = []" "distinct is" "set is \<subseteq> set (map task_id (tasks d))"
  shows "\<exists>rs. enqueue_all db_dispatch_store is d =
      (length (filter (\<lambda>i. \<not> list_ex (active_for i) (runs d)) is), d\<lparr>runs := runs d @ rs\<rparr>) \<and>
    map run_task rs = filter (\<lambda>i. \<not> list_ex (active_for i) (runs d)) is \<and>
    list_all (\<lambda>r. run_status r = StatusQueued \<and> run_attempt r = 1) rs"
  using assms
proof (induction "is" arbitrary: d)
  case Nil
  then show ?case by (intro exI [of _ "[]"]) simp
next
  case (Cons i "is")
  have mem: "i \<in> set (map task_id (tasks d))" using Cons.prems(3) by simp
  show ?case
  proof (cases "list_ex (active_for i) (runs d)")
    case True
    then show ?thesis
      using Cons.IH [of d] Cons.prems Enqueue_refused [OF True Cons.prems(1)]
      by (simp add: db_dispatch_store_def)
  next
    case False
    let ?r = "new_run i StatusQueued 1 False d" let ?d = "d\<lparr>runs := runs d @ [?r]\<rparr>"
    have r: "run_task ?r = i" "run_status ?r = StatusQueued" "run_attempt ?r = 1"
      by (simp_all add: new_run_def)
    have act: "list_ex (active_for j) (runs ?d) = list_ex (active_for j) (runs d)" if "j \<in> set is" for j
      using Cons.prems(2) that r by (auto simp: active_for_def)
    then have same: "filter (\<lambda>i. \<not> list_ex (active_for i) (runs ?d)) is =
        filter (\<lambda>i. \<not> list_ex (active_for i) (runs d)) is"
      by (intro filter_cong) auto
    have prems: "faults ?d = []" "distinct is" "set is \<subseteq> set (map task_id (tasks ?d))"
      using Cons.prems by auto
    from Cons.IH [OF prems] obtain rs where
      "enqueue_all db_dispatch_store is ?d =
         (length (filter (\<lambda>i. \<not> list_ex (active_for i) (runs d)) is), ?d\<lparr>runs := runs ?d @ rs\<rparr>)"
      "map run_task rs = filter (\<lambda>i. \<not> list_ex (active_for i) (runs d)) is"
      "list_all (\<lambda>r. run_status r = StatusQueued \<and> run_attempt r = 1) rs"
      unfolding same by blast
    then show ?thesis
      using False Enqueue_inserts [OF False mem Cons.prems(1)] r
      by (intro exI [of _ "?r # rs"]) (simp add: db_dispatch_store_def)
  qed
qed

lemma tick_db:
  assumes "faults d = []" "distinct (map task_id (tasks d))"
  shows "\<exists>rs. Tick db_dispatch_store parse now disp d =
      (Inr (length rs), disp\<lparr>last_tick := now\<rparr>, d\<lparr>runs := runs d @ rs\<rparr>) \<and>
    map run_task rs = map task_id (filter (\<lambda>t. due parse (last_tick disp) now t \<and>
      \<not> list_ex (active_for (task_id t)) (runs d)) (enabled_tasks d)) \<and>
    list_all (\<lambda>r. run_status r = StatusQueued \<and> run_attempt r = 1) rs"
proof -
  let ?ts = "filter (due parse (last_tick disp) now) (enabled_tasks d)"
  have list: "ds_list db_dispatch_store d = (Inr (enabled_tasks d), d)"
    using assms(1) by (simp add: db_dispatch_store_def ListEnabledTasks_def query_def enabled_tasks_def)
  have set: "set (map task_id ?ts) \<subseteq> set (map task_id (tasks d))"
    by (auto simp: enabled_tasks_def)
  have "distinct (map task_id (enabled_tasks d))"
    using map_filter_distinct [OF assms(2), of task_enabled]
    by (simp add: enabled_tasks_def distinct_map)
  then have dist: "distinct (map task_id ?ts)" by (rule map_filter_distinct)
  have filt: "filter (\<lambda>i. P i) (map task_id ts) = map task_id (filter (\<lambda>t. P (task_id t)) ts)" for P ts
    by (induction ts) auto
  from enqueue_all_db [OF assms(1) dist set] obtain rs where
    "enqueue_all db_dispatch_store (map task_id ?ts) d =
       (length (filter (\<lambda>i. \<not> list_ex (active_for i) (runs d)) (map task_id ?ts)), d\<lparr>runs := runs d @ rs\<rparr>)"
    "map run_task rs = filter (\<lambda>i. \<not> list_ex (active_for i) (runs d)) (map task_id ?ts)"
    "list_all (\<lambda>r. run_status r = StatusQueued \<and> run_attempt r = 1) rs"
    by blast
  moreover from this(2) have "length rs = length (filter (\<lambda>i. \<not> list_ex (active_for i) (runs d)) (map task_id ?ts))"
    by (metis length_map)
  ultimately show ?thesis
    by (intro exI [of _ rs]) (simp add: Tick_eq list filt conj_commute)
qed


subsection \<open>Successive ticks\<close>

text \<open>A run of ticks at the given clock readings, and the windows of the ones that succeeded.\<close>

fun run_ticks ::
  "'w dispatch_store \<Rightarrow> cron_parser \<Rightarrow> time list \<Rightarrow> dispatcher \<Rightarrow> 'w \<Rightarrow>
   (time \<times> time) list \<times> dispatcher \<times> 'w" where
  "run_ticks st parse [] d w = ([], d, w)"
| "run_ticks st parse (now # nows) d w =
     (case Tick st parse now d w of
        (r, d', w') \<Rightarrow>
          (case run_ticks st parse nows d' w' of
             (tr, res) \<Rightarrow> ((if is_ok r then [(last_tick d, now)] else []) @ tr, res)))"

lemma Tick_last_tick:
  "Tick st parse now d w = (r, d', w') \<Longrightarrow> last_tick d' = (if is_ok r then now else last_tick d)"
  by (auto simp: Tick_def split: prod.splits sum.splits)

lemma run_ticks_windows:
  assumes "run_ticks st parse nows d w = (tr, d', w')" "sorted (last_tick d # nows)"
  shows "last_tick d \<le> last_tick d' \<and>
    length (filter (\<lambda>(a, b). a < u \<and> u \<le> b) tr) =
      (if last_tick d < u \<and> u \<le> last_tick d' then 1 else 0)"
  using assms
proof (induction nows arbitrary: d w tr)
  case (Cons now nows)
  obtain r d1 w1 where T: "Tick st parse now d w = (r, d1, w1)" by (metis prod_cases3)
  obtain tr1 where R: "run_ticks st parse nows d1 w1 = (tr1, d', w')"
    and tr: "tr = (if is_ok r then [(last_tick d, now)] else []) @ tr1"
    using Cons.prems(1) T by (auto split: prod.splits)
  have l: "last_tick d1 = (if is_ok r then now else last_tick d)" by (rule Tick_last_tick [OF T])
  have "sorted (last_tick d1 # nows)" using Cons.prems(2) l by auto
  from Cons.IH [OF R this] show ?case
    using Cons.prems(2) l unfolding tr by (cases "is_ok r") auto
qed simp

lemma next_activation_le:
  assumes "next_activation fires sch" "fires u" "a < u"
  shows "sch a \<le> u"
proof -
  from assms(1) have "if is_zero_time (sch a) then \<forall>u > a. \<not> fires u
      else a < sch a \<and> fires (sch a) \<and> (\<forall>u. a < u \<and> u < sch a \<longrightarrow> \<not> fires u)"
    unfolding next_activation_def by (rule spec)
  then have "a < sch a \<and> (\<forall>u. a < u \<and> u < sch a \<longrightarrow> \<not> fires u)"
    using assms(2,3) by (cases "is_zero_time (sch a)") auto
  with assms(2,3) have "\<not> u < sch a" by blast
  then show ?thesis by (simp only: not_less)
qed


text \<open>
  A schedule that never fires is treated as due: Next returns the zero time, which is not
  after now, so on a healthy database every tick enqueues the task whenever it has no active run.
\<close>

theorem dead_schedule_enqueued:
  assumes "faults d = []" "distinct (map task_id (tasks d))" "t \<in> set (tasks d)" "task_enabled t"
    and "\<not> list_ex (active_for (task_id t)) (runs d)"
    and "parse (task_cron t) = Inr sch" "\<forall>u. \<not> fires u" "next_activation fires sch" "zero_time \<le> now"
  shows "\<exists>r. r \<in> set (runs (snd (snd (Tick db_dispatch_store parse now disp d)))) \<and>
    run_task r = task_id t \<and> run_status r = StatusQueued"
proof -
  have "is_zero_time (sch (last_tick disp))"
    using assms(7) spec [OF assms(8) [unfolded next_activation_def], of "last_tick disp"]
    by (simp split: if_splits)
  then have "due parse (last_tick disp) now t"
    using assms(6,9) by (simp add: due_def is_zero_time_def)
  obtain rs where rs: "Tick db_dispatch_store parse now disp d =
      (Inr (length rs), disp\<lparr>last_tick := now\<rparr>, d\<lparr>runs := runs d @ rs\<rparr>)"
    "map run_task rs = map task_id (filter (\<lambda>t. due parse (last_tick disp) now t \<and>
      \<not> list_ex (active_for (task_id t)) (runs d)) (enabled_tasks d))"
    "list_all (\<lambda>r. run_status r = StatusQueued \<and> run_attempt r = 1) rs"
    using tick_db [OF assms(1,2)] by blast
  have "task_id t \<in> set (map run_task rs)"
    unfolding rs(2) using assms(3-5) \<open>due parse (last_tick disp) now t\<close>
    by (auto simp: enabled_tasks_def)
  with rs(1,3) show ?thesis by (auto simp: list_all_iff)
qed

subsection \<open>Concrete schedules\<close>

text \<open>Every full minute after the zero time, and never.\<close>

definition on_minute :: "time \<Rightarrow> bool" where
  "on_minute u = (u mod minute = 0 \<and> zero_time < u)"

definition every_minute :: schedule where
  "every_minute t = (if t < zero_time then zero_time + minute else (t div minute + 1) * minute)"

definition sample_parser :: cron_parser where
  "sample_parser e = (if e = ''0 3 * * *'' then Inr every_minute else Inr (\<lambda>_. zero_time))"

lemma no_multiple_between:
  fixes q :: int
  assumes "q * m < u" "u < (q + 1) * m" "0 < m"
  shows "u mod m \<noteq> 0"
proof
  assume "u mod m = 0"
  then obtain k where "u = k * m" by (metis mod_0_imp_dvd dvdE mult.commute)
  with assms have "q < k" "k < q + 1" by simp_all
  then show False by simp
qed

lemma every_minute_law: "next_activation on_minute every_minute"
proof -
  have z: "zero_time = - 1035593280 * minute" by (simp add: zero_time_def minute_def second_def)
  have m: "0 < minute" by simp
  have key: "q * minute < u \<Longrightarrow> u < (q + 1) * minute \<Longrightarrow> \<not> on_minute u" for q u
    using no_multiple_between [OF _ _ m] by (simp add: on_minute_def)
  have "if is_zero_time (every_minute t) then \<forall>u > t. \<not> on_minute u
      else t < every_minute t \<and> on_minute (every_minute t) \<and>
        (\<forall>u. t < u \<and> u < every_minute t \<longrightarrow> \<not> on_minute u)" for t
  proof (cases "t < zero_time")
    case True
    then have e: "every_minute t = (- 1035593280 + 1) * minute"
      by (simp add: every_minute_def z algebra_simps)
    have "\<not> on_minute u" if "u < every_minute t" for u
      using key [of "- 1035593280" u] that e z by (auto simp: on_minute_def)
    moreover have "zero_time < every_minute t" using True m by (simp add: every_minute_def)
    moreover have "every_minute t mod minute = 0" using e by simp
    ultimately show ?thesis
      using True by (auto simp: is_zero_time_def on_minute_def)
  next
    case False
    then have e: "every_minute t = (t div minute + 1) * minute" by (simp add: every_minute_def)
    have q: "t div minute * minute \<le> t" "t < (t div minute + 1) * minute"
      using pos_mod_bound [OF m, of t] pos_mod_sign [OF m, of t] div_mult_mod_eq [of t minute]
      unfolding distrib_right by linarith+
    have "\<not> on_minute u" if "t < u" "u < every_minute t" for u
      using key [of "t div minute" u] q that e by simp
    moreover have "on_minute (every_minute t)"
      using q False e by (simp add: on_minute_def)
    ultimately show ?thesis
      using q False e by (auto simp: is_zero_time_def)
  qed
  then show ?thesis by (simp add: next_activation_def)
qed

lemma never_law: "next_activation (\<lambda>_. False) (\<lambda>_. zero_time)"
  by (simp add: next_activation_def is_zero_time_def)

lemma sample_catalog_facts:
  "faults sample_catalog = []" "map task_id (tasks sample_catalog) = [1]"
  by (code_simp)+


definition sample_ticks :: "(time \<times> time) list \<times> dispatcher \<times> db" where
  "sample_ticks = run_ticks db_dispatch_store sample_parser [minute + 5, 2 * minute + 5]
     (NewDispatcher 0) sample_catalog"

lemma sample_ticks_last: "last_tick (fst (snd sample_ticks)) = 2 * minute + 5"
  by code_simp


definition dead_catalog :: db where
  "dead_catalog = snd (UpdateTask (sample_task\<lparr>task_id := 1, task_cron := ''0 0 30 2 *''\<rparr>) sample_catalog)"

lemma dead_catalog_facts:
  "faults dead_catalog = []" "map task_id (tasks dead_catalog) = [1]" "map task_enabled (tasks dead_catalog) = [True]"
  "map task_cron (tasks dead_catalog) = [''0 0 30 2 *'']" "runs dead_catalog = []"
  by (code_simp)+

theorem dead_schedule_enqueued_witness:
  "\<exists>r. r \<in> set (runs (snd (snd (Tick db_dispatch_store sample_parser 1 (NewDispatcher 0) dead_catalog)))) \<and>
    run_task r = 1 \<and> run_status r = StatusQueued"
proof -
  obtain t where t: "tasks dead_catalog = [t]" "task_id t = 1" "task_enabled t" "task_cron t = ''0 0 30 2 *''"
    using dead_catalog_facts by auto
  show ?thesis
    using dead_schedule_enqueued [OF dead_catalog_facts(1), of t sample_parser "\<lambda>_. zero_time" "\<lambda>_. False" 1
        "NewDispatcher 0"] t dead_catalog_facts(5) never_law
    by (simp add: sample_parser_def zero_time_def second_def)
qed

end
