(* ===== verification/Backoff.thy ===== *)
theory Backoff
  imports Complex_Main Prelude
begin

text \<open>
  The retry delay of internal/core/backoff.go: exponential with full jitter. The Go code doubles
  a float64 that starts at 30 s in nanoseconds and stops at 8 minutes; every value on the way is
  an integer below 2^53, so the doubling is exact and the model computes it on integers. The
  jitter is a rational in [0,1).
\<close>

definition backoffBase :: duration where "backoffBase = 30 * second"
definition backoffFactor :: int where "backoffFactor = 2"
definition backoffCap :: duration where "backoffCap = 8 * minute"

text \<open>The for loop: k rounds left, w the window so far.\<close>

fun window_loop :: "nat \<Rightarrow> duration \<Rightarrow> duration" where
  "window_loop 0 w = (if w > backoffCap then backoffCap else w)"
| "window_loop (Suc k) w =
     (if w * backoffFactor \<ge> backoffCap then backoffCap else window_loop k (w * backoffFactor))"

definition backoffWindow :: "int \<Rightarrow> duration" where
  "backoffWindow attempt =
     (let attempt = (if attempt < 0 then 0 else attempt)
      in window_loop (nat attempt) backoffBase)"

definition BackoffWithRand :: "int \<Rightarrow> rat \<Rightarrow> duration" where
  "BackoffWithRand attempt rnd = \<lfloor>rnd * of_int (backoffWindow attempt)\<rfloor>"

lemma window_loop_min: "0 \<le> w \<Longrightarrow> window_loop k w = min (w * 2 ^ k) backoffCap"
proof (induction k arbitrary: w)
  case (Suc k)
  show ?case
  proof (cases "w * backoffFactor \<ge> backoffCap")
    case True
    have "w * 2 \<le> w * 2 * 2 ^ k"
      using Suc.prems by (simp add: mult_le_cancel_left1)
    with True show ?thesis
      by (simp add: backoffFactor_def min_def mult.assoc)
  next
    case False
    then show ?thesis
      using Suc.IH [of "w * backoffFactor"] Suc.prems
      by (simp add: backoffFactor_def mult.assoc)
  qed
qed simp

lemma backoffWindow_eq:
  "backoffWindow attempt = min (backoffBase * 2 ^ nat attempt) backoffCap"
  by (simp add: backoffWindow_def Let_def window_loop_min backoffBase_def second_def)

lemma backoffWindow_pos: "0 < backoffWindow attempt"
  by (simp add: backoffWindow_eq backoffBase_def backoffCap_def)

text \<open>
  The delay before a retry lies inside the attempt's window, and the window is the base
  doubled once per attempt, capped at eight minutes.
\<close>

theorem backoff_within_window:
  assumes "0 \<le> rnd" "rnd < 1"
  shows "0 \<le> BackoffWithRand attempt rnd \<and>
    BackoffWithRand attempt rnd < min (backoffBase * 2 ^ nat attempt) backoffCap"
proof
  have "rnd * of_int (backoffWindow attempt) < 1 * of_int (backoffWindow attempt)"
    using assms backoffWindow_pos by (intro mult_strict_right_mono) simp_all
  then show "BackoffWithRand attempt rnd < min (backoffBase * 2 ^ nat attempt) backoffCap"
    by (simp add: BackoffWithRand_def floor_less_iff flip: backoffWindow_eq)
  show "0 \<le> BackoffWithRand attempt rnd"
    using assms backoffWindow_pos [of attempt] by (simp add: BackoffWithRand_def)
qed

theorem backoff_within_window_witness:
  "0 \<le> BackoffWithRand 2 (1 / 2) \<and>
   BackoffWithRand 2 (1 / 2) < min (backoffBase * 2 ^ nat 2) backoffCap"
  using backoff_within_window [of "1 / 2" 2] by simp

end
