(* ===== verification/Worker.thy ===== *)
theory Worker
  imports Quiet Backoff
begin

text \<open>
  The worker pool (internal/core/worker.go) and the events a run ends with (runevents.go): claim a
  run, execute it, report success with the alerts derived from the history, or retry and report
  the failure once the attempts are used up. The executor is a field of the pool.
\<close>

subsection \<open>The stores\<close>

record 'w history_store =
  hs_sizes :: "rowid \<Rightarrow> rowid \<Rightarrow> nat \<Rightarrow> ('w, int list) op"
  hs_durations :: "rowid \<Rightarrow> nat \<Rightarrow> ('w, duration list) op"

record 'w worker_store =
  ws_claim :: "string \<Rightarrow> ('w, run) op"
  ws_task :: "rowid \<Rightarrow> ('w, task) op"
  ws_finish :: "rowid \<Rightarrow> run_status \<Rightarrow> string \<Rightarrow> string \<Rightarrow> ('w, unit) op"
  ws_requeue :: "rowid \<Rightarrow> int \<Rightarrow> int \<Rightarrow> ('w, rowid) op"
  ws_alerts :: "'w alert_store"
  ws_history :: "'w history_store"
  ws_wd_list :: "('w, wd_record list) op"
  ws_wd_clear :: "rowid \<Rightarrow> ('w, unit) op"

record outcome =
  out_key :: string
  out_size :: int
  out_checksum :: string
  out_artifact :: rowid
  out_hint :: string

record 'w pool =
  pl_store :: "'w worker_store"
  pl_exec :: "duration option \<Rightarrow> task \<Rightarrow> rowid \<Rightarrow> ('w, outcome) op"
  pl_workers :: nat
  pl_idle :: duration
  pl_backoff :: "int \<Rightarrow> duration"
  pl_now :: "'w \<Rightarrow> time"
  pl_notify :: "'w notify_env option"
  pl_sleep :: "duration \<Rightarrow> 'w \<Rightarrow> 'w"
  pl_ctx :: "'w context_err"

text \<open>PoolConfig: zero values stand for the defaults, a missing clock or backoff is None.\<close>

record 'w pool_config =
  pc_workers :: int
  pc_idle :: duration
  pc_backoff :: "(int \<Rightarrow> duration) option"
  pc_now :: "('w \<Rightarrow> time) option"
  pc_notify :: "'w notify_env option"

definition NewPool ::
  "'w worker_store \<Rightarrow> (duration option \<Rightarrow> task \<Rightarrow> rowid \<Rightarrow> ('w, outcome) op) \<Rightarrow> 'w pool_config \<Rightarrow>
   (int \<Rightarrow> duration) \<Rightarrow> ('w \<Rightarrow> time) \<Rightarrow> (duration \<Rightarrow> 'w \<Rightarrow> 'w) \<Rightarrow> 'w context_err \<Rightarrow> 'w pool" where
  "NewPool store exec cfg Backoff time_Now timer ctx =
     \<lparr>pl_store = store, pl_exec = exec,
      pl_workers = (if pc_workers cfg \<le> 0 then 1 else nat (pc_workers cfg)),
      pl_idle = (if pc_idle cfg \<le> 0 then 500 * (second div 1000) else pc_idle cfg),
      pl_backoff = (case pc_backoff cfg of None \<Rightarrow> Backoff | Some b \<Rightarrow> b),
      pl_now = (case pc_now cfg of None \<Rightarrow> time_Now | Some n \<Rightarrow> n),
      pl_notify = pc_notify cfg, pl_sleep = timer, pl_ctx = ctx\<rparr>"

subsection \<open>What a run is judged by\<close>

definition historyRuns :: nat where "historyRuns = 5"
definition minHistory :: nat where "minHistory = 3"
definition sizeAnomalyFloor :: int where "sizeAnomalyFloor = 65536"

text \<open>The median of a non-empty list; the division truncates as Go's does.\<close>

definition median :: "int list \<Rightarrow> int" where
  "median xs =
     (let s = sort xs; n = length s in
      if n mod 2 = 1 then s ! (n div 2) else trunc_div (s ! (n div 2 - 1) + s ! (n div 2)) 2)"

text \<open>
  The ratio 0.5 in exact arithmetic: float64(size) >= float64(usual)*0.5 is 2 * size >= usual for
  sizes below 2^53.
\<close>

definition sizeAnomaly :: "'w pool \<Rightarrow> task \<Rightarrow> rowid \<Rightarrow> int \<Rightarrow> 'w \<Rightarrow> message option \<times> 'w" where
  "sizeAnomaly P t rid sz w =
     (case hs_sizes (ws_history (pl_store P)) (task_id t) rid historyRuns w of
        (Inl e, w) \<Rightarrow> (None, w)
      | (Inr sizes, w) \<Rightarrow>
          if length sizes < minHistory then (None, w)
          else let usual = median sizes in
            if 2 * sz \<ge> usual \<or> usual - sz < sizeAnomalyFloor then (None, w)
            else if sz = 0 then (Some (MsgBackupEmpty usual), w)
            else (Some (MsgBackupSmall sz usual (length sizes)), w))"

definition recovery :: "'w pool \<Rightarrow> task \<Rightarrow> 'w \<Rightarrow> message option \<times> 'w" where
  "recovery P t w =
     (let S = pl_store P in
      case as_close (ws_alerts S) alertFailure (taskSubject (task_id t)) w of
        (rc, w) \<Rightarrow>
          let failed = (case rc of Inl _ \<Rightarrow> False | Inr b \<Rightarrow> b) in
          (case ws_wd_list S w of
             (rl, w) \<Rightarrow>
               let stale = (case rl of Inl _ \<Rightarrow> False | Inr al \<Rightarrow> task_id t \<in> set (map wdr_task al));
                   w = (if stale then snd (ws_wd_clear S (task_id t) w) else w)
               in (if failed then Some MsgRecoveredAfterFailure
                   else if stale then Some MsgFreshSuccess else None, w)))"

definition succeeded :: "'w pool \<Rightarrow> task \<Rightarrow> rowid \<Rightarrow> int \<Rightarrow> 'w \<Rightarrow> 'w" where
  "succeeded P t rid sz w =
     (let w = Send (pl_notify P) t EventSuccess rid (MsgText ''backup completed'') w in
      case sizeAnomaly P t rid sz w of
        (m, w) \<Rightarrow>
          let w = (case m of None \<Rightarrow> w | Some msg \<Rightarrow> Send (pl_notify P) t EventSizeAnomaly rid msg w) in
          (case recovery P t w of
             (m, w) \<Rightarrow> (case m of None \<Rightarrow> w | Some msg \<Rightarrow> Send (pl_notify P) t EventRecovered rid msg w)))"

definition failedTerminally :: "'w pool \<Rightarrow> task \<Rightarrow> rowid \<Rightarrow> err \<Rightarrow> 'w \<Rightarrow> 'w" where
  "failedTerminally P t rid cause w =
     (let w = Send (pl_notify P) t EventFailure rid (MsgCause cause) w in
      snd (as_open (ws_alerts (pl_store P)) alertFailure (taskSubject (task_id t)) 1 (pl_now P w) w))"

subsection \<open>The pool\<close>

definition sleep :: "'w pool \<Rightarrow> duration \<Rightarrow> 'w \<Rightarrow> 'w" where
  "sleep P d w = (if d \<le> 0 then w else pl_sleep P d w)"

definition execute :: "'w pool \<Rightarrow> string \<Rightarrow> run \<Rightarrow> 'w \<Rightarrow> 'w" where
  "execute P worker r w =
     (let S = pl_store P in
      case ws_task S (run_task r) w of
        (Inl e, w) \<Rightarrow> snd (ws_finish S (run_id r) StatusFailed [] (''load task: '' @ err_text e) w)
      | (Inr t, w) \<Rightarrow>
          (case pl_exec P (if task_timeout t > 0 then Some (task_timeout t) else None) t (run_id r) w of
             (Inr out, w) \<Rightarrow> succeeded P t (run_id r) (out_size out) w
           | (Inl e, w) \<Rightarrow>
               let maxAttempts = task_retries t + 1; nextAttempt = run_attempt r + 1 in
               if nextAttempt > maxAttempts then failedTerminally P t (run_id r) e w
               else let d = pl_backoff P (run_attempt r);
                        w = (if d > 0 then sleep P d w else w)
                    in snd (ws_requeue S (task_id t) nextAttempt maxAttempts w)))"

definition ProcessNext :: "'w pool \<Rightarrow> string \<Rightarrow> ('w, bool) op" where
  "ProcessNext P worker w =
     (case ws_claim (pl_store P) worker w of
        (Inl e, w) \<Rightarrow> (if err_is ErrNoQueuedRun e then Inr False else Inl e, w)
      | (Inr r, w) \<Rightarrow> (Inr True, execute P worker r w))"

text \<open>One turn of a worker's loop; None when the loop returns.\<close>

definition loop_turn :: "'w pool \<Rightarrow> string \<Rightarrow> 'w \<Rightarrow> 'w option" where
  "loop_turn P worker w =
     (if pl_ctx P w \<noteq> None then None
      else case ProcessNext P worker w of
        (Inl e, w) \<Rightarrow> if pl_ctx P w \<noteq> None then None else Some (sleep P (pl_idle P) w)
      | (Inr did, w) \<Rightarrow> Some (if did then w else sleep P (pl_idle P) w))"

subsection \<open>Interrupted runs\<close>

fun ReportInterrupted ::
  "'w alert_store \<Rightarrow> (rowid \<Rightarrow> ('w, run) op) \<Rightarrow> (rowid \<Rightarrow> ('w, task) op) \<Rightarrow> 'w notify_env option \<Rightarrow>
   rowid list \<Rightarrow> time \<Rightarrow> 'w \<Rightarrow> 'w" where
  "ReportInterrupted A getRun getTask n [] now w = w"
| "ReportInterrupted A getRun getTask n (i # is) now w =
     (case getRun i w of
        (Inl e, w) \<Rightarrow> ReportInterrupted A getRun getTask n is now w
      | (Inr r, w) \<Rightarrow>
          (case getTask (run_task r) w of
             (Inl e, w) \<Rightarrow> ReportInterrupted A getRun getTask n is now w
           | (Inr t, w) \<Rightarrow>
               let w = snd (as_open A alertFailure (taskSubject (task_id t)) 1 now w) in
               ReportInterrupted A getRun getTask n is now
                 (Send n t EventInterrupted (run_id r) (MsgInterrupted (run_started r)) w)))"

end
