(* ===== verification/Retries.thy ===== *)
theory Retries
  imports Worker
begin

text \<open>
  The worker pool on the world: a run that keeps failing is tried once more per retry and reported
  once, and the success that follows a failure is reported as a recovery once.
\<close>

subsection \<open>The pool on the world\<close>

definition world_alerts :: "world alert_store" where
  "world_alerts = \<lparr>as_open = (\<lambda>k s l t. on_db (OpenAlert k s l t)), as_close = (\<lambda>k s. on_db (CloseAlert k s)),
     as_level = (\<lambda>k s. on_db (AlertLevel k s))\<rparr>"

definition world_history :: "world history_store" where
  "world_history = \<lparr>hs_sizes = (\<lambda>i b n. on_db (RecentArtifactSizes i b n)),
     hs_durations = (\<lambda>i n. on_db (RecentRunDurations i n))\<rparr>"

definition world_workers :: "world worker_store" where
  "world_workers = \<lparr>ws_claim = (\<lambda>wk. on_db (ClaimNext wk)), ws_task = (\<lambda>i. on_db (GetTask i)),
     ws_finish = (\<lambda>i st lg msg. on_db (Finish i st lg msg)), ws_requeue = (\<lambda>i n m. on_db (Requeue i n m)),
     ws_alerts = world_alerts, ws_history = world_history, ws_wd_list = on_db ListWatchdogAlerts,
     ws_wd_clear = (\<lambda>i. on_db (ClearWatchdogAlert i))\<rparr>"

definition wait :: "duration \<Rightarrow> world \<Rightarrow> world" where
  "wait d w = w\<lparr>wdb := (wdb w)\<lparr>clock := clock (wdb w) + d div second\<rparr>\<rparr>"

definition world_pool ::
  "(duration option \<Rightarrow> task \<Rightarrow> rowid \<Rightarrow> (world, outcome) op) \<Rightarrow> world pool_config \<Rightarrow>
   (int \<Rightarrow> duration) \<Rightarrow> world context_err \<Rightarrow> world pool" where
  "world_pool ex cfg backoff ctx = NewPool world_workers ex cfg backoff (\<lambda>w. now_time (wdb w)) wait ctx"

lemma world_pool_simps [simp]:
  "pl_store (world_pool ex cfg bo ctx) = world_workers" "pl_exec (world_pool ex cfg bo ctx) = ex"
  "pl_notify (world_pool ex cfg bo ctx) = pc_notify cfg" "pl_sleep (world_pool ex cfg bo ctx) = wait"
  by (simp_all add: world_pool_def NewPool_def)

text \<open>What an executor does to the world when it fails: it records the run as failed.\<close>

definition fails_with :: "err \<Rightarrow> (duration option \<Rightarrow> task \<Rightarrow> rowid \<Rightarrow> (world, outcome) op) \<Rightarrow> bool" where
  "fails_with e ex = (\<forall>tmo t rid w. \<exists>lg msg. ex tmo t rid w = (Inl e, snd (on_db (Finish rid StatusFailed lg msg) w)))"

subsection \<open>One attempt\<close>

text \<open>The run q of the task is the only one queued, and the task has no other active run.\<close>

definition only_queued :: "rowid \<Rightarrow> run list \<Rightarrow> run \<Rightarrow> db \<Rightarrow> bool" where
  "only_queued tid rs q d = (runs d = rs @ [q] \<and> run_status q = StatusQueued \<and> run_task q = tid \<and>
     run_id q \<notin> set (map run_id rs) \<and> (\<forall>r \<in> set rs. run_status r \<noteq> StatusQueued \<and> \<not> active_for tid r))"

definition failed_attempt :: "run \<Rightarrow> run \<Rightarrow> bool" where
  "failed_attempt q f = (run_id f = run_id q \<and> run_task f = run_task q \<and> run_attempt f = run_attempt q \<and>
     run_status f = StatusFailed)"

lemma outside_unchanged: "i \<notin> set (map run_id rs) \<Longrightarrow> map (\<lambda>r. if run_id r = i then f r else r) rs = rs"
  by (rule map_idI) auto

lemma execute_failed:
  assumes "ws_task (pl_store P) (run_task r) w = (Inr t, w1)"
    "pl_exec P (if task_timeout t > 0 then Some (task_timeout t) else None) t (run_id r) w1 = (Inl e, u)"
  shows "execute P wk r w =
    (let maxAttempts = task_retries t + 1; nextAttempt = run_attempt r + 1 in
       if nextAttempt > maxAttempts then failedTerminally P t (run_id r) e u
       else let d = pl_backoff P (run_attempt r); v = (if d > 0 then sleep P d u else u)
            in snd (ws_requeue (pl_store P) (task_id t) nextAttempt maxAttempts v))"
  unfolding execute_def Let_def assms(1) prod.case sum.case assms(2) ..

lemma claim_only_queued:
  assumes "only_queued tid rs q d" "faults d = []"
  shows "ClaimNext wk d = (Inr ((claim wk (now_time d) q)\<lparr>run_finished := None, run_error := [], run_log := []\<rparr>),
    d\<lparr>runs := rs @ [claim wk (now_time d) q]\<rparr>)"
proof -
  have "queued d = [q]" using assms(1) by (auto simp: queued_def only_queued_def filter_empty_conv)
  moreover have "map (\<lambda>r. if run_id r = run_id q then claim wk t r else r) rs = rs" for t
    by (rule outside_unchanged) (use assms(1) in \<open>simp add: only_queued_def\<close>)
  ultimately show ?thesis
    using assms by (simp add: ClaimNext_def oldest_queued_def update_runs_def only_queued_def claim_def)
qed

lemma finish_last:
  assumes "runs d = rs @ [q]" "run_id q \<notin> set (map run_id rs)" "faults d = []"
  shows "Finish (run_id q) st lg msg d = (Inr (),
    d\<lparr>runs := rs @ [q\<lparr>run_status := st, run_finished := Some (now_time d), run_log := lg, run_error := msg\<rparr>]\<rparr>)"
proof -
  have "map (\<lambda>r. if run_id r = run_id q then f r else r) rs = rs" for f
    by (rule outside_unchanged [OF assms(2)])
  then show ?thesis using assms by (simp add: Finish_def update_runs_def)
qed

lemma failed_then:
  assumes "only_queued tid rs q (wdb w)" "faults (wdb w) = []"
    "find (\<lambda>t. task_id t = tid) (tasks (wdb w)) = Some t" "fails_with e ex"
  obtains f u where "failed_attempt q f" "u = w\<lparr>wdb := (wdb w)\<lparr>runs := rs @ [f]\<rparr>\<rparr>"
    "ProcessNext (world_pool ex cfg bo ctx) wk w =
      (Inr True, let P = world_pool ex cfg bo ctx; maxAttempts = task_retries t + 1; nextAttempt = run_attempt q + 1 in
         if nextAttempt > maxAttempts then failedTerminally P t (run_id q) e u
         else let d = pl_backoff P (run_attempt q); v = (if d > 0 then sleep P d u else u)
              in snd (on_db (Requeue (task_id t) nextAttempt maxAttempts) v))"
proof -
  let ?P = "world_pool ex cfg bo ctx" and ?c = "claim wk (now_time (wdb w)) q"
  let ?r = "?c\<lparr>run_finished := None, run_error := [], run_log := []\<rparr>"
  let ?w1 = "w\<lparr>wdb := (wdb w)\<lparr>runs := rs @ [?c]\<rparr>\<rparr>"
  have c: "ws_claim world_workers wk w = (Inr ?r, ?w1)"
    using claim_only_queued [OF assms(1,2)] by (simp add: world_workers_def on_db_def)
  have tid: "run_task q = tid" "run_id q \<notin> set (map run_id rs)" using assms(1) by (simp_all add: only_queued_def)
  have t: "ws_task world_workers (run_task ?r) ?w1 = (Inr t, ?w1)"
    using assms(2,3) tid by (simp add: world_workers_def on_db_def GetTask_def query_row_def claim_def)
  obtain lg msg where x: "ex (if task_timeout t > 0 then Some (task_timeout t) else None) t (run_id ?r) ?w1 =
      (Inl e, snd (on_db (Finish (run_id ?r) StatusFailed lg msg) ?w1))"
    using assms(4) unfolding fails_with_def by blast
  let ?f = "?c\<lparr>run_status := StatusFailed, run_finished := Some (now_time (wdb w)), run_log := lg, run_error := msg\<rparr>"
  let ?u = "w\<lparr>wdb := (wdb w)\<lparr>runs := rs @ [?f]\<rparr>\<rparr>"
  have "Finish (run_id ?r) StatusFailed lg msg (wdb ?w1) = (Inr (), (wdb ?w1)\<lparr>runs := rs @ [?f]\<rparr>)"
    using finish_last [of "wdb ?w1" rs ?c StatusFailed lg msg] assms(2) tid by (simp add: claim_def now_time_def)
  then have fin: "snd (on_db (Finish (run_id ?r) StatusFailed lg msg) ?w1) = ?u"
    by (simp add: on_db_def)
  have att: "run_attempt ?r = run_attempt q" "run_id ?r = run_id q" by (simp_all add: claim_def)
  note x' = x [unfolded fin]
  have ex: "execute ?P wk ?r ?w1 =
      (let P = ?P; maxAttempts = task_retries t + 1; nextAttempt = run_attempt q + 1 in
         if nextAttempt > maxAttempts then failedTerminally P t (run_id q) e ?u
         else let d = pl_backoff P (run_attempt q); v = (if d > 0 then sleep P d ?u else ?u)
              in snd (on_db (Requeue (task_id t) nextAttempt maxAttempts) v))"
    using execute_failed [where P = ?P and r = ?r and w = ?w1, unfolded world_pool_simps, OF t x', of wk]
    unfolding att by (simp add: world_workers_def Let_def)
  have "ProcessNext ?P wk w = (Inr True,
      let P = ?P; maxAttempts = task_retries t + 1; nextAttempt = run_attempt q + 1 in
         if nextAttempt > maxAttempts then failedTerminally P t (run_id q) e ?u
         else let d = pl_backoff P (run_attempt q); v = (if d > 0 then sleep P d ?u else ?u)
              in snd (on_db (Requeue (task_id t) nextAttempt maxAttempts) v))"
    unfolding ProcessNext_def world_pool_simps c by (simp add: ex)
  then show thesis
    by (intro that [of ?f ?u]) (simp_all add: failed_attempt_def claim_def)
qed

text \<open>The same world up to the passage of time and the history of runs.\<close>

definition waited :: "world \<Rightarrow> world \<Rightarrow> bool" where
  "waited w w' = (w'\<lparr>wdb := (wdb w')\<lparr>runs := [], clock := 0\<rparr>\<rparr> = w\<lparr>wdb := (wdb w)\<lparr>runs := [], clock := 0\<rparr>\<rparr>)"

lemma waited_selectors:
  assumes "waited w w'"
  shows "faults (wdb w') = faults (wdb w)" "tasks (wdb w') = tasks (wdb w)" "outbox w' = outbox w"
    "notifications (wdb w') = notifications (wdb w)" "alert_state (wdb w') = alert_state (wdb w)"
  using assms by (cases w; cases w'; cases "wdb w"; cases "wdb w'"; simp add: waited_def)+

lemma waited_trans: "waited u v \<Longrightarrow> waited v w \<Longrightarrow> waited u w"
  by (auto simp: waited_def)

lemma retry_step:
  assumes "only_queued tid rs q (wdb w)" "faults (wdb w) = []"
    "find (\<lambda>t. task_id t = tid) (tasks (wdb w)) = Some t" "fails_with e ex" "run_attempt q \<le> task_retries t"
  obtains f q' w' where "ProcessNext (world_pool ex cfg bo ctx) wk w = (Inr True, w')" "failed_attempt q f"
    "only_queued tid (rs @ [f]) q' (wdb w')" "run_attempt q' = run_attempt q + 1" "waited w w'"
proof -
  let ?P = "world_pool ex cfg bo ctx"
  obtain f u where f: "failed_attempt q f" "u = w\<lparr>wdb := (wdb w)\<lparr>runs := rs @ [f]\<rparr>\<rparr>"
    "ProcessNext ?P wk w =
      (Inr True, let P = ?P; maxAttempts = task_retries t + 1; nextAttempt = run_attempt q + 1 in
         if nextAttempt > maxAttempts then failedTerminally P t (run_id q) e u
         else let d = pl_backoff P (run_attempt q); v = (if d > 0 then sleep P d u else u)
              in snd (on_db (Requeue (task_id t) nextAttempt maxAttempts) v))"
    by (rule failed_then [OF assms(1-4)])
  define v where "v = (let d = pl_backoff ?P (run_attempt q) in if d > 0 then sleep ?P d u else u)"
  obtain c where v: "v = u\<lparr>wdb := (wdb u)\<lparr>clock := c\<rparr>\<rparr>"
  proof (cases "pl_backoff ?P (run_attempt q) > 0")
    case True
    then show thesis by (intro that) (simp add: v_def sleep_def wait_def)
  next
    case False
    then show thesis by (intro that [of "clock (wdb u)"]) (simp add: v_def)
  qed
  have tid: "task_id t = tid" "tid \<in> set (map task_id (tasks (wdb w)))"
    using find_Some_in [OF assms(3)] by auto
  have free: "\<not> list_ex (active_for tid) (rs @ [f])"
    using assms(1) f(1) by (auto simp: only_queued_def list_ex_iff failed_attempt_def active_for_def is_active_def)
  let ?q = "new_run tid StatusQueued (run_attempt q + 1) False (wdb v)"
  have rv: "runs (wdb v) = rs @ [f]" "tasks (wdb v) = tasks (wdb w)" "faults (wdb v) = []"
    using v f(2) assms(2) by simp_all
  have "insert_run tid StatusQueued (run_attempt q + 1) False (wdb v) =
      (Inr (run_id ?q), (wdb v)\<lparr>runs := rs @ [f] @ [?q]\<rparr>)"
    using free tid rv by (simp add: insert_run_def Let_def)
  then have "Requeue tid (run_attempt q + 1) (task_retries t + 1) (wdb v) =
      (Inr (run_id ?q), (wdb v)\<lparr>runs := rs @ [f] @ [?q]\<rparr>)"
    using assms(5) rv by (simp add: Requeue_def Let_def)
  then have "snd (on_db (Requeue (task_id t) (run_attempt q + 1) (task_retries t + 1)) v) =
      v\<lparr>wdb := (wdb v)\<lparr>runs := rs @ [f] @ [?q]\<rparr>\<rparr>"
    by (simp add: on_db_def tid)
  then have p: "ProcessNext ?P wk w = (Inr True, v\<lparr>wdb := (wdb v)\<lparr>runs := rs @ [f] @ [?q]\<rparr>\<rparr>)"
    using f(3) assms(5) by (simp add: Let_def v_def)
  have "run_id ?q \<notin> set (map run_id (rs @ [f]))"
    using next_id_fresh [of "map run_id (runs (wdb v))"] rv(1) by (simp add: new_run_def)
  then have oq: "only_queued tid (rs @ [f]) ?q (wdb (v\<lparr>wdb := (wdb v)\<lparr>runs := rs @ [f] @ [?q]\<rparr>\<rparr>))"
    using assms(1) f(1) unfolding only_queued_def
    by (auto simp: new_run_def failed_attempt_def active_for_def is_active_def)
  show thesis
    by (rule that [OF p f(1) oq]) (auto simp: new_run_def waited_def v f(2))
qed

lemma last_step:
  assumes "only_queued tid rs q (wdb w)" "faults (wdb w) = []"
    "find (\<lambda>t. task_id t = tid) (tasks (wdb w)) = Some t" "fails_with e ex" "task_retries t < run_attempt q"
  obtains f u where "ProcessNext (world_pool ex cfg bo ctx) wk w =
      (Inr True, failedTerminally (world_pool ex cfg bo ctx) t (run_id q) e u)" "failed_attempt q f"
    "runs (wdb u) = rs @ [f]" "waited w u"
proof -
  obtain f u where f: "failed_attempt q f" "u = w\<lparr>wdb := (wdb w)\<lparr>runs := rs @ [f]\<rparr>\<rparr>"
    "ProcessNext (world_pool ex cfg bo ctx) wk w =
      (Inr True, let P = world_pool ex cfg bo ctx; maxAttempts = task_retries t + 1; nextAttempt = run_attempt q + 1 in
         if nextAttempt > maxAttempts then failedTerminally P t (run_id q) e u
         else let d = pl_backoff P (run_attempt q); v = (if d > 0 then sleep P d u else u)
              in snd (on_db (Requeue (task_id t) nextAttempt maxAttempts) v))"
    by (rule failed_then [OF assms(1-4)])
  show thesis
    by (rule that [of u f]) (use f assms(5) in \<open>simp_all add: Let_def waited_def\<close>)
qed

subsection \<open>All attempts\<close>

text \<open>One run per entry, each taken by the worker named.\<close>

fun process_all :: "'w pool \<Rightarrow> string list \<Rightarrow> 'w \<Rightarrow> (err + bool) list \<times> 'w" where
  "process_all P [] w = ([], w)"
| "process_all P (wk # wks) w =
     (case ProcessNext P wk w of
        (r, w) \<Rightarrow> (case process_all P wks w of (rs, w) \<Rightarrow> (r # rs, w)))"

lemma attempts_run_out:
  assumes "only_queued tid rs q (wdb w)" "faults (wdb w) = []"
    "find (\<lambda>t. task_id t = tid) (tasks (wdb w)) = Some t" "fails_with e ex"
    "run_attempt q + int (length wks) = task_retries t + 2" "wks \<noteq> []"
  shows "\<exists>fs u. process_all (world_pool ex cfg bo ctx) wks w =
      (replicate (length wks) (Inr True), failedTerminally (world_pool ex cfg bo ctx) t (run_id (last fs)) e u) \<and>
    fs \<noteq> [] \<and> runs (wdb u) = rs @ fs \<and> map run_attempt fs = [run_attempt q..task_retries t + 1] \<and>
    (\<forall>f \<in> set fs. run_task f = tid \<and> run_status f = StatusFailed) \<and> waited w u"
  using assms
proof (induction wks arbitrary: rs q w)
  case (Cons wk wks)
  let ?P = "world_pool ex cfg bo ctx"
  have tq: "run_task q = tid" using Cons.prems(1) by (simp add: only_queued_def)
  show ?case
  proof (cases "wks = []")
    case True
    with Cons.prems(5) have a: "run_attempt q = task_retries t + 1" by simp
    then have late: "task_retries t < run_attempt q" by simp
    obtain f u where p: "ProcessNext ?P wk w = (Inr True, failedTerminally ?P t (run_id q) e u)" "failed_attempt q f"
      "runs (wdb u) = rs @ [f]" "waited w u"
      using last_step [OF Cons.prems(1-4) late, of cfg bo ctx wk] by metis
    show ?thesis
      by (rule exI [of _ "[f]"], rule exI [of _ u]) (use p a True tq in \<open>simp add: failed_attempt_def\<close>)
  next
    case False
    with Cons.prems(5) have a: "run_attempt q \<le> task_retries t" by (cases wks) auto
    obtain f q' w1 where p: "ProcessNext ?P wk w = (Inr True, w1)" "failed_attempt q f"
      "only_queued tid (rs @ [f]) q' (wdb w1)" "run_attempt q' = run_attempt q + 1" "waited w w1"
      by (rule retry_step [OF Cons.prems(1-4) a, of cfg bo ctx wk])
    have same: "faults (wdb w1) = []" "tasks (wdb w1) = tasks (wdb w)"
      using waited_selectors [OF p(5)] Cons.prems(2) by simp_all
    obtain fs u where r: "process_all ?P wks w1 =
        (replicate (length wks) (Inr True), failedTerminally ?P t (run_id (last fs)) e u)" "fs \<noteq> []"
      "runs (wdb u) = (rs @ [f]) @ fs" "map run_attempt fs = [run_attempt q'..task_retries t + 1]"
      "\<forall>f \<in> set fs. run_task f = tid \<and> run_status f = StatusFailed" "waited w1 u"
      using Cons.IH [OF p(3) same(1) _ Cons.prems(4) _ False] same(2) Cons.prems(3,5) p(4) by auto
    have "[run_attempt q..task_retries t + 1] = run_attempt q # [run_attempt q'..task_retries t + 1]"
      using a p(4) by (simp add: upto_rec1)
    with p r tq show ?thesis
      by (intro exI [of _ "f # fs"] exI [of _ u]) (auto simp: failed_attempt_def intro: waited_trans)
  qed
qed simp

lemma failedTerminally_runs:
  assumes "pc_notify cfg = Some (world_notify accepts box)"
  shows "runs (wdb (failedTerminally (world_pool ex cfg bo ctx) t i e u)) = runs (wdb u)"
proof -
  let ?s = "Send (Some (world_notify accepts box)) t EventFailure i (MsgCause e) u"
  have "core (wdb ?s) = core (wdb u)" using world_quiet.Send_keeps [of u] by (simp add: quiet_def)
  then have s: "runs (wdb ?s) = runs (wdb u)" by (rule core_selectors)
  have "runs d' = runs d" if "OpenAlert k s l a d = (r, d')" for k s l a d r d'
    using that unfolding OpenAlert_def by (rule stmt_cases) (auto simp: upsert_alert_def split: if_splits)
  then show ?thesis
    using s by (auto simp: failedTerminally_def Let_def assms world_workers_def world_alerts_def on_db_def split: prod.split)
qed


definition stubborn_task :: task where "stubborn_task = vault_task\<lparr>task_retries := 1\<rparr>"

definition stubborn_world :: world where
  "stubborn_world = vault_world\<lparr>wdb := (wdb vault_world)\<lparr>tasks := [stubborn_task]\<rparr>\<rparr>"

definition always_failing :: "duration option \<Rightarrow> task \<Rightarrow> rowid \<Rightarrow> (world, outcome) op" where
  "always_failing tmo t rid w = (Inl ErrCanceled, snd (on_db (Finish rid StatusFailed [] ''boom'') w))"

definition quiet_config :: "world pool_config" where
  "quiet_config = \<lparr>pc_workers = 0, pc_idle = 0, pc_backoff = None, pc_now = None,
     pc_notify = Some (world_notify (\<lambda>_ _. None) None)\<rparr>"

definition stubborn_end :: "(err + bool) list \<times> world" where
  "stubborn_end = process_all (world_pool always_failing quiet_config (\<lambda>n. BackoffWithRand n 0) (\<lambda>_. None))
     [''w0'', ''w1''] (snd (on_db (Enqueue 1) stubborn_world))"


subsection \<open>Recovery\<close>

interpretation world_episodes: alert_contract world_alerts "\<lambda>k s w. alert_level k s (wdb w)" "\<lambda>w. alerts_ok (wdb w)"
proof unfold_locales
  fix w :: world and l k s t p w'
  assume "alerts_ok (wdb w)" "0 < l" "as_open world_alerts k s l t w = (Inr p, w')"
  then show "p = alert_level k s (wdb w) \<and> alerts_ok (wdb w') \<and>
      (\<forall>k' s'. alert_level k' s' (wdb w') = (if k' = k \<and> s' = s then l else alert_level k' s' (wdb w)))"
    using db_alerts.open_ok [of "wdb w" l k s t p] by (auto simp: world_alerts_def db_alert_store_def elim!: on_dbE)
next
  fix w :: world and l k s t e w'
  assume "alerts_ok (wdb w)" "as_open world_alerts k s l t w = (Inl e, w')"
  then show "alerts_ok (wdb w') \<and> (\<forall>k' s'. alert_level k' s' (wdb w') = alert_level k' s' (wdb w))"
    using db_alerts.open_err [of "wdb w" k s l t e] by (auto simp: world_alerts_def db_alert_store_def elim!: on_dbE)
next
  fix w :: world and k s b w'
  assume "alerts_ok (wdb w)" "as_close world_alerts k s w = (Inr b, w')"
  then show "b = (0 < alert_level k s (wdb w)) \<and> alerts_ok (wdb w') \<and>
      (\<forall>k' s'. alert_level k' s' (wdb w') = (if k' = k \<and> s' = s then 0 else alert_level k' s' (wdb w)))"
    using db_alerts.close_ok [of "wdb w" k s b] by (auto simp: world_alerts_def db_alert_store_def elim!: on_dbE)
next
  fix w :: world and k s e w'
  assume "alerts_ok (wdb w)" "as_close world_alerts k s w = (Inl e, w')"
  then show "alerts_ok (wdb w') \<and> (\<forall>k' s'. alert_level k' s' (wdb w') = alert_level k' s' (wdb w))"
    using db_alerts.close_err [of "wdb w" k s e] by (auto simp: world_alerts_def db_alert_store_def elim!: on_dbE)
next
  fix w :: world and k s r w'
  assume "alerts_ok (wdb w)" "as_level world_alerts k s w = (r, w')"
  then show "(\<forall>l. r = Inr l \<longrightarrow> l = alert_level k s (wdb w)) \<and> alerts_ok (wdb w') \<and>
      (\<forall>k' s'. alert_level k' s' (wdb w') = alert_level k' s' (wdb w))"
    using db_alerts.level_ok [of "wdb w" k s r] by (auto simp: world_alerts_def db_alert_store_def elim!: on_dbE)
next
  fix w :: world and k s
  assume "alerts_ok (wdb w)"
  then show "0 \<le> alert_level k s (wdb w)" by (rule db_alerts.level_nonneg)
qed

lemma recovery_healthy:
  assumes "faults (wdb w) = []"
  shows "recovery (world_pool ex cfg bo ctx) t w =
    (if list_ex (is_alert alertFailure (taskSubject (task_id t))) (alert_state (wdb w)) then Some MsgRecoveredAfterFailure
     else if task_id t \<in> set (map wdr_task (wd_alerts (wdb w))) then Some MsgFreshSuccess else None,
     w\<lparr>wdb := (wdb w)\<lparr>alert_state := filter (\<lambda>a. \<not> is_alert alertFailure (taskSubject (task_id t)) a) (alert_state (wdb w)),
                      wd_alerts := filter (\<lambda>x. wdr_task x \<noteq> task_id t) (wd_alerts (wdb w))\<rparr>\<rparr>)"
proof -
  let ?a = "filter (\<lambda>a. \<not> is_alert alertFailure (taskSubject (task_id t)) a) (alert_state (wdb w))"
  have keep: "filter (\<lambda>x. wdr_task x \<noteq> task_id t) (wd_alerts (wdb w)) = wd_alerts (wdb w)"
    if "task_id t \<notin> wdr_task ` set (wd_alerts (wdb w))"
    by (rule filter_True) (use that in \<open>metis imageI\<close>)
  show ?thesis
    using assms keep
    by (simp add: recovery_def Let_def world_workers_def world_alerts_def on_db_def CloseAlert_def
        ListWatchdogAlerts_def query_def ClearWatchdogAlert_def)
qed

text \<open>
  C35: With a healthy catalog a success reports a recovery exactly if the task's failure episode is
  open or its watchdog has alerted; it ends both and no other episode, and the next success reports
  none.
\<close>

theorem recovery_reported_once:
  assumes "faults (wdb w) = []" "alerts_ok (wdb w)"
    and "recovery (world_pool ex cfg bo ctx) t w = (m, w')" "recovery (world_pool ex cfg bo ctx) t w' = (m', w'')"
  shows "(m \<noteq> None \<longleftrightarrow> 0 < alert_level alertFailure (taskSubject (task_id t)) (wdb w) \<or>
       task_id t \<in> set (map wdr_task (wd_alerts (wdb w)))) \<and> m' = None \<and>
    wd_alerts (wdb w') = filter (\<lambda>x. wdr_task x \<noteq> task_id t) (wd_alerts (wdb w)) \<and>
    (\<forall>k s. alert_level k s (wdb w') =
      (if k = alertFailure \<and> s = taskSubject (task_id t) then 0 else alert_level k s (wdb w)))"
proof -
  note r = recovery_healthy [of w ex cfg bo ctx t, OF assms(1)]
  let ?a = "filter (\<lambda>a. \<not> is_alert alertFailure (taskSubject (task_id t)) a) (alert_state (wdb w))"
  have w': "wdb w' = (wdb w)\<lparr>alert_state := ?a, wd_alerts := filter (\<lambda>x. wdr_task x \<noteq> task_id t) (wd_alerts (wdb w))\<rparr>"
    using assms(3) unfolding r by auto
  have "m' = None"
    using assms(4) recovery_healthy [of w' ex cfg bo ctx t] assms(1) by (auto simp: w' list_ex_iff)
  moreover have "m \<noteq> None \<longleftrightarrow> 0 < alert_level alertFailure (taskSubject (task_id t)) (wdb w) \<or>
       task_id t \<in> set (map wdr_task (wd_alerts (wdb w)))"
    using assms(3) unfolding r alert_open_iff [OF assms(2), symmetric] by (auto split: if_splits)
  moreover have "alert_level k s (wdb w') = (if k = alertFailure \<and> s = taskSubject (task_id t) then 0 else alert_level k s (wdb w))" for k s
  proof -
    have "alert_level k s (wdb w') = alert_level k s ((wdb w)\<lparr>alert_state := ?a\<rparr>)" by (simp add: w' alert_level_def)
    then show ?thesis by (simp add: alert_level_filter)
  qed
  ultimately show ?thesis by (simp add: w')
qed

definition recovering_world :: world where
  "recovering_world = snd stubborn_end"

theorem recovery_reported_once_witness:
  "fst (recovery (world_pool always_failing quiet_config (\<lambda>_. 0) (\<lambda>_. None)) stubborn_task recovering_world) \<noteq> None"
proof -
  have f: "faults (wdb recovering_world) = []" and a: "alerts_ok (wdb recovering_world)"
    and l: "alert_level alertFailure (taskSubject (task_id stubborn_task)) (wdb recovering_world) = 1"
    by code_simp+
  from recovery_reported_once [OF f a prod.collapse [symmetric] prod.collapse [symmetric]] l show ?thesis by simp
qed

end
