(* ===== verification/Delivery.thy ===== *)
theory Delivery
  imports Quiet
begin

text \<open>
  Deliveries in a healthy world, where neither the catalog nor the network fails: the outbox grows
  by one copy of the event per channel that hears it, and everything the components read stays as
  it was. The episodes of the catalog are an instance of the alert contract on the world.
\<close>

definition healthy :: "world \<Rightarrow> bool" where
  "healthy w = (faults (wdb w) = [] \<and> net_faults w = [])"

text \<open>The channels that hear an event of a task, or one about the system.\<close>

definition task_ears ::
  "(string \<Rightarrow> raw \<Rightarrow> err option) \<Rightarrow> (secret \<Rightarrow> err + string) option \<Rightarrow> db \<Rightarrow> task \<Rightarrow> event_kind \<Rightarrow> string list" where
  "task_ears accepts box d t kind =
     map ch_type (filter (\<lambda>c. channel_error accepts box d c = None)
       (wanted kind (task_notifiers t) (sort_key ch_id (channels d))))"

definition system_ears ::
  "(string \<Rightarrow> raw \<Rightarrow> err option) \<Rightarrow> (secret \<Rightarrow> err + string) option \<Rightarrow> db \<Rightarrow> event_kind \<Rightarrow> string list" where
  "system_ears accepts box d kind =
     map ch_type (filter (\<lambda>c. channel_error accepts box d c = None)
       (filter (\<lambda>c. ch_wants c (kind_text kind)) (sort_key ch_id (channels d))))"

text \<open>What a component that only sends events may change.\<close>

definition sent :: "(string \<times> event) list \<Rightarrow> world \<Rightarrow> world \<Rightarrow> bool" where
  "sent evs w w' = (healthy w' \<and> outbox w' = outbox w @ evs \<and> wdisk w' = wdisk w \<and>
     (\<exists>ns. wdb w' = (wdb w)\<lparr>notifications := ns\<rparr>))"

lemma net_outcomes_nil [simp]: "net_outcomes n [] = replicate n False"
  by (induction n) simp_all

lemma map_filter_zip_false:
  "map (\<lambda>(c, b). f c) (filter (\<lambda>(c, b). \<not> b) (zip cs (replicate (length cs) False))) = map f cs"
  by (induction cs) simp_all

lemma deliver_sent:
  assumes "healthy w"
  shows "sent (map (\<lambda>c. (ch_type c, ev)) cs) w
    (deliver (world_notify accepts box) ev at (map (\<lambda>c. (ch_name c, net_send (ch_type c))) cs) w)"
proof -
  have f: "faults (wdb w) = []" "net_faults w = []" using assms by (simp_all add: healthy_def)
  obtain d where d: "deliver (world_notify accepts box) ev at (map (\<lambda>c. (ch_name c, net_send (ch_type c))) cs) w =
      w\<lparr>wdb := d, net_faults := drop (length cs) (net_faults w),
        outbox := outbox w @ map (\<lambda>(c, b). (ch_type c, ev)) (filter (\<lambda>(c, b). \<not> b) (zip cs (net_outcomes (length cs) (net_faults w))))\<rparr>"
    "logs ev (map (\<lambda>(c, b). (ch_name c, status_of b)) (zip cs (net_outcomes (length cs) (net_faults w)))) (wdb w) d"
    by (rule deliver_world [OF f(1)])
  from d(2) obtain ns where "d = (wdb w)\<lparr>notifications := ns\<rparr>" by (auto simp: logs_def)
  then show ?thesis unfolding d(1) f(2) sent_def healthy_def net_outcomes_nil map_filter_zip_false
    using f(1) by auto
qed

lemma build_all_sent:
  assumes "healthy w" "cs = filter (\<lambda>c. channel_error accepts box (wdb w) c = None) chs"
  obtains u where "build_all (world_notify accepts box) ev chs w = (map (\<lambda>c. (ch_name c, net_send (ch_type c))) cs, u)" "sent [] w u"
proof -
  have f: "faults (wdb w) = []" "net_faults w = []" using assms by (simp_all add: healthy_def)
  obtain d where d: "build_all (world_notify accepts box) ev chs w =
      (map (\<lambda>c. (ch_name c, net_send (ch_type c))) (filter (\<lambda>c. channel_error accepts box (wdb w) c = None) chs), w\<lparr>wdb := d\<rparr>)"
    "logs ev (map (\<lambda>c. (ch_name c, NotificationFailed)) (filter (\<lambda>c. channel_error accepts box (wdb w) c \<noteq> None) chs)) (wdb w) d"
    by (rule build_all_world [OF f(1)])
  from d(2) obtain ns where "d = (wdb w)\<lparr>notifications := ns\<rparr>" by (auto simp: logs_def)
  then show thesis by (intro that [of "w\<lparr>wdb := d\<rparr>"]) (use d(1) f assms(2) in \<open>auto simp: sent_def healthy_def\<close>)
qed

lemma sent_trans: "sent as u v \<Longrightarrow> sent bs v w \<Longrightarrow> sent (as @ bs) u w"
  by (auto simp: sent_def)

lemma sent_refl: "healthy w \<Longrightarrow> sent [] w w"
  unfolding sent_def by (intro conjI exI [of _ "notifications (wdb w)"]) simp_all

lemma SendSystem_sent:
  assumes "healthy w"
  shows "sent (map (\<lambda>c. (c, system_event kind subject (scrub_message msg))) (system_ears accepts box (wdb w) kind)) w
    (SendSystem (Some (world_notify accepts box)) kind subject msg w)"
proof -
  let ?E = "world_notify accepts box" and ?ev = "system_event kind subject (scrub_message msg)"
  let ?chs = "filter (\<lambda>c. ch_wants c (kind_text kind)) (sort_key ch_id (channels (wdb w)))"
  let ?cs = "filter (\<lambda>c. channel_error accepts box (wdb w) c = None) ?chs"
  have "ne_list ?E w = (Inr (sort_key ch_id (channels (wdb w))), w)"
    using assms by (simp add: healthy_def world_notify_def on_db_def ListNotifiers_def query_def)
  then have s: "systemChannels ?E ?ev w = build_all ?E ?ev ?chs w"
    by (simp add: systemChannels_def system_event_def)
  obtain u where u: "build_all ?E ?ev ?chs w = (map (\<lambda>c. (ch_name c, net_send (ch_type c))) ?cs, u)" "sent [] w u"
    by (rule build_all_sent [OF assms refl])
  have "healthy u" using u(2) by (simp add: sent_def)
  from sent_trans [OF u(2) deliver_sent [OF this, of ?ev ?cs accepts box "ne_now ?E w"]]
  show ?thesis using s u(1) by (simp add: SendSystem_def Let_def system_ears_def comp_def)
qed

lemma Send_sent:
  assumes "healthy w"
  shows "sent (map (\<lambda>c. (c, task_event t kind rid (scrub_message msg))) (task_ears accepts box (wdb w) t kind)) w
    (Send (Some (world_notify accepts box)) t kind rid msg w)"
proof (cases "task_notifiers t = []")
  case True
  then show ?thesis
    using sent_refl [OF assms] by (simp add: Send_def channelsFor_def task_ears_def wanted_def List.map_filter_def)
next
  case False
  let ?E = "world_notify accepts box" and ?ev = "task_event t kind rid (scrub_message msg)"
  let ?pre = "task_event t kind 0 (MsgText [])"
  let ?chs = "wanted kind (task_notifiers t) (sort_key ch_id (channels (wdb w)))"
  let ?cs = "filter (\<lambda>c. channel_error accepts box (wdb w) c = None) ?chs"
  have "ne_list ?E w = (Inr (sort_key ch_id (channels (wdb w))), w)"
    using assms by (simp add: healthy_def world_notify_def on_db_def ListNotifiers_def query_def)
  then have s: "channelsFor ?E t kind w = build_all ?E ?pre ?chs w"
    using False by (simp add: channelsFor_def)
  obtain u where u: "build_all ?E ?pre ?chs w = (map (\<lambda>c. (ch_name c, net_send (ch_type c))) ?cs, u)" "sent [] w u"
    by (rule build_all_sent [OF assms refl])
  have "healthy u" using u(2) by (simp add: sent_def)
  from sent_trans [OF u(2) deliver_sent [OF this, of ?ev ?cs accepts box "ne_now ?E u"]]
  show ?thesis using s u by (cases "?cs = []") (simp_all add: Send_def task_ears_def comp_def)
qed

text \<open>Who hears what does not depend on the delivery log.\<close>

lemma sent_ears:
  assumes "sent evs w w'" "healthy w"
  shows "system_ears accepts box (wdb w') = system_ears accepts box (wdb w)"
    "task_ears accepts box (wdb w') = task_ears accepts box (wdb w)"
proof -
  obtain ns where d: "wdb w' = (wdb w)\<lparr>notifications := ns\<rparr>" using assms(1) by (auto simp: sent_def)
  have f: "faults (wdb w) = []" using assms(2) by (simp add: healthy_def)
  show "system_ears accepts box (wdb w') = system_ears accepts box (wdb w)"
    "task_ears accepts box (wdb w') = task_ears accepts box (wdb w)"
    by (simp_all add: fun_eq_iff system_ears_def task_ears_def d f)
qed

end
