(* ===== verification/Watchdog.thy ===== *)
theory Watchdog
  imports Dispatcher Retries Delivery
begin

text \<open>
  The watchdog (internal/core/watchdog.go): how stale the last success of a task may get, derived
  from its schedule when not given, and the alert that is sent once per stale episode. Schedules
  are functions Next of the cron library, as in the dispatcher.
\<close>

subsection \<open>The threshold\<close>

definition minWatchdogThreshold :: duration where "minWatchdogThreshold = hour"
definition cronSampleWindow :: duration where "cronSampleWindow = 8 * 24 * hour"
definition cronMinSamples :: nat where "cronMinSamples = 8"
definition cronSampleLimit :: nat where "cronSampleLimit = 400"
definition cronProbeStep :: duration where "cronProbeStep = 10 * minute"

lemma cronProbeStep_pos [simp]: "0 < cronProbeStep"
  by (simp add: cronProbeStep_def)

text \<open>The loop of walkCronGaps: n activations of the budget left, seen of them used.\<close>

fun walk_gaps :: "schedule \<Rightarrow> time \<Rightarrow> nat \<Rightarrow> nat \<Rightarrow> time \<Rightarrow> duration \<Rightarrow> duration \<times> bool" where
  "walk_gaps sch deadline 0 seen prev mx = (mx, False)"
| "walk_gaps sch deadline (Suc n) seen prev mx =
     (let nxt = sch prev in
      if is_zero_time nxt then (mx, True)
      else let gap = nxt - prev; mx = (if gap > mx then gap else mx) in
        if \<not> nxt < deadline \<and> seen + 1 \<ge> cronMinSamples then (mx, True)
        else walk_gaps sch deadline n (seen + 1) nxt mx)"

definition walkCronGaps :: "schedule \<Rightarrow> time \<Rightarrow> duration \<times> bool" where
  "walkCronGaps sch from_time =
     walk_gaps sch (from_time + cronSampleWindow) cronSampleLimit 0 (sch from_time) 0"

function probe_gaps :: "schedule \<Rightarrow> time \<Rightarrow> time \<Rightarrow> duration \<Rightarrow> duration" where
  "probe_gaps sch fin tm mx =
     (if tm < fin then
        let nxt = sch tm in
        if is_zero_time nxt then mx
        else probe_gaps sch fin (tm + cronProbeStep) (if nxt - tm > mx then nxt - tm else mx)
      else mx)"
  by pat_completeness auto
termination by (relation "measure (\<lambda>(sch, fin, tm, mx). nat (fin - tm))") (auto simp: cronProbeStep_def)

declare probe_gaps.simps [simp del]

definition probeCronGaps :: "schedule \<Rightarrow> time \<Rightarrow> duration" where
  "probeCronGaps sch from_time = probe_gaps sch (from_time + cronSampleWindow) from_time 0"

definition cronMaxInterval :: "cron_parser \<Rightarrow> string \<Rightarrow> time \<Rightarrow> err + duration" where
  "cronMaxInterval parse expr from_time =
     (case ParseCron parse expr of
        Inl e \<Rightarrow> Inl e
      | Inr sch \<Rightarrow>
          if is_zero_time (sch from_time) then Inl (Errorf (''cron '' @ quoted expr @ '': no upcoming activation''))
          else (case walkCronGaps sch from_time of
            (mx, covered) \<Rightarrow>
              let mx = (if \<not> covered \<and> probeCronGaps sch from_time > mx then probeCronGaps sch from_time else mx) in
              if mx \<le> 0 then Inl (Errorf (''cron '' @ quoted expr @ '': could not derive an interval''))
              else Inr mx))"

definition WatchdogThreshold :: "cron_parser \<Rightarrow> task \<Rightarrow> duration option" where
  "WatchdogThreshold parse t =
     (if task_watchdog t < 0 then None
      else if task_watchdog t > 0 then Some (task_watchdog t)
      else case cronMaxInterval parse (task_cron t) (task_created t) of
        Inl e \<Rightarrow> None
      | Inr interval \<Rightarrow>
          Some (if 2 * interval < minWatchdogThreshold then minWatchdogThreshold else 2 * interval))"

subsection \<open>Alerts\<close>

record watchdog_alert =
  wa_task :: rowid
  wa_name :: string
  wa_threshold :: duration
  wa_last :: "time option"
  wa_since :: duration

definition humanDur :: "duration \<Rightarrow> string" where
  "humanDur d =
     (if d \<ge> 48 * hour then dec (trunc_div (trunc_div d hour) 24) @ ''d''
      else if d \<ge> hour then dec (trunc_div d hour) @ ''h''
      else if d \<ge> minute then dec (trunc_div d minute) @ ''m''
      else dec (trunc_div d second) @ ''s'')"

definition Reason :: "watchdog_alert \<Rightarrow> string" where
  "Reason a =
     (case wa_last a of
        None \<Rightarrow> ''no successful backup yet (threshold '' @ humanDur (wa_threshold a) @ '')''
      | Some _ \<Rightarrow> ''no successful backup for '' @ humanDur (wa_since a) @ '' (threshold '' @ humanDur (wa_threshold a) @ '')'')"

definition evaluateWatchdog ::
  "cron_parser \<Rightarrow> task \<Rightarrow> (rowid \<Rightarrow> time option) \<Rightarrow> time \<Rightarrow> watchdog_alert option" where
  "evaluateWatchdog parse t lastSuccess now =
     (case WatchdogThreshold parse t of
        None \<Rightarrow> None
      | Some threshold \<Rightarrow>
          let since = (case lastSuccess (task_id t) of None \<Rightarrow> task_created t | Some tm \<Rightarrow> tm);
              since = (if task_enabled_at t > since then task_enabled_at t else since);
              a = \<lparr>wa_task = task_id t, wa_name = task_name t, wa_threshold = threshold,
                   wa_last = lastSuccess (task_id t), wa_since = now - since\<rparr>
          in if wa_since a > threshold then Some a else None)"

record 'w watchdog =
  wg_enabled :: "('w, task list) op"
  wg_last :: "('w, rowid \<Rightarrow> time option) op"
  wg_list :: "('w, wd_record list) op"
  wg_mark :: "wd_record \<Rightarrow> ('w, unit) op"
  wg_clear :: "rowid \<Rightarrow> ('w, unit) op"
  wg_now :: "'w \<Rightarrow> time"
  wg_notify :: "'w notify_env option"
  wg_parse :: cron_parser

definition Alerts :: "'w watchdog \<Rightarrow> ('w, watchdog_alert list) op" where
  "Alerts W w =
     (case wg_enabled W w of
        (Inl e, w) \<Rightarrow> (Inl e, w)
      | (Inr ts, w) \<Rightarrow>
          (case wg_last W w of
             (Inl e, w) \<Rightarrow> (Inl e, w)
           | (Inr lastSuccess, w) \<Rightarrow>
               (Inr (sort_key (\<lambda>a. - wa_since a)
                  (List.map_filter (\<lambda>t. evaluateWatchdog (wg_parse W) t lastSuccess (wg_now W w)) ts)), w)))"

fun check_tasks ::
  "'w watchdog \<Rightarrow> (rowid \<Rightarrow> time option) \<Rightarrow> rowid list \<Rightarrow> time \<Rightarrow> task list \<Rightarrow> 'w \<Rightarrow> watchdog_alert list \<times> 'w" where
  "check_tasks W lastSuccess alerted now [] w = ([], w)"
| "check_tasks W lastSuccess alerted now (t # ts) w =
     (case (evaluateWatchdog (wg_parse W) t lastSuccess now, task_id t \<in> set alerted) of
        (Some a, False) \<Rightarrow>
          (case wg_mark W \<lparr>wdr_task = task_id t, wdr_alerted = now, wdr_last_success = wa_last a\<rparr> w of
             (Inl e, w) \<Rightarrow> check_tasks W lastSuccess alerted now ts w
           | (Inr _, w) \<Rightarrow>
               (case check_tasks W lastSuccess alerted now ts
                       (Send (wg_notify W) t EventWatchdog 0 (MsgText (Reason a)) w) of
                  (fired, w) \<Rightarrow> (a # fired, w)))
      | (None, True) \<Rightarrow> check_tasks W lastSuccess alerted now ts (snd (wg_clear W (task_id t) w))
      | _ \<Rightarrow> check_tasks W lastSuccess alerted now ts w)"

text \<open>Markers of tasks that are no longer watched; the map of markers is walked in any order.\<close>

definition drop_markers :: "'w watchdog \<Rightarrow> rowid list \<Rightarrow> rowid list \<Rightarrow> 'w \<Rightarrow> 'w" where
  "drop_markers W live alerted w =
     fold (\<lambda>i w. if i \<in> set live then w else snd (wg_clear W i w)) alerted w"

definition Check :: "'w watchdog \<Rightarrow> ('w, watchdog_alert list) op" where
  "Check W w =
     (case wg_enabled W w of
        (Inl e, w) \<Rightarrow> (Inl e, w)
      | (Inr ts, w) \<Rightarrow>
          (case wg_last W w of
             (Inl e, w) \<Rightarrow> (Inl e, w)
           | (Inr lastSuccess, w) \<Rightarrow>
               (case wg_list W w of
                  (Inl e, w) \<Rightarrow> (Inl e, w)
                | (Inr recs, w) \<Rightarrow>
                    let alerted = map wdr_task recs in
                    (case check_tasks W lastSuccess alerted (wg_now W w) ts w of
                       (fired, w) \<Rightarrow> (Inr fired, drop_markers W (map task_id ts) alerted w)))))"

subsection \<open>The derived interval\<close>

lemma next_activation_step:
  assumes "next_activation fires sch" "\<not> is_zero_time (sch t)"
  shows "t < sch t" "fires (sch t)" "t < u \<Longrightarrow> u < sch t \<Longrightarrow> \<not> fires u"
  using assms unfolding next_activation_def by metis+

lemma next_activation_none:
  assumes "next_activation fires sch" "is_zero_time (sch t)" "t < u"
  shows "\<not> fires u"
  using assms unfolding next_activation_def by metis

text \<open>Two activations with none between.\<close>

definition gap :: "(time \<Rightarrow> bool) \<Rightarrow> time \<Rightarrow> time \<Rightarrow> bool" where
  "gap fires a b = (fires a \<and> fires b \<and> a < b \<and> (\<forall>u. a < u \<and> u < b \<longrightarrow> \<not> fires u))"

lemma gap_next:
  assumes "next_activation fires sch" "gap fires a b"
  shows "sch a = b"
proof -
  have z: "\<not> is_zero_time (sch a)" using next_activation_none [OF assms(1), of a b] assms(2) by (auto simp: gap_def)
  note n = next_activation_step [OF assms(1) z]
  show ?thesis
  proof (rule ccontr)
    assume "sch a \<noteq> b"
    then consider "sch a < b" | "b < sch a" by linarith
    then show False using n assms(2) by cases (auto simp: gap_def)
  qed
qed

lemma walk_gaps_mono: "walk_gaps sch deadline n seen prev mx = (m, c) \<Longrightarrow> mx \<le> m"
  by (induction n arbitrary: seen prev mx) (force simp: Let_def split: if_splits)+

lemma walk_gaps_covers:
  assumes "next_activation fires sch" "fires prev" "walk_gaps sch deadline n seen prev mx = (m, True)"
    "gap fires a b" "prev \<le> a" "a < deadline"
  shows "b - a \<le> m"
  using assms(2-)
proof (induction n arbitrary: seen prev mx)
  case (Suc n)
  show ?case
  proof (cases "is_zero_time (sch prev)")
    case True
    with Suc.prems show ?thesis using next_activation_none [OF assms(1) True, of b] by (auto simp: gap_def)
  next
    case False
    note nx = next_activation_step [OF assms(1) False]
    let ?mx = "if sch prev - prev > mx then sch prev - prev else mx"
    show ?thesis
    proof (cases "a = prev")
      case True
      have b: "sch prev = b" using gap_next [OF assms(1) Suc.prems(3)] True by simp
      have "?mx \<le> m" using Suc.prems(2) False walk_gaps_mono by (auto simp: Let_def split: if_splits)
      with b True show ?thesis by (auto split: if_splits)
    next
      case diff: False
      have le: "sch prev \<le> a"
        using nx(3) [of a] Suc.prems(3,4) diff by (force simp: gap_def)
      with Suc.prems(5) have "sch prev < deadline" by simp
      then have w: "walk_gaps sch deadline n (seen + 1) (sch prev) ?mx = (m, True)"
        using Suc.prems(2) False by (simp add: Let_def)
      show ?thesis using Suc.IH [OF nx(2) w Suc.prems(3) le Suc.prems(5)] .
    qed
  qed
qed simp

lemma probe_gaps_mono: "mx \<le> probe_gaps sch fin tm mx"
proof (induction sch fin tm mx rule: probe_gaps.induct)
  case (1 sch fin tm mx)
  then show ?case
    by (subst probe_gaps.simps) (force simp: Let_def)
qed

lemma probe_gaps_covers:
  assumes "next_activation fires sch" "gap fires a b" "tm \<le> a + cronProbeStep" "a + cronProbeStep < fin"
  shows "b - a \<le> max 0 (probe_gaps sch fin tm mx) + cronProbeStep"
  using assms
proof (induction sch fin tm mx rule: probe_gaps.induct)
  case (1 sch fin tm mx)
  have g: "a < b" "fires b" "\<And>u. a < u \<Longrightarrow> u < b \<Longrightarrow> \<not> fires u" using "1.prems"(2) by (auto simp: gap_def)
  have inside: "tm < fin" using "1.prems"(3,4) by simp
  let ?mx = "if sch tm - tm > mx then sch tm - tm else mx"
  show ?case
  proof (cases "is_zero_time (sch tm)")
    case True
    have "b \<le> tm" using next_activation_none [OF "1.prems"(1) True, of b] g(2) by force
    then show ?thesis using "1.prems"(3) by linarith
  next
    case False
    note nx = next_activation_step [OF "1.prems"(1) False]
    have eq: "probe_gaps sch fin tm mx = probe_gaps sch fin (tm + cronProbeStep) ?mx"
      using inside False by (subst probe_gaps.simps) (simp add: Let_def)
    show ?thesis
    proof (cases "tm \<le> a")
      case True
      then have "tm + cronProbeStep \<le> a + cronProbeStep" by simp
      from "1.IH" [OF inside refl False "1.prems"(1,2) this "1.prems"(4)] show ?thesis unfolding eq .
    next
      case after: False
      show ?thesis
      proof (cases "tm < b")
        case False
        with "1.prems"(3) show ?thesis by linarith
      next
        case True
        have "sch tm = b"
        proof (rule ccontr)
          assume "sch tm \<noteq> b"
          then consider "sch tm < b" | "b < sch tm" by linarith
          then show False using nx(1,2) nx(3) [of b] g(2) g(3) [of "sch tm"] True after by cases auto
        qed
        then have "b - tm \<le> ?mx" by auto
        also have "\<dots> \<le> probe_gaps sch fin tm mx" unfolding eq by (rule probe_gaps_mono)
        finally show ?thesis using "1.prems"(3) by linarith
      qed
    qed
  qed
qed

text \<open>
  The interval derived from a schedule is right up to one probe step: no pause between two
  consecutive activations within the sampled eight days, one step aside, is longer than the
  interval plus ten minutes, whether the walk or the probing found it.
\<close>

theorem interval_covers_gaps:
  assumes "parse expr = Inr sch" "next_activation fires sch" "cronMaxInterval parse expr start = Inr i"
    and "gap fires a b" "start < a" "a + cronProbeStep < start + cronSampleWindow"
  shows "b - a \<le> i + cronProbeStep \<and> 0 < i"
proof -
  let ?p = "probeCronGaps sch start"
  obtain m c where w: "walkCronGaps sch start = (m, c)" by fastforce
  have z: "\<not> is_zero_time (sch start)" using assms(1,3) by (auto simp: cronMaxInterval_def ParseCron_def split: if_splits)
  have i: "i = (if \<not> c \<and> ?p > m then ?p else m)" "0 < i"
    using assms(1,3) z w by (auto simp: cronMaxInterval_def ParseCron_def Let_def split: if_splits)
  note nx = next_activation_step [OF assms(2) z]
  show ?thesis
  proof (cases c)
    case True
    have "sch start \<le> a" using nx(3) [of a] assms(4,5) by (force simp: gap_def)
    moreover have "a < start + cronSampleWindow" using assms(6) cronProbeStep_pos by linarith
    ultimately have "b - a \<le> m"
      using walk_gaps_covers [OF assms(2) nx(2) _ assms(4)] w True by (simp add: walkCronGaps_def)
    moreover have "i = m" using i(1) True by simp
    ultimately show ?thesis using i(2) cronProbeStep_pos by linarith
  next
    case False
    have "b - a \<le> max 0 ?p + cronProbeStep"
      unfolding probeCronGaps_def
      by (rule probe_gaps_covers [OF assms(2,4) _ assms(6)]) (use assms(5) cronProbeStep_pos in linarith)
    moreover have "max 0 ?p \<le> i" using i False by (auto split: if_splits)
    ultimately show ?thesis using i(2) by simp
  qed
qed

text \<open>A schedule that fires at every multiple of a period, from year 1 on.\<close>

definition on_period :: "duration \<Rightarrow> time \<Rightarrow> bool" where
  "on_period p u = (u mod p = 0 \<and> zero_time < u)"

definition every :: "duration \<Rightarrow> schedule" where
  "every p t = (if t < zero_time then zero_time + p else (t div p + 1) * p)"

lemma every_law:
  assumes "0 < p" "zero_time mod p = 0"
  shows "next_activation (on_period p) (every p)"
proof -
  obtain z where z: "zero_time = z * p" using assms(2) by (metis mod_0_imp_dvd dvdE mult.commute)
  have key: "q * p < u \<Longrightarrow> u < (q + 1) * p \<Longrightarrow> \<not> on_period p u" for q u
    using no_multiple_between [OF _ _ assms(1)] by (simp add: on_period_def)
  have "\<not> is_zero_time (every p t) \<and> t < every p t \<and> on_period p (every p t) \<and>
      (\<forall>u. t < u \<and> u < every p t \<longrightarrow> \<not> on_period p u)" for t
  proof (cases "t < zero_time")
    case True
    then have e: "every p t = (z + 1) * p" by (simp add: every_def z algebra_simps)
    have "\<not> on_period p u" if "u < every p t" for u
      using key [of z u] that e z by (auto simp: on_period_def)
    then show ?thesis using True e z assms by (auto simp: is_zero_time_def on_period_def algebra_simps)
  next
    case False
    then have e: "every p t = (t div p + 1) * p" by (simp add: every_def)
    have q: "t div p * p \<le> t" "t < (t div p + 1) * p"
      using pos_mod_bound [OF assms(1), of t] pos_mod_sign [OF assms(1), of t] div_mult_mod_eq [of t p]
      unfolding distrib_right by linarith+
    have "\<not> on_period p u" if "t < u" "u < every p t" for u
      using key [of "t div p" u] q that e by simp
    then show ?thesis using q False e by (auto simp: is_zero_time_def on_period_def)
  qed
  then show ?thesis unfolding next_activation_def by simp
qed

lemma every_gap: "0 < p \<Longrightarrow> zero_time < p \<Longrightarrow> gap (on_period p) p (2 * p)"
  using no_multiple_between [of 1 p] by (auto simp: gap_def on_period_def)

theorem interval_covers_gaps_witness:
  "cronMaxInterval (\<lambda>_. Inr (every (24 * hour))) ''0 0 * * *'' 0 = Inr (24 * hour) \<and>
   2 * (24 * hour) - 24 * hour \<le> 24 * hour + cronProbeStep"
proof -
  have i: "cronMaxInterval (\<lambda>_. Inr (every (24 * hour))) ''0 0 * * *'' 0 = Inr (24 * hour)" by code_simp
  have law: "next_activation (on_period (24 * hour)) (every (24 * hour))"
    by (rule every_law) (simp_all add: zero_time_def hour_def minute_def second_def)
  have g: "gap (on_period (24 * hour)) (24 * hour) (2 * (24 * hour))"
    by (rule every_gap) (simp_all add: zero_time_def hour_def minute_def second_def)
  have "24 * hour + cronProbeStep < 0 + cronSampleWindow"
    by (simp add: cronSampleWindow_def cronProbeStep_def hour_def minute_def second_def)
  from interval_covers_gaps [OF refl law i g _ this] i show ?thesis by simp
qed

end
