(* ===== verification/Monitor.thy ===== *)
theory Monitor
  imports Retries Delivery
begin

text \<open>
  The monitor (internal/core/monitor.go): runs that go far longer than usual, storages that stopped
  answering, volumes that fill up. Its memory, the runs reported and the misses counted, is passed
  along with the world. The thresholds are exact fractions, which the code computes in floating
  point; storages are checked one after the other, which the code does in parallel.
\<close>

subsection \<open>State and interface\<close>

record capacity =
  cap_total :: int
  cap_free :: int

text \<open>An opened storage with the optional interfaces Prober and CapacityReporter.\<close>

record 'w watched =
  wp_probe :: "('w, unit) op option"
  wp_capacity :: "('w, capacity) op option"
  wp_close :: "'w \<Rightarrow> 'w"

record 'w monitor =
  mn_alerts :: "'w alert_store"
  mn_history :: "'w history_store"
  mn_runs :: "rowid \<Rightarrow> run_status option \<Rightarrow> ('w, run list) op"
  mn_task :: "rowid \<Rightarrow> ('w, task) op"
  mn_enabled :: "('w, task list) op"
  mn_storages :: "('w, storage list) op"
  mn_last_size :: "rowid \<Rightarrow> ('w, int) op"
  mn_open :: "storage \<Rightarrow> ('w, 'w watched) op"
  mn_now :: "'w \<Rightarrow> time"
  mn_notify :: "'w notify_env option"
  mn_ctx :: "'w context_err"
  mn_run_tick :: duration
  mn_storage_tick :: duration
  mn_timeout :: duration

record memory =
  mm_slow :: "rowid list"
  mm_misses :: "rowid \<Rightarrow> nat"

definition fresh_memory :: memory where
  "fresh_memory = \<lparr>mm_slow = [], mm_misses = (\<lambda>_. 0)\<rparr>"

definition slowFactor :: int where "slowFactor = 3"
definition slowMargin :: duration where "slowMargin = 15 * minute"
definition unreachableAfter :: nat where "unreachableAfter = 2"

text \<open>NewMonitor: intervals that are not positive take their defaults.\<close>

definition NewMonitor :: "'w monitor \<Rightarrow> 'w monitor \<times> memory" where
  "NewMonitor M =
     (M\<lparr>mn_run_tick := (if mn_run_tick M \<le> 0 then minute else mn_run_tick M),
        mn_storage_tick := (if mn_storage_tick M \<le> 0 then 15 * minute else mn_storage_tick M),
        mn_timeout := (if mn_timeout M \<le> 0 then 30 * second else mn_timeout M)\<rparr>, fresh_memory)"

subsection \<open>Slow runs\<close>

definition reported :: "memory \<Rightarrow> rowid \<Rightarrow> bool" where "reported m i = (i \<in> set (mm_slow m))"
definition markReported :: "rowid \<Rightarrow> memory \<Rightarrow> memory" where "markReported i m = m\<lparr>mm_slow := i # mm_slow m\<rparr>"
definition forgetFinished :: "rowid list \<Rightarrow> memory \<Rightarrow> memory" where
  "forgetFinished live m = m\<lparr>mm_slow := filter (\<lambda>i. i \<in> set live) (mm_slow m)\<rparr>"

definition slow_limit :: "duration \<Rightarrow> duration" where
  "slow_limit usual = max (usual * slowFactor) (usual + slowMargin)"

fun check_runs :: "'w monitor \<Rightarrow> time \<Rightarrow> run list \<Rightarrow> memory \<Rightarrow> 'w \<Rightarrow> err option \<times> memory \<times> 'w" where
  "check_runs M now [] m w = (None, m, w)"
| "check_runs M now (r # rs) m w =
     (case run_started r of
        None \<Rightarrow> check_runs M now rs m w
      | Some started \<Rightarrow>
          if reported m (run_id r) then check_runs M now rs m w
          else case hs_durations (mn_history M) (run_task r) historyRuns w of
            (Inl e, w) \<Rightarrow> (Some e, m, w)
          | (Inr durs, w) \<Rightarrow>
              if length durs < minHistory then check_runs M now rs m w
              else let usual = median durs; elapsed = now - started in
                if elapsed < slow_limit usual then check_runs M now rs m w
                else case mn_task M (run_task r) w of
                  (Inl e, w) \<Rightarrow> (Some e, m, w)
                | (Inr t, w) \<Rightarrow>
                    check_runs M now rs (markReported (run_id r) m)
                      (Send (mn_notify M) t EventSlowRun (run_id r) (MsgSlow elapsed usual (length durs)) w))"

definition CheckRuns :: "'w monitor \<Rightarrow> memory \<Rightarrow> 'w \<Rightarrow> err option \<times> memory \<times> 'w" where
  "CheckRuns M m w =
     (case mn_runs M 0 (Some StatusRunning) w of
        (Inl e, w) \<Rightarrow> (Some e, m, w)
      | (Inr rs, w) \<Rightarrow>
          (case check_runs M (mn_now M w) rs m w of
             (Some e, m, w) \<Rightarrow> (Some e, m, w)
           | (None, m, w) \<Rightarrow> (None, forgetFinished (map run_id rs) m, w)))"

subsection \<open>Storages\<close>

definition lowWarn :: int where "lowWarn = 1"
definition lowCritical :: int where "lowCritical = 2"

text \<open>
  below: free space under a share of the volume, or under a number of rounds. The shares are in
  hundredths, the slack in tenths: 10% and 5%, and 20% more to leave a level.
\<close>

definition below :: "capacity \<Rightarrow> int \<Rightarrow> int \<Rightarrow> int \<Rightarrow> int \<Rightarrow> int \<Rightarrow> bool" where
  "below c rnd prev level share rounds =
     (let slack = (if prev \<ge> level then 12 else 10) in
      1000 * cap_free c < cap_total c * share * slack \<or>
      rnd > 0 \<and> 10 * cap_free c < rnd * rounds * slack)"

definition lowLevel :: "capacity \<Rightarrow> int \<Rightarrow> int \<Rightarrow> int" where
  "lowLevel c rnd prev =
     (if below c rnd prev lowCritical 5 1 then lowCritical
      else if below c rnd prev lowWarn 10 3 then lowWarn else 0)"

definition judgeCapacity :: "'w monitor \<Rightarrow> storage \<Rightarrow> capacity \<Rightarrow> int \<Rightarrow> 'w \<Rightarrow> 'w" where
  "judgeCapacity M st c rnd w =
     (let subject = storageSubject (sto_id st); kind = kind_text EventStorageLow; A = mn_alerts M in
      case as_level A kind subject w of
        (Inl e, w) \<Rightarrow> w
      | (Inr prev, w) \<Rightarrow>
          let level = lowLevel c rnd prev in
          if level = prev then w
          else if level = 0 then
            (case as_close A kind subject w of
               (Inl e, w) \<Rightarrow> w
             | (Inr _, w) \<Rightarrow>
                 SendSystem (mn_notify M) EventRecovered (sto_name st) (MsgSpaceFreed (cap_free c) (cap_total c) rnd) w)
          else
            (case as_open A kind subject level (mn_now M w) w of
               (Inl e, w) \<Rightarrow> w
             | (Inr _, w) \<Rightarrow>
                 if level < prev then w
                 else SendSystem (mn_notify M) EventStorageLow (sto_name st)
                   ((if level = lowCritical then MsgSpaceCritical else MsgSpaceLow) (cap_free c) (cap_total c) rnd) w))"

definition unreachable :: "'w monitor \<Rightarrow> storage \<Rightarrow> err \<Rightarrow> memory \<Rightarrow> 'w \<Rightarrow> memory \<times> 'w" where
  "unreachable M st cause m w =
     (let misses = mm_misses m (sto_id st) + 1; m = m\<lparr>mm_misses := (mm_misses m)(sto_id st := misses)\<rparr> in
      if misses < unreachableAfter then (m, w)
      else case as_open (mn_alerts M) (kind_text EventStorageUnreachable) (storageSubject (sto_id st)) 1 (mn_now M w) w of
        (Inl e, w) \<Rightarrow> (m, w)
      | (Inr prev, w) \<Rightarrow>
          (m, if prev = 0 then SendSystem (mn_notify M) EventStorageUnreachable (sto_name st)
                                 (MsgUnreachable (sto_name st) (sto_type st) cause) w
              else w))"

definition reachable :: "'w monitor \<Rightarrow> storage \<Rightarrow> memory \<Rightarrow> 'w \<Rightarrow> memory \<times> 'w" where
  "reachable M st m w =
     (let m = m\<lparr>mm_misses := (mm_misses m)(sto_id st := 0)\<rparr> in
      case as_close (mn_alerts M) (kind_text EventStorageUnreachable) (storageSubject (sto_id st)) w of
        (Inl e, w) \<Rightarrow> (m, w)
      | (Inr was, w) \<Rightarrow>
          (m, if was then SendSystem (mn_notify M) EventRecovered (sto_name st) (MsgReachableAgain (sto_name st)) w
              else w))"

text \<open>One more backup of every task; a task whose last size cannot be read counts nothing.\<close>

fun round_size :: "'w monitor \<Rightarrow> task list \<Rightarrow> 'w \<Rightarrow> int \<times> 'w" where
  "round_size M [] w = (0, w)"
| "round_size M (t # ts) w =
     (case mn_last_size M (task_id t) w of
        (r, w) \<Rightarrow> (case round_size M ts w of
                    (n, w) \<Rightarrow> ((case r of Inl _ \<Rightarrow> n | Inr s \<Rightarrow> s + n), w)))"

text \<open>The storage, if it could be opened, and why it counts as unreachable, if it does.\<close>

definition probe :: "'w monitor \<Rightarrow> storage \<Rightarrow> 'w \<Rightarrow> ('w watched option \<times> err option) \<times> 'w" where
  "probe M st w =
     (case mn_open M st w of
        (Inl e, w) \<Rightarrow> ((None, Some e), w)
      | (Inr s, w) \<Rightarrow>
          (case wp_probe s of
             None \<Rightarrow> ((Some s, None), w)
           | Some p \<Rightarrow> (case p w of (Inl e, w) \<Rightarrow> ((Some s, Some e), w) | (Inr _, w) \<Rightarrow> ((Some s, None), w))))"

definition measure_capacity :: "'w monitor \<Rightarrow> storage \<Rightarrow> task list \<Rightarrow> 'w watched \<Rightarrow> 'w \<Rightarrow> 'w" where
  "measure_capacity M st ts s w =
     (case wp_capacity s of
        None \<Rightarrow> w
      | Some cap \<Rightarrow>
          (case cap w of
             (Inl e, w) \<Rightarrow> w
           | (Inr c, w) \<Rightarrow>
               if cap_total c \<le> 0 then w
               else case round_size M ts w of (n, w) \<Rightarrow> judgeCapacity M st c n w))"

definition checkStorage :: "'w monitor \<Rightarrow> storage \<Rightarrow> task list \<Rightarrow> memory \<Rightarrow> 'w \<Rightarrow> memory \<times> 'w" where
  "checkStorage M st ts m w =
     (case probe M st w of
        ((opened, bad), w) \<Rightarrow>
          let close = (case opened of None \<Rightarrow> id | Some s \<Rightarrow> wp_close s) in
          if mn_ctx M w \<noteq> None then (m, close w)
          else (case bad of
            Some e \<Rightarrow> (case unreachable M st e m w of (m, w) \<Rightarrow> (m, close w))
          | None \<Rightarrow>
              (case reachable M st m w of
                 (m, w) \<Rightarrow>
                   (case opened of None \<Rightarrow> (m, w) | Some s \<Rightarrow> (m, close (measure_capacity M st ts s w))))))"

fun check_storages :: "'w monitor \<Rightarrow> task list \<Rightarrow> storage list \<Rightarrow> memory \<Rightarrow> 'w \<Rightarrow> memory \<times> 'w" where
  "check_storages M ts [] m w = (m, w)"
| "check_storages M ts (st # sts) m w =
     (let users = filter (\<lambda>t. task_storage t = sto_id st) ts in
      if users = [] then check_storages M ts sts m w
      else case checkStorage M st users m w of (m, w) \<Rightarrow> check_storages M ts sts m w)"

definition CheckStorages :: "'w monitor \<Rightarrow> memory \<Rightarrow> 'w \<Rightarrow> memory \<times> 'w" where
  "CheckStorages M m w =
     (case mn_enabled M w of
        (Inl e, w) \<Rightarrow> (m, w)
      | (Inr ts, w) \<Rightarrow>
          (case mn_storages M w of
             (Inl e, w) \<Rightarrow> (m, w)
           | (Inr sts, w) \<Rightarrow> check_storages M ts sts m w))"

text \<open>The loop of Run: what each tick of the two tickers does, after one storage check at once.\<close>

datatype monitor_tick = RunTick | StorageTick

fun ticks :: "'w monitor \<Rightarrow> monitor_tick list \<Rightarrow> memory \<Rightarrow> 'w \<Rightarrow> memory \<times> 'w" where
  "ticks M [] m w = (m, w)"
| "ticks M (k # ks) m w =
     (if mn_ctx M w \<noteq> None then (m, w)
      else case k of
        RunTick \<Rightarrow> (case CheckRuns M m w of (_, m, w) \<Rightarrow> ticks M ks m w)
      | StorageTick \<Rightarrow> (case CheckStorages M m w of (m, w) \<Rightarrow> ticks M ks m w))"

definition Run :: "'w monitor \<Rightarrow> monitor_tick list \<Rightarrow> memory \<Rightarrow> 'w \<Rightarrow> memory \<times> 'w" where
  "Run M ks m w = (case CheckStorages M m w of (m, w) \<Rightarrow> ticks M ks m w)"

end
