(* ===== verification/Episodes.thy ===== *)
theory Episodes
  imports Monitor
begin

text \<open>
  The monitor on a healthy world: when a storage counts as unreachable and when it recovers, how
  free space is graded without flapping, and which runs are reported as slow.
\<close>

subsection \<open>The monitor on the world\<close>

definition world_monitor ::
  "(storage \<Rightarrow> (world, world watched) op) \<Rightarrow> (string \<Rightarrow> raw \<Rightarrow> err option) \<Rightarrow> (secret \<Rightarrow> err + string) option \<Rightarrow>
   world context_err \<Rightarrow> world monitor" where
  "world_monitor opn accepts box ctx =
     \<lparr>mn_alerts = world_alerts, mn_history = world_history, mn_runs = (\<lambda>i st. on_db (ListRuns i st)),
      mn_task = (\<lambda>i. on_db (GetTask i)), mn_enabled = on_db ListEnabledTasks, mn_storages = on_db ListStorages,
      mn_last_size = (\<lambda>i. on_db (LastSuccessfulArtifactSize i)), mn_open = opn,
      mn_now = (\<lambda>w. now_time (wdb w)), mn_notify = Some (world_notify accepts box), mn_ctx = ctx,
      mn_run_tick = 0, mn_storage_tick = 0, mn_timeout = 0\<rparr>"

lemma world_monitor_simps [simp]:
  "mn_alerts (world_monitor opn accepts box ctx) = world_alerts"
  "mn_notify (world_monitor opn accepts box ctx) = Some (world_notify accepts box)"
  by (simp_all add: world_monitor_def)

lemma look_alert_state [simp]: "faults d = [] \<Longrightarrow> look box (d\<lparr>alert_state := as\<rparr>) r = look box d r"
  by (auto simp: look_def OpenSecret_def GetSecretByRef_def query_row_def Let_def split: option.split sum.split)

lemma channel_error_alert_state [simp]:
  "faults d = [] \<Longrightarrow> channel_error accepts box (d\<lparr>alert_state := as\<rparr>) ch = channel_error accepts box d ch"
  by (simp add: channel_error_def)

lemma system_ears_alert_state [simp]:
  "faults d = [] \<Longrightarrow> system_ears accepts box (d\<lparr>alert_state := as\<rparr>) = system_ears accepts box d"
  by (simp add: system_ears_def fun_eq_iff)

text \<open>The world after an episode call, and what else it says about a healthy world.\<close>

definition with_alerts :: "world \<Rightarrow> alert_row list \<Rightarrow> world" where
  "with_alerts w as = w\<lparr>wdb := (wdb w)\<lparr>alert_state := as\<rparr>\<rparr>"

lemma with_alerts_simps [simp]:
  "healthy (with_alerts w as) = healthy w" "outbox (with_alerts w as) = outbox w"
  "healthy w \<Longrightarrow> system_ears accepts box (wdb (with_alerts w as)) = system_ears accepts box (wdb w)"
  by (simp_all add: with_alerts_def healthy_def)

lemma healthy_open:
  assumes "healthy w"
  obtains as where "as_open world_alerts k s l t w = (Inr (alert_level k s (wdb w)), with_alerts w as)"
  using assms
  by (intro that [of "alert_state (upsert_alert k s l t (wdb w))"])
    (simp add: world_alerts_def on_db_def OpenAlert_def healthy_def with_alerts_def upsert_alert_def)

lemma healthy_close:
  assumes "healthy w" "alerts_ok (wdb w)"
  obtains as where "as_close world_alerts k s w = (Inr (0 < alert_level k s (wdb w)), with_alerts w as)"
  using assms
  by (intro that [of "filter (\<lambda>a. \<not> is_alert k s a) (alert_state (wdb w))"])
    (simp add: world_alerts_def on_db_def CloseAlert_def healthy_def with_alerts_def alert_open_iff)

lemma sent_facts:
  assumes "sent evs w w'"
  shows "healthy w'" "outbox w' = outbox w @ evs" "alert_level k s (wdb w') = alert_level k s (wdb w)"
    "alerts_ok (wdb w') = alerts_ok (wdb w)" "tasks (wdb w') = tasks (wdb w)" "runs (wdb w') = runs (wdb w)"
  using assms by (auto simp: sent_def alert_level_def alerts_ok_def)

subsection \<open>Unreachable storages\<close>

fun observe :: "'w monitor \<Rightarrow> storage \<Rightarrow> err option list \<Rightarrow> memory \<Rightarrow> 'w \<Rightarrow> memory \<times> 'w" where
  "observe M st [] m w = (m, w)"
| "observe M st (b # bs) m w =
     (case (case b of Some e \<Rightarrow> unreachable M st e m w | None \<Rightarrow> reachable M st m w) of
        (m, w) \<Rightarrow> observe M st bs m w)"

text \<open>
  What is announced after an outcome, given the one before it and the one before that: the second
  failure in a row, and the success that ends at least two.
\<close>

definition announce :: "storage \<Rightarrow> err option \<Rightarrow> err option \<Rightarrow> err option \<Rightarrow> event list" where
  "announce st b2 b1 b =
     (case (b2, b1, b) of
        (None, Some _, Some e) \<Rightarrow> [system_event EventStorageUnreachable (sto_name st) (MsgUnreachable (sto_name st) (sto_type st) e)]
      | (Some _, Some _, None) \<Rightarrow> [system_event EventRecovered (sto_name st) (MsgReachableAgain (sto_name st))]
      | _ \<Rightarrow> [])"

fun announced :: "storage \<Rightarrow> err option \<Rightarrow> err option \<Rightarrow> err option list \<Rightarrow> event list" where
  "announced st b2 b1 [] = []"
| "announced st b2 b1 (b # bs) = announce st b2 b1 b @ announced st b1 b bs"

definition copies :: "(event_kind \<Rightarrow> string list) \<Rightarrow> event list \<Rightarrow> (string \<times> event) list" where
  "copies ears evs = concat (map (\<lambda>ev. map (\<lambda>c. (c, ev)) (ears (ev_kind ev))) evs)"

lemma copies_simps [simp]:
  "copies ears [] = []" "copies ears (ev # evs) = map (\<lambda>c. (c, ev)) (ears (ev_kind ev)) @ copies ears evs"
  "copies ears (xs @ ys) = copies ears xs @ copies ears ys"
  by (simp_all add: copies_def)

definition tracks :: "storage \<Rightarrow> err option \<Rightarrow> err option \<Rightarrow> memory \<Rightarrow> world \<Rightarrow> bool" where
  "tracks st b2 b1 m w =
     (healthy w \<and> alerts_ok (wdb w) \<and>
      (0 < alert_level (kind_text EventStorageUnreachable) (storageSubject (sto_id st)) (wdb w) \<longleftrightarrow> b2 \<noteq> None \<and> b1 \<noteq> None) \<and>
      (case b1 of None \<Rightarrow> mm_misses m (sto_id st) = 0
       | Some _ \<Rightarrow> if b2 = None then mm_misses m (sto_id st) = 1 else mm_misses m (sto_id st) \<ge> 2))"

lemma scrub_structured [simp]:
  "scrub_message (MsgUnreachable a b e) = MsgUnreachable a b e" "scrub_message (MsgReachableAgain a) = MsgReachableAgain a"
  "scrub_message (MsgSpaceFreed i j k) = MsgSpaceFreed i j k" "scrub_message (MsgSpaceLow i j k) = MsgSpaceLow i j k"
  "scrub_message (MsgSpaceCritical i j k) = MsgSpaceCritical i j k" "scrub_message (MsgSlow i j n) = MsgSlow i j n"
  by (simp_all add: scrub_message_def)

lemma observe_step:
  assumes "tracks st b2 b1 m w"
    "(case b of Some e \<Rightarrow> unreachable (world_monitor opn accepts box ctx) st e m w
      | None \<Rightarrow> reachable (world_monitor opn accepts box ctx) st m w) = (m', w')"
  shows "tracks st b1 b m' w' \<and> outbox w' = outbox w @ copies (system_ears accepts box (wdb w)) (announce st b2 b1 b) \<and>
    system_ears accepts box (wdb w') = system_ears accepts box (wdb w)"
proof -
  let ?k = "kind_text EventStorageUnreachable" and ?s = "storageSubject (sto_id st)"
  have h: "healthy w" "alerts_ok (wdb w)" using assms(1) by (simp_all add: tracks_def)
  show ?thesis
  proof (cases b)
    case None
    obtain as where c: "as_close world_alerts ?k ?s w = (Inr (0 < alert_level ?k ?s (wdb w)), with_alerts w as)"
      by (rule healthy_close [OF h])
    let ?u = "with_alerts w as"
    have u: "alerts_ok (wdb ?u)" "alert_level ?k ?s (wdb ?u) = 0" "healthy ?u"
      using world_episodes.close_ok [OF h(2) c] h(1) by simp_all
    show ?thesis
    proof (cases "0 < alert_level ?k ?s (wdb w)")
      case False
      with assms c None u h show ?thesis
        by (auto simp: reachable_def Let_def tracks_def announce_def split: option.split)
    next
      case True
      let ?ev = "system_event EventRecovered (sto_name st) (MsgReachableAgain (sto_name st))"
      have "w' = SendSystem (Some (world_notify accepts box)) EventRecovered (sto_name st) (MsgReachableAgain (sto_name st)) ?u"
        "m' = m\<lparr>mm_misses := (mm_misses m)(sto_id st := 0)\<rparr>"
        using assms(2) c None True by (auto simp: reachable_def Let_def)
      with SendSystem_sent [OF u(3), of EventRecovered "sto_name st" "MsgReachableAgain (sto_name st)" accepts box]
      have s: "sent (map (\<lambda>c. (c, ?ev)) (system_ears accepts box (wdb w) EventRecovered)) ?u w'" using h by simp
      have "announce st b2 b1 b = [?ev]" using assms(1) True None by (auto simp: tracks_def announce_def)
      with s u sent_facts [OF s] sent_ears(1) [OF s u(3)] h None \<open>m' = _\<close> show ?thesis
        by (simp add: tracks_def system_event_def)
    qed
  next
    case (Some e)
    define m1 where "m1 = m\<lparr>mm_misses := (mm_misses m)(sto_id st := mm_misses m (sto_id st) + 1)\<rparr>"
    show ?thesis
    proof (cases b1)
      case None
      then have "mm_misses m (sto_id st) = 0" using assms(1) by (simp add: tracks_def)
      then have "m' = m1" "w' = w" "mm_misses m1 (sto_id st) = 1"
        using assms(2) Some by (auto simp: unreachable_def Let_def unreachableAfter_def m1_def)
      with assms(1) None Some show ?thesis by (simp add: tracks_def announce_def split: option.split)
    next
      case b1: (Some e1)
      then have m: "mm_misses m (sto_id st) \<ge> 1" using assms(1) by (auto simp: tracks_def split: if_splits)
      let ?t = "mn_now (world_monitor opn accepts box ctx) w"
      obtain as where o': "as_open world_alerts ?k ?s 1 ?t w = (Inr (alert_level ?k ?s (wdb w)), with_alerts w as)"
        by (rule healthy_open [OF h(1)])
      let ?u = "with_alerts w as"
      have u: "alerts_ok (wdb ?u)" "alert_level ?k ?s (wdb ?u) = 1" "healthy ?u"
        using world_episodes.open_ok [OF h(2) _ o'] h(1) by simp_all
      have m': "m' = m1" "w' = (if alert_level ?k ?s (wdb w) = 0 then
          SendSystem (Some (world_notify accepts box)) EventStorageUnreachable (sto_name st) (MsgUnreachable (sto_name st) (sto_type st) e) ?u
          else ?u)"
        using assms(2) Some m o' by (auto simp: unreachable_def Let_def unreachableAfter_def m1_def)
      have mm: "mm_misses m1 (sto_id st) \<ge> 2" using m by (simp add: m1_def)
      have open_iff: "alert_level ?k ?s (wdb w) = 0 \<longleftrightarrow> b2 = None"
        using assms(1) b1 world_episodes.level_nonneg [OF h(2), of ?k ?s] by (auto simp: tracks_def)
      show ?thesis
      proof (cases "b2 = None")
        case False
        with open_iff m' u h mm b1 Some show ?thesis by (auto simp: tracks_def announce_def)
      next
        case True
        let ?ev = "system_event EventStorageUnreachable (sto_name st) (MsgUnreachable (sto_name st) (sto_type st) e)"
        have s: "sent (map (\<lambda>c. (c, ?ev)) (system_ears accepts box (wdb w) EventStorageUnreachable)) ?u w'"
          using SendSystem_sent [OF u(3), of EventStorageUnreachable "sto_name st" "MsgUnreachable (sto_name st) (sto_type st) e" accepts box]
            m'(2) open_iff True h by simp
        have "announce st b2 b1 b = [?ev]" using True b1 Some by (simp add: announce_def)
        with s u sent_facts [OF s] sent_ears(1) [OF s u(3)] h mm b1 Some m'(1) show ?thesis
          by (simp add: tracks_def system_event_def)
      qed
    qed
  qed
qed

lemma observe_tracks:
  "tracks st b2 b1 m w \<Longrightarrow> observe (world_monitor opn accepts box ctx) st bs m w = (m', w') \<Longrightarrow>
   outbox w' = outbox w @ copies (system_ears accepts box (wdb w)) (announced st b2 b1 bs)"
proof (induction bs arbitrary: b2 b1 m w)
  case (Cons b bs)
  obtain m1 w1 where s: "(case b of Some e \<Rightarrow> unreachable (world_monitor opn accepts box ctx) st e m w
      | None \<Rightarrow> reachable (world_monitor opn accepts box ctx) st m w) = (m1, w1)" by fastforce
  note step = observe_step [OF Cons.prems(1) s]
  have "observe (world_monitor opn accepts box ctx) st bs m1 w1 = (m', w')" using Cons.prems(2) s by simp
  with Cons.IH [OF conjunct1 [OF step]] step show ?case by simp
qed simp

text \<open>
  C36: Over any sequence of probes of a storage the monitor announces, to every channel that hears
  it, exactly the second failure of each row of failures, once however long the row is, and the
  success that ends a row of at least two; a single failure is never mentioned.
\<close>

theorem unreachable_announced_once:
  assumes "healthy w" "alerts_ok (wdb w)" "mm_misses m (sto_id st) = 0"
    and "alert_level (kind_text EventStorageUnreachable) (storageSubject (sto_id st)) (wdb w) = 0"
    and "observe (world_monitor opn accepts box ctx) st bs m w = (m', w')"
  shows "outbox w' = outbox w @ copies (system_ears accepts box (wdb w)) (announced st None None bs)"
proof (rule observe_tracks [OF _ assms(5)])
  show "tracks st None None m w" using assms by (simp add: tracks_def)
qed

definition watch_world :: world where
  "watch_world = notify_world\<lparr>wdb := (wdb notify_world)\<lparr>channels :=
     [chan_ops\<lparr>ch_events := map kind_text [EventStorageUnreachable, EventRecovered, EventStorageLow, EventSlowRun]\<rparr>]\<rparr>, net_faults := []\<rparr>"

definition watch_monitor :: "world monitor" where
  "watch_monitor = world_monitor (\<lambda>_ w. (Inl ErrCanceled, w)) (\<lambda>_ _. None) None (\<lambda>_. None)"

theorem unreachable_announced_once_witness:
  "map (\<lambda>(c, ev). (c, ev_kind ev))
     (outbox (snd (observe watch_monitor vault_storage [Some ErrCanceled, None, Some ErrCanceled, Some ErrCanceled, Some ErrCanceled, None]
        fresh_memory watch_world))) =
   [(''webhook'', EventStorageUnreachable), (''webhook'', EventRecovered)]"
proof -
  have h: "healthy watch_world" "alerts_ok (wdb watch_world)" "mm_misses fresh_memory (sto_id vault_storage) = 0"
    "alert_level (kind_text EventStorageUnreachable) (storageSubject (sto_id vault_storage)) (wdb watch_world) = 0"
    by (simp_all add: healthy_def watch_world_def notify_world_def empty_db_def alerts_ok_def fresh_memory_def alert_level_def)
  have ears: "system_ears (\<lambda>_ _. None) None (wdb watch_world) EventStorageUnreachable = [''webhook'']"
    "system_ears (\<lambda>_ _. None) None (wdb watch_world) EventRecovered = [''webhook'']" "outbox watch_world = []"
    by code_simp+
  show ?thesis
    using unreachable_announced_once [OF h prod.collapse [symmetric], of "\<lambda>_ w. (Inl ErrCanceled, w)" "\<lambda>_ _. None" None "\<lambda>_. None"
        "[Some ErrCanceled, None, Some ErrCanceled, Some ErrCanceled, Some ErrCanceled, None]"]
    by (simp add: watch_monitor_def announce_def system_event_def ears)
qed

subsection \<open>Free space\<close>

lemma lowLevel_values: "lowLevel c n p \<in> {0, 1, 2}"
  by (simp add: lowLevel_def lowCritical_def lowWarn_def)

lemma below_slack:
  assumes "0 \<le> cap_total c" "0 \<le> share" "0 \<le> rounds" "below c n p l share rounds" "p \<ge> l \<longrightarrow> q \<ge> l"
  shows "below c n q l share rounds"
proof -
  have 1: "cap_total c * share * 10 \<le> cap_total c * share * 12" using assms(1,2) by simp
  have 2: "n * rounds * 10 \<le> n * rounds * 12" if "0 < n" using assms(3) that by simp
  show ?thesis
  proof (cases "l \<le> p")
    case True
    with assms(4,5) show ?thesis by (simp add: below_def)
  next
    case False
    with assms(4) 1 2 show ?thesis by (auto simp: below_def)
  qed
qed

text \<open>The same measurement again changes nothing: a level is left only with slack to spare.\<close>

lemma lowLevel_stable:
  assumes "0 \<le> cap_total c"
  shows "lowLevel c n (lowLevel c n p) = lowLevel c n p"
proof -
  note b = below_slack [OF assms]
  consider (crit) "below c n p 2 5 1" | (warn) "\<not> below c n p 2 5 1" "below c n p 1 10 3"
    | (fine) "\<not> below c n p 2 5 1" "\<not> below c n p 1 10 3" by blast
  then show ?thesis
  proof cases
    case crit
    then have "below c n 2 2 5 1" by (intro b [OF _ _ crit]) simp_all
    with crit show ?thesis by (simp add: lowLevel_def lowCritical_def lowWarn_def)
  next
    case warn
    have "\<not> below c n 1 2 5 1" using b [of 5 1 n 1 2 p] warn(1) by auto
    moreover have "below c n 1 1 10 3" by (intro b [OF _ _ warn(2)]) simp_all
    ultimately show ?thesis using warn by (simp add: lowLevel_def lowCritical_def lowWarn_def)
  next
    case fine
    have "\<not> below c n 0 2 5 1" using b [of 5 1 n 0 2 p] fine(1) by auto
    moreover have "\<not> below c n 0 1 10 3" using b [of 10 3 n 0 1 p] fine(2) by auto
    ultimately show ?thesis using fine by (simp add: lowLevel_def lowCritical_def lowWarn_def)
  qed
qed

definition space_events :: "storage \<Rightarrow> capacity \<Rightarrow> int \<Rightarrow> int \<Rightarrow> event list" where
  "space_events st c n prev =
     (let level = lowLevel c n prev in
      if level > prev then
        [system_event EventStorageLow (sto_name st)
           ((if level = lowCritical then MsgSpaceCritical else MsgSpaceLow) (cap_free c) (cap_total c) n)]
      else if level = 0 \<and> prev > 0 then [system_event EventRecovered (sto_name st) (MsgSpaceFreed (cap_free c) (cap_total c) n)]
      else [])"

lemma healthy_level: "healthy w \<Longrightarrow> as_level world_alerts k s w = (Inr (alert_level k s (wdb w)), w)"
  by (simp add: world_alerts_def on_db_def AlertLevel_def query_def healthy_def)

text \<open>
  A measurement of a storage is announced exactly if its level rises, or falls back to none;
  the recorded level becomes the measured one, and measuring the same again announces nothing,
  however close to a threshold it lies.
\<close>

theorem low_space_announced_once:
  assumes "healthy w" "alerts_ok (wdb w)" "0 \<le> cap_total c"
    and "prev = alert_level (kind_text EventStorageLow) (storageSubject (sto_id st)) (wdb w)"
    and "w' = judgeCapacity (world_monitor opn accepts box ctx) st c n w"
  shows "alert_level (kind_text EventStorageLow) (storageSubject (sto_id st)) (wdb w') = lowLevel c n prev \<and>
    outbox w' = outbox w @ copies (system_ears accepts box (wdb w)) (space_events st c n prev) \<and>
    judgeCapacity (world_monitor opn accepts box ctx) st c n w' = w'"
proof -
  let ?M = "world_monitor opn accepts box ctx"
  let ?k = "kind_text EventStorageLow" and ?s = "storageSubject (sto_id st)" and ?l = "lowLevel c n prev"
  have again: "judgeCapacity ?M st c n v = v" if "healthy v" "alert_level ?k ?s (wdb v) = ?l" for v
    unfolding judgeCapacity_def Let_def world_monitor_simps healthy_level [OF that(1)] prod.case sum.case
      that(2) lowLevel_stable [OF assms(3)] by simp
  have nonneg: "0 \<le> prev" using world_episodes.level_nonneg [OF assms(2)] assms(4) by simp
  have lv: "as_level world_alerts ?k ?s w = (Inr prev, w)" using healthy_level [OF assms(1)] assms(4) by simp
  consider (same) "?l = prev" | (freed) "?l \<noteq> prev" "?l = 0" | (low) "?l \<noteq> prev" "?l \<noteq> 0" by blast
  then have "healthy w' \<and> alert_level ?k ?s (wdb w') = ?l \<and>
      outbox w' = outbox w @ copies (system_ears accepts box (wdb w)) (space_events st c n prev)"
  proof cases
    case same
    then have "w' = w" using assms(5) lv by (simp add: judgeCapacity_def Let_def)
    moreover have "space_events st c n prev = []" using same nonneg by (auto simp: space_events_def Let_def)
    ultimately show ?thesis using same assms(1,4) by simp
  next
    case freed
    obtain as where cl: "as_close world_alerts ?k ?s w = (Inr (0 < alert_level ?k ?s (wdb w)), with_alerts w as)"
      by (rule healthy_close [OF assms(1,2)])
    let ?u = "with_alerts w as" and ?msg = "MsgSpaceFreed (cap_free c) (cap_total c) n"
    have u: "alert_level ?k ?s (wdb ?u) = 0" "healthy ?u"
      using world_episodes.close_ok [OF assms(2) cl] assms(1) by simp_all
    have "w' = SendSystem (Some (world_notify accepts box)) EventRecovered (sto_name st) ?msg ?u"
      unfolding assms(5) judgeCapacity_def Let_def world_monitor_simps lv using freed cl by simp
    with SendSystem_sent [OF u(2), of EventRecovered "sto_name st" ?msg accepts box] assms(1)
    have s: "sent (map (\<lambda>c. (c, system_event EventRecovered (sto_name st) ?msg)) (system_ears accepts box (wdb w) EventRecovered)) ?u w'"
      by simp
    have "space_events st c n prev = [system_event EventRecovered (sto_name st) ?msg]"
      using freed nonneg by (simp add: space_events_def Let_def)
    with sent_facts [OF s] u freed show ?thesis by (simp add: system_event_def)
  next
    case low
    have pos: "0 < ?l" using low(2) lowLevel_values [of c n prev] by auto
    let ?t = "mn_now ?M w"
    obtain as where o': "as_open world_alerts ?k ?s ?l ?t w = (Inr (alert_level ?k ?s (wdb w)), with_alerts w as)"
      by (rule healthy_open [OF assms(1)])
    let ?u = "with_alerts w as"
      and ?msg = "(if ?l = lowCritical then MsgSpaceCritical else MsgSpaceLow) (cap_free c) (cap_total c) n"
    have u: "alert_level ?k ?s (wdb ?u) = ?l" "healthy ?u"
      using world_episodes.open_ok [OF assms(2) pos o'] assms(1) by simp_all
    have w': "w' = (if ?l < prev then ?u else SendSystem (Some (world_notify accepts box)) EventStorageLow (sto_name st) ?msg ?u)"
      unfolding assms(5) judgeCapacity_def Let_def world_monitor_simps lv using low o' by simp
    show ?thesis
    proof (cases "?l < prev")
      case True
      with w' u low show ?thesis by (simp add: space_events_def Let_def)
    next
      case False
      have s: "sent (map (\<lambda>c. (c, system_event EventStorageLow (sto_name st) ?msg)) (system_ears accepts box (wdb w) EventStorageLow)) ?u w'"
        using SendSystem_sent [OF u(2), of EventStorageLow "sto_name st" ?msg accepts box] assms(1) w' False
        by (simp split: if_splits)
      have "space_events st c n prev = [system_event EventStorageLow (sto_name st) ?msg]"
        using low False by (simp add: space_events_def Let_def)
      with sent_facts [OF s] u show ?thesis by (simp add: system_event_def)
    qed
  qed
  with again show ?thesis by blast
qed

theorem low_space_announced_once_witness:
  "map (\<lambda>(c, ev). (c, ev_kind ev))
     (outbox (judgeCapacity watch_monitor vault_storage \<lparr>cap_total = 1000, cap_free = 99\<rparr> 0 watch_world)) =
   [(''webhook'', EventStorageLow)]"
proof -
  have h: "healthy watch_world" "alerts_ok (wdb watch_world)" "0 \<le> cap_total \<lparr>cap_total = 1000, cap_free = 99\<rparr>"
    "0 = alert_level (kind_text EventStorageLow) (storageSubject (sto_id vault_storage)) (wdb watch_world)"
    by (simp_all add: healthy_def watch_world_def notify_world_def empty_db_def alerts_ok_def alert_level_def)
  have ears: "system_ears (\<lambda>_ _. None) None (wdb watch_world) EventStorageLow = [''webhook'']" "outbox watch_world = []"
    by code_simp+
  show ?thesis
    using low_space_announced_once [OF h refl, of "\<lambda>_ w. (Inl ErrCanceled, w)" "\<lambda>_ _. None" None "\<lambda>_. None" 0] ears
    by (simp add: watch_monitor_def space_events_def lowLevel_def below_def lowCritical_def lowWarn_def system_event_def)
qed

subsection \<open>Slow runs\<close>

definition recent_durations :: "rowid \<Rightarrow> db \<Rightarrow> duration list" where
  "recent_durations tid d = take historyRuns (map (the \<circ> run_duration) (rev (sort_key run_id
     (filter (\<lambda>r. run_task r = tid \<and> run_status r = StatusSuccess \<and> run_duration r \<noteq> None) (runs d)))))"

text \<open>A run is overdue if it has gone past the limit of a task with enough history.\<close>

definition overdue :: "db \<Rightarrow> time \<Rightarrow> run \<Rightarrow> bool" where
  "overdue d now r = (case run_started r of None \<Rightarrow> False | Some s \<Rightarrow>
     let durs = recent_durations (run_task r) d in
     minHistory \<le> length durs \<and> slow_limit (median durs) \<le> now - s)"

definition slow_news ::
  "(string \<Rightarrow> raw \<Rightarrow> err option) \<Rightarrow> (secret \<Rightarrow> err + string) option \<Rightarrow> db \<Rightarrow> time \<Rightarrow> run \<Rightarrow> (string \<times> event) list" where
  "slow_news accepts box d now r =
     (let t = the (find (\<lambda>t. task_id t = run_task r) (tasks d)); durs = recent_durations (run_task r) d in
      map (\<lambda>c. (c, task_event t EventSlowRun (run_id r) (MsgSlow (now - the (run_started r)) (median durs) (length durs))))
        (task_ears accepts box d t EventSlowRun))"

lemma sent_history:
  assumes "sent evs w w'" "healthy w"
  shows "overdue (wdb w') = overdue (wdb w)" "slow_news accepts box (wdb w') = slow_news accepts box (wdb w)"
proof -
  have rd: "recent_durations i (wdb w') = recent_durations i (wdb w)" for i
    using sent_facts(6) [OF assms(1)] by (simp add: recent_durations_def)
  then show "overdue (wdb w') = overdue (wdb w)" "slow_news accepts box (wdb w') = slow_news accepts box (wdb w)"
    using sent_ears(2) [OF assms] sent_facts(5) [OF assms(1)]
    unfolding fun_eq_iff overdue_def slow_news_def rd by simp_all
qed

lemma markReported_slow [simp]: "mm_slow (markReported i m) = i # mm_slow m"
  by (simp add: markReported_def)

lemma check_runs_healthy:
  assumes "healthy w" "distinct (map run_id rs)" "\<forall>r \<in> set rs. \<exists>t \<in> set (tasks (wdb w)). task_id t = run_task r"
    "check_runs (world_monitor opn accepts box ctx) now rs m w = (e, m', w')"
  shows "e = None \<and> set (mm_slow m') = set (mm_slow m) \<union> {run_id r | r. r \<in> set rs \<and> overdue (wdb w) now r} \<and>
    sent (concat (map (slow_news accepts box (wdb w) now) (filter (\<lambda>r. \<not> reported m (run_id r) \<and> overdue (wdb w) now r) rs))) w w'"
  using assms
proof (induction rs arbitrary: m w)
  case Nil
  then show ?case by (simp add: sent_refl)
next
  case (Cons r rs)
  let ?M = "world_monitor opn accepts box ctx"
  have rest: "distinct (map run_id rs)" "\<forall>r \<in> set rs. \<exists>t \<in> set (tasks (wdb w)). task_id t = run_task r"
    using Cons.prems(2,3) by simp_all
  have durs: "hs_durations (mn_history ?M) (run_task r) historyRuns w = (Inr (recent_durations (run_task r) (wdb w)), w)"
    using Cons.prems(1) by (simp add: world_monitor_def world_history_def on_db_def RecentRunDurations_def query_def
        healthy_def recent_durations_def)
  show ?case
  proof (cases "\<not> reported m (run_id r) \<and> overdue (wdb w) now r")
    case False
    have skip: "check_runs ?M now (r # rs) m w = check_runs ?M now rs m w"
      using False durs by (auto simp: overdue_def Let_def not_le split: option.splits)
    have in_slow: "run_id r \<in> set (mm_slow m)" if "overdue (wdb w) now r"
      using False that by (simp add: reported_def)
    from Cons.IH [OF Cons.prems(1) rest, of m] Cons.prems(4) skip False in_slow show ?thesis by auto
  next
    case True
    then obtain s where s: "run_started r = Some s" by (auto simp: overdue_def split: option.splits)
    have lim: "minHistory \<le> length (recent_durations (run_task r) (wdb w))"
      "slow_limit (median (recent_durations (run_task r) (wdb w))) \<le> now - s"
      using True s by (simp_all add: overdue_def Let_def)
    obtain x where x: "x \<in> set (tasks (wdb w))" "task_id x = run_task r" using Cons.prems(3) by auto
    then obtain t where t: "find (\<lambda>t. task_id t = run_task r) (tasks (wdb w)) = Some t"
      by (cases "find (\<lambda>t. task_id t = run_task r) (tasks (wdb w))") (auto simp: find_None_iff)
    have gt: "mn_task ?M (run_task r) w = (Inr t, w)"
      using Cons.prems(1) t by (simp add: world_monitor_def on_db_def GetTask_def query_row_def healthy_def)
    let ?msg = "MsgSlow (now - s) (median (recent_durations (run_task r) (wdb w))) (length (recent_durations (run_task r) (wdb w)))"
    let ?u = "Send (Some (world_notify accepts box)) t EventSlowRun (run_id r) ?msg w"
    have step: "check_runs ?M now (r # rs) m w = check_runs ?M now rs (markReported (run_id r) m) ?u"
      using True s lim durs gt by (simp add: Let_def not_less)
    have u: "sent (slow_news accepts box (wdb w) now r) w ?u"
      using Send_sent [OF Cons.prems(1), of t EventSlowRun "run_id r" ?msg accepts box] t s
      by (simp add: slow_news_def Let_def)
    note uf = sent_facts [OF u] sent_history [OF u Cons.prems(1)]
    have mem: "\<forall>x \<in> set rs. reported (markReported (run_id r) m) (run_id x) = reported m (run_id x)"
      using Cons.prems(2) by (auto simp: reported_def markReported_def image_iff)
    then have same: "filter (\<lambda>x. \<not> reported (markReported (run_id r) m) (run_id x) \<and> overdue (wdb w) now x) rs =
        filter (\<lambda>x. \<not> reported m (run_id x) \<and> overdue (wdb w) now x) rs" by (intro filter_cong) auto
    from Cons.IH [OF uf(1) rest(1), of "markReported (run_id r) m"] rest(2) Cons.prems(4) step uf
    have ih: "e = None" "set (mm_slow m') = insert (run_id r) (set (mm_slow m)) \<union> {run_id r | r. r \<in> set rs \<and> overdue (wdb w) now r}"
      "sent (concat (map (slow_news accepts box (wdb w) now) (filter (\<lambda>r. \<not> reported m (run_id r) \<and> overdue (wdb w) now r) rs))) ?u w'"
      by (simp_all add: same)
    have "sent (concat (map (slow_news accepts box (wdb w) now)
        (filter (\<lambda>r. \<not> reported m (run_id r) \<and> overdue (wdb w) now r) (r # rs)))) w w'"
      using sent_trans [OF u ih(3)] True by simp
    with ih(1,2) True show ?thesis by auto
  qed
qed

text \<open>
  C37: A check of the running runs reports exactly those past the limit of their task that were not
  reported before, and afterwards remembers exactly the running runs it has reported, now or
  earlier: a run is reported once, and the memory does not grow with the history.
\<close>

theorem slow_run_reported_once:
  assumes "healthy w" "db_ok (wdb w)"
    and "CheckRuns (world_monitor opn accepts box ctx) m w = (e, m', w')"
    and "running = rev (sort_key run_id (filter (\<lambda>r. run_status r = StatusRunning) (runs (wdb w))))"
  shows "e = None \<and>
    outbox w' = outbox w @ concat (map (slow_news accepts box (wdb w) (now_time (wdb w)))
      (filter (\<lambda>r. \<not> reported m (run_id r) \<and> overdue (wdb w) (now_time (wdb w)) r) running)) \<and>
    set (mm_slow m') = {run_id r | r. r \<in> set running \<and> (reported m (run_id r) \<or> overdue (wdb w) (now_time (wdb w)) r)}"
proof -
  let ?M = "world_monitor opn accepts box ctx" and ?now = "now_time (wdb w)"
  have list: "mn_runs ?M 0 (Some StatusRunning) w = (Inr running, w)"
    using assms(1) by (simp add: world_monitor_def on_db_def ListRuns_def query_def runs_matching_def healthy_def assms(4))
  have now: "mn_now ?M w = ?now" by (simp add: world_monitor_def)
  obtain e1 m1 w1 where c: "check_runs ?M ?now running m w = (e1, m1, w1)" by (metis surj_pair)
  have ids: "distinct (map run_id (runs (wdb w)))" "set (map run_task (runs (wdb w))) \<subseteq> set (map task_id (tasks (wdb w)))"
    using assms(2) by (simp_all add: db_ok_def)
  have "distinct (map run_id running)"
    using ids(1) unfolding assms(4) by (simp add: rev_map [symmetric] distinct_map inj_on_def)
  moreover have "\<forall>r \<in> set running. \<exists>t \<in> set (tasks (wdb w)). task_id t = run_task r"
    using ids(2) by (fastforce simp: assms(4))
  ultimately have "e1 = None" "set (mm_slow m1) = set (mm_slow m) \<union> {run_id r | r. r \<in> set running \<and> overdue (wdb w) ?now r}"
    "sent (concat (map (slow_news accepts box (wdb w) ?now)
      (filter (\<lambda>r. \<not> reported m (run_id r) \<and> overdue (wdb w) ?now r) running))) w w1"
    using check_runs_healthy [OF assms(1) _ _ c] by simp_all
  note r = this
  have "e = None" "w' = w1" "m' = forgetFinished (map run_id running) m1"
    using assms(3) list c r(1) by (simp_all add: CheckRuns_def now)
  moreover from this(3) have "set (mm_slow m') =
      {run_id r | r. r \<in> set running \<and> (reported m (run_id r) \<or> overdue (wdb w) ?now r)}"
    using r(2) by (auto simp: forgetFinished_def reported_def)
  ultimately show ?thesis using sent_facts(2) [OF r(3)] by simp
qed

definition slow_run :: "rowid \<Rightarrow> run_status \<Rightarrow> time \<Rightarrow> time option \<Rightarrow> run" where
  "slow_run i st from until = \<lparr>run_id = i, run_task = 1, run_status = st, run_worker = ''w0'', run_attempt = 1,
     run_started = Some from, run_finished = until, run_error = [], run_log = [], run_created = from\<rparr>"

definition slow_world :: world where
  "slow_world = watch_world\<lparr>wdb := (wdb watch_world)\<lparr>connections := [sample_connection\<lparr>con_id := 1\<rparr>],
     storages := [vault_storage], tasks := [notify_task],
     runs := map (\<lambda>i. slow_run i StatusSuccess 0 (Some minute)) [1, 2, 3] @ [slow_run 4 StatusRunning 0 None],
     clock := 3600\<rparr>\<rparr>"

definition slow_checked :: "err option \<times> memory \<times> world" where
  "slow_checked = CheckRuns watch_monitor fresh_memory slow_world"

theorem slow_run_reported_once_witness:
  "set (mm_slow (fst (snd slow_checked))) = {4} \<and>
   map (\<lambda>(c, ev). (ev_kind ev, ev_run ev)) (outbox (snd (snd slow_checked))) = [(EventSlowRun, 4)]"
proof -
  have h: "healthy slow_world" "db_ok (wdb slow_world)"
    by (simp add: healthy_def slow_world_def watch_world_def notify_world_def empty_db_def, code_simp)
  let ?rs = "rev (sort_key run_id (filter (\<lambda>r. run_status r = StatusRunning) (runs (wdb slow_world))))"
  have rs: "?rs = [slow_run 4 StatusRunning 0 None]" by code_simp
  have late: "overdue (wdb slow_world) (now_time (wdb slow_world)) (slow_run 4 StatusRunning 0 None)" by code_simp
  have news: "map (\<lambda>(c, ev). (ev_kind ev, ev_run ev)) (slow_news (\<lambda>_ _. None) None (wdb slow_world) (now_time (wdb slow_world))
      (slow_run 4 StatusRunning 0 None)) = [(EventSlowRun, 4)]" "outbox slow_world = []"
    by code_simp+
  have c: "CheckRuns (world_monitor (\<lambda>_ w. (Inl ErrCanceled, w)) (\<lambda>_ _. None) None (\<lambda>_. None)) fresh_memory slow_world =
      (fst slow_checked, fst (snd slow_checked), snd (snd slow_checked))"
    by (simp add: slow_checked_def watch_monitor_def)
  from slow_run_reported_once [OF h c refl] show ?thesis
    unfolding rs using late news by (simp add: reported_def fresh_memory_def slow_run_def)
qed

end
