(* ===== verification/Stale.thy ===== *)
theory Stale
  imports Watchdog Episodes
begin

text \<open>
  The watchdog on a healthy world: one check brings the markers in line with the stale tasks and
  alerts about exactly the newly stale ones.
\<close>

definition world_watchdog ::
  "cron_parser \<Rightarrow> (string \<Rightarrow> raw \<Rightarrow> err option) \<Rightarrow> (secret \<Rightarrow> err + string) option \<Rightarrow> world watchdog" where
  "world_watchdog parse accepts box =
     \<lparr>wg_enabled = on_db ListEnabledTasks, wg_last = on_db LastSuccessByTask, wg_list = on_db ListWatchdogAlerts,
      wg_mark = (\<lambda>r. on_db (MarkWatchdogAlerted r)), wg_clear = (\<lambda>i. on_db (ClearWatchdogAlert i)),
      wg_now = (\<lambda>w. now_time (wdb w)), wg_notify = Some (world_notify accepts box), wg_parse = parse\<rparr>"

definition markers :: "world \<Rightarrow> rowid set" where
  "markers w = set (map wdr_task (wd_alerts (wdb w)))"

definition stale_news ::
  "(string \<Rightarrow> raw \<Rightarrow> err option) \<Rightarrow> (secret \<Rightarrow> err + string) option \<Rightarrow> db \<Rightarrow> task \<Rightarrow> watchdog_alert \<Rightarrow> (string \<times> event) list" where
  "stale_news accepts box d t a =
     map (\<lambda>c. (c, task_event t EventWatchdog 0 (scrub_message (MsgText (Reason a))))) (task_ears accepts box d t EventWatchdog)"

text \<open>What a check leaves alone.\<close>

definition unmarked :: "db \<Rightarrow> db" where
  "unmarked d = d\<lparr>notifications := [], wd_alerts := []\<rparr>"

definition only_marks :: "world \<Rightarrow> world \<Rightarrow> bool" where
  "only_marks w w' = (healthy w' \<and> unmarked (wdb w') = unmarked (wdb w))"

lemma unmarked_updates [simp]:
  "unmarked (d\<lparr>notifications := ns\<rparr>) = unmarked d" "unmarked (d\<lparr>wd_alerts := ms\<rparr>) = unmarked d"
  by (simp_all add: unmarked_def)

lemma only_marks_refl: "healthy w \<Longrightarrow> only_marks w w"
  by (simp add: only_marks_def)

lemma only_marks_trans: "only_marks u v \<Longrightarrow> only_marks v w \<Longrightarrow> only_marks u w"
  by (simp add: only_marks_def)

lemma sent_only_marks: "sent evs w w' \<Longrightarrow> only_marks w w'"
  by (auto simp: sent_def only_marks_def)

lemma look_wd [simp]: "faults d = [] \<Longrightarrow> look box (d\<lparr>wd_alerts := ms\<rparr>) r = look box d r"
  by (auto simp: look_def OpenSecret_def GetSecretByRef_def query_row_def Let_def split: option.split sum.split)

lemma channel_error_wd [simp]:
  "faults d = [] \<Longrightarrow> channel_error accepts box (d\<lparr>wd_alerts := ms\<rparr>) ch = channel_error accepts box d ch"
  by (simp add: channel_error_def)

lemma task_ears_unmarked: "faults d = [] \<Longrightarrow> task_ears accepts box (unmarked d) = task_ears accepts box d"
  by (simp add: fun_eq_iff task_ears_def unmarked_def)

lemma only_marks_facts:
  assumes "only_marks w w'" "healthy w"
  shows "healthy w'" "tasks (wdb w') = tasks (wdb w)" "task_ears accepts box (wdb w') = task_ears accepts box (wdb w)"
    "stale_news accepts box (wdb w') = stale_news accepts box (wdb w)"
proof -
  show h: "healthy w'" using assms(1) by (simp add: only_marks_def)
  have u: "unmarked (wdb w') = unmarked (wdb w)" using assms(1) by (simp add: only_marks_def)
  show "tasks (wdb w') = tasks (wdb w)"
    using u by (cases "wdb w"; cases "wdb w'"; simp add: unmarked_def)
  show e: "task_ears accepts box (wdb w') = task_ears accepts box (wdb w)"
    using u h assms(2) task_ears_unmarked [of "wdb w"] task_ears_unmarked [of "wdb w'"] by (simp add: healthy_def)
  show "stale_news accepts box (wdb w') = stale_news accepts box (wdb w)"
    by (simp add: fun_eq_iff stale_news_def e)
qed

lemma marked_ids:
  "(\<lambda>x. wdr_task (if wdr_task x = wdr_task r then stored_wd r else x)) ` A = wdr_task ` A"
  by (rule image_cong) (simp_all add: stored_wd_def)

lemma mark_healthy:
  assumes "healthy w" "wdr_task r \<in> set (map task_id (tasks (wdb w)))"
  obtains v where "on_db (MarkWatchdogAlerted r) w = (Inr (), v)" "only_marks w v" "outbox v = outbox w"
    "markers v = insert (wdr_task r) (markers w)"
proof (cases "wdr_task r \<in> markers w")
  case True
  let ?v = "w\<lparr>wdb := (wdb w)\<lparr>wd_alerts := map (\<lambda>x. if wdr_task x = wdr_task r then stored_wd r else x) (wd_alerts (wdb w))\<rparr>\<rparr>"
  have "on_db (MarkWatchdogAlerted r) w = (Inr (), ?v)"
    using assms True by (simp add: on_db_def MarkWatchdogAlerted_def Let_def healthy_def markers_def)
  moreover have "markers ?v = markers w" by (simp add: markers_def image_image marked_ids)
  ultimately show thesis using assms(1) True
    by (intro that [of ?v]) (auto simp: only_marks_def healthy_def)
next
  case False
  let ?v = "w\<lparr>wdb := (wdb w)\<lparr>wd_alerts := wd_alerts (wdb w) @ [stored_wd r]\<rparr>\<rparr>"
  have "on_db (MarkWatchdogAlerted r) w = (Inr (), ?v)"
    using assms False by (simp add: on_db_def MarkWatchdogAlerted_def Let_def healthy_def markers_def)
  moreover have "markers ?v = insert (wdr_task r) (markers w)"
    by (simp add: markers_def stored_wd_def)
  ultimately show thesis using assms(1)
    by (intro that [of ?v]) (auto simp: only_marks_def healthy_def)
qed

lemma clear_healthy:
  assumes "healthy w"
  obtains v where "on_db (ClearWatchdogAlert i) w = (Inr (), v)" "only_marks w v" "outbox v = outbox w"
    "markers v = markers w - {i}"
proof -
  let ?v = "w\<lparr>wdb := (wdb w)\<lparr>wd_alerts := filter (\<lambda>x. wdr_task x \<noteq> i) (wd_alerts (wdb w))\<rparr>\<rparr>"
  have "on_db (ClearWatchdogAlert i) w = (Inr (), ?v)"
    using assms by (simp add: on_db_def ClearWatchdogAlert_def healthy_def)
  moreover have "markers ?v = markers w - {i}" by (auto simp: markers_def)
  ultimately show thesis using assms
    by (intro that [of ?v]) (auto simp: only_marks_def healthy_def)
qed

definition newly_stale :: "cron_parser \<Rightarrow> (rowid \<Rightarrow> time option) \<Rightarrow> time \<Rightarrow> rowid list \<Rightarrow> task \<Rightarrow> watchdog_alert option" where
  "newly_stale parse ls now alerted t = (if task_id t \<in> set alerted then None else evaluateWatchdog parse t ls now)"

definition task_news ::
  "(string \<Rightarrow> raw \<Rightarrow> err option) \<Rightarrow> (secret \<Rightarrow> err + string) option \<Rightarrow> cron_parser \<Rightarrow> (rowid \<Rightarrow> time option) \<Rightarrow> time \<Rightarrow>
   rowid list \<Rightarrow> db \<Rightarrow> task \<Rightarrow> (string \<times> event) list" where
  "task_news accepts box parse ls now alerted d t =
     (case newly_stale parse ls now alerted t of None \<Rightarrow> [] | Some a \<Rightarrow> stale_news accepts box d t a)"

lemma task_news_kept:
  assumes "only_marks w w'" "healthy w"
  shows "task_news accepts box parse ls now alerted (wdb w') = task_news accepts box parse ls now alerted (wdb w)"
  unfolding task_news_def only_marks_facts(4) [OF assms] ..

lemma check_tasks_healthy:
  assumes "healthy w" "set (map task_id ts) \<subseteq> set (map task_id (tasks (wdb w)))"
    "check_tasks (world_watchdog parse accepts box) ls alerted now ts w = (fired, w')"
  shows "fired = List.map_filter (newly_stale parse ls now alerted) ts \<and> only_marks w w' \<and>
    outbox w' = outbox w @ concat (map (task_news accepts box parse ls now alerted (wdb w)) ts) \<and>
    (distinct (map task_id ts) \<longrightarrow> markers w' =
      (markers w - {task_id t | t. t \<in> set ts \<and> task_id t \<in> set alerted \<and> evaluateWatchdog parse t ls now = None}) \<union>
      {task_id t | t. t \<in> set ts \<and> newly_stale parse ls now alerted t \<noteq> None})"
  using assms
proof (induction ts arbitrary: w w' fired)
  case Nil
  then show ?case by (simp add: only_marks_refl List.map_filter_def)
next
  case (Cons t ts)
  let ?W = "world_watchdog parse accepts box"
  have W: "wg_parse ?W = parse" "wg_mark ?W = (\<lambda>r. on_db (MarkWatchdogAlerted r))" "wg_notify ?W = Some (world_notify accepts box)"
    "wg_clear ?W = (\<lambda>i. on_db (ClearWatchdogAlert i))"
    by (simp_all add: world_watchdog_def)
  have sub: "set (map task_id ts) \<subseteq> set (map task_id (tasks (wdb w)))" "task_id t \<in> set (map task_id (tasks (wdb w)))"
    using Cons.prems(2) by auto
  consider (fire) a where "evaluateWatchdog parse t ls now = Some a" "task_id t \<notin> set alerted"
    | (over) "evaluateWatchdog parse t ls now = None" "task_id t \<in> set alerted"
    | (keep) "evaluateWatchdog parse t ls now = None \<longleftrightarrow> task_id t \<notin> set alerted"
    by (cases "evaluateWatchdog parse t ls now"; cases "task_id t \<in> set alerted") auto
  then show ?case
  proof cases
    case fire
    let ?r = "\<lparr>wdr_task = task_id t, wdr_alerted = now, wdr_last_success = wa_last a\<rparr>"
    obtain v where v: "on_db (MarkWatchdogAlerted ?r) w = (Inr (), v)" "only_marks w v" "outbox v = outbox w"
      "markers v = insert (task_id t) (markers w)"
      using mark_healthy [OF Cons.prems(1), of ?r] sub(2) by auto
    note vf = only_marks_facts [OF v(2) Cons.prems(1)]
    let ?u = "Send (Some (world_notify accepts box)) t EventWatchdog 0 (MsgText (Reason a)) v"
    have s: "sent (stale_news accepts box (wdb w) t a) v ?u"
      using Send_sent [OF vf(1), of t EventWatchdog 0 "MsgText (Reason a)" accepts box] vf(3)
      by (simp add: stale_news_def)
    have ou: "only_marks w ?u"
      by (rule only_marks_trans [OF v(2) sent_only_marks [OF s]])
    note uf = only_marks_facts [OF ou Cons.prems(1)]
    obtain fs w1 where r: "check_tasks ?W ls alerted now ts ?u = (fs, w1)" by fastforce
    have w': "fired = a # fs" "w' = w1" using Cons.prems(3) fire v(1) r by (simp_all add: W)
    have ns: "newly_stale parse ls now alerted t = Some a" using fire by (simp add: newly_stale_def)
    have mu: "markers ?u = markers v" using s by (auto simp: sent_def markers_def)
    from Cons.IH [OF uf(1) _ r] sub(1) uf(2) task_news_kept [OF ou Cons.prems(1), of accepts box parse ls now alerted]
    have ih: "fs = List.map_filter (newly_stale parse ls now alerted) ts" "only_marks ?u w1"
      "outbox w1 = outbox ?u @ concat (map (task_news accepts box parse ls now alerted (wdb w)) ts)"
      "distinct (map task_id ts) \<longrightarrow> markers w1 =
      (markers ?u - {task_id t | t. t \<in> set ts \<and> task_id t \<in> set alerted \<and> evaluateWatchdog parse t ls now = None}) \<union>
      {task_id t | t. t \<in> set ts \<and> newly_stale parse ls now alerted t \<noteq> None}"
      by simp_all
    have "outbox ?u = outbox w @ stale_news accepts box (wdb w) t a" using s v(3) by (simp add: sent_def)
    then have c3: "outbox w' = outbox w @ concat (map (task_news accepts box parse ls now alerted (wdb w)) (t # ts))"
      using ih(3) ns w'(2) by (simp add: task_news_def)
    have c1: "fired = List.map_filter (newly_stale parse ls now alerted) (t # ts)"
      using ih(1) ns w'(1) by (simp add: List.map_filter_def)
    have c2: "only_marks w w'" using only_marks_trans [OF ou ih(2)] w'(2) by simp
    have c4: "distinct (map task_id (t # ts)) \<longrightarrow> markers w' =
      (markers w - {task_id x | x. x \<in> set (t # ts) \<and> task_id x \<in> set alerted \<and> evaluateWatchdog parse x ls now = None}) \<union>
      {task_id x | x. x \<in> set (t # ts) \<and> newly_stale parse ls now alerted x \<noteq> None}"
      using ih(4) ns fire(2) unfolding w' mu v(4) by fastforce
    show ?thesis by (intro conjI c1 c2 c3 c4)
  next
    case over
    obtain v where v: "on_db (ClearWatchdogAlert (task_id t)) w = (Inr (), v)" "only_marks w v" "outbox v = outbox w"
      "markers v = markers w - {task_id t}"
      by (rule clear_healthy [OF Cons.prems(1)])
    note vf = only_marks_facts [OF v(2) Cons.prems(1)]
    have r: "check_tasks ?W ls alerted now ts v = (fired, w')" using Cons.prems(3) over v(1) by (simp add: W)
    have ns: "newly_stale parse ls now alerted t = None" using over by (simp add: newly_stale_def)
    from Cons.IH [OF vf(1) _ r] sub(1) vf(2) v(3) task_news_kept [OF v(2) Cons.prems(1), of accepts box parse ls now alerted]
    have ih: "fired = List.map_filter (newly_stale parse ls now alerted) ts" "only_marks v w'"
      "outbox w' = outbox w @ concat (map (task_news accepts box parse ls now alerted (wdb w)) ts)"
      "distinct (map task_id ts) \<longrightarrow> markers w' =
      (markers v - {task_id t | t. t \<in> set ts \<and> task_id t \<in> set alerted \<and> evaluateWatchdog parse t ls now = None}) \<union>
      {task_id t | t. t \<in> set ts \<and> newly_stale parse ls now alerted t \<noteq> None}"
      by simp_all
    have c4: "distinct (map task_id (t # ts)) \<longrightarrow> markers w' =
      (markers w - {task_id x | x. x \<in> set (t # ts) \<and> task_id x \<in> set alerted \<and> evaluateWatchdog parse x ls now = None}) \<union>
      {task_id x | x. x \<in> set (t # ts) \<and> newly_stale parse ls now alerted x \<noteq> None}"
      using ih(4) ns over unfolding v(4) by fastforce
    have c1: "fired = List.map_filter (newly_stale parse ls now alerted) (t # ts)"
      using ih(1) ns by (simp add: List.map_filter_def)
    have c3: "outbox w' = outbox w @ concat (map (task_news accepts box parse ls now alerted (wdb w)) (t # ts))"
      using ih(3) ns by (simp add: task_news_def)
    show ?thesis by (intro conjI c1 c3 c4 only_marks_trans [OF v(2) ih(2)])
  next
    case keep
    have r: "check_tasks ?W ls alerted now ts w = (fired, w')"
      using Cons.prems(3) keep by (cases "evaluateWatchdog parse t ls now") (auto simp: W)
    have ns: "newly_stale parse ls now alerted t = None" using keep by (auto simp: newly_stale_def)
    have none: "task_news accepts box parse ls now alerted (wdb w) t = []" by (simp add: task_news_def ns)
    from Cons.IH [OF Cons.prems(1) sub(1) r] ns keep none show ?thesis
      by (simp add: List.map_filter_def) fastforce
  qed
qed

lemma drop_markers_healthy:
  assumes "healthy w"
  shows "only_marks w (drop_markers (world_watchdog parse accepts box) live alerted w) \<and>
    outbox (drop_markers (world_watchdog parse accepts box) live alerted w) = outbox w \<and>
    markers (drop_markers (world_watchdog parse accepts box) live alerted w) = markers w - (set alerted - set live)"
  using assms
proof (induction alerted arbitrary: w)
  case Nil
  then show ?case by (simp add: drop_markers_def only_marks_refl)
next
  case (Cons i alerted)
  let ?W = "world_watchdog parse accepts box"
  show ?case
  proof (cases "i \<in> set live")
    case True
    then have "drop_markers ?W live (i # alerted) w = drop_markers ?W live alerted w" by (simp add: drop_markers_def)
    with Cons.IH [OF Cons.prems] True show ?thesis by auto
  next
    case False
    obtain v where v: "on_db (ClearWatchdogAlert i) w = (Inr (), v)" "only_marks w v" "outbox v = outbox w"
      "markers v = markers w - {i}"
      by (rule clear_healthy [OF Cons.prems])
    have "drop_markers ?W live (i # alerted) w = drop_markers ?W live alerted v"
      using False v(1) by (simp add: drop_markers_def world_watchdog_def)
    with Cons.IH [OF only_marks_facts(1) [OF v(2) Cons.prems]] v False only_marks_trans [OF v(2)] show ?thesis
      by auto
  qed
qed

text \<open>
  C38: One check of the watchdog alerts about exactly the enabled tasks that are stale and were not
  marked before, each once on every channel that hears it, and leaves exactly the enabled stale
  tasks marked: a stale episode is reported once, a success or a pause ends it, and the next one is
  reported again.
\<close>

theorem watchdog_once_per_episode:
  assumes "healthy w" "db_ok (wdb w)"
    and "Check (world_watchdog parse accepts box) w = (r, w')"
    and "ts = enabled_tasks (wdb w)"
    and "stale = (\<lambda>t. evaluateWatchdog parse t (last_success (wdb w)) (now_time (wdb w)))"
  shows "r = Inr (List.map_filter (\<lambda>t. if task_id t \<in> markers w then None else stale t) ts) \<and>
    outbox w' = outbox w @ concat (map (\<lambda>t. if task_id t \<in> markers w then [] else
      case stale t of None \<Rightarrow> [] | Some a \<Rightarrow> stale_news accepts box (wdb w) t a) ts) \<and>
    markers w' = {task_id t | t. t \<in> set ts \<and> stale t \<noteq> None}"
proof -
  let ?W = "world_watchdog parse accepts box" and ?ls = "last_success (wdb w)" and ?now = "now_time (wdb w)"
  let ?al = "map wdr_task (wd_alerts (wdb w))"
  have f: "faults (wdb w) = []" using assms(1) by (simp add: healthy_def)
  obtain fired w1 where c: "check_tasks ?W ?ls ?al ?now ts w = (fired, w1)" by fastforce
  have W: "wg_enabled ?W w = (Inr ts, w)" "wg_last ?W w = (Inr ?ls, w)" "wg_list ?W w = (Inr (wd_alerts (wdb w)), w)"
    "wg_now ?W w = ?now"
    using f by (simp_all add: world_watchdog_def on_db_def ListEnabledTasks_def LastSuccessByTask_def ListWatchdogAlerts_def
        query_def assms(4) enabled_tasks_def)
  have r: "r = Inr fired" "w' = drop_markers ?W (map task_id ts) ?al w1"
    using assms(3) c by (simp_all add: Check_def W Let_def)
  have sub: "set (map task_id ts) \<subseteq> set (map task_id (tasks (wdb w)))" by (auto simp: assms(4) enabled_tasks_def)
  have dist: "distinct (map task_id ts)"
    using assms(2) by (auto simp: assms(4) enabled_tasks_def db_ok_def distinct_map inj_on_def)
  note ct = check_tasks_healthy [OF assms(1) sub c]
  have h1: "healthy w1" using ct by (simp add: only_marks_def)
  note dm = drop_markers_healthy [OF h1, of parse accepts box "map task_id ts" ?al, folded r(2)]
  have al: "set ?al = markers w" by (simp add: markers_def)
  have ns: "newly_stale parse ?ls ?now ?al = (\<lambda>t. if task_id t \<in> markers w then None else stale t)"
    by (simp add: fun_eq_iff newly_stale_def al assms(5) del: set_map)
  have news: "task_news accepts box parse ?ls ?now ?al (wdb w) = (\<lambda>t. if task_id t \<in> markers w then [] else
      case stale t of None \<Rightarrow> [] | Some a \<Rightarrow> stale_news accepts box (wdb w) t a)"
    by (simp add: fun_eq_iff task_news_def ns)
  have m1: "markers w1 = (markers w - {task_id t | t. t \<in> set ts \<and> task_id t \<in> markers w \<and> stale t = None}) \<union>
      {task_id t | t. t \<in> set ts \<and> task_id t \<notin> markers w \<and> stale t \<noteq> None}"
    using ct dist unfolding ns al [symmetric] assms(5) by (auto split: if_splits)
  have "markers w' = markers w1 - (markers w - set (map task_id ts))" using dm al by simp
  also have "\<dots> = {task_id t | t. t \<in> set ts \<and> stale t \<noteq> None}"
  proof (rule set_eqI)
    fix i
    have one: "x = y" if "x \<in> set ts" "y \<in> set ts" "task_id x = task_id y" for x y
      using dist that by (simp add: distinct_map inj_on_def)
    show "i \<in> markers w1 - (markers w - set (map task_id ts)) \<longleftrightarrow> i \<in> {task_id t | t. t \<in> set ts \<and> stale t \<noteq> None}"
      unfolding m1 using one by (auto; metis)
  qed
  finally have m: "markers w' = {task_id t | t. t \<in> set ts \<and> stale t \<noteq> None}" .
  have o': "outbox w' = outbox w @ concat (map (\<lambda>t. if task_id t \<in> markers w then [] else
      case stale t of None \<Rightarrow> [] | Some a \<Rightarrow> stale_news accepts box (wdb w) t a) ts)"
    using ct dm unfolding news by simp
  have "r = Inr (List.map_filter (\<lambda>t. if task_id t \<in> markers w then None else stale t) ts)"
    using ct r(1) unfolding ns by simp
  with m o' show ?thesis by blast
qed

definition stale_world :: world where
  "stale_world = watch_world\<lparr>wdb := (wdb watch_world)\<lparr>connections := [sample_connection\<lparr>con_id := 1\<rparr>],
     storages := [vault_storage], tasks := [notify_task\<lparr>task_watchdog := hour\<rparr>], clock := 7200\<rparr>\<rparr>"

theorem watchdog_once_per_episode_witness:
  "markers (snd (Check (world_watchdog (\<lambda>_. Inl ErrCanceled) (\<lambda>_ _. None) None) stale_world)) = {1}"
proof -
  have h: "healthy stale_world" "db_ok (wdb stale_world)"
    by (simp add: healthy_def stale_world_def watch_world_def notify_world_def empty_db_def, code_simp)
  have e: "enabled_tasks (wdb stale_world) = [notify_task\<lparr>task_watchdog := hour\<rparr>]"
    by (simp add: enabled_tasks_def stale_world_def notify_task_def sample_task_def)
  have s: "evaluateWatchdog (\<lambda>_. Inl ErrCanceled) (notify_task\<lparr>task_watchdog := hour\<rparr>) (last_success (wdb stale_world))
      (now_time (wdb stale_world)) \<noteq> None"
    by code_simp
  have i: "task_id (notify_task\<lparr>task_watchdog := hour\<rparr>) = 1" by (simp add: notify_task_def)
  from watchdog_once_per_episode [OF h prod.collapse [symmetric] refl refl, of "\<lambda>_. Inl ErrCanceled" "\<lambda>_ _. None" None]
  show ?thesis unfolding e using s i by simp
qed

end
