(* ===== verification/Pipeline.thy ===== *)
theory Pipeline
  imports Localfs Keys
begin

text \<open>
  The streaming pipeline, internal/core/pipeline.go: dump, codec chain, pipe, storage. A codec's
  writer is a state machine that answers every call with the chunks it writes to the writer behind
  it and, once it knows how those went, its own result. The libraries behind the codecs, the
  connector, the dumper and the storage are arguments.
\<close>

subsection \<open>Writers\<close>

text \<open>
  plugin.Codec, on the write side: NewWriter, then Write and Close of what it returned. The state
  of the returned writer is a 'c; the argument of the continuation is the first error the writes to
  dst met, if any, with the number of chunks accepted before it.
\<close>

type_synonym dst_error = "(nat \<times> err) option"

record 'c codec =
  cd_name :: string
  cd_ext :: string
  cd_new :: "string list \<times> (dst_error \<Rightarrow> err + 'c)"
  cd_write :: "'c \<Rightarrow> string \<Rightarrow> string list \<times> (dst_error \<Rightarrow> err option \<times> 'c)"
  cd_close :: "'c \<Rightarrow> string list \<times> (dst_error \<Rightarrow> err option)"

type_synonym 'c layers = "('c codec \<times> 'c) list"

text \<open>
  Writing chunks to the innermost of n layered writers, up to the first error: the chunks that
  reach the pipe, the error, the writers after it. The pipe accepts what its reader takes.
\<close>

fun push :: "nat \<Rightarrow> 'c layers \<Rightarrow> string list \<Rightarrow> string list \<times> dst_error \<times> 'c layers" where
  "push 0 ls ps = (ps, None, ls)"
| "push (Suc n) [] ps = (ps, None, [])"
| "push (Suc n) ((c, s) # ls) [] = ([], None, (c, s) # ls)"
| "push (Suc n) ((c, s) # ls) (p # ps) =
     (case cd_write c s p of (outs, k) \<Rightarrow>
      case push n ls outs of (o1, e, ls) \<Rightarrow>
      case k e of
        (Some e, s) \<Rightarrow> (o1, Some (0, e), (c, s) # ls)
      | (None, s) \<Rightarrow>
          (case push (Suc n) ((c, s) # ls) ps of
             (o2, e, ls) \<Rightarrow> (o1 @ o2, map_option (\<lambda>(i, e). (i + 1, e)) e, ls)))"

text \<open>The writers are made from the pipe inward; a codec may write to its dst while it is made.\<close>

fun build_layers :: "'c codec list \<Rightarrow> string list \<times> (string \<times> err + 'c layers)" where
  "build_layers [] = ([], Inr [])"
| "build_layers (c # cs) =
     (case build_layers cs of
        (o1, Inl e) \<Rightarrow> (o1, Inl e)
      | (o1, Inr ls) \<Rightarrow>
          (case cd_new c of (outs, k) \<Rightarrow>
           case push (length ls) ls outs of (o2, e, ls) \<Rightarrow>
           case k e of
             Inl we \<Rightarrow> (o1 @ o2, Inl (cd_name c, we))
           | Inr s \<Rightarrow> (o1 @ o2, Inr ((c, s) # ls))))"

text \<open>Closed from the innermost outward, each flushing into the next; the first error is kept.\<close>

fun close_layers :: "nat \<Rightarrow> 'c layers \<Rightarrow> string list \<times> err option" where
  "close_layers 0 ls = ([], None)"
| "close_layers (Suc n) [] = ([], None)"
| "close_layers (Suc n) ((c, s) # ls) =
     (case cd_close c s of (outs, k) \<Rightarrow>
      case push n ls outs of (o1, e, ls) \<Rightarrow>
      case close_layers n ls of (o2, e2) \<Rightarrow>
        (o1 @ o2, case k e of None \<Rightarrow> e2 | Some e \<Rightarrow> Some e))"

text \<open>A stream of chunks that ends, or fails with the error of the dump process.\<close>

type_synonym chunks = "string list \<times> err option"

text \<open>
  feed: what the reader of the pipe gets, and the error feed returns. A codec that cannot be made
  closes the pipe with its own error and returns it under the codec's name.
\<close>

definition feed :: "'c codec list \<Rightarrow> chunks \<Rightarrow> reader \<times> err option" where
  "feed cs src =
     (case build_layers cs of
        (o1, Inl (name, werr)) \<Rightarrow> ((concat o1, Some werr), Some (Wrap (''codec '' @ name @ '': '') werr))
      | (o1, Inr ls) \<Rightarrow>
          (case push (length ls) ls (fst src) of (o2, writeErr, ls) \<Rightarrow>
           case close_layers (length ls) ls of (o3, closeErr) \<Rightarrow>
             let copyErr = (case writeErr of Some (_, e) \<Rightarrow> Some e | None \<Rightarrow> snd src);
                 err = (case copyErr of Some e \<Rightarrow> Some e | None \<Rightarrow> closeErr)
             in ((concat (o1 @ o2 @ o3), err), err)))"

subsection \<open>Counting\<close>

text \<open>
  countReader: the reads of the storage, as the bytes each returned and its time. The running total
  is reported at most once per interval.
\<close>

definition byteInterval :: duration where "byteInterval = 200 * (second div 1000)"

fun count_reads :: "int \<Rightarrow> time \<Rightarrow> (nat \<times> time) list \<Rightarrow> int list" where
  "count_reads tot prev [] = []"
| "count_reads tot prev ((n, now) # rs) =
     (if n = 0 then count_reads tot prev rs
      else if is_zero_time prev \<or> now - prev \<ge> byteInterval then (tot + int n) # count_reads (tot + int n) now rs
      else count_reads (tot + int n) prev rs)"

definition bytes_read :: "(nat \<times> time) list \<Rightarrow> nat" where "bytes_read rs = sum_list (map fst rs)"

subsection \<open>The pipeline\<close>

record endpoint =
  ep_network :: string
  ep_address :: string

record credentials =
  cr_user :: string
  cr_password :: string
  cr_database :: string

type_synonym dump_options = "(string \<times> json) list"

record 'w connector =
  cn_open :: "('w, endpoint) op"
  cn_close :: "'w \<Rightarrow> 'w"

text \<open>Dump returns the stream and what closing it does.\<close>

record 'w dumper =
  dp_dump :: "endpoint \<Rightarrow> credentials \<Rightarrow> dump_options \<Rightarrow> ('w, chunks \<times> ('w \<Rightarrow> 'w)) op"
  dp_hint :: "dump_options \<Rightarrow> string"

text \<open>The writing side of plugin.Storage; sk_reads are the reads Write makes of its reader.\<close>

record 'w sink =
  sk_write :: "string \<Rightarrow> reader \<Rightarrow> ('w, object_meta) op"
  sk_reads :: "string \<Rightarrow> reader \<Rightarrow> 'w \<Rightarrow> (nat \<times> time) list"
  sk_close :: "'w \<Rightarrow> 'w"

record ('w, 'c) pipeline_input =
  pi_connector :: "'w connector"
  pi_dumper :: "'w dumper"
  pi_codecs :: "'c codec list"
  pi_storage :: "'w sink"
  pi_creds :: credentials
  pi_opts :: dump_options
  pi_key :: string
  pi_on_bytes :: "(int \<Rightarrow> 'w \<Rightarrow> 'w) option"

record pipeline_result =
  pr_key :: string
  pr_size :: int
  pr_checksum :: string

definition report :: "(int \<Rightarrow> 'w \<Rightarrow> 'w) option \<Rightarrow> int list \<Rightarrow> 'w \<Rightarrow> 'w" where
  "report f tots w = (case f of None \<Rightarrow> w | Some f \<Rightarrow> fold f tots w)"

text \<open>
  RunPipeline; sha256 is the hexadecimal digest. None when it does not return: it waits for the
  producer, and a producer whose bytes nobody takes waits for a reader. The ticks of the counter
  come in the course of the storage's Write, which cannot see them.
\<close>

definition RunPipeline ::
  "(string \<Rightarrow> string) \<Rightarrow> ('w, 'c) pipeline_input \<Rightarrow> 'w \<Rightarrow> ((err + pipeline_result) \<times> 'w) option" where
  "RunPipeline sha256 inp w =
     (case cn_open (pi_connector inp) w of
        (Inl e, w) \<Rightarrow> Some (Inl (Wrap ''connector: '' e), w)
      | (Inr ep, w) \<Rightarrow>
     (case dp_dump (pi_dumper inp) ep (pi_creds inp) (pi_opts inp) w of
        (Inl e, w) \<Rightarrow> Some (Inl (Wrap ''dumper: '' e), cn_close (pi_connector inp) w)
      | (Inr (src, dump_close), w) \<Rightarrow>
     (case feed (pi_codecs inp) src of (pr, producerErr) \<Rightarrow>
        let reads = sk_reads (pi_storage inp) (pi_key inp) pr w; tot = bytes_read reads;
            closing = (\<lambda>w. cn_close (pi_connector inp) (dump_close w)) in
      case sk_write (pi_storage inp) (pi_key inp) pr w of (res, w) \<Rightarrow>
        let w = report (pi_on_bytes inp) (count_reads 0 zero_time reads) w in
      (case res of
         Inl e \<Rightarrow> Some (Inl (Wrap ''storage: '' e), closing w)
       | Inr meta \<Rightarrow>
           if tot < length (fst pr) then None
           else let w = report (pi_on_bytes inp) [int tot] w in
             (case producerErr of
                Some e \<Rightarrow> Some (Inl e, closing w)
              | None \<Rightarrow> Some (Inr \<lparr>pr_key = pi_key inp, pr_size = om_size meta,
                                   pr_checksum = sha256 (take tot (fst pr))\<rparr>, closing w))))))"

subsection \<open>The chain as a composition\<close>

text \<open>What one codec writes for a sequence of chunks while its dst accepts everything.\<close>

fun writes_of :: "'c codec \<Rightarrow> 'c \<Rightarrow> string list \<Rightarrow> (string list \<times> 'c) option" where
  "writes_of c s [] = Some ([], s)"
| "writes_of c s (p # ps) =
     (case cd_write c s p of (outs, k) \<Rightarrow>
      case k None of
        (Some e, s) \<Rightarrow> None
      | (None, s) \<Rightarrow> (case writes_of c s ps of None \<Rightarrow> None | Some (outs2, s) \<Rightarrow> Some (outs @ outs2, s)))"

definition closing :: "'c codec \<Rightarrow> 'c \<Rightarrow> string list option" where
  "closing c s = (case cd_close c s of (outs, k) \<Rightarrow> if k None = None then Some outs else None)"

definition finishing :: "'c codec \<Rightarrow> 'c \<Rightarrow> string list \<Rightarrow> string list option" where
  "finishing c s ps =
     (case writes_of c s ps of None \<Rightarrow> None | Some (o1, s) \<Rightarrow> map_option (\<lambda>o2. o1 @ o2) (closing c s))"

definition codec_run :: "'c codec \<Rightarrow> string list \<Rightarrow> string list option" where
  "codec_run c ps =
     (case cd_new c of (o1, k) \<Rightarrow>
      case k None of Inl e \<Rightarrow> None | Inr s \<Rightarrow> map_option (\<lambda>o2. o1 @ o2) (finishing c s ps))"

text \<open>The codec turns a stream, however it is cut into chunks, into its encoding.\<close>

definition encodes :: "'c codec \<Rightarrow> (string \<Rightarrow> string) \<Rightarrow> bool" where
  "encodes c enc = (\<forall>ps. \<exists>outs. codec_run c ps = Some outs \<and> concat outs = enc (concat ps))"

fun chain_out :: "'c codec list \<Rightarrow> string list \<Rightarrow> string list option" where
  "chain_out [] ps = Some ps"
| "chain_out (c # cs) ps = (case codec_run c ps of None \<Rightarrow> None | Some outs \<Rightarrow> chain_out cs outs)"

text \<open>What is still to come out of a chain in use.\<close>

fun residue :: "'c layers \<Rightarrow> string list \<Rightarrow> string list option" where
  "residue [] ps = Some ps"
| "residue ((c, s) # ls) ps = (case finishing c s ps of None \<Rightarrow> None | Some outs \<Rightarrow> residue ls outs)"

lemma finishing_Cons:
  assumes "finishing c s (p # ps) = Some outs" "cd_write c s p = (o1, k)"
  obtains s' o2 where "k None = (None, s')" "finishing c s' ps = Some o2" "outs = o1 @ o2"
  using assms
  by (auto simp: finishing_def split: prod.splits option.splits intro: that)

lemma push_residue:
  assumes "residue ls (ps @ qs) = Some outs" "n = length ls"
  shows "\<exists>o1 ls' o2. push n ls ps = (o1, None, ls') \<and> length ls' = n \<and> residue ls' qs = Some o2 \<and> outs = o1 @ o2"
  using assms
proof (induction n ls ps arbitrary: outs qs rule: push.induct)
  case (4 n c s ls p ps)
  obtain outs1 where f: "finishing c s (p # ps @ qs) = Some outs1" "residue ls outs1 = Some outs"
    using "4.prems" by (auto split: option.splits)
  obtain w1 k where w: "cd_write c s p = (w1, k)" by fastforce
  obtain s' w2 where k: "k None = (None, s')" "finishing c s' (ps @ qs) = Some w2" "outs1 = w1 @ w2"
    using finishing_Cons [OF f(1) w] by blast
  obtain o1 ls1 o2 where p1: "push n ls w1 = (o1, None, ls1)" "length ls1 = n" "residue ls1 w2 = Some o2" "outs = o1 @ o2"
    using "4.IH"(1) [OF w [symmetric], of w2 outs] f(2) k(3) "4.prems"(2) by auto
  have "residue ((c, s') # ls1) (ps @ qs) = Some o2" using k(2) p1(3) by simp
  from "4.IH"(2) [OF w [symmetric] p1(1) [symmetric] refl k(1) [symmetric] refl this] p1(2)
  obtain o3 ls2 o4 where "push (Suc n) ((c, s') # ls1) ps = (o3, None, ls2)" "length ls2 = Suc n"
    "residue ls2 qs = Some o4" "o2 = o3 @ o4" by auto
  with p1 w k(1) show ?case by simp
qed auto

lemma close_residue:
  assumes "residue ls [] = Some outs" "n = length ls"
  shows "close_layers n ls = (outs, None)"
  using assms
proof (induction n ls arbitrary: outs rule: close_layers.induct)
  case (3 n c s ls)
  obtain w k where w: "cd_close c s = (w, k)" by fastforce
  have k: "k None = None" "residue ls (w @ []) = Some outs"
    using "3.prems"(1) w by (auto simp: finishing_def closing_def split: option.splits if_splits)
  obtain o1 ls1 o2 where p: "push n ls w = (o1, None, ls1)" "length ls1 = n" "residue ls1 [] = Some o2" "outs = o1 @ o2"
    using push_residue [OF k(2), of n] "3.prems"(2) by auto
  from "3.IH" [OF w [symmetric] p(1) [symmetric] refl p(3)] p(2)
  have "close_layers n ls1 = (o2, None)" by simp
  with w p k(1) show ?case by simp
qed auto

lemma build_residue:
  assumes "chain_out cs ps = Some outs"
  shows "\<exists>o1 ls o2. build_layers cs = (o1, Inr ls) \<and> length ls = length cs \<and> residue ls ps = Some o2 \<and> outs = o1 @ o2"
  using assms
proof (induction cs arbitrary: ps outs)
  case (Cons c cs)
  obtain n1 k where n: "cd_new c = (n1, k)" by fastforce
  obtain s f where s: "k None = Inr s" "finishing c s ps = Some f" "chain_out cs (n1 @ f) = Some outs"
    using Cons.prems n by (auto simp: codec_run_def split: option.splits sum.splits)
  from Cons.IH [OF s(3)] obtain o1 ls o2 where b: "build_layers cs = (o1, Inr ls)" "length ls = length cs"
    "residue ls (n1 @ f) = Some o2" "outs = o1 @ o2" by blast
  from push_residue [OF b(3) refl] obtain o3 ls' o4 where "push (length ls) ls n1 = (o3, None, ls')"
    "length ls' = length ls" "residue ls' f = Some o4" "o2 = o3 @ o4" by blast
  with b n s show ?case by simp
qed simp

lemma feed_chain:
  assumes "chain_out cs (fst src) = Some outs" "snd src = None"
  shows "feed cs src = ((concat outs, None), None)"
proof -
  from build_residue [OF assms(1)] obtain o1 ls o2 where b: "build_layers cs = (o1, Inr ls)"
    "residue ls (fst src @ []) = Some o2" "outs = o1 @ o2" by auto
  from push_residue [OF b(2) refl] obtain o3 ls' o4 where p: "push (length ls) ls (fst src) = (o3, None, ls')"
    "length ls' = length ls" "residue ls' [] = Some o4" "o2 = o3 @ o4" by blast
  from close_residue [OF p(3) refl] b p assms(2) show ?thesis by (simp add: feed_def)
qed

definition encoded :: "(string \<Rightarrow> string) list \<Rightarrow> string \<Rightarrow> string" where
  "encoded encs x = fold (\<lambda>enc. enc) encs x"

lemma chain_out_encodes:
  assumes "list_all2 encodes cs encs"
  shows "\<exists>outs. chain_out cs ps = Some outs \<and> concat outs = encoded encs (concat ps)"
  using assms
proof (induction cs encs arbitrary: ps rule: list_all2_induct)
  case (Cons c cs enc encs)
  obtain o1 where o1: "codec_run c ps = Some o1" "concat o1 = enc (concat ps)"
    using Cons.hyps(1) by (auto simp: encodes_def)
  with Cons.IH [of o1] show ?case by (auto simp: encoded_def)
qed (simp add: encoded_def)

text \<open>
  The pipe carries the encoding of the whole dump, codec by codec in chain order, when the dump
  ends well.
\<close>

lemma feed_encodes:
  assumes "list_all2 encodes cs encs" "snd src = None"
  shows "feed cs src = ((encoded encs (concat (fst src)), None), None)"
  using chain_out_encodes [OF assms(1), of "fst src"] feed_chain [OF _ assms(2)] by metis

text \<open>Whatever fails on the producing side, the storage's reader fails too.\<close>

lemma feed_error_seen: "feed cs src = (pr, e) \<Longrightarrow> snd pr = None \<longleftrightarrow> e = None"
  by (auto simp: feed_def Let_def split: prod.splits sum.splits)

lemma feed_dump_error: "feed cs src = (pr, None) \<Longrightarrow> snd src = None"
  by (auto simp: feed_def Let_def split: prod.splits sum.splits option.splits)

subsection \<open>The progress of the bytes\<close>

lemma count_reads_bounds:
  "sorted_wrt (<) (count_reads tot prev rs) \<and> (\<forall>n \<in> set (count_reads tot prev rs). tot < n \<and> n \<le> tot + int (bytes_read rs))"
proof (induction tot prev rs rule: count_reads.induct)
  case (2 tot prev n now rs)
  consider "n = 0" | "n \<noteq> 0" "is_zero_time prev \<or> now - prev \<ge> byteInterval" | "n \<noteq> 0" "\<not> (is_zero_time prev \<or> now - prev \<ge> byteInterval)"
    by blast
  then show ?case using 2 by cases (fastforce simp: bytes_read_def)+
qed (simp add: bytes_read_def)

lemma count_reads_rate:
  assumes "\<not> is_zero_time prev" "sorted (prev # map snd rs)" "\<forall>p \<in> set rs. \<not> is_zero_time (snd p)"
  shows "int (length (count_reads tot prev rs)) * byteInterval \<le> last (prev # map snd rs) - prev"
  using assms
proof (induction rs arbitrary: tot prev)
  case (Cons r rs)
  obtain n now where r: "r = (n, now)" by fastforce
  have later: "now \<le> last (now # map snd rs)" "prev \<le> now" "sorted (now # map snd rs)" "sorted (prev # map snd rs)"
    using Cons.prems r by (cases rs rule: rev_cases, auto intro: order_trans)+
  have l: "last (prev # map snd (r # rs)) = last (now # map snd rs)" using r by simp
  show ?case
  proof (cases "n \<noteq> 0 \<and> now - prev \<ge> byteInterval")
    case True
    have "int (length (count_reads (tot + int n) now rs)) * byteInterval \<le> last (now # map snd rs) - now"
      using Cons.prems r later by (intro Cons.IH) auto
    with True Cons.prems(1) r l show ?thesis by (simp add: algebra_simps)
  next
    case False
    have "int (length (count_reads t prev rs)) * byteInterval \<le> last (prev # map snd rs) - prev" for t
      using Cons.prems r later by (intro Cons.IH) auto
    moreover have "last (prev # map snd rs) \<le> last (now # map snd rs)" using later(2) by simp
    ultimately show ?thesis using False Cons.prems(1) r l by (cases "n = 0") (auto intro: order_trans)
  qed
qed simp

text \<open>
  The live byte count neither runs ahead nor floods. The totals reported while the storage
  reads are strictly increasing, positive and never more than what was read, and over an upload whose
  reads come at increasing times there is at most one report, and one more per 200 milliseconds.
\<close>

theorem progress_throttled:
  assumes "sorted (map snd rs)" "\<forall>p \<in> set rs. \<not> is_zero_time (snd p)" "rs \<noteq> []"
  shows "sorted_wrt (<) (count_reads 0 zero_time rs) \<and>
    (\<forall>n \<in> set (count_reads 0 zero_time rs). 0 < n \<and> n \<le> int (bytes_read rs)) \<and>
    int (length (count_reads 0 zero_time rs)) \<le> 1 + (snd (last rs) - snd (hd rs)) div byteInterval"
proof -
  have pos: "0 < byteInterval" by (simp add: byteInterval_def second_def)
  have first: "int (length (count_reads tot zero_time rs)) * byteInterval \<le> byteInterval + (snd (last rs) - snd (hd rs))" for tot
    using assms
  proof (induction rs arbitrary: tot)
    case (Cons r rs)
    obtain n now where r: "r = (n, now)" by fastforce
    show ?case
    proof (cases "n = 0")
      case True
      show ?thesis
      proof (cases "rs = []")
        case False
        with Cons.prems r True Cons.IH [of tot] show ?thesis by (cases rs) auto
      qed (use True r pos in simp)
    next
      case False
      have "int (length (count_reads (tot + int n) now rs)) * byteInterval \<le> last (now # map snd rs) - now"
        using Cons.prems r by (intro count_reads_rate) auto
      moreover have "last (now # map snd rs) = snd (last (r # rs))" using r by (cases rs rule: rev_cases) auto
      ultimately show ?thesis using False r by (simp add: is_zero_time_def algebra_simps)
    qed
  qed simp
  have "int (length (count_reads 0 zero_time rs)) \<le> (byteInterval + (snd (last rs) - snd (hd rs))) div byteInterval"
    using zdiv_mono1 [OF first [of 0] pos] pos by simp
  also have "\<dots> = 1 + (snd (last rs) - snd (hd rs)) div byteInterval" using pos by (simp add: div_add_self1)
  finally show ?thesis using count_reads_bounds [of 0 zero_time rs] by simp
qed

theorem progress_throttled_witness:
  "count_reads 0 zero_time [(10, second), (5, second + 1), (7, 3 * second)] = [10, 22] \<and>
   int (length (count_reads 0 zero_time [(10, second), (5, second + 1), (7, 3 * second)])) \<le> 11"
proof -
  have "count_reads 0 zero_time [(10, second), (5, second + 1), (7, 3 * second)] = [10, 22]"
    by (simp add: is_zero_time_def zero_time_def byteInterval_def second_def)
  then show ?thesis
    using progress_throttled [of "[(10, second), (5, second + 1), (7, 3 * second)]"]
    by (simp add: is_zero_time_def zero_time_def byteInterval_def second_def)
qed

end
