(* ===== verification/Hub.thy ===== *)
theory Hub
  imports Model Complex_Main
begin

text \<open>
  The hub of live run progress, internal/core/progress.go. Channels are buffers in a store of their
  own, since a subscriber keeps reading its channel after the hub has forgotten the run; live runs
  carry a generation in place of their address. The lemmas show what a subscriber that keeps up
  receives.
\<close>

subsection \<open>State\<close>

datatype phase = PhaseQueued | PhaseResolve | PhaseStream | PhaseRecord

datatype progress_kind = EventLog | EventPhase | EventBytes | EventTotal | EventStatus

record progress_event =
  pe_run :: rowid
  pe_seq :: int
  pe_kind :: progress_kind
  pe_phase :: phase
  pe_message :: string
  pe_bytes :: int
  pe_total :: int
  pe_bps :: rat
  pe_status :: "run_status option"
  pe_at :: time

record chan =
  ch_buf :: "progress_event list"
  ch_closed :: bool

record live_run =
  lr_gen :: nat
  lr_phase :: phase
  lr_bytes :: int
  lr_total :: int
  lr_seq :: int
  lr_tail :: "progress_event list"
  lr_subs :: "(nat \<times> nat) list"
  lr_next :: nat
  lr_last_bytes :: int
  lr_last_at :: time

record hub =
  hb_runs :: "rowid \<Rightarrow> live_run option"
  hb_chans :: "nat \<Rightarrow> chan"
  hb_next_chan :: nat
  hb_next_gen :: nat

definition tailMax :: nat where "tailMax = 256"
definition subBuf :: nat where "subBuf = 256"

definition NewHub :: hub where
  "NewHub = \<lparr>hb_runs = Map.empty, hb_chans = (\<lambda>_. \<lparr>ch_buf = [], ch_closed = False\<rparr>), hb_next_chan = 0, hb_next_gen = 0\<rparr>"

subsection \<open>Publishing\<close>

definition new_live :: "nat \<Rightarrow> live_run" where
  "new_live g = \<lparr>lr_gen = g, lr_phase = PhaseQueued, lr_bytes = 0, lr_total = 0, lr_seq = 0, lr_tail = [], lr_subs = [],
     lr_next = 0, lr_last_bytes = 0, lr_last_at = zero_time\<rparr>"

definition ensure :: "rowid \<Rightarrow> hub \<Rightarrow> live_run \<times> hub" where
  "ensure i h =
     (case hb_runs h i of
        Some lr \<Rightarrow> (lr, h)
      | None \<Rightarrow> let lr = new_live (hb_next_gen h) in
          (lr, h\<lparr>hb_runs := (hb_runs h)(i \<mapsto> lr), hb_next_gen := hb_next_gen h + 1\<rparr>))"

text \<open>A send that does not block: dropped when the buffer is full.\<close>

definition offer :: "progress_event \<Rightarrow> chan \<Rightarrow> chan" where
  "offer ev c = (if length (ch_buf c) < subBuf then c\<lparr>ch_buf := ch_buf c @ [ev]\<rparr> else c)"

definition last_n :: "nat \<Rightarrow> 'a list \<Rightarrow> 'a list" where
  "last_n n xs = drop (length xs - n) xs"

definition publishLocked :: "rowid \<Rightarrow> live_run \<Rightarrow> progress_event \<Rightarrow> hub \<Rightarrow> hub" where
  "publishLocked i lr ev h =
     (let ev = ev\<lparr>pe_seq := lr_seq lr + 1\<rparr>;
          lr = lr\<lparr>lr_seq := lr_seq lr + 1, lr_tail := last_n tailMax (lr_tail lr @ [ev])\<rparr>
      in h\<lparr>hb_runs := (hb_runs h)(i \<mapsto> lr),
           hb_chans := fold (\<lambda>(_, c) cs. cs(c := offer ev (cs c))) (lr_subs lr) (hb_chans h)\<rparr>)"

definition blank_event :: "rowid \<Rightarrow> progress_kind \<Rightarrow> phase \<Rightarrow> time \<Rightarrow> progress_event" where
  "blank_event i k p now = \<lparr>pe_run = i, pe_seq = 0, pe_kind = k, pe_phase = p, pe_message = [], pe_bytes = 0, pe_total = 0,
     pe_bps = 0, pe_status = None, pe_at = now\<rparr>"

definition Phase :: "time \<Rightarrow> rowid \<Rightarrow> phase \<Rightarrow> hub \<Rightarrow> hub" where
  "Phase now i p h =
     (case ensure i h of (lr, h) \<Rightarrow> publishLocked i (lr\<lparr>lr_phase := p\<rparr>) (blank_event i EventPhase p now) h)"

definition Log :: "time \<Rightarrow> rowid \<Rightarrow> phase \<Rightarrow> string \<Rightarrow> hub \<Rightarrow> hub" where
  "Log now i p msg h =
     (case ensure i h of (lr, h) \<Rightarrow> publishLocked i lr ((blank_event i EventLog p now)\<lparr>pe_message := msg\<rparr>) h)"

definition Total :: "time \<Rightarrow> rowid \<Rightarrow> int \<Rightarrow> hub \<Rightarrow> hub" where
  "Total now i tot h =
     (if tot \<le> 0 then h
      else case ensure i h of (lr, h) \<Rightarrow>
        publishLocked i (lr\<lparr>lr_total := tot\<rparr>) ((blank_event i EventTotal (lr_phase lr) now)\<lparr>pe_total := tot\<rparr>) h)"

definition throughput :: "live_run \<Rightarrow> time \<Rightarrow> int \<Rightarrow> rat" where
  "throughput lr now sent =
     (if \<not> is_zero_time (lr_last_at lr) \<and> now - lr_last_at lr > 0
      then of_int ((sent - lr_last_bytes lr) * second) / of_int (now - lr_last_at lr) else 0)"

definition Bytes :: "time \<Rightarrow> rowid \<Rightarrow> int \<Rightarrow> hub \<Rightarrow> hub" where
  "Bytes now i sent h =
     (case ensure i h of (lr, h) \<Rightarrow>
        publishLocked i (lr\<lparr>lr_bytes := sent, lr_last_bytes := sent, lr_last_at := now\<rparr>)
          ((blank_event i EventBytes (lr_phase lr) now)\<lparr>pe_bytes := sent, pe_total := lr_total lr,
             pe_bps := throughput lr now sent\<rparr>) h)"

definition Status :: "time \<Rightarrow> rowid \<Rightarrow> run_status \<Rightarrow> hub \<Rightarrow> hub" where
  "Status now i st h =
     (case ensure i h of (lr, h) \<Rightarrow>
        publishLocked i lr ((blank_event i EventStatus (lr_phase lr) now)\<lparr>pe_status := Some st\<rparr>) h)"

definition Close :: "rowid \<Rightarrow> hub \<Rightarrow> hub" where
  "Close i h =
     (case hb_runs h i of
        None \<Rightarrow> h
      | Some lr \<Rightarrow>
          h\<lparr>hb_runs := (hb_runs h)(i := None),
            hb_chans := fold (\<lambda>(_, c) cs. cs(c := (cs c)\<lparr>ch_closed := True\<rparr>)) (lr_subs lr) (hb_chans h)\<rparr>)"

subsection \<open>Subscribing\<close>

text \<open>The snapshot, the channel and what cancel needs: the generation and the subscription.\<close>

record subscription =
  su_snapshot :: "progress_event list"
  su_chan :: nat
  su_gen :: nat
  su_id :: nat

definition Subscribe :: "rowid \<Rightarrow> hub \<Rightarrow> subscription option \<times> hub" where
  "Subscribe i h =
     (case hb_runs h i of
        None \<Rightarrow> (None, h)
      | Some lr \<Rightarrow>
          let c = hb_next_chan h; s = lr_next lr in
          (Some \<lparr>su_snapshot = lr_tail lr, su_chan = c, su_gen = lr_gen lr, su_id = s\<rparr>,
           h\<lparr>hb_runs := (hb_runs h)(i \<mapsto> lr\<lparr>lr_next := s + 1, lr_subs := lr_subs lr @ [(s, c)]\<rparr>),
             hb_chans := (hb_chans h)(c := \<lparr>ch_buf = [], ch_closed = False\<rparr>), hb_next_chan := c + 1\<rparr>))"

definition cancel :: "rowid \<Rightarrow> nat \<Rightarrow> nat \<Rightarrow> hub \<Rightarrow> hub" where
  "cancel i gen s h =
     (case hb_runs h i of
        None \<Rightarrow> h
      | Some lr \<Rightarrow>
          if lr_gen lr = gen then h\<lparr>hb_runs := (hb_runs h)(i \<mapsto> lr\<lparr>lr_subs := filter (\<lambda>(k, _). k \<noteq> s) (lr_subs lr)\<rparr>)\<rparr>
          else h)"

text \<open>A receive of the subscriber: the next event, None while there is none, or the end.\<close>

datatype received = Got progress_event | Waiting | Ended

definition receive :: "nat \<Rightarrow> hub \<Rightarrow> received \<times> hub" where
  "receive c h =
     (case ch_buf (hb_chans h c) of
        ev # evs \<Rightarrow> (Got ev, h\<lparr>hb_chans := (hb_chans h)(c := (hb_chans h c)\<lparr>ch_buf := evs\<rparr>)\<rparr>)
      | [] \<Rightarrow> (if ch_closed (hb_chans h c) then Ended else Waiting, h))"

subsection \<open>Anything that can happen to the hub\<close>

datatype hub_act =
    ActPhase time rowid phase
  | ActLog time rowid phase string
  | ActTotal time rowid int
  | ActBytes time rowid int
  | ActStatus time rowid run_status
  | ActClose rowid
  | ActSubscribe rowid
  | ActCancel rowid nat nat
  | ActReceive nat

fun act :: "hub_act \<Rightarrow> hub \<Rightarrow> hub" where
  "act (ActPhase now i p) h = Phase now i p h"
| "act (ActLog now i p m) h = Log now i p m h"
| "act (ActTotal now i n) h = Total now i n h"
| "act (ActBytes now i n) h = Bytes now i n h"
| "act (ActStatus now i st) h = Status now i st h"
| "act (ActClose i) h = Close i h"
| "act (ActSubscribe i) h = snd (Subscribe i h)"
| "act (ActCancel i g s) h = cancel i g s h"
| "act (ActReceive c) h = snd (receive c h)"

subsection \<open>The invariant\<close>

definition seqs_to :: "int \<Rightarrow> progress_event list \<Rightarrow> bool" where
  "seqs_to n evs = (map pe_seq evs = [n + 1 - int (length evs)..n])"

lemma seqs_to_Nil [simp]: "seqs_to n []"
  by (simp add: seqs_to_def)

lemma seqs_to_snoc:
  assumes "seqs_to n evs"
  shows "seqs_to (n + 1) (evs @ [ev\<lparr>pe_seq := n + 1\<rparr>])"
proof -
  have "[n + 1 - int (length evs)..n + 1] = [n + 1 - int (length evs)..n] @ [n + 1]"
    using upto_rec2 [of "n + 1 - int (length evs)" "n + 1"] by simp
  with assms show ?thesis by (simp add: seqs_to_def add.commute add_diff_eq)
qed

lemma seqs_to_drop:
  assumes "seqs_to n evs"
  shows "seqs_to n (drop k evs)"
  using assms
proof (induction k arbitrary: evs)
  case (Suc k)
  show ?case
  proof (cases evs)
    case (Cons ev evs')
    have "n + 1 - int (length evs) \<le> n" using Cons by simp
    then have "[n + 1 - int (length evs)..n] = (n + 1 - int (length evs)) # [n + 1 - int (length evs) + 1..n]"
      by (rule upto_rec1)
    with Suc.prems Cons have "seqs_to n evs'" by (simp add: seqs_to_def algebra_simps)
    with Suc.IH Cons show ?thesis by simp
  qed simp
qed simp

definition live_ok :: "rowid \<Rightarrow> nat \<Rightarrow> live_run \<Rightarrow> bool" where
  "live_ok i next_chan lr =
     (distinct (map snd (lr_subs lr)) \<and> distinct (map fst (lr_subs lr)) \<and>
      (\<forall>(s, c) \<in> set (lr_subs lr). s < lr_next lr \<and> c < next_chan) \<and>
      0 \<le> lr_seq lr \<and> seqs_to (lr_seq lr) (lr_tail lr) \<and> length (lr_tail lr) = min tailMax (nat (lr_seq lr)) \<and>
      (\<forall>ev \<in> set (lr_tail lr). pe_run ev = i))"

definition chans_of :: "live_run \<Rightarrow> nat set" where "chans_of lr = snd ` set (lr_subs lr)"

definition hub_ok :: "hub \<Rightarrow> bool" where
  "hub_ok h =
     ((\<forall>i lr. hb_runs h i = Some lr \<longrightarrow> live_ok i (hb_next_chan h) lr) \<and>
      (\<forall>i j lr lr'. hb_runs h i = Some lr \<longrightarrow> hb_runs h j = Some lr' \<longrightarrow> i \<noteq> j \<longrightarrow> chans_of lr \<inter> chans_of lr' = {}))"

lemma hub_ok_new [simp]: "hub_ok NewHub"
  by (simp add: hub_ok_def NewHub_def)

text \<open>What the publishing operations have in common.\<close>

definition same_feed :: "live_run \<Rightarrow> live_run \<Rightarrow> bool" where
  "same_feed lr lr' = (lr_gen lr' = lr_gen lr \<and> lr_seq lr' = lr_seq lr \<and> lr_tail lr' = lr_tail lr \<and>
     lr_subs lr' = lr_subs lr \<and> lr_next lr' = lr_next lr)"

definition publishes :: "rowid \<Rightarrow> hub_act \<Rightarrow> bool" where
  "publishes i a = (case a of ActPhase _ j _ \<Rightarrow> j = i | ActLog _ j _ _ \<Rightarrow> j = i | ActTotal _ j n \<Rightarrow> j = i \<and> n > 0
     | ActBytes _ j _ \<Rightarrow> j = i | ActStatus _ j _ \<Rightarrow> j = i | _ \<Rightarrow> False)"

definition publishing :: "rowid \<Rightarrow> live_run \<Rightarrow> hub \<Rightarrow> hub \<Rightarrow> bool" where
  "publishing i lr h' h'' = (\<exists>lr' ev. same_feed lr lr' \<and> pe_run ev = i \<and> h'' = publishLocked i lr' ev h')"

lemma publishingI: "same_feed lr lr' \<Longrightarrow> pe_run ev = i \<Longrightarrow> publishing i lr h' (publishLocked i lr' ev h')"
  by (auto simp: publishing_def)

lemma same_feed_simps [simp]:
  "same_feed lr lr" "same_feed lr (lr\<lparr>lr_phase := p\<rparr>)" "same_feed lr (lr\<lparr>lr_total := n\<rparr>)"
  "same_feed lr (lr\<lparr>lr_bytes := n, lr_last_bytes := n, lr_last_at := now\<rparr>)"
  by (simp_all add: same_feed_def)

lemma pe_run_blank [simp]: "pe_run (blank_event i k p now) = i"
  by (simp add: blank_event_def)

lemma publishes_act:
  assumes "publishes i a"
  obtains lr h' where "ensure i h = (lr, h')" "publishing i lr h' (act a h)"
proof -
  obtain lr h' where e: "ensure i h = (lr, h')" by fastforce
  have "publishing i lr h' (act a h)"
    using assms by (cases a) (simp_all add: publishes_def e publishingI Phase_def Log_def Total_def Bytes_def Status_def)
  with e show thesis using that by blast
qed

lemma live_ok_mono: "live_ok i n lr \<Longrightarrow> n \<le> m \<Longrightarrow> live_ok i m lr"
  by (auto simp: live_ok_def)

lemma ensure_ok:
  assumes "hub_ok h" "ensure i h = (lr, h')"
  shows "hub_ok h' \<and> hb_runs h' i = Some lr \<and> hb_chans h' = hb_chans h \<and> hb_next_chan h' = hb_next_chan h \<and>
    (\<forall>j. j \<noteq> i \<longrightarrow> hb_runs h' j = hb_runs h j) \<and> (hb_runs h i = Some lr \<or> hb_runs h i = None \<and> lr = new_live (hb_next_gen h))"
proof (cases "hb_runs h i")
  case (Some x)
  with assms show ?thesis by (simp add: ensure_def)
next
  case None
  have new: "live_ok i (hb_next_chan h) (new_live g)" "chans_of (new_live g) = {}" for g
    by (simp_all add: live_ok_def new_live_def chans_of_def)
  have lr: "lr = new_live (hb_next_gen h)" "h' = h\<lparr>hb_runs := (hb_runs h)(i \<mapsto> lr), hb_next_gen := hb_next_gen h + 1\<rparr>"
    using None assms(2) by (auto simp: ensure_def Let_def)
  have "hub_ok h'" using assms(1) new unfolding hub_ok_def lr by (simp add: all_conj_distrib)
  with None lr show ?thesis by simp
qed

lemma offer_all:
  assumes "distinct (map snd subs)"
  shows "fold (\<lambda>(_, c) cs. cs(c := f (cs c))) subs cs c = (if c \<in> snd ` set subs then f (cs c) else cs c)"
  using assms
proof (induction subs arbitrary: cs)
  case (Cons sc subs)
  then show ?case by (cases sc) (force simp: image_iff)
qed simp

lemma last_n_length: "length (last_n n xs) = min n (length xs)"
  by (simp add: last_n_def)

lemma publishLocked_ok:
  assumes "hub_ok h" "hb_runs h i = Some lr" "same_feed lr lr'" "pe_run ev = i"
  shows "hub_ok (publishLocked i lr' ev h)"
proof -
  have ok: "live_ok i (hb_next_chan h) lr" using assms(1,2) by (simp add: hub_ok_def)
  let ?ev = "ev\<lparr>pe_seq := lr_seq lr + 1\<rparr>"
  let ?new = "lr'\<lparr>lr_seq := lr_seq lr' + 1, lr_tail := last_n tailMax (lr_tail lr' @ [ev\<lparr>pe_seq := lr_seq lr' + 1\<rparr>])\<rparr>"
  have "seqs_to (lr_seq lr + 1) (lr_tail lr @ [?ev])" using ok by (intro seqs_to_snoc) (simp add: live_ok_def)
  then have "seqs_to (lr_seq lr + 1) (last_n tailMax (lr_tail lr @ [?ev]))"
    unfolding last_n_def by (rule seqs_to_drop)
  moreover have "length (last_n tailMax (lr_tail lr @ [?ev])) = min tailMax (nat (lr_seq lr + 1))"
    using ok unfolding last_n_length by (simp add: live_ok_def nat_add_distrib)
  moreover have "\<forall>e \<in> set (last_n tailMax (lr_tail lr @ [?ev])). pe_run e = i"
    using ok assms(4) by (auto simp: live_ok_def last_n_def dest!: in_set_dropD)
  ultimately have "live_ok i (hb_next_chan h) ?new"
    using ok assms(3) by (simp add: live_ok_def same_feed_def)
  moreover have "chans_of ?new = chans_of lr" using assms(3) by (simp add: chans_of_def same_feed_def)
  ultimately show ?thesis
    using assms(1,2) unfolding publishLocked_def Let_def hub_ok_def by (simp add: all_conj_distrib)
qed

lemma act_ok:
  assumes "hub_ok h"
  shows "hub_ok (act a h)"
proof (cases "\<exists>i. publishes i a")
  case True
  then obtain i where "publishes i a" by blast
  then obtain lr h' where e: "ensure i h = (lr, h')" and p: "publishing i lr h' (act a h)" by (rule publishes_act)
  from p obtain lr' ev where x: "same_feed lr lr'" "pe_run ev = i" "act a h = publishLocked i lr' ev h'"
    by (auto simp: publishing_def)
  from ensure_ok [OF assms e] publishLocked_ok [OF _ _ x(1,2)] x(3) show ?thesis by simp
next
  case no: False
  show ?thesis
  proof (cases a)
    case (ActClose i)
    then show ?thesis using assms by (auto simp: Close_def hub_ok_def split: option.split)
  next
    case (ActSubscribe i)
    show ?thesis
    proof (cases "hb_runs h i")
      case (Some lr)
      let ?lr = "lr\<lparr>lr_next := lr_next lr + 1, lr_subs := lr_subs lr @ [(lr_next lr, hb_next_chan h)]\<rparr>"
      have ok: "live_ok i (hb_next_chan h) lr" using assms Some by (simp add: hub_ok_def)
      then have "live_ok i (hb_next_chan h + 1) ?lr" by (auto simp: live_ok_def)
      moreover have "chans_of ?lr = insert (hb_next_chan h) (chans_of lr)" by (auto simp: chans_of_def)
      moreover have "hb_next_chan h \<notin> chans_of lr'" if "hb_runs h j = Some lr'" for j lr'
        using assms that by (fastforce simp: hub_ok_def live_ok_def chans_of_def)
      moreover have "live_ok j (hb_next_chan h + 1) lr'" if "hb_runs h j = Some lr'" for j lr'
        using assms that live_ok_mono [of j "hb_next_chan h" lr' "hb_next_chan h + 1"] by (simp add: hub_ok_def)
      ultimately show ?thesis
        using assms Some ActSubscribe unfolding hub_ok_def by (simp add: Subscribe_def Let_def all_conj_distrib)
    qed (use assms ActSubscribe in \<open>simp add: Subscribe_def\<close>)
  next
    case (ActCancel i g s)
    show ?thesis
    proof (cases "\<exists>lr. hb_runs h i = Some lr \<and> lr_gen lr = g")
      case True
      then obtain lr where lr: "hb_runs h i = Some lr" "lr_gen lr = g" by blast
      let ?lr = "lr\<lparr>lr_subs := filter (\<lambda>(k, _). k \<noteq> s) (lr_subs lr)\<rparr>"
      have "live_ok i (hb_next_chan h) lr" using assms lr by (simp add: hub_ok_def)
      then have "live_ok i (hb_next_chan h) ?lr" by (auto simp: live_ok_def distinct_map_filter)
      moreover have "chans_of ?lr \<subseteq> chans_of lr" by (auto simp: chans_of_def)
      ultimately show ?thesis
        using assms lr ActCancel unfolding hub_ok_def by (simp add: cancel_def) blast
    qed (use assms ActCancel in \<open>auto simp: cancel_def split: option.split\<close>)
  next
    case (ActReceive c)
    then show ?thesis using assms by (auto simp: receive_def hub_ok_def split: list.split)
  qed (use no assms in \<open>auto simp: publishes_def Total_def\<close>)
qed

lemma acts_ok: "hub_ok h \<Longrightarrow> hub_ok (fold act as h)"
  by (induction as arbitrary: h) (simp_all add: act_ok)

subsection \<open>What a subscriber receives\<close>

text \<open>The events its channel yields in the course of the actions.\<close>

definition taken :: "nat \<Rightarrow> hub_act \<Rightarrow> hub \<Rightarrow> progress_event list" where
  "taken c a h = (if a = ActReceive c then (case fst (receive c h) of Got ev \<Rightarrow> [ev] | _ \<Rightarrow> []) else [])"

fun watch :: "nat \<Rightarrow> hub_act list \<Rightarrow> hub \<Rightarrow> progress_event list" where
  "watch c [] h = []"
| "watch c (a # as) h = taken c a h @ watch c as (act a h)"

fun keeps_up :: "nat \<Rightarrow> hub_act list \<Rightarrow> hub \<Rightarrow> bool" where
  "keeps_up c [] h = True"
| "keeps_up c (a # as) h = (length (ch_buf (hb_chans h c)) < subBuf \<and> keeps_up c as (act a h))"

definition follows :: "rowid \<Rightarrow> subscription \<Rightarrow> progress_event list \<Rightarrow> hub \<Rightarrow> bool" where
  "follows i su evs h =
     (hub_ok h \<and> (\<exists>lr. hb_runs h i = Some lr \<and> lr_gen lr = su_gen su \<and> (su_id su, su_chan su) \<in> set (lr_subs lr) \<and>
        seqs_to (lr_seq lr) (evs @ ch_buf (hb_chans h (su_chan su))) \<and>
        (\<forall>ev \<in> set (evs @ ch_buf (hb_chans h (su_chan su))). pe_run ev = i)))"

lemma Subscribe_follows:
  assumes "hub_ok h" "Subscribe i h = (Some su, h')"
  shows "follows i su (su_snapshot su) h'"
proof -
  obtain lr where lr: "hb_runs h i = Some lr"
    using assms(2) by (cases "hb_runs h i") (simp_all add: Subscribe_def)
  have "hub_ok h'" using act_ok [OF assms(1), of "ActSubscribe i"] assms(2) by simp
  moreover have "live_ok i (hb_next_chan h) lr" using assms(1) lr by (simp add: hub_ok_def)
  ultimately show ?thesis using assms(2) lr by (auto simp: Subscribe_def Let_def follows_def live_ok_def)
qed

lemma published_chan:
  assumes "distinct (map snd (lr_subs lr))" "same_feed lr lr'"
  shows "hb_chans (publishLocked i lr' ev h) c =
    (if c \<in> snd ` set (lr_subs lr) then offer (ev\<lparr>pe_seq := lr_seq lr + 1\<rparr>) (hb_chans h c) else hb_chans h c)"
  using assms by (simp add: publishLocked_def Let_def same_feed_def offer_all)

lemma offer_room: "length (ch_buf c) < subBuf \<Longrightarrow> ch_buf (offer ev c) = ch_buf c @ [ev]"
  by (simp add: offer_def)

lemma ensure_known: "hb_runs h i = Some lr \<Longrightarrow> ensure i h = (lr, h)"
  by (simp add: ensure_def)

lemma follows_chan:
  assumes "follows i su evs h" "hb_runs h j = Some lr" "j \<noteq> i"
  shows "su_chan su \<notin> snd ` set (lr_subs lr)"
proof -
  obtain lr' where "hb_runs h i = Some lr'" "su_chan su \<in> chans_of lr'"
    using assms(1) by (force simp: follows_def chans_of_def)
  with assms show ?thesis unfolding follows_def hub_ok_def chans_of_def by blast
qed

text \<open>An event of the run reaches the channel of a subscriber with room for it.\<close>

lemma publishes_follows:
  assumes f: "follows i su evs h" and "publishes i a" and room: "length (ch_buf (hb_chans h (su_chan su))) < subBuf"
  shows "follows i su evs (act a h)"
proof -
  obtain lr where lr: "hb_runs h i = Some lr" "lr_gen lr = su_gen su" "(su_id su, su_chan su) \<in> set (lr_subs lr)"
    and seqs: "seqs_to (lr_seq lr) (evs @ ch_buf (hb_chans h (su_chan su)))"
    and runs: "\<forall>ev \<in> set (evs @ ch_buf (hb_chans h (su_chan su))). pe_run ev = i"
    using f by (auto simp: follows_def)
  have "publishing i lr h (act a h)" by (rule publishes_act [OF assms(2), of h]) (simp add: ensure_known [OF lr(1)])
  then obtain lr' ev where p: "same_feed lr lr'" "pe_run ev = i" "act a h = publishLocked i lr' ev h"
    unfolding publishing_def by blast
  have ok: "hub_ok h" using f by (simp add: follows_def)
  then have d: "distinct (map snd (lr_subs lr))" using lr(1) by (auto simp: hub_ok_def live_ok_def)
  have "su_chan su \<in> snd ` set (lr_subs lr)" using lr(3) by force
  with d p(1,3) room have "ch_buf (hb_chans (act a h) (su_chan su)) =
      ch_buf (hb_chans h (su_chan su)) @ [ev\<lparr>pe_seq := lr_seq lr + 1\<rparr>]"
    by (simp add: published_chan offer_room)
  moreover from this p lr obtain lr2 where "hb_runs (act a h) i = Some lr2" "lr_gen lr2 = su_gen su"
    "lr_subs lr2 = lr_subs lr" "lr_seq lr2 = lr_seq lr + 1"
    by (simp add: publishLocked_def Let_def same_feed_def)
  ultimately show ?thesis
    using lr(3) seqs_to_snoc [OF seqs, of ev] runs p(2) act_ok [OF ok] by (simp add: follows_def)
qed

text \<open>Everything else leaves the run and the channel alone.\<close>

lemma follows_frame:
  assumes "follows i su evs h" "hub_ok h'" "hb_runs h' i = hb_runs h i"
    "ch_buf (hb_chans h' (su_chan su)) = ch_buf (hb_chans h (su_chan su))"
  shows "follows i su evs h'"
  using assms by (simp add: follows_def)

lemma other_follows:
  assumes f: "follows i su evs h" and p: "publishes j a" "j \<noteq> i"
  shows "follows i su evs (act a h)"
proof -
  have ok: "hub_ok h" using f by (simp add: follows_def)
  obtain lr h' where e: "ensure j h = (lr, h')" and pub: "publishing j lr h' (act a h)" using p(1) by (rule publishes_act)
  note en = ensure_ok [OF ok e]
  then have f': "follows i su evs h'" using f p(2) by (auto intro: follows_frame)
  obtain lr' ev where x: "same_feed lr lr'" "act a h = publishLocked j lr' ev h'" using pub by (auto simp: publishing_def)
  have d: "distinct (map snd (lr_subs lr))" using en by (auto simp: hub_ok_def live_ok_def)
  have "su_chan su \<notin> snd ` set (lr_subs lr)" using follows_chan [OF f', of j lr] en p(2) by simp
  with d x p(2) have "hb_chans (act a h) (su_chan su) = hb_chans h' (su_chan su)" by (simp add: published_chan)
  moreover have "hb_runs (act a h) i = hb_runs h' i" using x(2) p(2) by (simp add: publishLocked_def Let_def)
  moreover note f'
  ultimately have "follows i su evs h' \<and> ch_buf (hb_chans (act a h) (su_chan su)) = ch_buf (hb_chans h' (su_chan su)) \<and>
    hb_runs (act a h) i = hb_runs h' i" by simp
  with f' act_ok [OF ok] show ?thesis by (auto intro: follows_frame)
qed

lemma close_all_buf:
  "ch_buf (fold (\<lambda>(_, c) cs. cs(c := (cs c)\<lparr>ch_closed := True\<rparr>)) subs cs d) = ch_buf (cs d)"
  by (induction subs arbitrary: cs) auto

lemma Close_buf: "ch_buf (hb_chans (Close i h) c) = ch_buf (hb_chans h c)"
  by (cases "hb_runs h i") (simp_all add: Close_def close_all_buf)

lemma Close_closes:
  assumes "follows i su evs h"
  shows "ch_closed (hb_chans (Close i h) (su_chan su))"
proof -
  have set_all: "ch_closed (cs d) \<or> d \<in> snd ` set subs \<Longrightarrow>
      ch_closed (fold (\<lambda>(_, c) cs. cs(c := (cs c)\<lparr>ch_closed := True\<rparr>)) subs cs d)" for subs :: "(nat \<times> nat) list" and cs d
    by (induction subs arbitrary: cs) auto
  from assms show ?thesis unfolding follows_def Close_def by (force intro: set_all)
qed

lemma act_follows:
  assumes f: "follows i su evs h" and room: "length (ch_buf (hb_chans h (su_chan su))) < subBuf"
    and a: "a \<noteq> ActClose i" "a \<noteq> ActCancel i (su_gen su) (su_id su)"
  shows "follows i su (evs @ taken (su_chan su) a h) (act a h)"
proof (cases "\<exists>j. publishes j a")
  case True
  then obtain j where "publishes j a" by blast
  moreover from this have "taken (su_chan su) a h = []" by (auto simp: publishes_def taken_def)
  ultimately show ?thesis using publishes_follows [OF f _ room] other_follows [OF f] by (cases "j = i") auto
next
  case no: False
  have ok: "hub_ok (act a h)" using act_ok f by (simp add: follows_def)
  obtain lr where lr: "hb_runs h i = Some lr" "lr_gen lr = su_gen su" "(su_id su, su_chan su) \<in> set (lr_subs lr)"
    and live: "live_ok i (hb_next_chan h) lr" using f by (auto simp: follows_def hub_ok_def)
  show ?thesis
  proof (cases a)
    case (ActClose j)
    with a(1) have "hb_runs (act a h) i = hb_runs h i" by (auto simp: Close_def split: option.split)
    then show ?thesis using follows_frame [OF f ok] ActClose by (simp add: taken_def Close_buf)
  next
    case (ActSubscribe j)
    have "su_chan su \<noteq> hb_next_chan h" using lr(3) live by (auto simp: live_ok_def)
    then show ?thesis using f ok ActSubscribe
      by (cases "j = i"; cases "hb_runs h j") (auto simp: taken_def follows_def Subscribe_def Let_def)
  next
    case (ActCancel j g s)
    then show ?thesis using f ok lr a(2)
      by (cases "j = i"; cases "hb_runs h j") (auto simp: taken_def follows_def cancel_def split: if_splits)
  next
    case (ActReceive c)
    then show ?thesis using f ok
      by (cases "c = su_chan su"; cases "ch_buf (hb_chans h c)") (auto simp: taken_def follows_def receive_def)
  qed (use no f in \<open>auto simp: publishes_def Total_def taken_def\<close>)
qed

lemma watch_follows:
  assumes "follows i su evs h" "keeps_up (su_chan su) as h"
    "ActClose i \<notin> set as" "ActCancel i (su_gen su) (su_id su) \<notin> set as"
  shows "follows i su (evs @ watch (su_chan su) as h) (fold act as h)"
  using assms
proof (induction as arbitrary: evs h)
  case (Cons a as)
  have "follows i su (evs @ taken (su_chan su) a h) (act a h)"
    using Cons.prems by (intro act_follows) auto
  from Cons.IH [OF this] Cons.prems show ?case by simp
qed simp

text \<open>
  C40: a run's stream has no gaps. A client that subscribes to a live run and reads its channel
  before 256 events wait there holds, in the replayed snapshot, the events it has received and those
  waiting for it, an unbroken sequence of the run's own events up to the latest one published,
  whatever else is published, subscribed, cancelled, read or closed in between; the snapshot is the
  latest 256 events or all of them. Closing the run takes nothing away: what waits is still there,
  before the end of the stream.
\<close>

theorem hub_stream_gapless:
  assumes "Subscribe i (fold act before NewHub) = (Some su, h)"
    "keeps_up (su_chan su) as h" "ActClose i \<notin> set as" "ActCancel i (su_gen su) (su_id su) \<notin> set as"
  defines "h' \<equiv> fold act as h"
  defines "got \<equiv> su_snapshot su @ watch (su_chan su) as h @ ch_buf (hb_chans h' (su_chan su))"
  shows "(\<exists>lr. hb_runs h' i = Some lr \<and> map pe_seq got = [lr_seq lr + 1 - int (length got)..lr_seq lr]) \<and>
    (\<forall>ev \<in> set got. pe_run ev = i) \<and>
    (\<exists>lr. hb_runs h i = Some lr \<and> length (su_snapshot su) = min 256 (nat (lr_seq lr))) \<and>
    ch_closed (hb_chans (Close i h') (su_chan su)) \<and>
    ch_buf (hb_chans (Close i h') (su_chan su)) = ch_buf (hb_chans h' (su_chan su))"
proof -
  have ok: "hub_ok (fold act before NewHub)" by (simp add: acts_ok)
  have f: "follows i su (su_snapshot su @ watch (su_chan su) as h) h'"
    unfolding h'_def by (rule watch_follows [OF Subscribe_follows [OF ok assms(1)] assms(2-4)])
  have "\<exists>lr. hb_runs h i = Some lr \<and> length (su_snapshot su) = min 256 (nat (lr_seq lr))"
    using assms(1) ok by (auto simp: Subscribe_def Let_def hub_ok_def live_ok_def tailMax_def split: option.splits)
  with f Close_closes [OF f] show ?thesis by (auto simp: follows_def seqs_to_def got_def Close_buf)
qed

definition sample_before :: "hub_act list" where
  "sample_before = [ActPhase 10 7 PhaseResolve, ActLog 11 7 PhaseResolve ''up'']"

definition sample_acts :: "hub_act list" where
  "sample_acts = [ActSubscribe 8, ActBytes 20 7 512, ActReceive 0, ActLog 21 8 PhaseStream ''other run'',
     ActStatus 22 7 StatusSuccess, ActReceive 0, ActReceive 0, ActBytes 23 7 1024]"

definition sample_hub :: hub where "sample_hub = snd (Subscribe 7 (fold act sample_before NewHub))"

definition sample_sub :: subscription where
  "sample_sub = \<lparr>su_snapshot = [(blank_event 7 EventPhase PhaseResolve 10)\<lparr>pe_seq := 1\<rparr>,
     (blank_event 7 EventLog PhaseResolve 11)\<lparr>pe_seq := 2, pe_message := ''up''\<rparr>], su_chan = 0, su_gen = 0, su_id = 0\<rparr>"

lemmas hub_eval = act.simps Phase_def Log_def Bytes_def Status_def Subscribe_def ensure_def publishLocked_def
  NewHub_def new_live_def blank_event_def offer_def last_n_def tailMax_def subBuf_def receive_def Let_def

theorem hub_stream_gapless_witness:
  "\<exists>lr. hb_runs (fold act sample_acts sample_hub) 7 = Some lr \<and>
    map pe_seq (su_snapshot sample_sub @ watch 0 sample_acts sample_hub @ ch_buf (hb_chans (fold act sample_acts sample_hub) 0)) =
      [lr_seq lr + 1 - 5..lr_seq lr] \<and> map pe_seq (watch 0 sample_acts sample_hub) = [3, 4]"
proof -
  have s: "Subscribe 7 (fold act sample_before NewHub) = (Some sample_sub, sample_hub)"
    by (simp add: sample_hub_def sample_sub_def sample_before_def hub_eval)
  have k: "keeps_up 0 sample_acts sample_hub" "map pe_seq (watch 0 sample_acts sample_hub) = [3, 4]"
    "length (ch_buf (hb_chans (fold act sample_acts sample_hub) 0)) = 1"
    by (simp_all add: sample_hub_def sample_before_def sample_acts_def hub_eval taken_def)
  from arg_cong [OF k(2), of length] have l: "length (watch 0 sample_acts sample_hub) = 2" by simp
  with hub_stream_gapless [OF s, of sample_acts] k show ?thesis
    by (simp add: sample_sub_def) (simp add: sample_acts_def)
qed

end
