(* ===== verification/Ops.thy ===== *)
theory Ops
  imports Prelude
begin

text \<open>
  How operations that may fail are put together: the sequence that stops at the first error, the
  wrapping of an error, a deferred call. Beside the combinators are the rules for reasoning about
  them: hoare P f Q E says that from a state satisfying P the operation f ends either well, with a
  value and a state satisfying Q, or with an error in a state satisfying E.
\<close>

subsection \<open>Combinators\<close>

definition pure_step :: "err + 'a \<Rightarrow> ('s, 'a) op" where "pure_step r s = (r, s)"

definition wrapped :: "string \<Rightarrow> ('s, 'a) op \<Rightarrow> ('s, 'a) op" where
  "wrapped p f s = (case f s of (Inl e, s) \<Rightarrow> (Inl (Wrap p e), s) | (Inr x, s) \<Rightarrow> (Inr x, s))"

definition and_then :: "('s, 'a) op \<Rightarrow> ('a \<Rightarrow> ('s, 'b) op) \<Rightarrow> ('s, 'b) op" where
  "and_then f g s = (case f s of (Inl e, s) \<Rightarrow> (Inl e, s) | (Inr x, s) \<Rightarrow> g x s)"

definition before :: "('s \<Rightarrow> 's) \<Rightarrow> ('s, 'a) op \<Rightarrow> ('s, 'a) op" where
  "before f m s = m (f s)"

definition with_state :: "('s \<Rightarrow> ('s, 'a) op) \<Rightarrow> ('s, 'a) op" where
  "with_state g s = g s s"

text \<open>A deferred call that runs when the rest has failed; after success it is still pending.\<close>

definition on_failure :: "('s \<Rightarrow> 's) \<Rightarrow> ('s, 'a) op \<Rightarrow> ('s, 'a) op" where
  "on_failure f m s = (case m s of (Inl e, s) \<Rightarrow> (Inl e, f s) | (Inr x, s) \<Rightarrow> (Inr x, s))"

text \<open>A loop over the elements of a slice that returns at the first error.\<close>

fun for_each :: "('a \<Rightarrow> ('s, unit) op) \<Rightarrow> 'a list \<Rightarrow> ('s, unit) op" where
  "for_each f [] = pure_step (Inr ())"
| "for_each f (x # xs) = and_then (f x) (\<lambda>_. for_each f xs)"

subsection \<open>Triples\<close>

definition hoare :: "('s \<Rightarrow> bool) \<Rightarrow> ('s \<Rightarrow> ('e + 'a) \<times> 's) \<Rightarrow> ('a \<Rightarrow> 's \<Rightarrow> bool) \<Rightarrow> ('s \<Rightarrow> bool) \<Rightarrow> bool" where
  "hoare P f Q E =
     (\<forall>s. P s \<longrightarrow> (case f s of (Inl e, s') \<Rightarrow> E s' | (Inr x, s') \<Rightarrow> Q x s'))"

lemma hoareD_ok: "hoare P f Q E \<Longrightarrow> P s \<Longrightarrow> f s = (Inr x, s') \<Longrightarrow> Q x s'"
  by (auto simp: hoare_def dest: spec [of _ s])

lemma hoareD_err: "hoare P f Q E \<Longrightarrow> P s \<Longrightarrow> f s = (Inl e, s') \<Longrightarrow> E s'"
  by (auto simp: hoare_def dest: spec [of _ s])

lemma hoareI:
  assumes "\<And>s x s'. P s \<Longrightarrow> f s = (Inr x, s') \<Longrightarrow> Q x s'"
    and "\<And>s e s'. P s \<Longrightarrow> f s = (Inl e, s') \<Longrightarrow> E s'"
  shows "hoare P f Q E"
  unfolding hoare_def using assms by (auto split: prod.split sum.split)

lemma hoare_weaken:
  assumes "hoare P' f Q' E'" "\<And>s. P s \<Longrightarrow> P' s" "\<And>x s. Q' x s \<Longrightarrow> Q x s" "\<And>s. E' s \<Longrightarrow> E s"
  shows "hoare P f Q E"
  using assms unfolding hoare_def by (fastforce split: prod.splits sum.splits)

lemma hoare_pure:
  "hoare (\<lambda>s. case r of Inl e \<Rightarrow> E s | Inr x \<Rightarrow> Q x s) (pure_step r) Q E"
  by (cases r) (simp_all add: hoare_def pure_step_def)

lemma hoare_return [intro]: "(\<And>s. P s \<Longrightarrow> Q x s) \<Longrightarrow> hoare P (pure_step (Inr x)) Q E"
  by (simp add: hoare_def pure_step_def)

lemma hoare_fail [intro]: "(\<And>s. P s \<Longrightarrow> E s) \<Longrightarrow> hoare P (pure_step (Inl e)) Q E"
  by (simp add: hoare_def pure_step_def)

lemma hoare_and_then:
  assumes "hoare P f R E" "\<And>x. hoare (R x) (g x) Q E"
  shows "hoare P (and_then f g) Q E"
proof (rule hoareI)
  fix s x s' assume s: "P s" and f: "and_then f g s = (Inr x, s')"
  show "Q x s'"
    using f hoareD_ok [OF assms(1) s] hoareD_ok [OF assms(2)]
    by (auto simp: and_then_def split: prod.splits sum.splits)
next
  fix s e s' assume s: "P s" and f: "and_then f g s = (Inl e, s')"
  show "E s'"
    using f hoareD_ok [OF assms(1) s] hoareD_err [OF assms(1) s] hoareD_err [OF assms(2)]
    by (auto simp: and_then_def split: prod.splits sum.splits)
qed

lemma hoare_wrapped [intro]: "hoare P f Q E \<Longrightarrow> hoare P (wrapped p f) Q E"
  unfolding hoare_def wrapped_def by (fastforce split: prod.splits sum.splits)

lemma hoare_if [intro]:
  "(b \<Longrightarrow> hoare P f Q E) \<Longrightarrow> (\<not> b \<Longrightarrow> hoare P g Q E) \<Longrightarrow> hoare P (if b then f else g) Q E"
  by simp

lemma hoare_for_each:
  assumes "\<And>x. x \<in> set xs \<Longrightarrow> hoare I (f x) (\<lambda>_. I) E"
  shows "hoare I (for_each f xs) (\<lambda>_. I) E"
  using assms
proof (induction xs)
  case Nil
  then show ?case by (simp add: hoare_return)
next
  case (Cons x xs)
  show ?case
    unfolding for_each.simps
    by (rule hoare_and_then [where R = "\<lambda>_. I"]) (simp_all add: Cons)
qed

lemma and_then_Inr [simp]: "f s = (Inr x, s') \<Longrightarrow> and_then f g s = g x s'"
  by (simp add: and_then_def)

lemma and_then_Inl [simp]: "f s = (Inl e, s') \<Longrightarrow> and_then f g s = (Inl e, s')"
  by (simp add: and_then_def)

lemma and_then_Inr_iff:
  "and_then f g s = (Inr y, s') \<longleftrightarrow> (\<exists>x u. f s = (Inr x, u) \<and> g x u = (Inr y, s'))"
  by (auto simp: and_then_def split: prod.splits sum.splits)

lemma wrapped_Inr_iff [simp]: "wrapped p f s = (Inr x, s') \<longleftrightarrow> f s = (Inr x, s')"
  by (auto simp: wrapped_def split: prod.splits sum.splits)

lemma pure_step_iff: "pure_step r s = (q, s') \<longleftrightarrow> q = r \<and> s' = s"
  by (auto simp: pure_step_def)

end
