(* ===== verification/Executor.thy ===== *)
theory Executor
  imports Pipeline Worker Hub Ops
begin

text \<open>
  The executor, internal/core/executor.go: resolve the plugins and credentials of a task, run the
  pipeline, record the artifact and the end of the run. Between the calls the state is the run's
  log together with the world; the message texts are those of the code, with %q for names that need
  no escaping.
\<close>

subsection \<open>What the executor works with\<close>

record 'w publisher =
  pb_phase :: "rowid \<Rightarrow> phase \<Rightarrow> 'w \<Rightarrow> 'w"
  pb_log :: "rowid \<Rightarrow> phase \<Rightarrow> string \<Rightarrow> 'w \<Rightarrow> 'w"
  pb_bytes :: "rowid \<Rightarrow> int \<Rightarrow> 'w \<Rightarrow> 'w"
  pb_total :: "rowid \<Rightarrow> int \<Rightarrow> 'w \<Rightarrow> 'w"
  pb_status :: "rowid \<Rightarrow> run_status \<Rightarrow> 'w \<Rightarrow> 'w"
  pb_close :: "rowid \<Rightarrow> 'w \<Rightarrow> 'w"

text \<open>es_last_size is the optional LastSuccessfulArtifactSize.\<close>

record 'w executor_store =
  es_connection :: "rowid \<Rightarrow> ('w, connection) op"
  es_storage :: "rowid \<Rightarrow> ('w, storage) op"
  es_insert :: "artifact \<Rightarrow> ('w, rowid) op"
  es_finish :: "rowid \<Rightarrow> run_status \<Rightarrow> string \<Rightarrow> string \<Rightarrow> ('w, unit) op"
  es_last_size :: "(rowid \<Rightarrow> ('w, int) op) option"

text \<open>The registries are package variables in the code; ex_stamp is the time a log line starts with.\<close>

record ('w, 'c) executor =
  ex_store :: "'w executor_store"
  ex_open :: "string \<Rightarrow> ('w, string) op"
  ex_now :: "'w \<Rightarrow> time"
  ex_stamp :: "'w \<Rightarrow> string"
  ex_pub :: "'w publisher option"
  ex_connectors :: "'w connector registry"
  ex_dumpers :: "'w dumper registry"
  ex_storages :: "'w sink registry"
  ex_codecs :: "'c codec registry"
  ex_sha256 :: "string \<Rightarrow> string"

subsection \<open>The log of a run\<close>

record run_log =
  rl_lines :: "string list"
  rl_phase :: phase

type_synonym 'w logged = "run_log \<times> 'w"

definition setPhase :: "('w, 'c) executor \<Rightarrow> rowid \<Rightarrow> phase \<Rightarrow> 'w logged \<Rightarrow> 'w logged" where
  "setPhase X rid p s =
     (case s of (lg, w) \<Rightarrow>
        (lg\<lparr>rl_phase := p\<rparr>, case ex_pub X of None \<Rightarrow> w | Some b \<Rightarrow> pb_phase b rid p w))"

definition add_line :: "('w, 'c) executor \<Rightarrow> rowid \<Rightarrow> string \<Rightarrow> 'w logged \<Rightarrow> 'w logged" where
  "add_line X rid text s =
     (case s of (lg, w) \<Rightarrow>
        let msg = Scrub text in
        (lg\<lparr>rl_lines := rl_lines lg @ [ex_stamp X w @ '' '' @ msg]\<rparr>,
         case ex_pub X of None \<Rightarrow> w | Some b \<Rightarrow> pb_log b rid (rl_phase lg) msg w))"

definition log_text :: "run_log \<Rightarrow> string" where
  "log_text lg = join_with (CHR 0x0A) (rl_lines lg)"

subsection \<open>Steps that may fail\<close>

definition on_w :: "('w, 'a) op \<Rightarrow> ('w logged, 'a) op" where
  "on_w f s = (case s of (lg, w) \<Rightarrow> case f w of (r, w) \<Rightarrow> (r, lg, w))"

definition on_world_of :: "('w \<Rightarrow> 'w) \<Rightarrow> 'w logged \<Rightarrow> 'w logged" where
  "on_world_of f s = (case s of (lg, w) \<Rightarrow> (lg, f w))"

subsection \<open>Assembling the pipeline\<close>

text \<open>json.Unmarshal into a map; null leaves the map nil.\<close>

definition unmarshal_options :: "raw \<Rightarrow> err + dump_options" where
  "unmarshal_options r =
     (if r = raw_empty then Inr []
      else case r of
        Raw JNull \<Rightarrow> Inr []
      | Raw (JObj kvs) \<Rightarrow> Inr kvs
      | Raw _ \<Rightarrow> Inl (Wrap ''dumper opts: '' (Errorf ''cannot unmarshal into map''))
      | BadRaw _ \<Rightarrow> Inl (Wrap ''dumper opts: '' (Errorf ''invalid JSON'')))"

text \<open>The last member of a name is the one the decoded map holds.\<close>

definition option_value :: "dump_options \<Rightarrow> string \<Rightarrow> json option" where
  "option_value opts k = map_of (rev opts) k"

fun create_codecs :: "'c codec registry \<Rightarrow> string list \<Rightarrow> err + 'c codec list" where
  "create_codecs R [] = Inr []"
| "create_codecs R (n # ns) =
     (case Create R n raw_empty of
        Inl e \<Rightarrow> Inl e
      | Inr c \<Rightarrow> (case create_codecs R ns of Inl e \<Rightarrow> Inl e | Inr cs \<Rightarrow> Inr (c # cs)))"

definition resolveCreds :: "('w, 'c) executor \<Rightarrow> string \<Rightarrow> ('w, credentials) op" where
  "resolveCreds X ref w =
     (if ref = [] then (Inr \<lparr>cr_user = [], cr_password = [], cr_database = []\<rparr>, w)
      else case ex_open X ref w of
        (Inl e, w) \<Rightarrow> (Inl e, w)
      | (Inr pw, w) \<Rightarrow> (Inr \<lparr>cr_user = [], cr_password = pw, cr_database = []\<rparr>, w))"

definition codecs_line :: "string list \<Rightarrow> string" where
  "codecs_line chain =
     (if chain = [] then ''codecs: none''
      else ''codecs: '' @ hd chain @ concat (map (\<lambda>n. '' -> '' @ n) (tl chain)))"

text \<open>The database and format segments of the artifact's key.\<close>

definition key_parts :: "string \<Rightarrow> dump_options \<Rightarrow> string \<times> string" where
  "key_parts engine opts =
     (let dbname = string_of (option_value opts ''database''); fmt = string_of (option_value opts ''format'');
          all_dbs = (option_value opts ''all_databases'' = Some (JBool True));
          fmt = (if all_dbs \<and> engine = ''postgres'' then ''plain'' else fmt);
          dbname = (if all_dbs then ''all'' else dbname)
      in (if dbname = [] then ''all'' else dbname, fmt))"

record ('w, 'c) assembled =
  st_storage :: rowid
  st_input :: "('w, 'c) pipeline_input"
  st_hint :: string

definition bytesHook :: "('w, 'c) executor \<Rightarrow> rowid \<Rightarrow> (int \<Rightarrow> 'w \<Rightarrow> 'w) option" where
  "bytesHook X rid = map_option (\<lambda>b. pb_bytes b rid) (ex_pub X)"

definition assemble ::
  "('w, 'c) executor \<Rightarrow> task \<Rightarrow> rowid \<Rightarrow> connection \<Rightarrow> storage \<Rightarrow> 'w connector \<Rightarrow> raw \<Rightarrow> 'w dumper \<Rightarrow> 'w sink \<Rightarrow>
   ('w logged, ('w, 'c) assembled) op" where
  "assemble X t rid con sto connector dumperOpts dumper sink =
     and_then (pure_step (create_codecs (ex_codecs X) (task_codecs t))) (\<lambda>codecs.
     before (add_line X rid (codecs_line (task_codecs t))) (
     and_then (on_w (resolveCreds X (con_secret_ref con))) (\<lambda>creds.
     before (if con_secret_ref con \<noteq> [] then add_line X rid (''credentials: resolved '' @ con_secret_ref con) else id) (
     and_then (pure_step (unmarshal_options dumperOpts)) (\<lambda>opts.
     and_then (pure_step (unmarshal_options (task_opts t))) (\<lambda>hintOpts.
     with_state (\<lambda>s. let (dbname, fmt) = key_parts (con_engine con) opts;
          key = BuildArtifactKey (task_name t) dbname (con_engine con) fmt (map cd_ext codecs) (ex_now X (snd s)) in
        before (add_line X rid (''artifact key: '' @ key))
          (pure_step (Inr \<lparr>st_storage = sto_id sto,
             st_input = \<lparr>pi_connector = connector, pi_dumper = dumper, pi_codecs = codecs, pi_storage = sink,
               pi_creds = creds\<lparr>cr_user := con_user con\<rparr>, pi_opts = opts, pi_key = key,
               pi_on_bytes = bytesHook X rid\<rparr>,
             st_hint = dp_hint dumper hintOpts\<rparr>)))))))))"

definition prepare :: "('w, 'c) executor \<Rightarrow> task \<Rightarrow> rowid \<Rightarrow> ('w logged, ('w, 'c) assembled) op" where
  "prepare X t rid =
     and_then (wrapped (''connection '' @ dec (task_connection t) @ '': '')
       (on_w (es_connection (ex_store X) (task_connection t)))) (\<lambda>con.
     before (add_line X rid (''connection: '' @ con_name con @ '' ('' @ con_engine con @ ''/'' @ con_type con @ '')'')) (
     and_then (wrapped (''storage '' @ dec (task_storage t) @ '': '')
       (on_w (es_storage (ex_store X) (task_storage t)))) (\<lambda>sto.
     before (add_line X rid (''storage: '' @ sto_name sto @ '' ('' @ sto_type sto @ '')'')) (
     and_then (wrapped ''connector config: '' (on_w (Resolve (ex_open X) (con_config con)))) (\<lambda>connectorConfig.
     and_then (pure_step (Create (ex_connectors X) (con_type con) connectorConfig)) (\<lambda>connector.
     and_then (wrapped ''dumper options: '' (on_w (Resolve (ex_open X) (task_opts t)))) (\<lambda>dumperOpts.
     and_then (pure_step (Create (ex_dumpers X) (con_engine con) dumperOpts)) (\<lambda>dumper.
     and_then (wrapped ''storage config: '' (on_w (Resolve (ex_open X) (sto_config sto)))) (\<lambda>storageConfig.
     and_then (pure_step (Create (ex_storages X) (sto_type sto) storageConfig)) (\<lambda>sink.
     on_failure (on_world_of (sk_close sink))
       (assemble X t rid con sto connector dumperOpts dumper sink)))))))))))"

subsection \<open>Running\<close>

definition publish_total :: "('w, 'c) executor \<Rightarrow> task \<Rightarrow> rowid \<Rightarrow> 'w \<Rightarrow> 'w" where
  "publish_total X t rid w =
     (case (ex_pub X, es_last_size (ex_store X)) of
        (Some b, Some last_size) \<Rightarrow>
          (case last_size (task_id t) w of
             (Inl e, w) \<Rightarrow> w
           | (Inr tot, w) \<Rightarrow> if tot > 0 then pb_total b rid tot w else w)
      | _ \<Rightarrow> w)"

text \<open>The artifact row and the end of the run, on a context that is never cancelled.\<close>

definition record_success ::
  "('w, 'c) executor \<Rightarrow> rowid \<Rightarrow> ('w, 'c) assembled \<Rightarrow> pipeline_result \<Rightarrow> ('w logged, outcome) op" where
  "record_success X rid st res =
     before (setPhase X rid PhaseRecord) (
     before (add_line X rid (''pipeline complete: '' @ dec (pr_size res) @ '' bytes sha256:'' @ pr_checksum res)) (
     and_then (wrapped ''insert artifact: '' (on_w (es_insert (ex_store X)
       \<lparr>art_id = 0, art_run = rid, art_storage = st_storage st, art_key = pr_key res, art_size = pr_size res,
        art_checksum = pr_checksum res, art_created = zero_time, art_expires = None\<rparr>))) (\<lambda>aid.
     before (add_line X rid (''artifact recorded: id='' @ dec aid)) (
     before (add_line X rid ''success'') (
     with_state (\<lambda>s. and_then (wrapped ''finish run: '' (on_w (es_finish (ex_store X) rid StatusSuccess (log_text (fst s)) []))) (\<lambda>_.
       pure_step (Inr \<lparr>out_key = pr_key res, out_size = pr_size res, out_checksum = pr_checksum res,
         out_artifact = aid, out_hint = st_hint st\<rparr>))))))))"

text \<open>What run announces before the pipeline.\<close>

definition streaming :: "('w, 'c) executor \<Rightarrow> task \<Rightarrow> rowid \<Rightarrow> 'w logged \<Rightarrow> 'w logged" where
  "streaming X t rid s =
     add_line X rid ''pipeline: dump -> codecs -> storage''
       (setPhase X rid PhaseStream (on_world_of (publish_total X t rid) s))"

text \<open>run; None when the pipeline does not return.\<close>

definition run_steps :: "('w, 'c) executor \<Rightarrow> task \<Rightarrow> rowid \<Rightarrow> 'w logged \<Rightarrow> ((err + outcome) \<times> 'w logged) option" where
  "run_steps X t rid s =
     (case prepare X t rid s of
        (Inl e, s) \<Rightarrow> Some (Inl e, s)
      | (Inr st, s) \<Rightarrow>
          let s = streaming X t rid s in
          case RunPipeline (ex_sha256 X) (st_input st) (snd s) of
               None \<Rightarrow> None
             | Some (res, w) \<Rightarrow>
                 (case and_then (pure_step res) (record_success X rid st) (fst s, w) of
                    (r, s) \<Rightarrow> Some (r, on_world_of (sk_close (pi_storage (st_input st))) s)))"

definition publishTerminal :: "('w, 'c) executor \<Rightarrow> rowid \<Rightarrow> run_status \<Rightarrow> 'w \<Rightarrow> 'w" where
  "publishTerminal X rid status w =
     (case ex_pub X of None \<Rightarrow> w | Some b \<Rightarrow> pb_close b rid (pb_status b rid status w))"

definition Run :: "('w, 'c) executor \<Rightarrow> task \<Rightarrow> rowid \<Rightarrow> 'w \<Rightarrow> ((err + outcome) \<times> 'w) option" where
  "Run X t rid w =
     (let s = setPhase X rid PhaseResolve (\<lparr>rl_lines = [], rl_phase = PhaseResolve\<rparr>, w);
          s = add_line X rid (''run '' @ dec rid @ '': task '' @ quoted (task_name t) @ '' started'') s
      in case run_steps X t rid s of
           None \<Rightarrow> None
         | Some (Inl e, s) \<Rightarrow>
             (case add_line X rid (''failed: '' @ err_text e) s of
                (lg, w) \<Rightarrow>
                  let w = snd (es_finish (ex_store X) rid StatusFailed (log_text lg) (Scrub (err_text e)) w)
                  in Some (Inl e, publishTerminal X rid StatusFailed w))
         | Some (Inr out, s) \<Rightarrow> Some (Inr out, publishTerminal X rid StatusSuccess (snd s)))"

subsection \<open>What a run leaves alone\<close>

text \<open>
  The plugins and the reads of a run respect a relation; what remains is the storage's Write and
  the two recording statements.
\<close>

locale executor_frame = frame R for R :: "'w \<Rightarrow> 'w \<Rightarrow> bool" +
  fixes X :: "('w, 'c) executor"
  assumes pub: "ex_pub X = Some b \<Longrightarrow> R w (pb_phase b i p w) \<and> R w (pb_log b i p m w) \<and> R w (pb_bytes b i n w) \<and>
      R w (pb_total b i n w) \<and> R w (pb_status b i st w) \<and> R w (pb_close b i w)"
    and connection_row: "keeps (es_connection (ex_store X) i)"
    and storage_row: "keeps (es_storage (ex_store X) i)"
    and last_size: "es_last_size (ex_store X) = Some f \<Longrightarrow> keeps (f i)"
    and secret: "keeps (ex_open X ref)"
    and connectors: "Create (ex_connectors X) k cfg = Inr c \<Longrightarrow> keeps (cn_open c) \<and> R w (cn_close c w)"
    and dumpers: "Create (ex_dumpers X) k cfg = Inr d \<Longrightarrow> dp_dump d ep cr opts w = (r, w') \<Longrightarrow>
      R w w' \<and> (\<forall>src cl. r = Inr (src, cl) \<longrightarrow> R u (cl u))"
    and sinks: "Create (ex_storages X) k cfg = Inr s \<Longrightarrow> R w (sk_close s w)"
begin

lemma setPhase_R: "R (snd s) (snd (setPhase X rid p s))"
  by (auto simp: setPhase_def same pub split: prod.split option.split)

lemma add_line_R: "R (snd s) (snd (add_line X rid m s))"
  by (auto simp: add_line_def Let_def same pub split: prod.split option.split)

lemma report_R: "R w (report (bytesHook X rid) ns w)"
proof (cases "ex_pub X")
  case None
  then show ?thesis by (simp add: report_def bytesHook_def same)
next
  case (Some b)
  have "R w (fold (pb_bytes b rid) ns w)" for w
  proof (induction ns arbitrary: w)
    case (Cons n ns)
    have "R w (pb_bytes b rid n w)" using pub [OF Some] by blast
    then show ?case using Cons by (auto intro: chain)
  qed (simp add: same)
  with Some show ?thesis by (simp add: report_def bytesHook_def)
qed

lemma publish_total_R: "R w (publish_total X t rid w)"
  by (auto simp: publish_total_def same split: option.split prod.split sum.split
      intro: chain dest: keepsD [OF last_size] intro!: pub [THEN conjunct2, THEN conjunct2, THEN conjunct2, THEN conjunct1])

text \<open>From states related to w0, a step keeps the relation and returns only what satisfies Q.\<close>

definition ensures :: "'w \<Rightarrow> ('w logged, 'a) op \<Rightarrow> ('a \<Rightarrow> bool) \<Rightarrow> bool" where
  "ensures w0 f Q = (\<forall>s r s'. R w0 (snd s) \<longrightarrow> f s = (r, s') \<longrightarrow> R w0 (snd s') \<and> (\<forall>x. r = Inr x \<longrightarrow> Q x))"

lemma ensuresD: "ensures w0 f Q \<Longrightarrow> R w0 (snd s) \<Longrightarrow> f s = (r, s') \<Longrightarrow> R w0 (snd s') \<and> (\<forall>x. r = Inr x \<longrightarrow> Q x)"
  unfolding ensures_def by blast

lemma ensures_weaken: "ensures w0 f P \<Longrightarrow> (\<And>x. P x \<Longrightarrow> Q x) \<Longrightarrow> ensures w0 f Q"
  unfolding ensures_def by blast

lemma ensures_and_then:
  assumes "ensures w0 f P" "\<And>x. P x \<Longrightarrow> ensures w0 (g x) Q"
  shows "ensures w0 (and_then f g) Q"
  unfolding ensures_def
proof (intro allI impI)
  fix s r s' assume s: "R w0 (snd s)" and "and_then f g s = (r, s')"
  moreover obtain q u where q: "f s = (q, u)" by (cases "f s")
  moreover have "R w0 (snd s') \<and> (\<forall>x. r = Inr x \<longrightarrow> Q x)" if "P y" "R w0 (snd u)" "g y u = (r, s')" for y
    using ensuresD [OF assms(2) [OF that(1)] that(2,3)] .
  ultimately show "R w0 (snd s') \<and> (\<forall>x. r = Inr x \<longrightarrow> Q x)"
    using ensuresD [OF assms(1) s q] by (cases q) (auto simp: and_then_def)
qed

lemma ensures_return: "Q x \<Longrightarrow> ensures w0 (pure_step (Inr x)) Q"
  by (simp add: ensures_def pure_step_def)

lemma ensures_pure: "ensures w0 (pure_step r) (\<lambda>x. r = Inr x)"
  by (simp add: ensures_def pure_step_def)

lemma ensures_state: "(\<And>s. ensures w0 (g s) Q) \<Longrightarrow> ensures w0 (with_state g) Q"
  unfolding ensures_def with_state_def by blast

lemma ensures_wrapped: "ensures w0 f Q \<Longrightarrow> ensures w0 (wrapped p f) Q"
  unfolding ensures_def wrapped_def by (auto split: prod.splits sum.splits)

lemma ensures_before:
  assumes "\<And>s. R (snd s) (snd (f s))" "ensures w0 m Q"
  shows "ensures w0 (before f m) Q"
  using assms unfolding ensures_def before_def by (blast intro: chain)

lemma ensures_on_failure:
  assumes "\<And>s. R (snd s) (snd (f s))" "ensures w0 m Q"
  shows "ensures w0 (on_failure f m) Q"
  unfolding ensures_def
proof (intro allI impI)
  fix s r s' assume s: "R w0 (snd s)" and "on_failure f m s = (r, s')"
  moreover obtain q u where q: "m s = (q, u)" by (cases "m s")
  ultimately show "R w0 (snd s') \<and> (\<forall>x. r = Inr x \<longrightarrow> Q x)"
    using ensuresD [OF assms(2) s q] assms(1) [of u] by (cases q) (auto simp: on_failure_def intro: chain)
qed

text \<open>The strongest fact about a read: some state related to w0 gave the value.\<close>

definition read_of :: "'w \<Rightarrow> ('w, 'a) op \<Rightarrow> 'a \<Rightarrow> bool" where
  "read_of w0 f x = (\<exists>w w'. R w0 w \<and> f w = (Inr x, w'))"

lemma ensures_on_w: "keeps f \<Longrightarrow> ensures w0 (on_w f) (read_of w0 f)"
  unfolding ensures_def on_w_def read_of_def by (auto split: prod.splits dest: keepsD intro: chain)

lemma resolveCreds_keeps: "keeps (resolveCreds X ref)"
  by (rule keepsI) (auto simp: resolveCreds_def same split: if_splits prod.splits sum.splits dest: keepsD [OF secret])

text \<open>Where the parts of an assembled pipeline come from.\<close>

definition assembled_for :: "'w \<Rightarrow> task \<Rightarrow> rowid \<Rightarrow> ('w, 'c) assembled \<Rightarrow> bool" where
  "assembled_for w0 t rid st =
     (\<exists>con sto connector ccfg dumper dcfg sink scfg codecs creds opts key hint.
        read_of w0 (es_connection (ex_store X) (task_connection t)) con \<and>
        read_of w0 (es_storage (ex_store X) (task_storage t)) sto \<and>
        read_of w0 (Resolve (ex_open X) (sto_config sto)) scfg \<and>
        Create (ex_connectors X) (con_type con) ccfg = Inr connector \<and>
        Create (ex_dumpers X) (con_engine con) dcfg = Inr dumper \<and>
        Create (ex_storages X) (sto_type sto) scfg = Inr sink \<and>
        create_codecs (ex_codecs X) (task_codecs t) = Inr codecs \<and>
        st = \<lparr>st_storage = sto_id sto,
              st_input = \<lparr>pi_connector = connector, pi_dumper = dumper, pi_codecs = codecs, pi_storage = sink,
                pi_creds = creds, pi_opts = opts, pi_key = key, pi_on_bytes = bytesHook X rid\<rparr>,
              st_hint = hint\<rparr>)"

lemma credentials_line_R: "R (snd s) (snd ((if b then add_line X rid m else id) s))"
  by (simp add: add_line_R same)

lemma close_sink_R: "Create (ex_storages X) k cfg = Inr sink \<Longrightarrow> R (snd s) (snd (on_world_of (sk_close sink) s))"
  using sinks by (cases s) (auto simp: on_world_of_def)

lemmas ensures_rules = ensures_return ensures_and_then ensures_wrapped ensures_before [OF add_line_R]
  ensures_before [OF credentials_line_R] ensures_state ensures_on_w ensures_pure

lemma assemble_ensures:
  "ensures w0 (assemble X t rid con sto connector dumperOpts dumper sink)
     (\<lambda>st. \<exists>codecs creds opts key hint. create_codecs (ex_codecs X) (task_codecs t) = Inr codecs \<and>
        st = \<lparr>st_storage = sto_id sto,
              st_input = \<lparr>pi_connector = connector, pi_dumper = dumper, pi_codecs = codecs, pi_storage = sink,
                pi_creds = creds, pi_opts = opts, pi_key = key, pi_on_bytes = bytesHook X rid\<rparr>,
              st_hint = hint\<rparr>)"
  unfolding assemble_def Let_def case_prod_beta
  by (rule ensures_rules | rule resolveCreds_keeps | intro exI conjI | assumption | rule refl)+

lemma prepare_ensures: "ensures w0 (prepare X t rid) (assembled_for w0 t rid)"
  unfolding prepare_def
  apply (rule ensures_and_then, rule ensures_wrapped, rule ensures_on_w, rule connection_row)
  apply (rule ensures_before [OF add_line_R])
  apply (rule ensures_and_then, rule ensures_wrapped, rule ensures_on_w, rule storage_row)
  apply (rule ensures_before [OF add_line_R])
  apply (rule ensures_and_then, rule ensures_wrapped, rule ensures_on_w, rule Resolve_keeps, rule secret)
  apply (rule ensures_and_then, rule ensures_pure)
  apply (rule ensures_and_then, rule ensures_wrapped, rule ensures_on_w, rule Resolve_keeps, rule secret)
  apply (rule ensures_and_then, rule ensures_pure)
  apply (rule ensures_and_then, rule ensures_wrapped, rule ensures_on_w, rule Resolve_keeps, rule secret)
  apply (rule ensures_and_then, rule ensures_pure)
  apply (rule ensures_on_failure, erule close_sink_R)
  apply (rule ensures_weaken [OF assemble_ensures])
  apply (unfold assembled_for_def)
  apply blast
  done

text \<open>The effect of a pipeline: up to the storage's Write, that Write, and what follows it.\<close>

definition written ::
  "('w, 'c) pipeline_input \<Rightarrow> 'w \<Rightarrow> (err + pipeline_result) \<Rightarrow> 'w \<Rightarrow> chunks \<Rightarrow> (err + object_meta) \<Rightarrow> 'w \<Rightarrow> 'w \<Rightarrow> bool" where
  "written inp w res w' src r w1 w2 =
     (\<exists>ep cl w0. dp_dump (pi_dumper inp) ep (pi_creds inp) (pi_opts inp) w0 = (Inr (src, cl), w1) \<and> R w w1 \<and> R w2 w' \<and>
        (case feed (pi_codecs inp) src of (rd, producerErr) \<Rightarrow>
           sk_write (pi_storage inp) (pi_key inp) rd w1 = (r, w2) \<and>
           (case r of
              Inl e \<Rightarrow> res = Inl (Wrap ''storage: '' e)
            | Inr m \<Rightarrow>
                (case producerErr of
                   Some e \<Rightarrow> res = Inl e
                 | None \<Rightarrow> length (fst rd) \<le> bytes_read (sk_reads (pi_storage inp) (pi_key inp) rd w1) \<and>
                     res = Inr \<lparr>pr_key = pi_key inp, pr_size = om_size m, pr_checksum = ex_sha256 X (fst rd)\<rparr>))))"

lemma pipeline_effect:
  assumes st: "assembled_for w0 t rid st" and run: "RunPipeline (ex_sha256 X) (st_input st) w = Some (res, w')"
  shows "(\<exists>e. res = Inl e \<and> R w w') \<or> (\<exists>src r w1 w2. written (st_input st) w res w' src r w1 w2)"
proof -
  let ?i = "st_input st"
  have cn: "keeps (cn_open (pi_connector ?i))" and cl: "\<And>w. R w (cn_close (pi_connector ?i) w)"
    and dp: "\<And>ep cr opts w r w'. dp_dump (pi_dumper ?i) ep cr opts w = (r, w') \<Longrightarrow>
      R w w' \<and> (\<forall>src cl u. r = Inr (src, cl) \<longrightarrow> R u (cl u))" and hook: "pi_on_bytes ?i = bytesHook X rid"
    using st connectors dumpers unfolding assembled_for_def by auto
  obtain q0 w0 where o: "cn_open (pi_connector ?i) w = (q0, w0)" by fastforce
  have r0: "R w w0" by (rule keepsD [OF cn o])
  show ?thesis
  proof (cases q0)
    case (Inl e)
    with run o r0 show ?thesis by (auto simp: RunPipeline_def)
  next
    case (Inr ep)
    obtain q1 w1 where d: "dp_dump (pi_dumper ?i) ep (pi_creds ?i) (pi_opts ?i) w0 = (q1, w1)" by fastforce
    have r1: "R w w1" using dp [OF d] r0 by (blast intro: chain)
    show ?thesis
    proof (cases q1)
      case Inl
      with run o Inr d chain [OF r1 cl] show ?thesis by (auto simp: RunPipeline_def)
    next
      case d1: (Inr y)
      obtain src dcl where y: "y = (src, dcl)" by fastforce
      obtain rd pe where f: "feed (pi_codecs ?i) src = (rd, pe)" by fastforce
      obtain r w2 where wr: "sk_write (pi_storage ?i) (pi_key ?i) rd w1 = (r, w2)" by fastforce
      have rest: "R v (cn_close (pi_connector ?i) (dcl v))" for v
        using dp [OF d] d1 y cl by (blast intro: chain)
      have rep: "R v (report (bytesHook X rid) ns v)" for v ns by (rule report_R)
      have after: "R w2 (cn_close (pi_connector ?i) (dcl (report (bytesHook X rid) ns w2)))"
        "R w2 (cn_close (pi_connector ?i) (dcl (report (bytesHook X rid) ms (report (bytesHook X rid) ns w2))))" for ns ms
        by (blast intro: chain rest rep)+
      have "written ?i w res w' src r w1 w2"
        unfolding written_def using run o Inr d d1 y f wr r1 after hook
        by (auto simp: RunPipeline_def Let_def split: sum.splits option.splits if_splits)
      then show ?thesis by blast
    qed
  qed
qed

lemma pipeline_returns:
  assumes "\<And>rd w m w'. sk_write (pi_storage inp) (pi_key inp) rd w = (Inr m, w') \<Longrightarrow>
    length (fst rd) \<le> bytes_read (sk_reads (pi_storage inp) (pi_key inp) rd w)"
  shows "\<exists>res w'. RunPipeline sha inp w = Some (res, w')"
  using assms by (fastforce simp: RunPipeline_def Let_def not_less split: prod.splits sum.splits option.splits)

end

text \<open>Any executor respects the relation that holds of everything.\<close>

interpretation anything: frame "\<lambda>_ _. True"
  by unfold_locales auto

interpretation any_executor: executor_frame "\<lambda>_ _. True" X for X
  by unfold_locales (auto simp: anything.keeps_def)

lemma run_steps_prepared:
  assumes "prepare X t rid s = (Inr st, s1)"
  shows "run_steps X t rid s =
    (case RunPipeline (ex_sha256 X) (st_input st) (snd (streaming X t rid s1)) of
       None \<Rightarrow> None
     | Some (res, w) \<Rightarrow>
         (case and_then (pure_step res) (record_success X rid st) (fst (streaming X t rid s1), w) of
            (r, s) \<Rightarrow> Some (r, on_world_of (sk_close (pi_storage (st_input st))) s)))"
  by (simp add: run_steps_def Let_def assms)

lemma run_steps_success:
  assumes "run_steps X t rid s = Some (Inr out, s')"
  obtains st s1 v pr v' where "prepare X t rid s = (Inr st, s1)" "RunPipeline (ex_sha256 X) (st_input st) v = Some (Inr pr, v')"
  using assms
  by (auto simp: run_steps_def Let_def and_then_def pure_step_def split: prod.splits sum.splits option.splits)

lemma RunPipeline_success:
  "RunPipeline sha inp w = Some (Inr pr, w') \<Longrightarrow> \<exists>src rd. feed (pi_codecs inp) src = (rd, None)"
  by (auto simp: RunPipeline_def Let_def split: prod.splits sum.splits option.splits if_splits)

end
