(* ===== verification/Codecs.thy ===== *)
theory Codecs
  imports Executor
begin

text \<open>
  The codecs of internal/codec: gzip and zstd hand the stream to a library, tar buffers it and
  writes one archive on Close, age encrypts with a library once its recipients are known. The
  libraries are arguments; a codec's state is the library's or the tar writer's.
\<close>

subsection \<open>gzip and zstd\<close>

datatype 'l codec_state = InLib 'l | Buffered string

text \<open>A streaming library: what its constructor, Write and Close write and return.\<close>

record 'l stream_lib =
  sl_new :: "string list \<times> (dst_error \<Rightarrow> err + 'l)"
  sl_write :: "'l \<Rightarrow> string \<Rightarrow> string list \<times> (dst_error \<Rightarrow> err option \<times> 'l)"
  sl_close :: "'l \<Rightarrow> string list \<times> (dst_error \<Rightarrow> err option)"

definition lib_codec :: "string \<Rightarrow> string \<Rightarrow> 'l stream_lib \<Rightarrow> 'l codec_state codec" where
  "lib_codec name ext L =
     \<lparr>cd_name = name, cd_ext = ext,
      cd_new = (case sl_new L of (outs, k) \<Rightarrow> (outs, \<lambda>e. map_sum id InLib (k e))),
      cd_write = \<lambda>s p. (case s of InLib l \<Rightarrow> (case sl_write L l p of (outs, k) \<Rightarrow> (outs, \<lambda>e. map_prod id InLib (k e)))
                        | Buffered b \<Rightarrow> ([], \<lambda>_. (None, Buffered b))),
      cd_close = \<lambda>s. (case s of InLib l \<Rightarrow> sl_close L l | Buffered _ \<Rightarrow> ([], \<lambda>_. None))\<rparr>"

definition gzip_codec :: "'l stream_lib \<Rightarrow> 'l codec_state codec" where
  "gzip_codec L = lib_codec ''gzip'' ''.gz'' L"

definition zstd_codec :: "'l stream_lib \<Rightarrow> 'l codec_state codec" where
  "zstd_codec L = lib_codec ''zstd'' ''.zst'' L"

subsection \<open>Configs\<close>

text \<open>A string member of a config: the last one counts, null leaves the default; None is a type error.\<close>

definition text_field :: "string \<Rightarrow> string \<Rightarrow> (string \<times> json) list \<Rightarrow> string option" where
  "text_field name dflt kvs =
     (let vs = json_field name kvs in
      if list_all (\<lambda>v. case v of JNull \<Rightarrow> True | JStr _ \<Rightarrow> True | _ \<Rightarrow> False) vs
      then Some (foldl (\<lambda>acc v. case v of JStr s \<Rightarrow> s | _ \<Rightarrow> acc) dflt vs) else None)"

definition item_text :: "json \<Rightarrow> string option" where
  "item_text v = (case v of JNull \<Rightarrow> Some [] | JStr s \<Rightarrow> Some s | _ \<Rightarrow> None)"

definition list_field :: "string \<Rightarrow> (string \<times> json) list \<Rightarrow> string list option" where
  "list_field name kvs =
     foldl (\<lambda>acc v. case (acc, v) of
         (None, _) \<Rightarrow> None
       | (Some xs, JNull) \<Rightarrow> Some []
       | (Some xs, JArr vs) \<Rightarrow> if list_all (\<lambda>v. item_text v \<noteq> None) vs then Some (map (\<lambda>v. the (item_text v)) vs) else None
       | (Some xs, _) \<Rightarrow> None) (Some []) (json_field name kvs)"

text \<open>A config that is absent, or decodes to a struct from its members.\<close>

definition decode_config :: "string \<Rightarrow> ((string \<times> json) list \<Rightarrow> 'a option) \<Rightarrow> raw \<Rightarrow> err + 'a" where
  "decode_config who f r =
     (let bad = Inl (Wrap (who @ '': bad config: '') (Errorf ''invalid JSON'')) in
      case (if r = raw_empty then f []
            else case r of Raw JNull \<Rightarrow> f [] | Raw (JObj kvs) \<Rightarrow> f kvs | _ \<Rightarrow> None) of
        None \<Rightarrow> bad | Some c \<Rightarrow> Inr c)"

subsection \<open>tar\<close>

definition defaultMember :: string where "defaultMember = ''dump''"

text \<open>
  The temporary file, as its system calls answer: creating it, writing so many bytes behind so many
  (the bytes taken and the error), seeking to its start. tar_header is the archive library's header
  block for a name and a size.
\<close>

record temp_file =
  tf_create :: "err option"
  tf_write :: "nat \<Rightarrow> nat \<Rightarrow> nat \<times> err option"
  tf_seek :: "err option"

function blocks :: "nat \<Rightarrow> 'a list \<Rightarrow> 'a list list" where
  "blocks n xs = (if n = 0 \<or> xs = [] then [] else take n xs # blocks n (drop n xs))"
  by pat_completeness auto
termination by (relation "measure (\<lambda>(n, xs). length xs)") auto

declare blocks.simps [simp del]

lemma concat_blocks [simp]: "0 < n \<Longrightarrow> concat (blocks n xs) = xs"
  by (induction n xs rule: blocks.induct) (subst blocks.simps, auto)

definition copyBuffer :: nat where "copyBuffer = 32768"

text \<open>What tar's Close writes behind the body: the padding to a full block, two empty blocks.\<close>

definition tar_trailer :: "nat \<Rightarrow> string" where
  "tar_trailer n = replicate ((512 - n mod 512) mod 512 + 1024) (CHR 0x00)"

definition tar_new :: "temp_file \<Rightarrow> string list \<times> (dst_error \<Rightarrow> err + 'l codec_state)" where
  "tar_new F = ([], \<lambda>_. case tf_create F of
     Some e \<Rightarrow> Inl (Wrap ''tar: temp file: '' e) | None \<Rightarrow> Inr (Buffered []))"

definition tar_write ::
  "temp_file \<Rightarrow> 'l codec_state \<Rightarrow> string \<Rightarrow> string list \<times> (dst_error \<Rightarrow> err option \<times> 'l codec_state)" where
  "tar_write F s p =
     (case s of
        InLib l \<Rightarrow> ([], \<lambda>_. (None, s))
      | Buffered b \<Rightarrow>
          (case tf_write F (length b) (length p) of (n, e) \<Rightarrow> ([], \<lambda>_. (e, Buffered (b @ take n p)))))"

definition tar_close ::
  "temp_file \<Rightarrow> (string \<Rightarrow> nat \<Rightarrow> err + string) \<Rightarrow> string \<Rightarrow> 'l codec_state \<Rightarrow> string list \<times> (dst_error \<Rightarrow> err option)" where
  "tar_close F tar_header name s =
     (case s of
        InLib l \<Rightarrow> ([], \<lambda>_. None)
      | Buffered b \<Rightarrow>
          (case tf_seek F of
             Some e \<Rightarrow> ([], \<lambda>_. Some (Wrap ''tar: seek buffer: '' e))
           | None \<Rightarrow>
               (case tar_header name (length b) of
                  Inl e \<Rightarrow> ([], \<lambda>_. Some (Wrap ''tar: write header: '' e))
                | Inr h \<Rightarrow>
                    let body = blocks copyBuffer b in
                    (h # body @ [tar_trailer (length b)],
                     \<lambda>e. case e of
                        None \<Rightarrow> None
                      | Some (i, e) \<Rightarrow> Some (if i = 0 then Wrap ''tar: write header: '' e
                          else if i \<le> length body then Wrap ''tar: write body: '' e else e)))))"

definition tar_codec :: "temp_file \<Rightarrow> (string \<Rightarrow> nat \<Rightarrow> err + string) \<Rightarrow> string \<Rightarrow> 'l codec_state codec" where
  "tar_codec F tar_header name =
     \<lparr>cd_name = ''tar'', cd_ext = ''.tar'', cd_new = tar_new F, cd_write = tar_write F,
      cd_close = tar_close F tar_header name\<rparr>"

definition tar_New :: "temp_file \<Rightarrow> (string \<Rightarrow> nat \<Rightarrow> err + string) \<Rightarrow> raw \<Rightarrow> err + 'l codec_state codec" where
  "tar_New F tar_header r =
     (case decode_config ''tar'' (text_field ''name'' defaultMember) r of
        Inl e \<Rightarrow> Inl e
      | Inr name \<Rightarrow> Inr (tar_codec F tar_header (if name = [] then defaultMember else name)))"

subsection \<open>age\<close>

record age_config =
  ag_mode :: string
  ag_recipients :: "string list"
  ag_identity :: string
  ag_passphrase :: string

text \<open>The age library: recipients of a passphrase or of a public key, and encryption to them.\<close>

record ('r, 'l) age_lib =
  al_scrypt :: "string \<Rightarrow> err + 'r"
  al_parse :: "string \<Rightarrow> err + 'r"
  al_encrypt :: "'r list \<Rightarrow> 'l stream_lib"

fun parse_recipients :: "(string \<Rightarrow> err + 'r) \<Rightarrow> string list \<Rightarrow> err + 'r list" where
  "parse_recipients f [] = Inr []"
| "parse_recipients f (s # ss) =
     (case f s of
        Inl e \<Rightarrow> Inl (Wrap (''age: recipient '' @ quoted s @ '': '') e)
      | Inr r \<Rightarrow> (case parse_recipients f ss of Inl e \<Rightarrow> Inl e | Inr rs \<Rightarrow> Inr (r # rs)))"

definition recipients :: "('r, 'l) age_lib \<Rightarrow> age_config \<Rightarrow> err + 'r list" where
  "recipients A c =
     (if ag_mode c = ''passphrase'' then
        (case al_scrypt A (ag_passphrase c) of
           Inl e \<Rightarrow> Inl (Wrap ''age: passphrase recipient: '' e) | Inr r \<Rightarrow> Inr [r])
      else if ag_recipients c = [] then Inl (Errorf ''age: x25519 mode requires at least one recipient'')
      else parse_recipients (al_parse A) (ag_recipients c))"

definition age_new :: "('r, 'l) age_lib \<Rightarrow> age_config \<Rightarrow> string list \<times> (dst_error \<Rightarrow> err + 'l codec_state)" where
  "age_new A c =
     (case recipients A c of
        Inl e \<Rightarrow> ([], \<lambda>_. Inl e)
      | Inr rs \<Rightarrow> (case sl_new (al_encrypt A rs) of (outs, k) \<Rightarrow>
          (outs, \<lambda>e. case k e of Inl e \<Rightarrow> Inl (Wrap ''age: encrypt: '' e) | Inr l \<Rightarrow> Inr (InLib l))))"

text \<open>The writer age.Encrypt returned.\<close>

definition age_codec :: "('r, 'l) age_lib \<Rightarrow> age_config \<Rightarrow> 'l codec_state codec" where
  "age_codec A c =
     (let L = lib_codec ''age'' ''.age'' (al_encrypt A (case recipients A c of Inl _ \<Rightarrow> [] | Inr rs \<Rightarrow> rs)) in
      L\<lparr>cd_new := age_new A c\<rparr>)"

definition age_fields :: "(string \<times> json) list \<Rightarrow> age_config option" where
  "age_fields kvs =
     (case (text_field ''mode'' [] kvs, list_field ''recipients'' kvs, text_field ''identity'' [] kvs, text_field ''passphrase'' [] kvs) of
        (Some m, Some rs, Some i, Some p) \<Rightarrow> Some \<lparr>ag_mode = m, ag_recipients = rs, ag_identity = i, ag_passphrase = p\<rparr>
      | _ \<Rightarrow> None)"

definition age_New :: "('r, 'l) age_lib \<Rightarrow> raw \<Rightarrow> err + 'l codec_state codec" where
  "age_New A r =
     (case decode_config ''age'' age_fields r of
        Inl e \<Rightarrow> Inl e
      | Inr c \<Rightarrow>
          let c = (if ag_mode c = [] then c\<lparr>ag_mode := ''x25519''\<rparr> else c) in
          if ag_mode c \<noteq> ''x25519'' \<and> ag_mode c \<noteq> ''passphrase''
          then Inl (Errorf (''age: unknown mode '' @ quoted (ag_mode c)))
          else Inr (age_codec A c))"

subsection \<open>The registry\<close>

definition codec_factories ::
  "'l stream_lib \<Rightarrow> 'l stream_lib \<Rightarrow> temp_file \<Rightarrow> (string \<Rightarrow> nat \<Rightarrow> err + string) \<Rightarrow> ('r, 'l) age_lib \<Rightarrow>
   (string \<times> 'l codec_state codec factory) list" where
  "codec_factories gz zs F tar_header A =
     [(''age'', age_New A), (''gzip'', \<lambda>_. Inr (gzip_codec gz)), (''tar'', tar_New F tar_header),
      (''zstd'', \<lambda>_. Inr (zstd_codec zs))]"

text \<open>The registry as the init functions of the packages fill it.\<close>

definition CodecRegistry ::
  "'l stream_lib \<Rightarrow> 'l stream_lib \<Rightarrow> temp_file \<Rightarrow> (string \<Rightarrow> nat \<Rightarrow> err + string) \<Rightarrow> ('r, 'l) age_lib \<Rightarrow>
   'l codec_state codec registry" where
  "CodecRegistry gz zs F tar_header A =
     (case register_all (codec_factories gz zs F tar_header A) (NewRegistry ''codec'') of
        Some r \<Rightarrow> r | None \<Rightarrow> NewRegistry ''codec'')"

lemma CodecRegistry_entries:
  "reg_m (CodecRegistry gz zs F tar_header A) = map_of (codec_factories gz zs F tar_header A)"
proof -
  have "distinct (map fst (codec_factories gz zs F tar_header A))" by (simp add: codec_factories_def)
  then obtain r where "register_all (codec_factories gz zs F tar_header A) (NewRegistry ''codec'') = Some r"
    "reg_m r = reg_m (NewRegistry ''codec'') ++ map_of (codec_factories gz zs F tar_header A)"
    using register_all_ok [of "codec_factories gz zs F tar_header A" "NewRegistry ''codec''"]
    by (auto simp: NewRegistry_def)
  then show ?thesis by (simp add: CodecRegistry_def NewRegistry_def)
qed

subsection \<open>What the codecs do to a stream\<close>

text \<open>A library that encodes does so as a codec.\<close>

definition lib_encodes :: "'l stream_lib \<Rightarrow> (string \<Rightarrow> string) \<Rightarrow> bool" where
  "lib_encodes L enc = encodes \<lparr>cd_name = [], cd_ext = [], cd_new = sl_new L, cd_write = sl_write L, cd_close = sl_close L\<rparr> enc"

text \<open>A temporary file that works.\<close>

definition temp_ok :: "temp_file \<Rightarrow> bool" where
  "temp_ok F = (tf_create F = None \<and> tf_seek F = None \<and> (\<forall>m n. tf_write F m n = (n, None)))"

definition tar_encoding :: "(string \<Rightarrow> nat \<Rightarrow> err + string) \<Rightarrow> string \<Rightarrow> string \<Rightarrow> string" where
  "tar_encoding tar_header name x =
     (case tar_header name (length x) of Inl _ \<Rightarrow> [] | Inr h \<Rightarrow> h @ x @ tar_trailer (length x))"

lemma copyBuffer_pos: "0 < copyBuffer"
  by (simp add: copyBuffer_def)

lemma tar_writes: "temp_ok F \<Longrightarrow> writes_of (tar_codec F h name) (Buffered b) ps = Some ([], Buffered (b @ concat ps))"
  by (induction ps arbitrary: b) (simp_all add: tar_codec_def tar_write_def temp_ok_def)

lemma tar_closes:
  fixes b :: string
  assumes "temp_ok F" "tar_header name (length b) = Inr (h :: string)"
  shows "closing (tar_codec F tar_header name) (Buffered b) = Some (h # blocks copyBuffer b @ [tar_trailer (length b)])"
  using assms by (simp add: closing_def tar_codec_def tar_close_def temp_ok_def Let_def)

lemma tar_encodes:
  assumes "temp_ok F" "\<And>n. \<exists>h. tar_header name n = Inr h"
  shows "encodes (tar_codec F tar_header name) (tar_encoding tar_header name)"
  unfolding encodes_def
proof
  fix ps :: "string list"
  obtain h where h: "tar_header name (length (concat ps)) = Inr h" using assms(2) by blast
  have new: "cd_new (tar_codec F tar_header name) = tar_new F" by (simp add: tar_codec_def)
  show "\<exists>outs. codec_run (tar_codec F tar_header name) ps = Some outs \<and>
      concat outs = tar_encoding tar_header name (concat ps)"
    using assms(1)
    by (simp add: codec_run_def new tar_new_def temp_ok_def finishing_def tar_writes tar_encoding_def h
        tar_closes [where F = F and tar_header = tar_header and name = name and b = "concat ps", OF assms(1) h] concat_blocks [OF copyBuffer_pos])
qed

text \<open>An executor makes its codecs without a config, and age without recipients makes no writer.\<close>

lemma create_codecs_age:
  assumes "create_codecs (CodecRegistry gz zs F tar_header A) ns = Inr cs" "''age'' \<in> set ns"
  shows "\<exists>c \<in> set cs. cd_new c = ([], \<lambda>_. Inl (Errorf ''age: x25519 mode requires at least one recipient''))"
  using assms
proof (induction ns arbitrary: cs)
  case (Cons n ns)
  obtain c cs' where c: "Create (CodecRegistry gz zs F tar_header A) n raw_empty = Inr c"
    "create_codecs (CodecRegistry gz zs F tar_header A) ns = Inr cs'" "cs = c # cs'"
    using Cons.prems(1) by (auto split: sum.splits)
  show ?case
  proof (cases "n = ''age''")
    case True
    have "c = age_codec A \<lparr>ag_mode = ''x25519'', ag_recipients = [], ag_identity = [], ag_passphrase = []\<rparr>"
      using c(1) True
      by (simp add: Create_def CodecRegistry_entries codec_factories_def age_New_def decode_config_def age_fields_def
          text_field_def list_field_def json_field_def)
    then have "cd_new c = ([], \<lambda>_. Inl (Errorf ''age: x25519 mode requires at least one recipient''))"
      by (simp add: age_codec_def Let_def age_new_def recipients_def)
    with c(3) show ?thesis by simp
  next
    case False
    with Cons.IH [OF c(2)] Cons.prems(2) c(3) show ?thesis by auto
  qed
qed simp

lemma build_layers_refused:
  assumes "c \<in> set cs" "\<And>e. \<exists>we. snd (cd_new c) e = Inl we"
  shows "\<exists>o1 e. build_layers cs = (o1, Inl e)"
  using assms(1)
proof (induction cs)
  case (Cons d cs)
  obtain o1 b where b: "build_layers cs = (o1, b)" by fastforce
  show ?case
  proof (cases b)
    case (Inl e)
    with b show ?thesis by simp
  next
    case (Inr ls)
    then have "d = c" using Cons b by auto
    with assms(2) b Inr show ?thesis by (auto split: prod.splits sum.splits) (metis Inl_Inr_False snd_conv)
  qed
qed simp

text \<open>
  C39: a task with the age codec in its chain never produces a backup, although the API accepts the
  chain: the executor builds every codec without a config, an age codec without a config has no
  recipients, and its writer is refused. Whatever the plugins, the store and the libraries do, the
  run returns an error or does not return.
\<close>

theorem age_chain_never_succeeds:
  assumes "ex_codecs X = CodecRegistry gz zs F tar_header A" "''age'' \<in> set (task_codecs t)"
    "Executor.Run X t rid w = Some (r, w')"
  shows "\<exists>e. r = Inl e"
proof (rule ccontr)
  assume "\<not> ?thesis"
  then obtain out where r: "r = Inr out" by (cases r) auto
  obtain s s' where "run_steps X t rid s = Some (Inr out, s')"
    using assms(3) r by (auto simp: Run_def Let_def split: option.splits prod.splits sum.splits)
  then obtain st s1 v pr v' where p: "prepare X t rid s = (Inr st, s1)"
    and ok: "RunPipeline (ex_sha256 X) (st_input st) v = Some (Inr pr, v')" by (rule run_steps_success)
  obtain src rd where f: "feed (pi_codecs (st_input st)) src = (rd, None)" using RunPipeline_success [OF ok] by blast
  have "any_executor.assembled_for X (snd s) t rid st"
    using any_executor.ensuresD [OF any_executor.prepare_ensures _ p] by blast
  then have "create_codecs (ex_codecs X) (task_codecs t) = Inr (pi_codecs (st_input st))"
    by (auto simp: any_executor.assembled_for_def)
  from create_codecs_age [OF this [unfolded assms(1)] assms(2)] obtain c where "c \<in> set (pi_codecs (st_input st))"
    "\<And>e. \<exists>we. snd (cd_new c) e = Inl we" by auto
  from build_layers_refused [OF this] f show False by (auto simp: feed_def)
qed

end
