(* ===== verification/Backup.thy ===== *)
theory Backup
  imports Codecs
begin

text \<open>
  The executor on the concrete world: the catalog records, the local file system stores, the hub
  shows the progress. Connectors and dumpers are outside processes whose answers are arguments.
  The theorems say what a run leaves behind: its end in the catalog, the object on the disk.
\<close>

subsection \<open>The world with its hub\<close>

record live =
  lv_world :: world
  lv_hub :: hub

definition on_live :: "(world, 'a) op \<Rightarrow> (live, 'a) op" where
  "on_live f s = (case f (lv_world s) of (r, w) \<Rightarrow> (r, s\<lparr>lv_world := w\<rparr>))"

definition on_catalog :: "(db, 'a) op \<Rightarrow> (live, 'a) op" where
  "on_catalog f = on_live (on_db f)"

definition live_now :: "live \<Rightarrow> time" where "live_now s = now_time (wdb (lv_world s))"

definition hub_publisher :: "live publisher" where
  "hub_publisher =
     \<lparr>pb_phase = \<lambda>i p s. s\<lparr>lv_hub := Phase (live_now s) i p (lv_hub s)\<rparr>,
      pb_log = \<lambda>i p m s. s\<lparr>lv_hub := Log (live_now s) i p m (lv_hub s)\<rparr>,
      pb_bytes = \<lambda>i n s. s\<lparr>lv_hub := Bytes (live_now s) i n (lv_hub s)\<rparr>,
      pb_total = \<lambda>i n s. s\<lparr>lv_hub := Total (live_now s) i n (lv_hub s)\<rparr>,
      pb_status = \<lambda>i st s. s\<lparr>lv_hub := Status (live_now s) i st (lv_hub s)\<rparr>,
      pb_close = \<lambda>i s. s\<lparr>lv_hub := Hub.Close i (lv_hub s)\<rparr>\<rparr>"

text \<open>
  A call on the run's context fails once the context is done; the recording statements run on a
  context that never is.
\<close>

definition on_ctx :: "(live \<Rightarrow> err option) \<Rightarrow> (live, 'a) op \<Rightarrow> (live, 'a) op" where
  "on_ctx ctx f s = (case ctx s of Some e \<Rightarrow> (Inl e, s) | None \<Rightarrow> f s)"

definition live_store :: "(live \<Rightarrow> err option) \<Rightarrow> live executor_store" where
  "live_store ctx =
     \<lparr>es_connection = \<lambda>i. on_ctx ctx (on_catalog (GetConnection i)),
      es_storage = \<lambda>i. on_ctx ctx (on_catalog (GetStorage i)),
      es_insert = \<lambda>a. on_catalog (InsertArtifact a),
      es_finish = \<lambda>i st lg msg. on_catalog (Finish i st lg msg),
      es_last_size = Some (\<lambda>i. on_ctx ctx (on_catalog (LastSuccessfulArtifactSize i)))\<rparr>"

text \<open>The outside: what connecting and dumping answer, in whatever configuration.\<close>

type_synonym connect = "(err + endpoint)"
type_synonym dump = "endpoint \<Rightarrow> credentials \<Rightarrow> dump_options \<Rightarrow> err + chunks"

definition outside_connector :: "connect \<Rightarrow> live connector" where
  "outside_connector c = \<lparr>cn_open = \<lambda>s. (c, s), cn_close = id\<rparr>"

definition outside_dumper :: "dump \<times> (dump_options \<Rightarrow> string) \<Rightarrow> live dumper" where
  "outside_dumper d = \<lparr>dp_dump = \<lambda>ep cr opts s. (map_sum id (\<lambda>src. (src, id)) (fst d ep cr opts), s), dp_hint = snd d\<rparr>"

definition lift_registry :: "('a \<Rightarrow> 'b) \<Rightarrow> 'a registry \<Rightarrow> 'b registry" where
  "lift_registry f R =
     \<lparr>reg_kind = reg_kind R, reg_m = \<lambda>k. map_option (\<lambda>mk cfg. map_sum id f (mk cfg)) (reg_m R k), reg_keys = reg_keys R\<rparr>"

text \<open>The local file system as the sink; reads says how its copy cuts a stream of that length.\<close>

definition localfs_sink :: "(nat \<Rightarrow> (nat \<times> time) list) \<Rightarrow> localfs_storage \<Rightarrow> live sink" where
  "localfs_sink reads l =
     \<lparr>sk_write = \<lambda>key rd. on_live (on_disk (Write l key rd)), sk_reads = \<lambda>key rd s. reads (length (fst rd)), sk_close = id\<rparr>"

definition local_sinks :: "(nat \<Rightarrow> (nat \<times> time) list) \<Rightarrow> live sink registry" where
  "local_sinks reads =
     \<lparr>reg_kind = ''storage'', reg_m = [''localfs'' \<mapsto> \<lambda>cfg. map_sum id (localfs_sink reads) (New cfg)], reg_keys = [''localfs'']\<rparr>"

record 'c outside =
  os_ctx :: "live \<Rightarrow> err option"
  os_box :: "(secret \<Rightarrow> err + string) option"
  os_connectors :: "connect registry"
  os_dumpers :: "(dump \<times> (dump_options \<Rightarrow> string)) registry"
  os_codecs :: "'c codec registry"
  os_reads :: "nat \<Rightarrow> (nat \<times> time) list"
  os_stamp :: "live \<Rightarrow> string"
  os_sha256 :: "string \<Rightarrow> string"

definition live_executor :: "'c outside \<Rightarrow> (live, 'c) executor" where
  "live_executor U =
     \<lparr>ex_store = live_store (os_ctx U), ex_open = \<lambda>ref. on_ctx (os_ctx U) (on_catalog (OpenSecret (os_box U) ref)),
      ex_now = live_now, ex_stamp = os_stamp U, ex_pub = Some hub_publisher,
      ex_connectors = lift_registry outside_connector (os_connectors U),
      ex_dumpers = lift_registry outside_dumper (os_dumpers U),
      ex_storages = local_sinks (os_reads U), ex_codecs = os_codecs U, ex_sha256 = os_sha256 U\<rparr>"

subsection \<open>What stays as it is\<close>

text \<open>On a catalog without faults, the world is the same afterwards.\<close>

definition sound :: "live \<Rightarrow> bool" where "sound s = (faults (wdb (lv_world s)) = [])"

definition steady :: "live \<Rightarrow> live \<Rightarrow> bool" where
  "steady s s' = (sound s \<longrightarrow> lv_world s' = lv_world s)"

interpretation live_frame: frame steady
  by unfold_locales (auto simp: steady_def sound_def)

lemma on_ctx_keeps: "live_frame.keeps f \<Longrightarrow> live_frame.keeps (on_ctx ctx f)"
  unfolding live_frame.keeps_def on_ctx_def by (auto simp: steady_def split: option.split)

lemma on_catalog_keeps:
  assumes "\<And>d r d'. faults d = [] \<Longrightarrow> f d = (r, d') \<Longrightarrow> d' = d"
  shows "live_frame.keeps (on_catalog f)"
proof (rule live_frame.keepsI)
  fix s x s' assume "on_catalog f s = (x, s')"
  then show "steady s s'" using assms
    by (auto simp: on_catalog_def on_live_def on_db_def steady_def sound_def split: prod.splits)
qed

lemma quiet_reads:
  "faults d = [] \<Longrightarrow> GetConnection i d = (r1, d') \<Longrightarrow> d' = d"
  "faults d = [] \<Longrightarrow> GetStorage i d = (r2, d') \<Longrightarrow> d' = d"
  "faults d = [] \<Longrightarrow> LastSuccessfulArtifactSize i d = (r3, d') \<Longrightarrow> d' = d"
  "faults d = [] \<Longrightarrow> OpenSecret box ref d = (r4, d') \<Longrightarrow> d' = d"
  by (auto simp: GetConnection_def GetStorage_def LastSuccessfulArtifactSize_def OpenSecret_def GetSecretByRef_def
      query_row_def query_def split: option.splits prod.splits sum.splits)

lemma hub_publisher_steady:
  "steady s (pb_phase hub_publisher i p s)" "steady s (pb_log hub_publisher i p m s)" "steady s (pb_bytes hub_publisher i n s)"
  "steady s (pb_total hub_publisher i n s)" "steady s (pb_status hub_publisher i st s)" "steady s (pb_close hub_publisher i s)"
  by (simp_all add: hub_publisher_def steady_def)

lemma Create_lift: "Create (lift_registry f R) k cfg = map_sum id f (Create R k cfg)"
  by (simp add: Create_def lift_registry_def split: option.split)

interpretation live_run: executor_frame steady "live_executor U" for U
proof unfold_locales
  show "ex_pub (live_executor U) = Some b \<Longrightarrow> steady w (pb_phase b i p w) \<and> steady w (pb_log b i p m w) \<and>
      steady w (pb_bytes b i n w) \<and> steady w (pb_total b i n w) \<and> steady w (pb_status b i st w) \<and>
      steady w (pb_close b i w)" for b w i p m n st
    using hub_publisher_steady by (simp add: live_executor_def)
  show "live_frame.keeps (es_connection (ex_store (live_executor U)) i)" for i
    by (simp add: live_executor_def live_store_def) (rule on_ctx_keeps, rule on_catalog_keeps, rule quiet_reads)
  show "live_frame.keeps (es_storage (ex_store (live_executor U)) i)" for i
    by (simp add: live_executor_def live_store_def) (rule on_ctx_keeps, rule on_catalog_keeps, rule quiet_reads)
  show "es_last_size (ex_store (live_executor U)) = Some f \<Longrightarrow> live_frame.keeps (f i)" for f i
    by (simp add: live_executor_def live_store_def) (elim subst, rule on_ctx_keeps, rule on_catalog_keeps, rule quiet_reads)
  show "live_frame.keeps (ex_open (live_executor U) ref)" for ref
    by (simp add: live_executor_def) (rule on_ctx_keeps, rule on_catalog_keeps, rule quiet_reads)
  show "Create (ex_connectors (live_executor U)) k cfg = Inr c \<Longrightarrow> live_frame.keeps (cn_open c) \<and> steady w (cn_close c w)"
    for k cfg c w
    by (cases "Create (os_connectors U) k cfg")
      (auto simp: live_executor_def Create_lift outside_connector_def live_frame.same)
  show "Create (ex_dumpers (live_executor U)) k cfg = Inr d \<Longrightarrow> dp_dump d ep cr opts w = (r, w') \<Longrightarrow>
      steady w w' \<and> (\<forall>src cl. r = Inr (src, cl) \<longrightarrow> steady u (cl u))" for k cfg d ep cr opts w r w' u
    by (cases "Create (os_dumpers U) k cfg")
      (auto simp: live_executor_def Create_lift outside_dumper_def live_frame.same map_sum_def split: sum.splits)
  show "Create (ex_storages (live_executor U)) k cfg = Inr s \<Longrightarrow> steady w (sk_close s w)" for k cfg s w
    by (cases "New cfg")
      (auto simp: live_executor_def local_sinks_def Create_def localfs_sink_def live_frame.same
        split: if_splits option.splits)
qed

subsection \<open>Recording\<close>

definition finish_row :: "rowid \<Rightarrow> run_status \<Rightarrow> string \<Rightarrow> string \<Rightarrow> db \<Rightarrow> db" where
  "finish_row rid st lg msg d = update_runs (\<lambda>r. run_id r = rid)
     (\<lambda>r. r\<lparr>run_status := st, run_finished := Some (now_time d), run_log := lg, run_error := msg\<rparr>) d"

lemma Finish_sound: "faults d = [] \<Longrightarrow> Finish rid st lg msg d = (Inr (), finish_row rid st lg msg d)"
  by (simp add: Finish_def finish_row_def)

definition new_artifact :: "rowid \<Rightarrow> rowid \<Rightarrow> pipeline_result \<Rightarrow> db \<Rightarrow> artifact" where
  "new_artifact rid sid res d = \<lparr>art_id = next_id (map art_id (artifacts d)), art_run = rid, art_storage = sid,
     art_key = pr_key res, art_size = pr_size res, art_checksum = pr_checksum res, art_created = now_time d, art_expires = None\<rparr>"

lemma live_step [simp]:
  "lv_world (snd (setPhase (live_executor U) rid p s)) = lv_world (snd s)"
  "lv_world (snd (add_line (live_executor U) rid m s)) = lv_world (snd s)"
  by (simp_all add: setPhase_def add_line_def Let_def live_executor_def hub_publisher_def split: prod.split)

lemma live_store_fields [simp]:
  "es_insert (ex_store (live_executor U)) a = on_catalog (InsertArtifact a)"
  "es_finish (ex_store (live_executor U)) i st lg msg = on_catalog (Finish i st lg msg)"
  by (simp_all add: live_executor_def live_store_def)

lemma on_catalog_step:
  "on_catalog f s = (case f (wdb (lv_world s)) of (r, d) \<Rightarrow> (r, s\<lparr>lv_world := (lv_world s)\<lparr>wdb := d\<rparr>\<rparr>))"
  by (simp add: on_catalog_def on_live_def on_db_def split: prod.split)

lemma InsertArtifact_sound:
  assumes "faults d = []" "InsertArtifact a d = (r, d')"
  shows "case r of Inl e \<Rightarrow> d' = d \<and> (art_run a \<notin> run_id ` set (runs d) \<or> art_storage a \<notin> sto_id ` set (storages d))
    | Inr i \<Rightarrow> i = next_id (map art_id (artifacts d)) \<and>
        d' = d\<lparr>artifacts := artifacts d @ [a\<lparr>art_id := i, art_created := now_time d, art_expires := None\<rparr>]\<rparr>"
  using assms by (auto simp: InsertArtifact_def Let_def split: if_splits)

text \<open>Without faults, recording fails only when the run or the storage has gone, and then changes nothing.\<close>

definition recorded :: "rowid \<Rightarrow> rowid \<Rightarrow> pipeline_result \<Rightarrow> string \<Rightarrow> world \<Rightarrow> world" where
  "recorded rid sid res lg w =
     w\<lparr>wdb := finish_row rid StatusSuccess lg []
        ((wdb w)\<lparr>artifacts := artifacts (wdb w) @ [new_artifact rid sid res (wdb w)]\<rparr>)\<rparr>"

lemma record_success_sound:
  assumes "record_success (live_executor U) rid st res s = (r, s')" "sound (snd s)"
  shows "case r of
      Inl e \<Rightarrow> lv_world (snd s') = lv_world (snd s) \<and>
        (rid \<notin> run_id ` set (runs (wdb (lv_world (snd s)))) \<or> st_storage st \<notin> sto_id ` set (storages (wdb (lv_world (snd s)))))
    | Inr out \<Rightarrow> (\<exists>lg. lv_world (snd s') = recorded rid (st_storage st) res lg (lv_world (snd s))) \<and>
        out_key out = pr_key res \<and> out_size out = pr_size res \<and> out_checksum out = pr_checksum res \<and>
        out_artifact out = art_id (new_artifact rid (st_storage st) res (wdb (lv_world (snd s))))"
proof -
  let ?X = "live_executor U" and ?w = "lv_world (snd s)"
  let ?a = "\<lparr>art_id = 0, art_run = rid, art_storage = st_storage st, art_key = pr_key res, art_size = pr_size res,
    art_checksum = pr_checksum res, art_created = zero_time, art_expires = None\<rparr>"
  define s1 where "s1 = add_line ?X rid (''pipeline complete: '' @ dec (pr_size res) @ '' bytes sha256:'' @ pr_checksum res)
    (setPhase ?X rid PhaseRecord s)"
  have s1: "lv_world (snd s1) = ?w" by (simp add: s1_def)
  have f: "faults (wdb ?w) = []" using assms(2) by (simp add: sound_def)
  obtain q d1 where i: "InsertArtifact ?a (wdb ?w) = (q, d1)" by fastforce
  note ins = InsertArtifact_sound [OF f i]
  have on: "on_w (on_catalog (InsertArtifact ?a)) s1 = (q, fst s1, (snd s1)\<lparr>lv_world := ?w\<lparr>wdb := d1\<rparr>\<rparr>)"
    using i s1 by (cases s1) (simp add: on_w_def on_catalog_step)
  have r: "record_success ?X rid st res s =
      and_then (wrapped ''insert artifact: '' (on_w (on_catalog (InsertArtifact ?a)))) (\<lambda>aid.
     before (add_line ?X rid (''artifact recorded: id='' @ dec aid)) (
     before (add_line ?X rid ''success'') (
     with_state (\<lambda>s. and_then (wrapped ''finish run: '' (on_w (on_catalog (Finish rid StatusSuccess (log_text (fst s)) [])))) (\<lambda>_.
       pure_step (Inr \<lparr>out_key = pr_key res, out_size = pr_size res, out_checksum = pr_checksum res,
         out_artifact = aid, out_hint = st_hint st\<rparr>)))))) s1"
    by (simp add: record_success_def before_def s1_def)
  show ?thesis
  proof (cases q)
    case (Inl e)
    then have "lv_world (snd s') = ?w\<lparr>wdb := wdb ?w\<rparr>" "r = Inl (Wrap ''insert artifact: '' e)"
      using assms(1) ins unfolding r by (auto simp: and_then_def wrapped_def on)
    then show ?thesis using ins Inl by simp
  next
    case (Inr aid)
    have d1: "d1 = (wdb ?w)\<lparr>artifacts := artifacts (wdb ?w) @ [new_artifact rid (st_storage st) res (wdb ?w)]\<rparr>"
      and aid: "aid = art_id (new_artifact rid (st_storage st) res (wdb ?w))"
      using ins Inr by (simp_all add: new_artifact_def)
    define s2 where "s2 = add_line ?X rid ''success'' (add_line ?X rid (''artifact recorded: id='' @ dec aid)
      (fst s1, (snd s1)\<lparr>lv_world := ?w\<lparr>wdb := d1\<rparr>\<rparr>))"
    have s2: "lv_world (snd s2) = ?w\<lparr>wdb := d1\<rparr>" by (simp add: s2_def)
    have fin: "on_w (on_catalog (Finish rid StatusSuccess (log_text (fst s2)) [])) s2 =
        (Inr (), fst s2, (snd s2)\<lparr>lv_world := recorded rid (st_storage st) res (log_text (fst s2)) ?w\<rparr>)"
      using f s2 d1 by (cases s2) (simp add: on_w_def on_catalog_step Finish_sound recorded_def)
    have "r = Inr \<lparr>out_key = pr_key res, out_size = pr_size res, out_checksum = pr_checksum res,
         out_artifact = aid, out_hint = st_hint st\<rparr>"
      "snd s' = (snd s2)\<lparr>lv_world := recorded rid (st_storage st) res (log_text (fst s2)) ?w\<rparr>"
      using assms(1) unfolding r
      by (auto simp: and_then_def wrapped_def on Inr before_def with_state_def pure_step_def fin
          s2_def [symmetric] simp del: append_Cons append_Nil)
    then show ?thesis using aid by auto
  qed
qed

subsection \<open>The whole run\<close>

definition drains :: "(nat \<Rightarrow> (nat \<times> time) list) \<Rightarrow> bool" where
  "drains reads = (\<forall>n. bytes_read (reads n) = n)"

lemma start_world:
  "lv_world (snd (add_line (live_executor U) rid m (setPhase (live_executor U) rid p (lg, s)))) = lv_world s"
  by simp

lemma publishTerminal_live [simp]:
  "lv_world (publishTerminal (live_executor U) rid st s) = lv_world s"
  by (simp add: publishTerminal_def live_executor_def hub_publisher_def)

lemma publishTerminal_closed: "hb_runs (lv_hub (publishTerminal (live_executor U) rid st s)) rid = None"
  by (simp add: publishTerminal_def live_executor_def hub_publisher_def Hub.Close_def split: option.split)

lemma steady_world: "steady s s' \<Longrightarrow> sound s \<Longrightarrow> lv_world s' = lv_world s"
  by (simp add: steady_def)

lemma sound_same: "lv_world s' = lv_world s \<Longrightarrow> sound s' = sound s"
  by (simp add: sound_def)

lemma read_row:
  assumes "live_run.read_of s (on_ctx ctx (on_catalog (query_row what g))) x" "sound s"
  shows "g (wdb (lv_world s)) = Some x"
proof -
  obtain w w' where w: "steady s w" "on_ctx ctx (on_catalog (query_row what g)) w = (Inr x, w')"
    using assms(1) by (auto simp: live_run.read_of_def)
  have "lv_world w = lv_world s" "sound s" using steady_world [OF w(1)] assms(2) by auto
  with w(2) show ?thesis
    by (auto simp: on_ctx_def on_catalog_step query_row_def sound_def split: option.splits prod.splits)
qed

definition storage_of :: "task \<Rightarrow> db \<Rightarrow> storage option" where
  "storage_of t d = find (\<lambda>x. sto_id x = task_storage t) (storages d)"

definition connection_of :: "task \<Rightarrow> db \<Rightarrow> connection option" where
  "connection_of t d = find (\<lambda>c. con_id c = task_connection t) (connections d)"

text \<open>A stream the dumper of the task's connection has produced.\<close>

definition dumped :: "'c outside \<Rightarrow> task \<Rightarrow> db \<Rightarrow> chunks \<Rightarrow> bool" where
  "dumped U t d src = (\<exists>con cfg dp ep cr opts. connection_of t d = Some con \<and>
     Create (os_dumpers U) (con_engine con) cfg = Inr dp \<and> fst dp ep cr opts = Inr src)"

text \<open>Where the parts of a pipeline come from, on the catalog as it was at the start.\<close>

lemma assembled_live:
  assumes "live_run.assembled_for U s t rid st" "sound s"
  obtains con sto connector cfg dp l scfg cs where
    "connection_of t (wdb (lv_world s)) = Some con" "storage_of t (wdb (lv_world s)) = Some sto" "st_storage st = sto_id sto"
    "Create (os_dumpers U) (con_engine con) cfg = Inr dp" "pi_dumper (st_input st) = outside_dumper dp"
    "sto_type sto = ''localfs''" "live_run.read_of s (Resolve (ex_open (live_executor U)) (sto_config sto)) scfg"
    "New scfg = Inr l" "pi_storage (st_input st) = localfs_sink (os_reads U) l"
    "create_codecs (os_codecs U) (task_codecs t) = Inr cs" "pi_codecs (st_input st) = cs"
proof -
  obtain con sto dumper dcfg sink scfg cs where
      con: "live_run.read_of s (es_connection (ex_store (live_executor U)) (task_connection t)) con"
    and sto: "live_run.read_of s (es_storage (ex_store (live_executor U)) (task_storage t)) sto"
    and scfg: "live_run.read_of s (Resolve (ex_open (live_executor U)) (sto_config sto)) scfg"
    and dp: "Create (ex_dumpers (live_executor U)) (con_engine con) dcfg = Inr dumper" "pi_dumper (st_input st) = dumper"
    and sink: "Create (ex_storages (live_executor U)) (sto_type sto) scfg = Inr sink" "pi_storage (st_input st) = sink"
    and cs: "create_codecs (ex_codecs (live_executor U)) (task_codecs t) = Inr cs" "pi_codecs (st_input st) = cs"
    and id: "st_storage st = sto_id sto"
    using assms(1) unfolding live_run.assembled_for_def by auto
  have "connection_of t (wdb (lv_world s)) = Some con" "storage_of t (wdb (lv_world s)) = Some sto"
    using con sto assms(2) unfolding connection_of_def storage_of_def
    by (auto simp: live_executor_def live_store_def GetConnection_def GetStorage_def dest: read_row)
  moreover obtain dp' where "Create (os_dumpers U) (con_engine con) dcfg = Inr dp'" "dumper = outside_dumper dp'"
    using dp(1) by (cases "Create (os_dumpers U) (con_engine con) dcfg") (auto simp: live_executor_def Create_lift)
  moreover obtain l where "sto_type sto = ''localfs''" "New scfg = Inr l" "sink = localfs_sink (os_reads U) l"
    using sink(1) by (cases "New scfg") (auto simp: live_executor_def local_sinks_def Create_def split: if_splits option.splits)
  ultimately show thesis using that scfg dp(2) sink(2) cs id by (auto simp: live_executor_def)
qed

lemma localfs_sink_write:
  assumes "sk_write (localfs_sink reads l) key rd s = (q, s')"
  obtains d where "Write l key rd (wdisk (lv_world s)) = (q, d)" "lv_world s' = (lv_world s)\<lparr>wdisk := d\<rparr>"
  using assms by (auto simp: localfs_sink_def on_live_def on_disk_def split: prod.splits)

lemma outside_dumper_dump:
  "dp_dump (outside_dumper dp) ep cr opts s = (Inr (src, cl), s') \<Longrightarrow> fst dp ep cr opts = Inr src"
  by (auto simp: outside_dumper_def map_sum_def split: sum.splits)

text \<open>
  The ways a pipeline on the world ends: before anything reached the disk, or after the local
  file system's Write of what the codecs made of the dump.
\<close>

lemma pipeline_live:
  assumes st: "live_run.assembled_for U s0 t rid st" and s0: "sound s0" and s: "lv_world s = lv_world s0"
    and run: "RunPipeline (os_sha256 U) (st_input st) s = Some (res, s')"
  obtains (early) e where "res = Inl e" "lv_world s' = lv_world s"
  | (piped) src sto scfg l cs rd pe q d where
      "dumped U t (wdb (lv_world s)) src" "create_codecs (os_codecs U) (task_codecs t) = Inr cs" "feed cs src = (rd, pe)"
      "storage_of t (wdb (lv_world s)) = Some sto" "st_storage st = sto_id sto"
      "live_run.read_of s0 (Resolve (ex_open (live_executor U)) (sto_config sto)) scfg" "New scfg = Inr l"
      "Write l (pi_key (st_input st)) rd (wdisk (lv_world s)) = (q, d)" "lv_world s' = (lv_world s)\<lparr>wdisk := d\<rparr>"
      "case q of Inl e \<Rightarrow> res = Inl (Wrap ''storage: '' e)
       | Inr m \<Rightarrow> (case pe of Some e \<Rightarrow> res = Inl e
           | None \<Rightarrow> res = Inr \<lparr>pr_key = pi_key (st_input st), pr_size = om_size m, pr_checksum = os_sha256 U (fst rd)\<rparr>)"
proof -
  have sha: "ex_sha256 (live_executor U) = os_sha256 U" by (simp add: live_executor_def)
  have sound: "sound s" using s0 s sound_same by blast
  obtain con cfg dp l cs sto scfg where c: "connection_of t (wdb (lv_world s)) = Some con"
      "Create (os_dumpers U) (con_engine con) cfg = Inr dp" "pi_dumper (st_input st) = outside_dumper dp"
    and l: "pi_storage (st_input st) = localfs_sink (os_reads U) l"
    and sto: "storage_of t (wdb (lv_world s)) = Some sto" "st_storage st = sto_id sto"
      "live_run.read_of s0 (Resolve (ex_open (live_executor U)) (sto_config sto)) scfg" "New scfg = Inr l"
    and cs: "create_codecs (os_codecs U) (task_codecs t) = Inr cs" "pi_codecs (st_input st) = cs"
    using assembled_live [OF st s0] s by metis
  from live_run.pipeline_effect [OF st, unfolded sha, OF run] show thesis
  proof (elim disjE exE)
    fix e assume "res = Inl e \<and> steady s s'"
    then show thesis using early steady_world [OF _ sound] by blast
  next
    fix src r w1 w2 assume w: "live_run.written U (st_input st) s res s' src r w1 w2"
    obtain rd pe where f: "feed cs src = (rd, pe)" by fastforce
    obtain ep cl w0 where d: "dp_dump (outside_dumper dp) ep (pi_creds (st_input st)) (pi_opts (st_input st)) w0 = (Inr (src, cl), w1)"
      and st1: "steady s w1" and st2: "steady w2 s'"
      and wr: "sk_write (localfs_sink (os_reads U) l) (pi_key (st_input st)) rd w1 = (r, w2)"
      and res: "case r of Inl e \<Rightarrow> res = Inl (Wrap ''storage: '' e)
        | Inr m \<Rightarrow> (case pe of Some e \<Rightarrow> res = Inl e | None \<Rightarrow> length (fst rd) \<le>
            bytes_read (sk_reads (localfs_sink (os_reads U) l) (pi_key (st_input st)) rd w1) \<and>
            res = Inr \<lparr>pr_key = pi_key (st_input st), pr_size = om_size m, pr_checksum = os_sha256 U (fst rd)\<rparr>)"
      using w unfolding live_run.written_def c(3) l cs(2) f prod.case sha by blast
    obtain d' where d': "Write l (pi_key (st_input st)) rd (wdisk (lv_world w1)) = (r, d')"
      "lv_world w2 = (lv_world w1)\<lparr>wdisk := d'\<rparr>" using localfs_sink_write [OF wr] .
    have w1: "lv_world w1 = lv_world s" by (rule steady_world [OF st1 sound])
    have "sound w2" using sound d'(2) w1 by (simp add: sound_def)
    then have s': "lv_world s' = (lv_world s)\<lparr>wdisk := d'\<rparr>" using steady_world [OF st2] d'(2) w1 by simp
    have "dumped U t (wdb (lv_world s)) src"
      unfolding dumped_def using c outside_dumper_dump [OF d] by blast
    from piped [OF this cs(1) f sto] d'(1) w1 s' res show thesis by (auto split: sum.splits option.splits)
  qed
qed

text \<open>The files a failed Write leaves: those before, and perhaps a temporary one.\<close>

definition only_temp :: "disk \<Rightarrow> disk \<Rightarrow> bool" where
  "only_temp d d' = (\<forall>q. file_at d' q = file_at d q \<or> file_at d q = None \<and> prefix ''.dr-'' (last q))"

lemma only_temp_refl [simp]: "only_temp d d"
  by (simp add: only_temp_def)

lemma Write_failed: "Write l key rd d = (Inl e, d') \<Longrightarrow> only_temp d d'"
  by (erule Write_cases) (simp_all add: only_temp_def only_at_def, metis)

lemma Write_done:
  assumes "Write l key rd d = (Inr m, d')"
  shows "om_size m = int (length (fst rd)) \<and> snd rd = None \<and>
    map_option fl_data (file_at d' (fs_path (lf_root l) key)) = Some (fst rd) \<and>
    (\<forall>q. q \<noteq> fs_path (lf_root l) key \<longrightarrow> file_at d' q = file_at d q)"
  using assms
proof (rule Write_cases)
  fix tmp assume "Inr m = Inr \<lparr>om_key = key, om_size = int (length (fst rd))\<rparr>" "snd rd = None"
    "only_at {tmp, fs_path (lf_root l) key} d d'"
    "map_option fl_data (file_at d' (fs_path (lf_root l) key)) = Some (fst rd)"
    "file_at d tmp = None" "tmp \<noteq> fs_path (lf_root l) key \<longrightarrow> file_at d' tmp = None"
  then show ?thesis by (auto simp: only_at_def) metis
qed simp_all

text \<open>What a successful run consists of: the dump, its encoding, the object, the rows.\<close>

definition backed_up :: "'c outside \<Rightarrow> task \<Rightarrow> rowid \<Rightarrow> live \<Rightarrow> outcome \<Rightarrow> world \<Rightarrow> bool" where
  "backed_up U t rid s out w' =
     (\<exists>src cs x sto scfg l d lg.
        dumped U t (wdb (lv_world s)) src \<and> create_codecs (os_codecs U) (task_codecs t) = Inr cs \<and>
        feed cs src = ((x, None), None) \<and> storage_of t (wdb (lv_world s)) = Some sto \<and>
        live_run.read_of s (Resolve (ex_open (live_executor U)) (sto_config sto)) scfg \<and> New scfg = Inr l \<and>
        map_option fl_data (file_at d (fs_path (lf_root l) (out_key out))) = Some x \<and>
        (\<forall>q. q \<noteq> fs_path (lf_root l) (out_key out) \<longrightarrow> file_at d q = file_at (wdisk (lv_world s)) q) \<and>
        out_size out = int (length x) \<and> out_checksum out = os_sha256 U x \<and>
        w' = recorded rid (sto_id sto) \<lparr>pr_key = out_key out, pr_size = out_size out, pr_checksum = out_checksum out\<rparr> lg
          ((lv_world s)\<lparr>wdisk := d\<rparr>) \<and>
        out_artifact out = next_id (map art_id (artifacts (wdb (lv_world s)))))"

lemma executor_sha256: "ex_sha256 (live_executor U) = os_sha256 U"
  by (simp add: live_executor_def)

lemma streaming_live: "sound (snd s) \<Longrightarrow> lv_world (snd (streaming (live_executor U) t rid s)) = lv_world (snd s)"
  using steady_world [OF live_run.publish_total_R, of "snd s" U t rid] by (cases s) (simp add: streaming_def on_world_of_def)

lemma close_sink_live:
  assumes "live_run.assembled_for U s t rid st" "sound s"
  shows "lv_world (snd (on_world_of (sk_close (pi_storage (st_input st))) u)) = lv_world (snd u)"
proof -
  obtain l where "pi_storage (st_input st) = localfs_sink (os_reads U) l" using assms by (rule assembled_live)
  then show ?thesis by (cases u) (simp add: on_world_of_def localfs_sink_def)
qed

lemma untouched: "\<exists>d. w = w\<lparr>wdisk := d\<rparr> \<and> only_temp (wdisk w) d"
  by (rule exI [of _ "wdisk w"]) simp

lemma run_steps_live:
  assumes run: "run_steps (live_executor U) t rid s = Some (r, s')"
    and s: "sound (snd s)" and rid: "rid \<in> run_id ` set (runs (wdb (lv_world (snd s))))"
  shows "case r of
      Inl e \<Rightarrow> (\<exists>d. lv_world (snd s') = (lv_world (snd s))\<lparr>wdisk := d\<rparr> \<and> only_temp (wdisk (lv_world (snd s))) d)
    | Inr out \<Rightarrow> backed_up U t rid (snd s) out (lv_world (snd s'))"
proof -
  let ?X = "live_executor U" and ?w = "lv_world (snd s)"
  obtain q s1 where p: "prepare ?X t rid s = (q, s1)" by (cases "prepare ?X t rid s")
  note pre = live_run.ensuresD [OF live_run.prepare_ensures live_frame.same p]
  have w1: "lv_world (snd s1) = ?w" using steady_world [OF conjunct1 [OF pre] s] .
  show ?thesis
  proof (cases q)
    case (Inl e)
    with run p w1 show ?thesis using untouched [of ?w] by (auto simp: run_steps_def)
  next
    case (Inr st)
    then have st: "live_run.assembled_for U (snd s) t rid st" using pre by blast
    define s2 where "s2 = streaming ?X t rid s1"
    have w2: "lv_world (snd s2) = ?w" using streaming_live [of s1 U t rid] s w1 by (simp add: s2_def sound_def)
    obtain res v where pl: "RunPipeline (os_sha256 U) (st_input st) (snd s2) = Some (res, v)"
      and rec: "\<exists>u. and_then (pure_step res) (record_success ?X rid st) (fst s2, v) = (r, u) \<and> lv_world (snd s') = lv_world (snd u)"
      using run close_sink_live [OF st s] unfolding run_steps_prepared [OF p [unfolded Inr]] s2_def [symmetric] executor_sha256
      by (auto split: option.splits prod.splits)
    show ?thesis
    proof (rule pipeline_live [OF st s w2 pl], goal_cases early piped)
      case (early e)
      with rec w2 show ?thesis using untouched [of ?w] by (auto simp: and_then_def pure_step_def)
    next
      case (piped src sto scfg l cs rd pe y d)
      show ?thesis
      proof (cases res)
        case (Inl e)
        then have "only_temp (wdisk ?w) d"
          using piped(3,8,10) w2 Write_done [of l _ rd "wdisk ?w" _ d] feed_error_seen [OF piped(3)] Write_failed
          by (cases y) (auto split: option.splits)
        with Inl rec piped(9) w2 show ?thesis by (auto simp: and_then_def pure_step_def)
      next
        case (Inr pr)
        then obtain m where m: "y = Inr m" "pe = None" "pr = \<lparr>pr_key = pi_key (st_input st), pr_size = om_size m, pr_checksum = os_sha256 U (fst rd)\<rparr>"
          using piped(10) by (auto split: sum.splits option.splits)
        have wr: "om_size m = int (length (fst rd))" "snd rd = None"
          "map_option fl_data (file_at d (fs_path (lf_root l) (pi_key (st_input st)))) = Some (fst rd)"
          "\<forall>q. q \<noteq> fs_path (lf_root l) (pi_key (st_input st)) \<longrightarrow> file_at d q = file_at (wdisk ?w) q"
          using Write_done [of l _ rd _ m d] piped(8) m(1) w2 by auto
        obtain u where u: "record_success ?X rid st pr (fst s2, v) = (r, u)" "lv_world (snd s') = lv_world (snd u)"
          using rec Inr by (auto simp: and_then_def pure_step_def)
        have v: "lv_world v = ?w\<lparr>wdisk := d\<rparr>" using piped(9) w2 by simp
        have "sound (snd (fst s2, v))" using s v by (simp add: sound_def)
        note r = record_success_sound [OF u(1) this, unfolded snd_conv v]
        have feed: "feed cs src = ((fst rd, None), None)" using piped(3) m(2) wr(2) by (cases rd) simp
        have "sto_id sto \<in> sto_id ` set (storages (wdb ?w))"
          using piped(4) w2 by (auto simp: storage_of_def dest: find_Some_in)
        then show ?thesis
        proof (cases r)
          case (Inl e)
          with r rid piped(5) \<open>sto_id sto \<in> _\<close> show ?thesis by simp
        next
          case out: (Inr out)
          with r u(2) obtain lg where lg: "lv_world (snd s') = recorded rid (sto_id sto) pr lg (?w\<lparr>wdisk := d\<rparr>)"
            "out_key out = pr_key pr" "out_size out = pr_size pr" "out_checksum out = pr_checksum pr"
            "out_artifact out = next_id (map art_id (artifacts (wdb ?w)))"
            by (auto simp: piped(5) new_artifact_def)
          have "backed_up U t rid (snd s) out (lv_world (snd s'))"
            unfolding backed_up_def using piped(1,2,4,6,7) w2 feed wr lg m(3) by (intro exI conjI) (assumption | simp)+
          with out show ?thesis by simp
        qed
      qed
    qed
  qed
qed

lemma run_returns:
  assumes "drains (os_reads U)" "sound s"
  shows "\<exists>r s'. Executor.Run (live_executor U) t rid s = Some (r, s')"
proof -
  let ?X = "live_executor U"
  have "\<exists>x. run_steps ?X t rid u = Some x" if u: "sound (snd u)" for u
  proof -
    obtain q s1 where p: "prepare ?X t rid u = (q, s1)" by (cases "prepare ?X t rid u")
    show ?thesis
    proof (cases q)
      case (Inr st)
      have "live_run.assembled_for U (snd u) t rid st"
        using live_run.ensuresD [OF live_run.prepare_ensures live_frame.same p] Inr by blast
      then obtain l where l: "pi_storage (st_input st) = localfs_sink (os_reads U) l" by (rule assembled_live) (rule u)
      have "\<exists>res w'. RunPipeline sha (st_input st) v = Some (res, w')" for sha v
        by (rule live_run.pipeline_returns) (use assms(1) in \<open>simp add: l localfs_sink_def drains_def\<close>)
      from this [of "os_sha256 U" "snd (streaming ?X t rid s1)"] show ?thesis
        unfolding run_steps_prepared [OF p [unfolded Inr]] executor_sha256 by (auto split: prod.split)
    qed (use p in \<open>simp add: run_steps_def\<close>)
  qed
  from this [of "add_line ?X rid m (setPhase ?X rid PhaseResolve (lg, s))" for m lg] assms(2)
  show ?thesis
    by (fastforce simp: Run_def Let_def sound_def split: option.split prod.split sum.split)
qed

text \<open>The first two lines of Run.\<close>

definition started :: "('w, 'c) executor \<Rightarrow> task \<Rightarrow> rowid \<Rightarrow> 'w \<Rightarrow> 'w logged" where
  "started X t rid w = add_line X rid (''run '' @ dec rid @ '': task '' @ quoted (task_name t) @ '' started'')
     (setPhase X rid PhaseResolve (\<lparr>rl_lines = [], rl_phase = PhaseResolve\<rparr>, w))"

lemma started_live: "lv_world (snd (started (live_executor U) t rid s)) = lv_world s"
  by (simp add: started_def)

lemma Run_failed:
  assumes "run_steps X t rid (started X t rid w) = Some (Inl e, s)"
  obtains m lg v where "add_line X rid m s = (lg, v)"
    "Executor.Run X t rid w = Some (Inl e, publishTerminal X rid StatusFailed
       (snd (es_finish (ex_store X) rid StatusFailed (log_text lg) (Scrub (err_text e)) v)))"
proof -
  obtain lg v where "add_line X rid (''failed: '' @ err_text e) s = (lg, v)" by (cases "add_line X rid (''failed: '' @ err_text e) s")
  with assms that show thesis by (simp add: Run_def started_def Let_def del: append_Cons append_Nil)
qed

lemma Run_succeeded:
  "run_steps X t rid (started X t rid w) = Some (Inr out, s) \<Longrightarrow>
   Executor.Run X t rid w = Some (Inr out, publishTerminal X rid StatusSuccess (snd s))"
  by (simp add: Run_def started_def Let_def)

lemma Subscribe_closed: "hb_runs h i = None \<Longrightarrow> fst (Subscribe i h) = None"
  by (simp add: Subscribe_def)

text \<open>Every way a run ends, on the world.\<close>

lemma Run_live:
  assumes "sound s" "rid \<in> run_id ` set (runs (wdb (lv_world s)))" "Executor.Run (live_executor U) t rid s = Some (r, s')"
  shows "fst (Subscribe rid (lv_hub s')) = None \<and>
    (case r of
       Inl e \<Rightarrow> \<exists>lg d. only_temp (wdisk (lv_world s)) d \<and>
         lv_world s' = \<lparr>wdb = finish_row rid StatusFailed lg (Scrub (err_text e)) (wdb (lv_world s)), wdisk = d,
           outbox = outbox (lv_world s), net_faults = net_faults (lv_world s)\<rparr>
     | Inr out \<Rightarrow> \<exists>s0. lv_world s0 = lv_world s \<and> backed_up U t rid s0 out (lv_world s'))"
proof -
  let ?X = "live_executor U" and ?o = "started (live_executor U) t rid s"
  have o: "lv_world (snd ?o) = lv_world s" "sound (snd ?o)" using started_live [of U t rid s] assms(1) by (simp_all add: sound_def)
  obtain q u where q: "run_steps ?X t rid ?o = Some (q, u)"
    using assms(3) by (auto simp: Run_def started_def Let_def split: option.splits)
  note live = run_steps_live [OF q o(2)] assms(2)
  show ?thesis
  proof (cases q)
    case (Inl e)
    then obtain d where d: "lv_world (snd u) = (lv_world s)\<lparr>wdisk := d\<rparr>" "only_temp (wdisk (lv_world s)) d"
      using live o(1) by auto
    obtain m lg0 v where m: "add_line ?X rid m u = (lg0, v)"
      and fin: "Executor.Run ?X t rid s = Some (Inl e, publishTerminal ?X rid StatusFailed
        (snd (es_finish (ex_store ?X) rid StatusFailed (log_text lg0) (Scrub (err_text e)) v)))"
      using Run_failed [OF q [unfolded Inl]] .
    define lg where "lg = log_text lg0"
    have run: "r = Inl e" "v = snd (add_line ?X rid m u)"
      "s' = publishTerminal ?X rid StatusFailed (snd (on_catalog (Finish rid StatusFailed lg (Scrub (err_text e))) v))"
      using fin assms(3) m by (simp_all add: lg_def)
    have "lv_world v = (lv_world s)\<lparr>wdisk := d\<rparr>" using run(2) d(1) by simp
    moreover have "faults (wdb (lv_world s)) = []" using assms(1) by (simp add: sound_def)
    ultimately have "lv_world s' = \<lparr>wdb = finish_row rid StatusFailed lg (Scrub (err_text e)) (wdb (lv_world s)), wdisk = d,
           outbox = outbox (lv_world s), net_faults = net_faults (lv_world s)\<rparr>"
      unfolding run(3) by (cases "lv_world s") (simp add: on_catalog_step Finish_sound)
    with d(2) run(1,3) show ?thesis by (auto simp: Subscribe_closed publishTerminal_closed)
  next
    case (Inr out)
    then have "r = Inr out" "s' = publishTerminal ?X rid StatusSuccess (snd u)"
      using Run_succeeded [OF q [unfolded Inr]] assms(3) by auto
    with live Inr o(1) show ?thesis by (auto simp: Subscribe_closed publishTerminal_closed)
  qed
qed


subsection \<open>What lies in the storage\<close>

lemma Resolve_root: "Resolve opn (Raw (JObj [(''root'', JStr dir)])) w = (Inr (Raw (JObj [(''root'', JStr dir)])), w)"
  by (simp add: Resolve_def raw_empty_def scalar_def replaced_def resolve_leaf_def cut_ref_def has_suffix_def refSuffix_def)

lemma New_root: "dir \<noteq> [] \<Longrightarrow> New (Raw (JObj [(''root'', JStr dir)])) = Inr \<lparr>lf_root = dir\<rparr>"
  by (simp add: New_def raw_empty_def json_field_def to_lower_def Let_def)


end
