(* ===== verification/Drill.thy ===== *)
theory Drill
  imports Backup
begin

text \<open>
  A drill: one task with a marking library behind its gzip codec, one dump, one local storage. The
  run succeeds, and the theorems of the executor apply to it.
\<close>

subsection \<open>The task\<close>

text \<open>A library that puts the stream between two marks.\<close>

definition marking_lib :: "unit stream_lib" where
  "marking_lib = \<lparr>sl_new = ([''<''], \<lambda>e. case e of None \<Rightarrow> Inr () | Some (_, e) \<Rightarrow> Inl e),
     sl_write = \<lambda>l p. ([p], \<lambda>e. (map_option snd e, l)), sl_close = \<lambda>l. ([''>''], \<lambda>e. map_option snd e)\<rparr>"

definition sample_age :: "(unit, unit) age_lib" where
  "sample_age = \<lparr>al_scrypt = \<lambda>_. Inr (), al_parse = \<lambda>_. Inr (), al_encrypt = \<lambda>_. marking_lib\<rparr>"

definition sample_codecs :: "unit codec_state codec registry" where
  "sample_codecs = CodecRegistry marking_lib marking_lib \<lparr>tf_create = None, tf_write = \<lambda>m n. (n, None), tf_seek = None\<rparr>
     (\<lambda>name n. Inr name) sample_age"

definition sample_outside :: "unit codec_state outside" where
  "sample_outside = \<lparr>os_ctx = \<lambda>_. None, os_box = None,
     os_connectors = \<lparr>reg_kind = ''connector'', reg_m = [''direct'' \<mapsto> \<lambda>_. Inr (Inr \<lparr>ep_network = ''tcp'', ep_address = ''db:5432''\<rparr>)],
       reg_keys = [''direct'']\<rparr>,
     os_dumpers = \<lparr>reg_kind = ''dumper'', reg_m = [''postgres'' \<mapsto> \<lambda>_. Inr (\<lambda>_ _ _. Inr ([''ro'', ''ws''], None), \<lambda>_. ''pg_restore'')],
       reg_keys = [''postgres'']\<rparr>,
     os_codecs = sample_codecs, os_reads = \<lambda>n. [(n, 0)], os_stamp = \<lambda>_. ''T'', os_sha256 = \<lambda>x. ''sum of '' @ x\<rparr>"

definition backup_task :: task where
  "backup_task = vault_task\<lparr>task_connection := 1, task_storage := 1, task_codecs := [''gzip''], task_opts := Raw (JObj [])\<rparr>"

definition backup_start :: live where
  "backup_start = \<lparr>lv_world = \<lparr>wdb = (vault_db [])\<lparr>connections := [sample_connection\<lparr>con_id := 1, con_type := ''direct'', con_engine := ''postgres'',
       con_config := Raw (JObj []), con_secret_ref := []\<rparr>]\<rparr>, wdisk = vault_disk [] [], outbox = [], net_faults = []\<rparr>, lv_hub = NewHub\<rparr>"

lemma on_w_alt: "on_w f s = (case f (snd s) of (r, w) \<Rightarrow> (r, fst s, w))"
  by (simp add: on_w_def split: prod.split)

subsection \<open>The run\<close>

definition at_start :: "live \<Rightarrow> bool" where "at_start s = (lv_world s = lv_world backup_start)"

definition sample_con :: connection where "sample_con = hd (connections (wdb (lv_world backup_start)))"

lemma reads:
  assumes "at_start (snd s)"
  shows "on_w (es_connection (ex_store (live_executor sample_outside)) 1) s = (Inr sample_con, s)"
    "on_w (es_storage (ex_store (live_executor sample_outside)) 1) s = (Inr vault_storage, s)"
proof -
  have w: "lv_world (snd s) = lv_world backup_start" using assms by (simp add: at_start_def)
  have 1: "GetConnection 1 (wdb (lv_world backup_start)) = (Inr sample_con, wdb (lv_world backup_start))" by code_simp
  have 2: "GetStorage 1 (wdb (lv_world backup_start)) = (Inr vault_storage, wdb (lv_world backup_start))" by code_simp
  have sw: "(snd s)\<lparr>lv_world := lv_world backup_start\<rparr> = snd s" using w by (cases "snd s") simp
  show "on_w (es_connection (ex_store (live_executor sample_outside)) 1) s = (Inr sample_con, s)"
   "on_w (es_storage (ex_store (live_executor sample_outside)) 1) s = (Inr vault_storage, s)"
    by (simp_all add: on_w_alt live_executor_def live_store_def on_ctx_def sample_outside_def on_catalog_step w 1 2 sw)
qed

lemma configs:
  "on_w (Resolve opn (Raw (JObj []))) s = (Inr (Raw (JObj [])), s)"
  "on_w (Resolve opn (Raw (JObj [(''root'', JStr dir)]))) s = (Inr (Raw (JObj [(''root'', JStr dir)])), s)"
  by (simp_all add: on_w_alt Resolve_root) (simp add: Resolve_def raw_empty_def)

lemma at_start_step [simp]: "at_start (snd (add_line (live_executor U) rid m s)) = at_start (snd s)"
  by (simp add: at_start_def)

lemma parts: "con_name sample_con = ''pg''" "con_engine sample_con = ''postgres''" "con_type sample_con = ''direct''"
  "con_config sample_con = Raw (JObj [])" "con_secret_ref sample_con = []" "con_user sample_con = ''u''"
  "task_connection backup_task = 1" "task_storage backup_task = 1" "task_codecs backup_task = [''gzip'']" "task_opts backup_task = Raw (JObj [])"
  "task_name backup_task = ''nightly''"
  "sto_name vault_storage = ''disk''" "sto_type vault_storage = ''localfs''" "sto_config vault_storage = Raw (JObj [(''root'', JStr ''/srv'')])"
  by (simp_all add: sample_con_def backup_start_def sample_connection_def backup_task_def vault_task_def sample_task_def vault_storage_def sample_storage_def)

definition sample_connector where "sample_connector = outside_connector (Inr \<lparr>ep_network = ''tcp'', ep_address = ''db:5432''\<rparr>)"
definition sample_dumper where "sample_dumper = outside_dumper (\<lambda>_ _ _. Inr ([''ro'', ''ws''], None), \<lambda>_. ''pg_restore'')"
definition sample_sink where "sample_sink = localfs_sink (\<lambda>n. [(n, 0)]) \<lparr>lf_root = ''/srv''\<rparr>"

lemma plugins:
  "Create (ex_connectors (live_executor sample_outside)) ''direct'' cfg = Inr sample_connector"
  "Create (ex_dumpers (live_executor sample_outside)) ''postgres'' cfg = Inr sample_dumper"
  "Create (ex_storages (live_executor sample_outside)) ''localfs'' (Raw (JObj [(''root'', JStr ''/srv'')])) = Inr sample_sink"
  "create_codecs (ex_codecs (live_executor sample_outside)) [''gzip''] = Inr [gzip_codec marking_lib]"
  by (simp_all add: live_executor_def sample_outside_def Create_lift local_sinks_def sample_connector_def sample_dumper_def sample_sink_def New_root)
    (simp_all add: Create_def New_root CodecRegistry_entries sample_codecs_def codec_factories_def)

lemma sample_key: "ex_now (live_executor sample_outside) s = 0" if "at_start s"
  using that by (simp add: at_start_def live_executor_def live_now_def backup_start_def vault_db_def empty_db_def now_time_def unix_to_time_def)

lemma parts2: "dp_hint sample_dumper opts = ''pg_restore''" "cd_ext (gzip_codec marking_lib) = ''.gz''"
   "BuildArtifactKey ''nightly'' ''all'' ''postgres'' [] [''.gz''] 0 = ''nightly/all/19700101_0000_all.dump.gz''" 
  subgoal by (simp add: sample_dumper_def outside_dumper_def)
  subgoal by (simp add: gzip_codec_def lib_codec_def)
  subgoal by code_simp
  done

lemma sid: "sto_id vault_storage = 1" by (simp add: vault_storage_def)

definition sample_assembled :: "(live, unit codec_state) assembled" where
  "sample_assembled = \<lparr>st_storage = 1, st_input = \<lparr>pi_connector = sample_connector, pi_dumper = sample_dumper, pi_codecs = [gzip_codec marking_lib], pi_storage = sample_sink, pi_creds = \<lparr>cr_user = ''u'', cr_password = [], cr_database = []\<rparr>, pi_opts = [], pi_key = ''nightly/all/19700101_0000_all.dump.gz'', pi_on_bytes = bytesHook (live_executor sample_outside) 3\<rparr>, st_hint = ''pg_restore''\<rparr>"

lemma sample_prepare:
  assumes "at_start (snd s)"
  shows "fst (prepare (live_executor sample_outside) backup_task 3 s) = Inr sample_assembled"
  using assms unfolding sample_assembled_def
  by (simp add: prepare_def and_then_def wrapped_def before_def on_failure_def pure_step_def parts reads plugins configs assemble_def resolveCreds_def on_w_alt [of "resolveCreds _ _"] unmarshal_options_def raw_empty_def with_state_def Let_def sample_key key_parts_def option_value_def string_of_def parts2 sid del: append_Cons append_Nil create_codecs.simps)

lemma sample_feed: "feed [gzip_codec marking_lib] ([''ro'', ''ws''], None) = ((''<rows>'', None), None)"
  by code_simp

lemma sample_write: "fst (Write \<lparr>lf_root = ''/srv''\<rparr> ''nightly/all/19700101_0000_all.dump.gz'' (''<rows>'', None) (wdisk (lv_world backup_start))) =
    Inr \<lparr>om_key = ''nightly/all/19700101_0000_all.dump.gz'', om_size = 6\<rparr>"
  by code_simp

lemma sample_pipeline:
  assumes "at_start s"
  shows "\<exists>pr v. RunPipeline sha (st_input sample_assembled) s = Some (Inr pr, v)"
proof -
  obtain d where w: "Write \<lparr>lf_root = ''/srv''\<rparr> ''nightly/all/19700101_0000_all.dump.gz'' (''<rows>'', None) (wdisk (lv_world s)) =
    (Inr \<lparr>om_key = ''nightly/all/19700101_0000_all.dump.gz'', om_size = 6\<rparr>, d)"
    using sample_write assms unfolding at_start_def by (metis prod.collapse)
  show ?thesis
    by (simp add: RunPipeline_def sample_assembled_def sample_connector_def outside_connector_def sample_dumper_def
      outside_dumper_def sample_sink_def localfs_sink_def sample_feed Let_def on_live_def on_disk_def w bytes_read_def)
qed

lemma sample_run_succeeds: "\<exists>out s'. Executor.Run (live_executor sample_outside) backup_task 3 backup_start = Some (Inr out, s')"
proof -
  let ?X = "live_executor sample_outside" and ?o = "started (live_executor sample_outside) backup_task 3 backup_start"
  have s: "sound backup_start" by (simp add: sound_def backup_start_def vault_db_def empty_db_def)
  have o: "at_start (snd ?o)" "sound (snd ?o)" using s by (simp_all add: at_start_def sound_def started_live)
  obtain s1 where p: "prepare ?X backup_task 3 ?o = (Inr sample_assembled, s1)"
    using sample_prepare [OF o(1)] by (metis prod.collapse)
  have w1: "lv_world (snd s1) = lv_world (snd ?o)"
    using live_run.ensuresD [OF live_run.prepare_ensures live_frame.same p] o(2) by (auto intro: steady_world)
  then have st: "at_start (snd (streaming ?X backup_task 3 s1))"
    using o streaming_live [of s1] by (simp add: at_start_def sound_def)
  obtain pr v where pl: "RunPipeline (os_sha256 sample_outside) (st_input sample_assembled) (snd (streaming ?X backup_task 3 s1)) = Some (Inr pr, v)"
    using sample_pipeline [OF st] by blast
  have asm: "live_run.assembled_for sample_outside (snd ?o) backup_task 3 sample_assembled"
    using live_run.ensuresD [OF live_run.prepare_ensures live_frame.same p] by blast
  have "\<exists>d. lv_world v = (lv_world backup_start)\<lparr>wdisk := d\<rparr>"
  proof (rule pipeline_live [OF asm o(2) _ pl])
    show eq: "lv_world (snd (streaming ?X backup_task 3 s1)) = lv_world (snd ?o)" using st o(1) by (simp add: at_start_def)
    show "\<exists>d. lv_world v = (lv_world backup_start)\<lparr>wdisk := d\<rparr>"
      if "lv_world v = (lv_world (snd (streaming ?X backup_task 3 s1)))\<lparr>wdisk := d\<rparr>" for d
      using that st by (auto simp: at_start_def)
  qed simp
  then obtain d where v: "lv_world v = (lv_world backup_start)\<lparr>wdisk := d\<rparr>" ..
  obtain r u where rec: "record_success ?X 3 sample_assembled pr (fst (streaming ?X backup_task 3 s1), v) = (r, u)"
    by (metis prod.exhaust)
  have facts: "3 \<in> run_id ` set (runs (wdb (lv_world backup_start)))" "st_storage sample_assembled \<in> sto_id ` set (storages (wdb (lv_world backup_start)))"
    by (simp_all add: backup_start_def vault_db_def vault_run_def sample_assembled_def sid)
  have "sound v" using s v by (simp add: sound_def)
  then obtain out where "r = Inr out" using record_success_sound [OF rec] facts v by (cases r) auto
  then have "\<exists>s'. run_steps ?X backup_task 3 ?o = Some (Inr out, s')"
    using rec by (simp add: run_steps_prepared [OF p] executor_sha256 pl and_then_def pure_step_def)
  then obtain s' where "run_steps ?X backup_task 3 ?o = Some (Inr out, s')" ..
  from Run_succeeded [OF this] show ?thesis by blast
qed

lemma marking_write: "cd_write (gzip_codec marking_lib) (InLib ()) p = ([p], \<lambda>e. (map_option snd e, InLib ()))"
  by (simp add: gzip_codec_def lib_codec_def marking_lib_def)

lemma marking_writes: "writes_of (gzip_codec marking_lib) (InLib ()) ps = Some (ps, InLib ())"
  by (induction ps) (simp_all add: marking_write)

lemma marking_encodes: "encodes (gzip_codec marking_lib) (\<lambda>x. ''<'' @ x @ ''>'')"
proof -
  have "cd_new (gzip_codec marking_lib) = ([''<''], \<lambda>e. map_sum id InLib (case e of None \<Rightarrow> Inr () | Some (_, e) \<Rightarrow> Inl e))"
    "closing (gzip_codec marking_lib) (InLib ()) = Some [''>'']"
    by (simp_all add: gzip_codec_def lib_codec_def marking_lib_def closing_def)
  then show ?thesis by (simp add: encodes_def codec_run_def finishing_def marking_writes)
qed

lemma drill_start: "sound backup_start" "3 \<in> run_id ` set (runs (wdb (lv_world backup_start)))"
  "drains (os_reads sample_outside)" "storage_of backup_task (wdb (lv_world backup_start)) = Some vault_storage"
  by (simp_all add: sound_def backup_start_def vault_db_def empty_db_def vault_run_def drains_def sample_outside_def
      bytes_read_def storage_of_def parts sid)


lemma drill_dumped: "dumped sample_outside backup_task d (ps, None) \<Longrightarrow> ps = [''ro'', ''ws'']"
  by (auto simp: dumped_def sample_outside_def Create_def split: if_splits option.splits)


theorem age_chain_never_succeeds_witness:
  "\<exists>e s'. Executor.Run (live_executor sample_outside) (backup_task\<lparr>task_codecs := [''gzip'', ''age'']\<rparr>) 3 backup_start = Some (Inl e, s')"
proof -
  let ?t = "backup_task\<lparr>task_codecs := [''gzip'', ''age'']\<rparr>"
  obtain r s' where run: "Executor.Run (live_executor sample_outside) ?t 3 backup_start = Some (r, s')"
    using run_returns [OF drill_start(3,1)] by blast
  have "ex_codecs (live_executor sample_outside) = CodecRegistry marking_lib marking_lib
      \<lparr>tf_create = None, tf_write = \<lambda>m n. (n, None), tf_seek = None\<rparr> (\<lambda>name n. Inr name) sample_age"
    by (simp add: live_executor_def sample_outside_def sample_codecs_def)
  from age_chain_never_succeeds [OF this _ run] run show ?thesis by auto
qed

end
