(* ===== verification/Accounts.thy ===== *)
theory Accounts
  imports Store Ops "HOL-Library.List_Lexorder" "HOL-Library.Char_ord"
begin

text \<open>
  The account tables of the SQLite store (internal/store/sqlite: user.go, session.go, mfa.go,
  setting.go, push.go and the known devices of alert.go; migrations 0007 to 0010). No statement
  joins them with the catalog, so they have a record of their own, with a clock and a schedule of
  faults as the catalog has. A transaction that fails leaves the tables as they were before it began.
\<close>

subsection \<open>Tables\<close>

record passkey =
  pk_id :: rowid
  pk_user :: rowid
  pk_credential :: string
  pk_name :: string
  pk_data :: string
  pk_created :: time
  pk_last_used :: "time option"

record recovery_code =
  rc_id :: rowid
  rc_user :: rowid
  rc_hash :: string
  rc_used :: "time option"

record setting =
  set_key :: string
  set_value :: string
  set_updated :: time

record known_device =
  kd_user :: rowid
  kd_fingerprint :: string
  kd_label :: string
  kd_first :: time
  kd_last :: time

record vapid_keys =
  vk_public :: string
  vk_private :: string
  vk_key :: string
  vk_created :: time

text \<open>ps_role is filled by the delivery query only.\<close>

record push_subscription =
  ps_id :: rowid
  ps_user :: rowid
  ps_endpoint :: string
  ps_p256dh :: string
  ps_auth :: string
  ps_agent :: string
  ps_created :: time
  ps_success :: "time option"
  ps_error :: string
  ps_fails :: int
  ps_role :: role

text \<open>
  A row of app_user is a user record; the two factor fields are derived by the queries and
  stay False and 0 in the table.
\<close>

record accounts =
  users :: "user list"
  sessions :: "session list"
  totps :: "totp list"
  passkeys :: "passkey list"
  recovery_codes :: "recovery_code list"
  settings :: "setting list"
  known_devices :: "known_device list"
  vapid :: "vapid_keys option"
  subscriptions :: "push_subscription list"
  acc_clock :: int
  acc_faults :: "bool list"

definition empty_accounts :: "int \<Rightarrow> bool list \<Rightarrow> accounts" where
  "empty_accounts t fs = \<lparr>users = [], sessions = [], totps = [], passkeys = [], recovery_codes = [],
     settings = [], known_devices = [], vapid = None, subscriptions = [], acc_clock = t,
     acc_faults = fs\<rparr>"

definition acc_now :: "accounts \<Rightarrow> time" where "acc_now a = unix_to_time (acc_clock a)"

definition stored_time :: "time \<Rightarrow> time" where "stored_time t = unix_to_time (unix t)"

subsection \<open>Statements and transactions\<close>

definition sql :: "(accounts \<Rightarrow> (err + 'a) \<times> accounts) \<Rightarrow> (accounts, 'a) op" where
  "sql f a =
     (case acc_faults a of
        [] \<Rightarrow> f a
      | b # bs \<Rightarrow> if b then (Inl db_error, a\<lparr>acc_faults := bs\<rparr>) else f (a\<lparr>acc_faults := bs\<rparr>))"

text \<open>A query, an Exec that changes the tables, and a query for one row.\<close>

definition select :: "(accounts \<Rightarrow> 'a) \<Rightarrow> (accounts, 'a) op" where
  "select g = sql (\<lambda>a. (Inr (g a), a))"

definition exec :: "(accounts \<Rightarrow> accounts) \<Rightarrow> (accounts, unit) op" where
  "exec g = sql (\<lambda>a. (Inr (), g a))"

definition select_row :: "string \<Rightarrow> (accounts \<Rightarrow> 'a option) \<Rightarrow> (accounts, 'a) op" where
  "select_row what g =
     and_then (wrapped what (select g))
       (\<lambda>row. pure_step (case row of None \<Rightarrow> Inl ErrNotFound | Some x \<Rightarrow> Inr x))"

text \<open>A deferred Rollback undoes what a failed transaction did; the faults it met are spent.\<close>

definition begin_tx :: "string \<Rightarrow> (accounts, unit) op" where
  "begin_tx what = wrapped (what @ ''begin: '') (exec id)"

definition transaction :: "(accounts, unit) op \<Rightarrow> (accounts, 'a) op \<Rightarrow> (accounts, 'a) op" where
  "transaction started body a =
     (case and_then started (\<lambda>_. and_then body (\<lambda>x. and_then (exec id) (\<lambda>_. pure_step (Inr x)))) a of
        (Inl e, a') \<Rightarrow> (Inl e, a\<lparr>acc_faults := acc_faults a'\<rparr>)
      | (Inr x, a') \<Rightarrow> (Inr x, a'))"

definition constraint :: "bool \<Rightarrow> err \<Rightarrow> (accounts \<Rightarrow> 'a \<times> accounts) \<Rightarrow> accounts \<Rightarrow> (err + 'a) \<times> accounts" where
  "constraint ok e f a = (if ok then (case f a of (x, a) \<Rightarrow> (Inr x, a)) else (Inl e, a))"

definition is_user :: "rowid \<Rightarrow> accounts \<Rightarrow> bool" where
  "is_user uid a = (uid \<in> set (map user_id (users a)))"

subsection \<open>Users\<close>

definition normalizeEmail :: "string \<Rightarrow> string" where
  "normalizeEmail e = map to_lower (trim_space e)"

definition scanUser :: "accounts \<Rightarrow> user \<Rightarrow> user" where
  "scanUser a u = u\<lparr>
     user_totp_enabled := list_ex (\<lambda>t. totp_user t = user_id u) (totps a),
     user_passkeys := int (length (filter (\<lambda>p. pk_user p = user_id u) (passkeys a)))\<rparr>"

definition user_by_id :: "rowid \<Rightarrow> accounts \<Rightarrow> user option" where
  "user_by_id uid a = map_option (scanUser a) (find (\<lambda>u. user_id u = uid) (users a))"

definition user_by_email :: "string \<Rightarrow> accounts \<Rightarrow> user option" where
  "user_by_email e a = map_option (scanUser a) (find (\<lambda>u. user_email u = e) (users a))"

definition ListUsers :: "(accounts, user list) op" where
  "ListUsers = wrapped ''list users: '' (select (\<lambda>a. map (scanUser a) (sort_key user_id (users a))))"

definition GetUser :: "rowid \<Rightarrow> (accounts, user) op" where
  "GetUser uid = select_row ''scan user: '' (user_by_id uid)"

definition GetUserByEmail :: "string \<Rightarrow> (accounts, user) op" where
  "GetUserByEmail e = select_row ''scan user: '' (user_by_email (normalizeEmail e))"

definition CountUsers :: "(accounts, nat) op" where
  "CountUsers = wrapped ''count users: '' (select (\<lambda>a. length (users a)))"

text \<open>The handle randomblob(32) yields is an argument.\<close>

definition CreateUser :: "string \<Rightarrow> user \<Rightarrow> (accounts, rowid) op" where
  "CreateUser handle u =
     wrapped (''create user '' @ quoted (user_email u) @ '': '') (sql (\<lambda>a.
       constraint (normalizeEmail (user_email u) \<notin> set (map user_email (users a))) unique_violation
         (\<lambda>a. let i = next_id (map user_id (users a)) in
            (i, a\<lparr>users := users a @ [\<lparr>user_id = i, user_email = normalizeEmail (user_email u),
                user_name = user_name u, user_role = user_role u, user_hash = user_hash u,
                user_disabled = user_disabled u, user_created = acc_now a, user_last_login = None,
                user_webauthn = handle, user_totp_enabled = False, user_passkeys = 0\<rparr>]\<rparr>)) a))"

definition is_enabled_admin :: "user \<Rightarrow> bool" where
  "is_enabled_admin u = (user_role u = RoleAdmin \<and> \<not> user_disabled u)"

definition ensureNotLastAdmin :: "rowid \<Rightarrow> (accounts, unit) op" where
  "ensureNotLastAdmin uid =
     and_then (wrapped ''count admins: ''
         (select (\<lambda>a. length (filter (\<lambda>u. is_enabled_admin u \<and> user_id u \<noteq> uid) (users a)))))
       (\<lambda>others. pure_step (if others = 0 then Inl ErrLastAdmin else Inr ()))"

definition drop_sessions :: "(session \<Rightarrow> bool) \<Rightarrow> accounts \<Rightarrow> accounts" where
  "drop_sessions P a = a\<lparr>sessions := filter (\<lambda>s. \<not> P s) (sessions a)\<rparr>"

definition update_users :: "rowid \<Rightarrow> (user \<Rightarrow> user) \<Rightarrow> accounts \<Rightarrow> accounts" where
  "update_users uid f a = a\<lparr>users := map (\<lambda>u. if user_id u = uid then f u else u) (users a)\<rparr>"

definition UpdateUser :: "user \<Rightarrow> (accounts, unit) op" where
  "UpdateUser u =
     (let what = ''update user '' @ dec (user_id u) @ '': '' in
      transaction (begin_tx what)
        (and_then (GetUser (user_id u)) (\<lambda>cur.
         let losingAdmin = user_role cur = RoleAdmin \<and> \<not> user_disabled cur \<and>
               (user_role u \<noteq> RoleAdmin \<or> user_disabled u)
         in and_then (if losingAdmin then ensureNotLastAdmin (user_id u) else pure_step (Inr ())) (\<lambda>_.
            and_then (wrapped what (exec (update_users (user_id u)
              (\<lambda>x. x\<lparr>user_name := user_name u, user_role := user_role u, user_disabled := user_disabled u\<rparr>)))) (\<lambda>_.
            if user_disabled u \<and> \<not> user_disabled cur
            then wrapped (what @ ''drop sessions: '') (exec (drop_sessions (\<lambda>s. ses_user s = user_id u)))
            else pure_step (Inr ()))))))"

text \<open>DELETE FROM app_user with every ON DELETE CASCADE that references it.\<close>

definition cascade_user :: "rowid \<Rightarrow> accounts \<Rightarrow> accounts" where
  "cascade_user uid a = a\<lparr>
     users := filter (\<lambda>u. user_id u \<noteq> uid) (users a),
     sessions := filter (\<lambda>s. ses_user s \<noteq> uid) (sessions a),
     totps := filter (\<lambda>t. totp_user t \<noteq> uid) (totps a),
     passkeys := filter (\<lambda>p. pk_user p \<noteq> uid) (passkeys a),
     recovery_codes := filter (\<lambda>c. rc_user c \<noteq> uid) (recovery_codes a),
     known_devices := filter (\<lambda>d. kd_user d \<noteq> uid) (known_devices a),
     subscriptions := filter (\<lambda>p. ps_user p \<noteq> uid) (subscriptions a)\<rparr>"

definition DeleteUser :: "rowid \<Rightarrow> (accounts, unit) op" where
  "DeleteUser uid =
     (let what = ''delete user '' @ dec uid @ '': '' in
      transaction (begin_tx what)
        (and_then (GetUser uid) (\<lambda>cur.
         and_then (if user_role cur = RoleAdmin \<and> \<not> user_disabled cur then ensureNotLastAdmin uid
                   else pure_step (Inr ())) (\<lambda>_.
         wrapped what (exec (cascade_user uid))))))"

definition SetUserPassword :: "rowid \<Rightarrow> string \<Rightarrow> rowid \<Rightarrow> (accounts, unit) op" where
  "SetUserPassword uid h keepSession =
     (let what = ''set password for user '' @ dec uid @ '': '' in
      transaction (begin_tx what)
        (and_then (wrapped what (sql (\<lambda>a. (Inr (is_user uid a), update_users uid (\<lambda>u. u\<lparr>user_hash := h\<rparr>) a)))) (\<lambda>found.
         if \<not> found then pure_step (Inl ErrNotFound)
         else wrapped (what @ ''drop sessions: '')
                (exec (drop_sessions (\<lambda>s. ses_user s = uid \<and> ses_id s \<noteq> keepSession))))))"

definition TouchUserLogin :: "rowid \<Rightarrow> time \<Rightarrow> (accounts, unit) op" where
  "TouchUserLogin uid now =
     wrapped (''touch login for user '' @ dec uid @ '': '')
       (exec (update_users uid (\<lambda>u. u\<lparr>user_last_login := Some (stored_time now)\<rparr>)))"

subsection \<open>Sessions\<close>

definition CreateSession :: "session \<Rightarrow> (accounts, rowid) op" where
  "CreateSession s =
     wrapped ''create session: '' (sql (\<lambda>a.
       if ses_hash s \<in> set (map ses_hash (sessions a)) then (Inl unique_violation, a)
       else constraint (is_user (ses_user s) a) foreign_key_violation
         (\<lambda>a. let i = next_id (map ses_id (sessions a)) in
            (i, a\<lparr>sessions := sessions a @ [s\<lparr>ses_id := i, ses_created := stored_time (ses_created s),
                ses_last_seen := stored_time (ses_last_seen s), ses_expires := stored_time (ses_expires s)\<rparr>]\<rparr>)) a))"

definition session_owner :: "string \<Rightarrow> accounts \<Rightarrow> (session \<times> user) option" where
  "session_owner h a =
     (case find (\<lambda>s. ses_hash s = h) (sessions a) of
        None \<Rightarrow> None
      | Some s \<Rightarrow> map_option (\<lambda>u. (s, u)) (user_by_id (ses_user s) a))"

definition SessionByToken :: "string \<Rightarrow> (accounts, session \<times> user) op" where
  "SessionByToken h = select_row ''session by token: scan user: '' (session_owner h)"

definition GetSession :: "rowid \<Rightarrow> (accounts, session) op" where
  "GetSession i = select_row ''scan session: '' (\<lambda>a. find (\<lambda>s. ses_id s = i) (sessions a))"

definition ListSessions :: "rowid \<Rightarrow> (accounts, session list) op" where
  "ListSessions uid =
     wrapped ''list sessions: '' (select (\<lambda>a.
       sort_key (\<lambda>s. - ses_last_seen s) (filter (\<lambda>s. uid > 0 \<longrightarrow> ses_user s = uid) (sessions a))))"

definition DeleteSession :: "rowid \<Rightarrow> (accounts, unit) op" where
  "DeleteSession i =
     and_then (wrapped (''delete session '' @ dec i @ '': '') (sql (\<lambda>a.
         (Inr (i \<in> set (map ses_id (sessions a))), drop_sessions (\<lambda>s. ses_id s = i) a))))
       (\<lambda>found. pure_step (if found then Inr () else Inl ErrNotFound))"

definition TouchSession :: "rowid \<Rightarrow> time \<Rightarrow> time \<Rightarrow> (accounts, unit) op" where
  "TouchSession i seen expires =
     wrapped (''touch session '' @ dec i @ '': '') (exec (\<lambda>a.
       a\<lparr>sessions := map (\<lambda>s. if ses_id s = i
           then s\<lparr>ses_last_seen := stored_time seen, ses_expires := stored_time expires\<rparr> else s) (sessions a)\<rparr>))"

definition DeleteExpiredSessions :: "time \<Rightarrow> (accounts, nat) op" where
  "DeleteExpiredSessions now =
     wrapped ''delete expired sessions: '' (sql (\<lambda>a.
       (Inr (length (filter (\<lambda>s. unix (ses_expires s) \<le> unix now) (sessions a))),
        drop_sessions (\<lambda>s. unix (ses_expires s) \<le> unix now) a)))"

subsection \<open>Settings\<close>

definition ListSettings :: "(accounts, setting list) op" where
  "ListSettings = wrapped ''list settings: '' (select (\<lambda>a. sort_key set_key (settings a)))"

definition GetSetting :: "string \<Rightarrow> string \<Rightarrow> (accounts, string) op" where
  "GetSetting k d =
     wrapped (''get setting '' @ quoted k @ '': '') (select (\<lambda>a.
       case find (\<lambda>s. set_key s = k) (settings a) of None \<Rightarrow> d | Some s \<Rightarrow> set_value s))"

definition put_setting :: "string \<times> string \<Rightarrow> accounts \<Rightarrow> accounts" where
  "put_setting kv a =
     (let row = \<lparr>set_key = fst kv, set_value = snd kv, set_updated = acc_now a\<rparr> in
      if fst kv \<in> set (map set_key (settings a))
      then a\<lparr>settings := map (\<lambda>s. if set_key s = fst kv then row else s) (settings a)\<rparr>
      else a\<lparr>settings := settings a @ [row]\<rparr>)"

text \<open>The map's entries come in the order the range loop meets them.\<close>

definition PutSettings :: "(string \<times> string) list \<Rightarrow> (accounts, unit) op" where
  "PutSettings kvs =
     (if kvs = [] then pure_step (Inr ())
      else transaction (begin_tx ''put settings: '')
        (for_each (\<lambda>kv. wrapped (''put setting '' @ quoted (fst kv) @ '': '') (exec (put_setting kv))) kvs))"

subsection \<open>Second factors\<close>

definition GetTOTP :: "rowid \<Rightarrow> (accounts, totp) op" where
  "GetTOTP uid = select_row (''get totp for user '' @ dec uid @ '': '')
     (\<lambda>a. find (\<lambda>t. totp_user t = uid) (totps a))"

definition put_recovery :: "rowid \<Rightarrow> string \<Rightarrow> accounts \<Rightarrow> accounts" where
  "put_recovery uid h a = a\<lparr>recovery_codes := recovery_codes a @
     [\<lparr>rc_id = next_id (map rc_id (recovery_codes a)), rc_user = uid, rc_hash = h, rc_used = None\<rparr>]\<rparr>"

definition drop_recovery :: "rowid \<Rightarrow> accounts \<Rightarrow> accounts" where
  "drop_recovery uid a = a\<lparr>recovery_codes := filter (\<lambda>c. rc_user c \<noteq> uid) (recovery_codes a)\<rparr>"

definition replaceRecoveryCodes :: "rowid \<Rightarrow> string list \<Rightarrow> (accounts, unit) op" where
  "replaceRecoveryCodes uid hashes =
     (let what = ''replace recovery codes for user '' @ dec uid @ '': '' in
      and_then (wrapped what (exec (drop_recovery uid))) (\<lambda>_.
      for_each (\<lambda>h. wrapped what (sql (\<lambda>a.
        constraint (is_user uid a) foreign_key_violation (\<lambda>a. ((), put_recovery uid h a)) a))) hashes))"

definition has_factor :: "rowid \<Rightarrow> accounts \<Rightarrow> bool" where
  "has_factor uid a = (list_ex (\<lambda>t. totp_user t = uid) (totps a) \<or> list_ex (\<lambda>p. pk_user p = uid) (passkeys a))"

definition dropOrphanRecoveryCodes :: "rowid \<Rightarrow> (accounts, unit) op" where
  "dropOrphanRecoveryCodes uid =
     wrapped (''drop orphan recovery codes for user '' @ dec uid @ '': '')
       (exec (\<lambda>a. if has_factor uid a then a else drop_recovery uid a))"

definition put_totp :: "totp \<Rightarrow> accounts \<Rightarrow> accounts" where
  "put_totp t a =
     (let row = t\<lparr>totp_created := acc_now a\<rparr> in
      if totp_user t \<in> set (map totp_user (totps a))
      then a\<lparr>totps := map (\<lambda>x. if totp_user x = totp_user t then row else x) (totps a)\<rparr>
      else a\<lparr>totps := totps a @ [row]\<rparr>)"

text \<open>recoveryHashes is nil or the new set.\<close>

definition PutTOTP :: "totp \<Rightarrow> string list option \<Rightarrow> (accounts, unit) op" where
  "PutTOTP t hashes =
     (let what = ''put totp for user '' @ dec (totp_user t) @ '': '' in
      transaction (begin_tx what)
        (and_then (wrapped what (sql (\<lambda>a.
            constraint (is_user (totp_user t) a) foreign_key_violation (\<lambda>a. ((), put_totp t a)) a))) (\<lambda>_.
         case hashes of None \<Rightarrow> pure_step (Inr ()) | Some hs \<Rightarrow> replaceRecoveryCodes (totp_user t) hs)))"

definition older_totp :: "rowid \<Rightarrow> int \<Rightarrow> totp \<Rightarrow> bool" where
  "older_totp uid step t = (totp_user t = uid \<and> totp_last_step t < step)"

definition AdvanceTOTPStep :: "rowid \<Rightarrow> int \<Rightarrow> (accounts, bool) op" where
  "AdvanceTOTPStep uid step =
     wrapped (''advance totp step for user '' @ dec uid @ '': '') (sql (\<lambda>a.
       (Inr (length (filter (older_totp uid step) (totps a)) = 1),
        a\<lparr>totps := map (\<lambda>t. if older_totp uid step t then t\<lparr>totp_last_step := step\<rparr> else t) (totps a)\<rparr>)))"

definition DeleteTOTP :: "rowid \<Rightarrow> (accounts, unit) op" where
  "DeleteTOTP uid =
     (let what = ''delete totp for user '' @ dec uid @ '': '' in
      transaction (begin_tx what)
        (and_then (wrapped what (sql (\<lambda>a. (Inr (uid \<in> set (map totp_user (totps a))),
            a\<lparr>totps := filter (\<lambda>t. totp_user t \<noteq> uid) (totps a)\<rparr>)))) (\<lambda>found.
         if \<not> found then pure_step (Inl ErrNotFound) else dropOrphanRecoveryCodes uid)))"

definition ListWebAuthnCredentials :: "rowid \<Rightarrow> (accounts, passkey list) op" where
  "ListWebAuthnCredentials uid =
     wrapped (''list webauthn credentials for user '' @ dec uid @ '': '')
       (select (\<lambda>a. sort_key pk_id (filter (\<lambda>p. pk_user p = uid) (passkeys a))))"

definition AddWebAuthnCredential :: "passkey \<Rightarrow> string list option \<Rightarrow> (accounts, rowid) op" where
  "AddWebAuthnCredential c hashes =
     transaction (begin_tx ''add webauthn credential: '')
       (and_then (wrapped ''add webauthn credential: '' (sql (\<lambda>a.
          if pk_credential c \<in> set (map pk_credential (passkeys a)) then (Inl unique_violation, a)
          else constraint (is_user (pk_user c) a) foreign_key_violation
            (\<lambda>a. let i = next_id (map pk_id (passkeys a)) in
               (i, a\<lparr>passkeys := passkeys a @ [c\<lparr>pk_id := i, pk_created := acc_now a, pk_last_used := None\<rparr>]\<rparr>)) a))) (\<lambda>i.
        and_then (case hashes of None \<Rightarrow> pure_step (Inr ()) | Some hs \<Rightarrow> replaceRecoveryCodes (pk_user c) hs)
          (\<lambda>_. pure_step (Inr i))))"

definition TouchWebAuthnCredential :: "rowid \<Rightarrow> string \<Rightarrow> time \<Rightarrow> (accounts, unit) op" where
  "TouchWebAuthnCredential i data now =
     wrapped (''touch webauthn credential '' @ dec i @ '': '') (exec (\<lambda>a.
       a\<lparr>passkeys := map (\<lambda>p. if pk_id p = i
           then p\<lparr>pk_data := data, pk_last_used := Some (stored_time now)\<rparr> else p) (passkeys a)\<rparr>))"

definition DeleteWebAuthnCredential :: "rowid \<Rightarrow> rowid \<Rightarrow> (accounts, unit) op" where
  "DeleteWebAuthnCredential uid i =
     (let what = ''delete webauthn credential '' @ dec i @ '': '' in
      transaction (begin_tx what)
        (and_then (wrapped what (sql (\<lambda>a. (Inr (list_ex (\<lambda>p. pk_id p = i \<and> pk_user p = uid) (passkeys a)),
            a\<lparr>passkeys := filter (\<lambda>p. \<not> (pk_id p = i \<and> pk_user p = uid)) (passkeys a)\<rparr>)))) (\<lambda>found.
         if \<not> found then pure_step (Inl ErrNotFound) else dropOrphanRecoveryCodes uid)))"

definition ReplaceRecoveryCodes :: "rowid \<Rightarrow> string list \<Rightarrow> (accounts, unit) op" where
  "ReplaceRecoveryCodes uid hashes =
     transaction (begin_tx (''replace recovery codes for user '' @ dec uid @ '': '')) (replaceRecoveryCodes uid hashes)"

definition usable_code :: "rowid \<Rightarrow> recovery_code \<Rightarrow> bool" where
  "usable_code uid c = (rc_user c = uid \<and> rc_used c = None)"

definition CountRecoveryCodes :: "rowid \<Rightarrow> (accounts, nat) op" where
  "CountRecoveryCodes uid =
     wrapped (''count recovery codes for user '' @ dec uid @ '': '')
       (select (\<lambda>a. length (filter (usable_code uid) (recovery_codes a))))"

definition UseRecoveryCode :: "rowid \<Rightarrow> string \<Rightarrow> time \<Rightarrow> (accounts, bool) op" where
  "UseRecoveryCode uid h now =
     wrapped (''use recovery code for user '' @ dec uid @ '': '') (sql (\<lambda>a.
       case find (\<lambda>c. usable_code uid c \<and> rc_hash c = h) (recovery_codes a) of
         None \<Rightarrow> (Inr False, a)
       | Some c \<Rightarrow> (Inr True, a\<lparr>recovery_codes :=
             map (\<lambda>x. if rc_id x = rc_id c then x\<lparr>rc_used := Some (stored_time now)\<rparr> else x) (recovery_codes a)\<rparr>)))"

text \<open>Nothing is found: sql.ErrNoRows becomes ErrNotFound, outside the wrapping.\<close>

definition ResetUserMFA :: "rowid \<Rightarrow> (accounts, unit) op" where
  "ResetUserMFA uid =
     (let what = ''reset mfa for user '' @ dec uid @ '': '' in
      transaction (begin_tx what)
        (and_then (select_row what (\<lambda>a. if is_user uid a then Some () else None)) (\<lambda>_.
         for_each (\<lambda>q. wrapped what (exec q))
           [\<lambda>a. a\<lparr>totps := filter (\<lambda>t. totp_user t \<noteq> uid) (totps a)\<rparr>,
            \<lambda>a. a\<lparr>passkeys := filter (\<lambda>p. pk_user p \<noteq> uid) (passkeys a)\<rparr>,
            drop_recovery uid,
            drop_sessions (\<lambda>s. ses_user s = uid)])))"

subsection \<open>Known devices\<close>

definition put_device :: "rowid \<Rightarrow> string \<Rightarrow> string \<Rightarrow> time \<Rightarrow> accounts \<Rightarrow> accounts" where
  "put_device uid fp label now a =
     (if list_ex (\<lambda>d. kd_user d = uid \<and> kd_fingerprint d = fp) (known_devices a)
      then a\<lparr>known_devices := map (\<lambda>d. if kd_user d = uid \<and> kd_fingerprint d = fp
              then d\<lparr>kd_last := stored_time now, kd_label := label\<rparr> else d) (known_devices a)\<rparr>
      else a\<lparr>known_devices := known_devices a @ [\<lparr>kd_user = uid, kd_fingerprint = fp, kd_label = label,
              kd_first = stored_time now, kd_last = stored_time now\<rparr>]\<rparr>)"

definition TouchKnownDevice :: "rowid \<Rightarrow> string \<Rightarrow> string \<Rightarrow> time \<Rightarrow> (accounts, bool \<times> bool) op" where
  "TouchKnownDevice uid fp label now =
     wrapped ''touch known device: '' (transaction (exec id)
       (and_then (select (\<lambda>a. let ds = filter (\<lambda>d. kd_user d = uid) (known_devices a) in
            (length ds, length (filter (\<lambda>d. kd_fingerprint d = fp) ds)))) (\<lambda>(n, matching).
        and_then (sql (\<lambda>a. constraint (is_user uid a) foreign_key_violation
            (\<lambda>a. ((), put_device uid fp label now a)) a)) (\<lambda>_.
        pure_step (Inr (matching = 0, n > 0))))))"

definition PruneKnownDevices :: "time \<Rightarrow> (accounts, nat) op" where
  "PruneKnownDevices horizon =
     wrapped ''prune known devices: '' (sql (\<lambda>a.
       (Inr (length (filter (\<lambda>d. unix (kd_last d) < unix horizon) (known_devices a))),
        a\<lparr>known_devices := filter (\<lambda>d. \<not> unix (kd_last d) < unix horizon) (known_devices a)\<rparr>)))"

subsection \<open>Push subscriptions\<close>

definition VAPIDKeys :: "(accounts, vapid_keys) op" where
  "VAPIDKeys = select_row ''get vapid keys: '' vapid"

definition InitVAPIDKeys :: "vapid_keys \<Rightarrow> (accounts, vapid_keys) op" where
  "InitVAPIDKeys k =
     and_then (wrapped ''init vapid keys: '' (exec (\<lambda>a. case vapid a of
         None \<Rightarrow> a\<lparr>vapid := Some (k\<lparr>vk_created := acc_now a\<rparr>)\<rparr> | Some _ \<Rightarrow> a)))
       (\<lambda>_. VAPIDKeys)"

definition taken_over :: "push_subscription \<Rightarrow> time \<Rightarrow> push_subscription \<Rightarrow> push_subscription" where
  "taken_over sub now p = p\<lparr>
     ps_created := (if ps_user p = ps_user sub then ps_created p else now),
     ps_success := (if ps_user p = ps_user sub then ps_success p else None),
     ps_user := ps_user sub, ps_p256dh := ps_p256dh sub, ps_auth := ps_auth sub,
     ps_agent := ps_agent sub, ps_error := [], ps_fails := 0\<rparr>"

definition UpsertPushSubscription :: "push_subscription \<Rightarrow> (accounts, rowid) op" where
  "UpsertPushSubscription sub =
     wrapped (''upsert push subscription for user '' @ dec (ps_user sub) @ '': '') (sql (\<lambda>a.
       constraint (is_user (ps_user sub) a) foreign_key_violation
         (\<lambda>a. case find (\<lambda>p. ps_endpoint p = ps_endpoint sub) (subscriptions a) of
            Some old \<Rightarrow> (ps_id old, a\<lparr>subscriptions := map (\<lambda>p. if ps_endpoint p = ps_endpoint sub
                then taken_over sub (acc_now a) p else p) (subscriptions a)\<rparr>)
          | None \<Rightarrow> let i = next_id (map ps_id (subscriptions a)) in
              (i, a\<lparr>subscriptions := subscriptions a @ [sub\<lparr>ps_id := i, ps_created := acc_now a,
                  ps_success := None, ps_error := [], ps_fails := 0, ps_role := OtherRole []\<rparr>]\<rparr>)) a))"

definition ListPushSubscriptions :: "rowid \<Rightarrow> (accounts, push_subscription list) op" where
  "ListPushSubscriptions uid =
     wrapped (''list push subscriptions for user '' @ dec uid @ '': '')
       (select (\<lambda>a. sort_key ps_id (filter (\<lambda>p. ps_user p = uid) (subscriptions a))))"

definition GetPushSubscription :: "rowid \<Rightarrow> rowid \<Rightarrow> (accounts, push_subscription) op" where
  "GetPushSubscription uid i = select_row ''scan push subscription: ''
     (\<lambda>a. find (\<lambda>p. ps_id p = i \<and> ps_user p = uid) (subscriptions a))"

definition with_owner_role :: "accounts \<Rightarrow> push_subscription \<Rightarrow> push_subscription option" where
  "with_owner_role a p =
     (case find (\<lambda>u. user_id u = ps_user p) (users a) of
        None \<Rightarrow> None
      | Some u \<Rightarrow> if user_disabled u then None else Some (p\<lparr>ps_role := user_role u\<rparr>))"

definition PushTargets :: "(accounts, push_subscription list) op" where
  "PushTargets = wrapped ''list push targets: '' (select (\<lambda>a.
     List.map_filter (with_owner_role a) (sort_key ps_id (subscriptions a))))"

definition DeletePushSubscription :: "rowid \<Rightarrow> rowid \<Rightarrow> (accounts, unit) op" where
  "DeletePushSubscription uid i =
     and_then (wrapped (''delete push subscription '' @ dec i @ '': '') (sql (\<lambda>a.
         (Inr (list_ex (\<lambda>p. ps_id p = i \<and> ps_user p = uid) (subscriptions a)),
          a\<lparr>subscriptions := filter (\<lambda>p. \<not> (ps_id p = i \<and> ps_user p = uid)) (subscriptions a)\<rparr>))))
       (\<lambda>found. pure_step (if found then Inr () else Inl ErrNotFound))"

definition DeletePushSubscriptionByEndpoint :: "rowid \<Rightarrow> string \<Rightarrow> (accounts, unit) op" where
  "DeletePushSubscriptionByEndpoint uid endpoint =
     wrapped ''delete push subscription by endpoint: '' (exec (\<lambda>a.
       a\<lparr>subscriptions := filter (\<lambda>p. \<not> (ps_endpoint p = endpoint \<and> (uid \<noteq> 0 \<longrightarrow> ps_user p = uid)))
          (subscriptions a)\<rparr>))"

definition MarkPushResult :: "rowid \<Rightarrow> string \<Rightarrow> (accounts, unit) op" where
  "MarkPushResult i cause =
     wrapped (''mark push result '' @ dec i @ '': '') (exec (\<lambda>a.
       a\<lparr>subscriptions := map (\<lambda>p. if ps_id p \<noteq> i then p
           else if cause \<noteq> [] then p\<lparr>ps_error := cause, ps_fails := ps_fails p + 1\<rparr>
           else p\<lparr>ps_success := Some (acc_now a), ps_error := [], ps_fails := 0\<rparr>) (subscriptions a)\<rparr>))"

end
