(* ===== verification/Http.thy ===== *)
theory Http
  imports Quiet Ops
begin

text \<open>
  What the handlers of internal/api are made of (router.go, handlers_write.go, handlers_action.go).
  A handler answers a payload, or refuses with a status and a message; it changes a state that is a
  parameter here, the account server or the catalog. The locale holds the rules for relations every
  handler respects.
\<close>

subsection \<open>Handlers\<close>

text \<open>
  A conflict names its reason; the code composes a text for it. Retry-After goes with the status 429.
\<close>

datatype in_use_reason =
    ConnectionInUse
  | StorageInUse
  | TaskRunning
  | SecretInUse
  | SecretReferenced "secret_user list"

datatype refusal = Refused nat string | TooManyRequests int | Conflict in_use_reason

type_synonym ('s, 'b) handler = "'s \<Rightarrow> (refusal + 'b) \<times> 's"

definition refuse :: "nat \<Rightarrow> string \<Rightarrow> ('s, 'b) handler" where
  "refuse status msg sv = (Inl (Refused status msg), sv)"

definition answer :: "'b \<Rightarrow> ('s, 'b) handler" where
  "answer x sv = (Inr x, sv)"

text \<open>A step that refuses or goes on, and a store call whose error is turned into an answer.\<close>

definition go_on :: "('s, 'a) handler \<Rightarrow> ('a \<Rightarrow> ('s, 'b) handler) \<Rightarrow> ('s, 'b) handler" where
  "go_on f g sv = (case f sv of (Inl e, sv) \<Rightarrow> (Inl e, sv) | (Inr x, sv) \<Rightarrow> g x sv)"

definition call :: "('s, 'a) op \<Rightarrow> (err + 'a \<Rightarrow> ('s, 'b) handler) \<Rightarrow> ('s, 'b) handler" where
  "call f g sv = (case f sv of (r, sv) \<Rightarrow> g r sv)"

definition or_refuse :: "('s, 'a) op \<Rightarrow> (err \<Rightarrow> nat \<times> string) \<Rightarrow> ('s, 'a) handler" where
  "or_refuse f status = call f (\<lambda>r. case r of Inl e \<Rightarrow> refuse (fst (status e)) (snd (status e)) | Inr x \<Rightarrow> answer x)"

text \<open>State the handlers keep in memory.\<close>

definition with_server :: "('s \<Rightarrow> ('s, 'b) handler) \<Rightarrow> ('s, 'b) handler" where
  "with_server g sv = g sv sv"

definition modify :: "('s \<Rightarrow> 's) \<Rightarrow> ('s, 'b) handler \<Rightarrow> ('s, 'b) handler" where
  "modify f g sv = g (f sv)"

definition internal :: "err \<Rightarrow> nat \<times> string" where "internal e = (500, err_text e)"

subsection \<open>Bodies and paths\<close>

text \<open>
  A request body as decoding finds it: the value, not JSON (with the decoder's message), or over the
  size limit of decode. The handlers with a decoder of their own give no detail.
\<close>

datatype 'a body = Body 'a | NotJSON string | OverLimit

definition maxBodyBytes :: int where "maxBodyBytes = 1048576"

definition plain_body :: "'a body \<Rightarrow> ('s, 'a) handler" where
  "plain_body b = (case b of Body x \<Rightarrow> answer x | _ \<Rightarrow> refuse 400 ''invalid JSON body'')"

definition decode :: "'a body \<Rightarrow> ('s, 'a) handler" where
  "decode b =
     (case b of
        Body x \<Rightarrow> answer x
      | NotJSON m \<Rightarrow> refuse 400 (''invalid JSON body: '' @ m)
      | OverLimit \<Rightarrow> refuse 413 (''request body exceeds '' @ dec maxBodyBytes @ '' bytes''))"

text \<open>A number in the path, or what could not be parsed as one.\<close>

definition pathID :: "rowid option \<Rightarrow> ('s, rowid) handler" where
  "pathID path = (case path of None \<Rightarrow> refuse 400 ''invalid id'' | Some i \<Rightarrow> answer i)"

text \<open>What to do when there is an entry, and the refusal when there is none.\<close>

definition if_live :: "('s \<Rightarrow> 'a option \<times> 's) \<Rightarrow> nat \<Rightarrow> string \<Rightarrow> ('s, 'a) handler" where
  "if_live f status msg sv = (case f sv of (None, sv) \<Rightarrow> refuse status msg sv | (Some x, sv) \<Rightarrow> answer x sv)"

subsection \<open>Taking a run apart\<close>

lemma go_on_cases:
  assumes "go_on f g sv = (x, sv')"
  obtains (stopped) e where "f sv = (Inl e, sv')" | (went_on) y u where "f sv = (Inr y, u)" "g y u = (x, sv')"
  using assms by (auto simp: go_on_def split: prod.splits sum.splits)

lemma go_on_refuse: "go_on (refuse n m) g = refuse n m"
  by (rule ext) (simp add: go_on_def refuse_def)

lemma go_on_answer: "go_on (answer y) g = g y"
  by (rule ext) (simp add: go_on_def answer_def)

lemma call_cases:
  assumes "call f g sv = (x, sv')"
  obtains r u where "f sv = (r, u)" "g r u = (x, sv')"
  using assms by (auto simp: call_def split: prod.splits)

lemma if_live_cases:
  assumes "if_live f n m sv = (x, sv')"
  obtains (gone) e where "x = Inl e" "fst (f sv) = None" "sv' = snd (f sv)"
    | (there) v where "x = Inr v" "fst (f sv) = Some v" "sv' = snd (f sv)"
  using assms by (auto simp: if_live_def refuse_def answer_def split: prod.splits option.splits)

subsection \<open>Invariants of the handlers\<close>

context frame
begin

lemma keeps_and_then: "keeps f \<Longrightarrow> (\<And>x. keeps (g x)) \<Longrightarrow> keeps (and_then f g)"
  by (rule keepsI) (auto simp: and_then_def split: prod.splits sum.splits dest: keepsD intro: chain)

lemma keeps_wrapped: "keeps f \<Longrightarrow> keeps (wrapped p f)"
  by (rule keepsI) (auto simp: wrapped_def split: prod.splits sum.splits dest: keepsD)

lemma keeps_pure_step: "keeps (pure_step r)"
  by (simp add: keeps_def pure_step_def same)

lemma keeps_if: "(b \<Longrightarrow> keeps f) \<Longrightarrow> (\<not> b \<Longrightarrow> keeps g) \<Longrightarrow> keeps (if b then f else g)"
  by simp

lemma keeps_option: "keeps f \<Longrightarrow> (\<And>x. keeps (g x)) \<Longrightarrow> keeps (case y of None \<Rightarrow> f | Some x \<Rightarrow> g x)"
  by (cases y) simp_all

lemma keeps_pair: "(\<And>x y. keeps (f x y)) \<Longrightarrow> keeps (case p of (x, y) \<Rightarrow> f x y)"
  by (cases p) simp

lemma keeps_for_each: "(\<And>x. x \<in> set xs \<Longrightarrow> keeps (f x)) \<Longrightarrow> keeps (for_each f xs)"
  by (induction xs) (simp_all add: keeps_pure_step keeps_and_then)

lemmas keeps_rules = keeps_and_then keeps_wrapped keeps_pure_step keeps_if keeps_option keeps_pair keeps_for_each

end

locale server_frame = frame R for R :: "'s \<Rightarrow> 's \<Rightarrow> bool"
begin

lemma keeps_refuse: "keeps (refuse n m)"
  by (simp add: keeps_def refuse_def same)

lemma keeps_answer: "keeps (answer x)"
  by (simp add: keeps_def answer_def same)

lemma keeps_go_on: "keeps f \<Longrightarrow> (\<And>x. keeps (g x)) \<Longrightarrow> keeps (go_on f g)"
  by (rule keepsI) (auto simp: go_on_def split: prod.splits sum.splits dest: keepsD intro: chain)

lemma keeps_call: "keeps f \<Longrightarrow> (\<And>r. keeps (g r)) \<Longrightarrow> keeps (call f g)"
  by (rule keepsI) (auto simp: call_def split: prod.splits dest: keepsD intro: chain)

lemma keeps_sum: "(\<And>e. keeps (f e)) \<Longrightarrow> (\<And>x. keeps (g x)) \<Longrightarrow> keeps (case r of Inl e \<Rightarrow> f e | Inr x \<Rightarrow> g x)"
  by (cases r) simp_all

lemma keeps_or_refuse: "keeps f \<Longrightarrow> keeps (or_refuse f st)"
  unfolding or_refuse_def by (intro keeps_call keeps_sum keeps_refuse keeps_answer)

lemma keeps_with_server: "(\<And>sv. keeps (g sv)) \<Longrightarrow> keeps (with_server g)"
  by (simp add: keeps_def with_server_def)

lemma keeps_modify: "(\<And>sv. R sv (f sv)) \<Longrightarrow> keeps h \<Longrightarrow> keeps (modify f h)"
  by (rule keepsI) (auto simp: modify_def dest: keepsD intro: chain)

lemma keeps_body: "keeps (plain_body b)" "keeps (decode b)" "keeps (pathID path)"
  by (auto simp: plain_body_def decode_def pathID_def keeps_refuse keeps_answer split: body.split option.split)

lemma keeps_if_live: "keeps f \<Longrightarrow> keeps (if_live f n m)"
  by (rule keepsI) (auto simp: if_live_def refuse_def answer_def split: prod.splits option.splits dest: keepsD)

lemma keeps_bool: "keeps f \<Longrightarrow> keeps g \<Longrightarrow> keeps (case b of True \<Rightarrow> f | False \<Rightarrow> g)"
  by (cases b) simp_all

lemmas keeps_handler = keeps_refuse keeps_answer keeps_go_on keeps_call keeps_sum keeps_or_refuse
  keeps_with_server keeps_body keeps_if_live keeps_bool keeps_rules

end

end
