(* ===== verification/AccountSteps.thy ===== *)
theory AccountSteps
  imports Accounts Http
begin

text \<open>
  The life of the account tables: the statements that change them as a step relation, their
  well-formedness as the schema states it, and the enabled administrator that is never lost.
\<close>

subsection \<open>Invariants of the tables\<close>

locale table_invariant =
  fixes I :: "accounts \<Rightarrow> bool"
  assumes faults: "I (a\<lparr>acc_faults := fs\<rparr>) = I a"

sublocale table_invariant \<subseteq> frame "\<lambda>a b. I a \<longrightarrow> I b"
  by unfold_locales auto

context table_invariant
begin

lemma keeps_sql: "(\<And>a. I a \<Longrightarrow> I (snd (f a))) \<Longrightarrow> keeps (sql f)"
  by (auto simp: keeps_def sql_def faults split: list.split)

lemma keeps_select: "keeps (select g)"
  unfolding select_def by (rule keeps_sql) simp

lemma keeps_exec: "(\<And>a. I a \<Longrightarrow> I (g a)) \<Longrightarrow> keeps (exec g)"
  unfolding exec_def by (rule keeps_sql) simp

lemma keeps_select_row: "keeps (select_row what g)"
  unfolding select_row_def by (intro keeps_rules keeps_select)

lemma keeps_begin: "keeps (begin_tx what)"
  unfolding begin_tx_def by (intro keeps_rules keeps_exec) simp

text \<open>Commit spends a fault; a rollback restores the tables.\<close>

lemma keeps_transaction:
  assumes "keeps started" "keeps body"
  shows "keeps (transaction started body)"
proof (rule keepsI, rule impI)
  fix a x a' assume run: "transaction started body a = (x, a')" and I: "I a"
  let ?f = "and_then started (\<lambda>_. and_then body (\<lambda>x. and_then (exec id) (\<lambda>_. pure_step (Inr x))))"
  have k: "keeps ?f" using assms by (intro keeps_rules keeps_exec) simp_all
  obtain r b where r: "?f a = (r, b)" by (cases "?f a")
  show "I a'" using run I keepsD [OF k r] r by (cases r) (auto simp: transaction_def faults)
qed

lemma keeps_constraint:
  assumes "\<And>a. I a \<Longrightarrow> ok a \<Longrightarrow> I (snd (f a))"
  shows "keeps (sql (\<lambda>a. constraint (ok a) e f a))"
proof (rule keeps_sql)
  fix a assume "I a"
  with assms [of a] show "I (snd (constraint (ok a) e f a))"
    by (cases "f a") (simp add: constraint_def)
qed

lemmas keeps_tables = keeps_rules keeps_sql keeps_select keeps_exec keeps_select_row keeps_begin
  keeps_transaction

end

subsection \<open>Well-formedness\<close>

text \<open>
  Primary keys, unique columns and foreign keys of migrations 0007 to 0010. Addresses are
  stored normalised, and the columns a query derives are not stored.
\<close>

definition keyed :: "('a \<Rightarrow> 'k) \<Rightarrow> 'a list \<Rightarrow> bool" where
  "keyed key rows = distinct (map key rows)"

definition owned :: "('a \<Rightarrow> rowid) \<Rightarrow> 'a list \<Rightarrow> accounts \<Rightarrow> bool" where
  "owned owner rows a = list_all (\<lambda>r. is_user (owner r) a) rows"

definition user_row_ok :: "user \<Rightarrow> bool" where
  "user_row_ok u = (normalizeEmail (user_email u) = user_email u \<and> \<not> user_totp_enabled u \<and> user_passkeys u = 0)"

definition users_ok :: "user list \<Rightarrow> bool" where
  "users_ok us = (keyed user_id us \<and> keyed user_email us \<and> list_all user_row_ok us)"

definition accounts_ok :: "accounts \<Rightarrow> bool" where
  "accounts_ok a =
     (users_ok (users a) \<and>
      keyed ses_id (sessions a) \<and> keyed ses_hash (sessions a) \<and> owned ses_user (sessions a) a \<and>
      keyed totp_user (totps a) \<and> owned totp_user (totps a) a \<and>
      keyed pk_id (passkeys a) \<and> keyed pk_credential (passkeys a) \<and> owned pk_user (passkeys a) a \<and>
      keyed rc_id (recovery_codes a) \<and> owned rc_user (recovery_codes a) a \<and>
      keyed set_key (settings a) \<and>
      keyed (\<lambda>d. (kd_user d, kd_fingerprint d)) (known_devices a) \<and> owned kd_user (known_devices a) a \<and>
      keyed ps_id (subscriptions a) \<and> keyed ps_endpoint (subscriptions a) \<and> owned ps_user (subscriptions a) a)"

lemma keyed_Nil [simp]: "keyed k []" by (simp add: keyed_def)

lemma keyed_snoc [simp]: "keyed k (rows @ [r]) \<longleftrightarrow> keyed k rows \<and> k r \<notin> k ` set rows"
  by (auto simp: keyed_def)

lemma keyed_filter [simp]: "keyed k rows \<Longrightarrow> keyed k (filter P rows)"
  by (simp add: keyed_def map_filter_distinct)

lemma keyed_map [simp]: "(\<And>r. k (f r) = k r) \<Longrightarrow> keyed k (map f rows) = keyed k rows"
  by (simp add: keyed_def comp_def)

lemma keyedD: "keyed k rows \<Longrightarrow> r \<in> set rows \<Longrightarrow> s \<in> set rows \<Longrightarrow> k r = k s \<Longrightarrow> r = s"
  by (simp add: keyed_def distinct_map_eq)

lemma keyed_find: "keyed k rows \<Longrightarrow> r \<in> set rows \<Longrightarrow> find (\<lambda>x. k x = k r) rows = Some r"
  by (induction rows) (auto simp: keyed_def rev_image_eqI)

lemma owned_Nil [simp]: "owned f [] a" by (simp add: owned_def)

lemma owned_snoc [simp]: "owned f (rows @ [r]) a \<longleftrightarrow> owned f rows a \<and> is_user (f r) a"
  by (simp add: owned_def)

lemma owned_filter [simp]: "owned f rows a \<Longrightarrow> owned f (filter P rows) a"
  by (auto simp: owned_def list_all_iff)

lemma owned_map [simp]: "(\<And>r. f (g r) = f r) \<Longrightarrow> owned f (map g rows) a = owned f rows a"
  by (simp add: owned_def list_all_iff)

lemma owned_cong: "users b = users a \<Longrightarrow> owned f rows b = owned f rows a"
  by (simp add: owned_def is_user_def)

lemma owned_users: "set (map user_id (users a)) \<subseteq> set (map user_id (users b)) \<Longrightarrow> owned f rows a \<Longrightarrow> owned f rows b"
  by (auto simp: owned_def list_all_iff is_user_def subset_iff)

lemma is_user_update [simp]:
  "is_user i (a\<lparr>sessions := x1\<rparr>) = is_user i a" "is_user i (a\<lparr>totps := x2\<rparr>) = is_user i a"
  "is_user i (a\<lparr>passkeys := x3\<rparr>) = is_user i a" "is_user i (a\<lparr>recovery_codes := x4\<rparr>) = is_user i a"
  "is_user i (a\<lparr>settings := x5\<rparr>) = is_user i a" "is_user i (a\<lparr>known_devices := x6\<rparr>) = is_user i a"
  "is_user i (a\<lparr>vapid := x7\<rparr>) = is_user i a" "is_user i (a\<lparr>subscriptions := x8\<rparr>) = is_user i a"
  "is_user i (a\<lparr>acc_clock := x9\<rparr>) = is_user i a" "is_user i (a\<lparr>acc_faults := fs\<rparr>) = is_user i a"
  by (simp_all add: is_user_def)

lemma owned_update [simp]:
  "owned f rows (a\<lparr>sessions := x1\<rparr>) = owned f rows a" "owned f rows (a\<lparr>totps := x2\<rparr>) = owned f rows a"
  "owned f rows (a\<lparr>passkeys := x3\<rparr>) = owned f rows a" "owned f rows (a\<lparr>recovery_codes := x4\<rparr>) = owned f rows a"
  "owned f rows (a\<lparr>settings := x5\<rparr>) = owned f rows a" "owned f rows (a\<lparr>known_devices := x6\<rparr>) = owned f rows a"
  "owned f rows (a\<lparr>vapid := x7\<rparr>) = owned f rows a" "owned f rows (a\<lparr>subscriptions := x8\<rparr>) = owned f rows a"
  "owned f rows (a\<lparr>acc_clock := x9\<rparr>) = owned f rows a" "owned f rows (a\<lparr>acc_faults := fs\<rparr>) = owned f rows a"
  by (simp_all add: owned_def)

lemma normalizeEmail_idem [simp]: "normalizeEmail (normalizeEmail e) = normalizeEmail e"
proof -
  have low: "is_space_char (to_lower c) = is_space_char c" "to_lower (to_lower c) = to_lower c" for c
    by (auto simp: is_space_char_def to_lower_def)
  have trim: "trim_space (map to_lower s) = map to_lower (trim_space s)" for s
    by (simp add: trim_space_def dropWhile_map rev_map comp_def low)
  have ends: "dropWhile P xs = xs" if "xs \<noteq> [] \<Longrightarrow> \<not> P (hd xs)" for P and xs :: string
    using that by (cases xs) auto
  have "trim_space (trim_space s) = trim_space s" for s
  proof -
    let ?a = "dropWhile is_space_char s"
    have "dropWhile is_space_char (trim_space s) = trim_space s"
    proof (rule ends)
      assume ne: "trim_space s \<noteq> []"
      obtain n where n: "rev (dropWhile is_space_char (rev ?a)) = take n ?a"
        by (metis dropWhile_eq_drop rev_drop rev_rev_ident)
      then have "hd (trim_space s) = hd ?a" "?a \<noteq> []"
        using ne by (auto simp: trim_space_def hd_take gr0_conv_Suc)
      then show "\<not> is_space_char (hd (trim_space s))" by (metis hd_dropWhile)
    qed
    moreover have "dropWhile is_space_char (rev (trim_space s)) = rev (trim_space s)"
      by (simp add: trim_space_def)
    ultimately show ?thesis by (simp add: trim_space_def)
  qed
  then show ?thesis by (simp add: normalizeEmail_def trim low comp_def)
qed

lemma accounts_ok_empty [simp]: "accounts_ok (empty_accounts t fs)"
  by (simp add: accounts_ok_def empty_accounts_def users_ok_def)

lemma accounts_ok_simps [simp]:
  "accounts_ok (a\<lparr>acc_faults := fs\<rparr>) = accounts_ok a" "accounts_ok (a\<lparr>acc_clock := t\<rparr>) = accounts_ok a"
  "accounts_ok (a\<lparr>vapid := v\<rparr>) = accounts_ok a"
  by (simp_all add: accounts_ok_def)

interpretation tables: table_invariant accounts_ok
  by unfold_locales simp

subsection \<open>Every statement keeps the tables well-formed\<close>

lemma next_id_image: "next_id (map k rows) \<notin> k ` set rows"
  using next_id_fresh [of "map k rows"] by simp

lemmas ok_unfold = accounts_ok_def users_ok_def

lemma update_users_ids:
  assumes "\<And>u. user_id (f u) = user_id u"
  shows "map user_id (users (update_users i f a)) = map user_id (users a)"
  using assms by (simp add: update_users_def comp_def)

lemma owned_update_users:
  "(\<And>u. user_id (f u) = user_id u) \<Longrightarrow> owned h rows (update_users i f a) = owned h rows a"
  unfolding owned_def is_user_def by (simp only: update_users_ids)

lemma update_users_ok:
  assumes "accounts_ok a"
    and f: "\<And>u. user_id (f u) = user_id u" "\<And>u. user_email (f u) = user_email u"
      "\<And>u. user_row_ok u \<Longrightarrow> user_row_ok (f u)"
  shows "accounts_ok (update_users i f a)"
proof -
  let ?g = "\<lambda>u. if user_id u = i then f u else u"
  have k: "keyed user_id (map ?g (users a)) = keyed user_id (users a)"
    "keyed user_email (map ?g (users a)) = keyed user_email (users a)"
    by (rule keyed_map, simp add: f)+
  moreover have "list_all user_row_ok (map ?g (users a))"
    using assms(1) f(3) by (auto simp: ok_unfold list_all_iff)
  ultimately have "users_ok (users (update_users i f a))"
    using assms(1) by (simp add: ok_unfold update_users_def)
  with assms(1) show ?thesis
    unfolding accounts_ok_def owned_update_users [of f, OF f(1)] by (simp add: update_users_def)
qed

text \<open>Replacing the row with the key of another row, as ON CONFLICT DO UPDATE does.\<close>

lemma keyed_upsert [simp]: "k row = key \<Longrightarrow> keyed k (map (\<lambda>x. if k x = key then row else x) rows) = keyed k rows"
  by (rule keyed_map) simp

lemma owned_upsert [simp]: "f row = key \<Longrightarrow> owned f (map (\<lambda>x. if f x = key then row else x) rows) a = owned f rows a"
  by (rule owned_map) simp

lemma drop_sessions_ok: "accounts_ok a \<Longrightarrow> accounts_ok (drop_sessions P a)"
  by (simp add: ok_unfold drop_sessions_def)

lemma drop_recovery_ok: "accounts_ok a \<Longrightarrow> accounts_ok (drop_recovery i a)"
  by (simp add: ok_unfold drop_recovery_def)

lemma put_recovery_ok: "accounts_ok a \<Longrightarrow> is_user i a \<Longrightarrow> accounts_ok (put_recovery i h a)"
  by (simp add: ok_unfold put_recovery_def next_id_image)

lemma put_totp_ok: "accounts_ok a \<Longrightarrow> is_user (totp_user t) a \<Longrightarrow> accounts_ok (put_totp t a)"
  by (simp add: ok_unfold put_totp_def Let_def)

lemma put_setting_ok: "accounts_ok a \<Longrightarrow> accounts_ok (put_setting kv a)"
  by (simp add: ok_unfold put_setting_def Let_def)

lemma put_device_ok: "accounts_ok a \<Longrightarrow> is_user i a \<Longrightarrow> accounts_ok (put_device i fp l t a)"
  by (auto simp: ok_unfold put_device_def list_ex_iff)

lemma owned_without [simp]:
  "owned f rows a \<Longrightarrow> owned f (filter (\<lambda>r. f r \<noteq> i) rows) (a\<lparr>users := filter (\<lambda>u. user_id u \<noteq> i) (users a)\<rparr>)"
  by (auto simp: owned_def list_all_iff is_user_def)

lemma cascade_user_ok: "accounts_ok a \<Longrightarrow> accounts_ok (cascade_user i a)"
  by (simp add: ok_unfold cascade_user_def list_all_iff)

lemma CreateUser_ok: "tables.keeps (CreateUser h u)"
  unfolding CreateUser_def
proof (intro tables.keeps_wrapped tables.keeps_constraint)
  fix a assume a: "accounts_ok a" "normalizeEmail (user_email u) \<notin> set (map user_email (users a))"
  show "accounts_ok (snd (let i = next_id (map user_id (users a)) in
            (i, a\<lparr>users := users a @ [\<lparr>user_id = i, user_email = normalizeEmail (user_email u),
                user_name = user_name u, user_role = user_role u, user_hash = user_hash u,
                user_disabled = user_disabled u, user_created = acc_now a, user_last_login = None,
                user_webauthn = h, user_totp_enabled = False, user_passkeys = 0\<rparr>]\<rparr>)))"
    using a by (auto simp: ok_unfold Let_def next_id_image user_row_ok_def intro: owned_users [of a, rotated])
qed

lemma UpdateUser_ok: "tables.keeps (UpdateUser u)"
  unfolding UpdateUser_def GetUser_def ensureNotLastAdmin_def Let_def
  by (intro tables.keeps_tables update_users_ok drop_sessions_ok) (simp_all add: user_row_ok_def)

lemma DeleteUser_ok: "tables.keeps (DeleteUser i)"
  unfolding DeleteUser_def GetUser_def ensureNotLastAdmin_def Let_def
  by (intro tables.keeps_tables cascade_user_ok)

lemma SetUserPassword_ok: "tables.keeps (SetUserPassword i h k)"
  unfolding SetUserPassword_def Let_def
  by (intro tables.keeps_tables drop_sessions_ok) (auto intro: update_users_ok simp: user_row_ok_def)

lemma TouchUserLogin_ok: "tables.keeps (TouchUserLogin i t)"
  unfolding TouchUserLogin_def
  by (intro tables.keeps_tables update_users_ok) (simp_all add: user_row_ok_def)

lemma CreateSession_ok: "tables.keeps (CreateSession s)"
  unfolding CreateSession_def
proof (intro tables.keeps_wrapped tables.keeps_sql)
  fix a assume "accounts_ok a"
  then show "accounts_ok (snd (if ses_hash s \<in> set (map ses_hash (sessions a)) then (Inl unique_violation, a)
       else constraint (is_user (ses_user s) a) foreign_key_violation
         (\<lambda>a. let i = next_id (map ses_id (sessions a)) in
            (i, a\<lparr>sessions := sessions a @ [s\<lparr>ses_id := i, ses_created := stored_time (ses_created s),
                ses_last_seen := stored_time (ses_last_seen s), ses_expires := stored_time (ses_expires s)\<rparr>]\<rparr>)) a))"
    by (simp add: ok_unfold constraint_def Let_def next_id_image)
qed

lemma DeleteSession_ok: "tables.keeps (DeleteSession i)"
  unfolding DeleteSession_def by (intro tables.keeps_tables) (simp add: drop_sessions_ok)

lemma TouchSession_ok: "tables.keeps (TouchSession i t e)"
  unfolding TouchSession_def by (intro tables.keeps_tables) (simp add: ok_unfold)

lemma DeleteExpiredSessions_ok: "tables.keeps (DeleteExpiredSessions t)"
  unfolding DeleteExpiredSessions_def by (intro tables.keeps_tables) (simp add: drop_sessions_ok)

lemma PutSettings_ok: "tables.keeps (PutSettings kvs)"
  unfolding PutSettings_def by (intro tables.keeps_tables put_setting_ok)

lemma replaceRecoveryCodes_ok: "tables.keeps (replaceRecoveryCodes i hs)"
  unfolding replaceRecoveryCodes_def Let_def
  by (intro tables.keeps_rules tables.keeps_exec tables.keeps_constraint drop_recovery_ok)
    (simp_all add: put_recovery_ok)

lemma dropOrphan_ok: "tables.keeps (dropOrphanRecoveryCodes i)"
  unfolding dropOrphanRecoveryCodes_def by (intro tables.keeps_tables) (simp add: drop_recovery_ok)

lemma PutTOTP_ok: "tables.keeps (PutTOTP t hs)"
  unfolding PutTOTP_def Let_def
  by (intro tables.keeps_transaction tables.keeps_begin tables.keeps_rules tables.keeps_constraint
      replaceRecoveryCodes_ok) (simp add: put_totp_ok)

lemma AdvanceTOTPStep_ok: "tables.keeps (AdvanceTOTPStep i n)"
  unfolding AdvanceTOTPStep_def by (intro tables.keeps_tables) (simp add: ok_unfold)

lemma DeleteTOTP_ok: "tables.keeps (DeleteTOTP i)"
  unfolding DeleteTOTP_def Let_def by (intro tables.keeps_tables dropOrphan_ok) (simp add: ok_unfold)

lemma AddWebAuthnCredential_ok: "tables.keeps (AddWebAuthnCredential c hs)"
  unfolding AddWebAuthnCredential_def
proof (intro tables.keeps_tables replaceRecoveryCodes_ok)
  fix a assume "accounts_ok a"
  then show "accounts_ok (snd (if pk_credential c \<in> set (map pk_credential (passkeys a)) then (Inl unique_violation, a)
          else constraint (is_user (pk_user c) a) foreign_key_violation
            (\<lambda>a. let i = next_id (map pk_id (passkeys a)) in
               (i, a\<lparr>passkeys := passkeys a @ [c\<lparr>pk_id := i, pk_created := acc_now a, pk_last_used := None\<rparr>]\<rparr>)) a))"
    by (simp add: ok_unfold constraint_def Let_def next_id_image)
qed

lemma TouchWebAuthnCredential_ok: "tables.keeps (TouchWebAuthnCredential i x t)"
  unfolding TouchWebAuthnCredential_def by (intro tables.keeps_tables) (simp add: ok_unfold)

lemma DeleteWebAuthnCredential_ok: "tables.keeps (DeleteWebAuthnCredential u i)"
  unfolding DeleteWebAuthnCredential_def Let_def
  by (intro tables.keeps_tables dropOrphan_ok) (simp add: ok_unfold)

lemma ReplaceRecoveryCodes_ok: "tables.keeps (ReplaceRecoveryCodes u hs)"
  unfolding ReplaceRecoveryCodes_def
  by (intro tables.keeps_transaction tables.keeps_begin replaceRecoveryCodes_ok)

lemma UseRecoveryCode_ok: "tables.keeps (UseRecoveryCode u h t)"
  unfolding UseRecoveryCode_def
  by (intro tables.keeps_tables) (simp add: ok_unfold split: option.split)

lemma ResetUserMFA_ok: "tables.keeps (ResetUserMFA u)"
  unfolding ResetUserMFA_def Let_def
  by (intro tables.keeps_tables) (auto simp: drop_recovery_ok drop_sessions_ok, simp_all add: ok_unfold)

lemma TouchKnownDevice_ok: "tables.keeps (TouchKnownDevice u f l t)"
  unfolding TouchKnownDevice_def
  by (intro tables.keeps_transaction tables.keeps_exec tables.keeps_rules tables.keeps_select tables.keeps_constraint)
    (simp_all add: put_device_ok)

lemma PruneKnownDevices_ok: "tables.keeps (PruneKnownDevices t)"
  unfolding PruneKnownDevices_def by (intro tables.keeps_tables) (simp add: ok_unfold)

lemma InitVAPIDKeys_ok: "tables.keeps (InitVAPIDKeys k)"
  unfolding InitVAPIDKeys_def VAPIDKeys_def
  by (intro tables.keeps_tables) (simp split: option.split)

lemma taken_over_simps [simp]:
  "ps_id (taken_over sub t p) = ps_id p" "ps_endpoint (taken_over sub t p) = ps_endpoint p"
  "ps_user (taken_over sub t p) = ps_user sub"
  by (simp_all add: taken_over_def)

lemma UpsertPushSubscription_ok: "tables.keeps (UpsertPushSubscription sub)"
  unfolding UpsertPushSubscription_def
proof (intro tables.keeps_wrapped tables.keeps_constraint)
  fix a assume "accounts_ok a" "is_user (ps_user sub) a"
  then show "accounts_ok (snd (case find (\<lambda>p. ps_endpoint p = ps_endpoint sub) (subscriptions a) of
            Some old \<Rightarrow> (ps_id old, a\<lparr>subscriptions := map (\<lambda>p. if ps_endpoint p = ps_endpoint sub
                then taken_over sub (acc_now a) p else p) (subscriptions a)\<rparr>)
          | None \<Rightarrow> let i = next_id (map ps_id (subscriptions a)) in
              (i, a\<lparr>subscriptions := subscriptions a @ [sub\<lparr>ps_id := i, ps_created := acc_now a,
                  ps_success := None, ps_error := [], ps_fails := 0, ps_role := OtherRole []\<rparr>]\<rparr>)))"
    by (auto simp: ok_unfold Let_def next_id_image find_None_iff owned_def list_all_iff split: option.split)
qed

lemma DeletePushSubscription_ok: "tables.keeps (DeletePushSubscription u i)"
  unfolding DeletePushSubscription_def by (intro tables.keeps_tables) (simp add: ok_unfold)

lemma DeletePushSubscriptionByEndpoint_ok: "tables.keeps (DeletePushSubscriptionByEndpoint u e)"
  unfolding DeletePushSubscriptionByEndpoint_def by (intro tables.keeps_tables) (simp add: ok_unfold)

lemma MarkPushResult_ok: "tables.keeps (MarkPushResult i c)"
  unfolding MarkPushResult_def by (intro tables.keeps_tables) (simp add: ok_unfold)

subsection \<open>Triples for statements\<close>

text \<open>An assertion that does not look at the fault schedule.\<close>

definition fault_free :: "(accounts \<Rightarrow> bool) \<Rightarrow> bool" where
  "fault_free P = (\<forall>a fs. P (a\<lparr>acc_faults := fs\<rparr>) = P a)"

lemma hoare_sql:
  assumes "fault_free P"
    and "\<And>a. P a \<Longrightarrow> case f a of (Inl e, a') \<Rightarrow> E a' | (Inr x, a') \<Rightarrow> Q x a'"
    and "\<And>a. P a \<Longrightarrow> E a"
  shows "hoare P (sql f) Q E"
  unfolding hoare_def
proof (intro allI impI)
  fix a assume "P a"
  then have "P (a\<lparr>acc_faults := fs\<rparr>)" for fs using assms(1) by (simp add: fault_free_def)
  with \<open>P a\<close> assms(2,3) show "case sql f a of (Inl e, s') \<Rightarrow> E s' | (Inr x, s') \<Rightarrow> Q x s'"
    by (simp add: sql_def split: list.split)
qed

lemma hoare_select:
  assumes "fault_free P" "\<And>a. P a \<Longrightarrow> Q (g a) a" "\<And>a. P a \<Longrightarrow> E a"
  shows "hoare P (select g) Q E"
  unfolding select_def by (rule hoare_sql [OF assms(1)]) (simp_all add: assms)

lemma hoare_exec:
  assumes "fault_free P" "\<And>a. P a \<Longrightarrow> Q (g a)" "\<And>a. P a \<Longrightarrow> E a"
  shows "hoare P (exec g) (\<lambda>_. Q) E"
  unfolding exec_def by (rule hoare_sql [OF assms(1)]) (simp_all add: assms)

lemma hoare_select_row:
  assumes "fault_free P" "\<And>a. P a \<Longrightarrow> E a"
  shows "hoare P (select_row what g) (\<lambda>x a. P a \<and> g a = Some x) E"
  unfolding select_row_def
proof (rule hoare_and_then [where R = "\<lambda>row a. P a \<and> row = g a"])
  show "hoare P (wrapped what (select g)) (\<lambda>row a. P a \<and> row = g a) E"
    by (rule hoare_wrapped, rule hoare_select) (simp_all add: assms)
qed (auto simp: hoare_def pure_step_def assms split: option.split)

lemma hoare_transaction:
  assumes "fault_free P" "\<And>x. fault_free (Q x)" "hoare P body Q (\<lambda>_. True)"
  shows "hoare P (transaction (begin_tx what) body) Q P"
proof -
  have begin_P: "hoare P (begin_tx what) (\<lambda>_. P) (\<lambda>_. True)"
    unfolding begin_tx_def by (rule hoare_wrapped, rule hoare_exec) (simp_all add: assms(1))
  have commit: "hoare (Q x) (exec id) (\<lambda>_. Q x) (\<lambda>_. True)" for x
    by (rule hoare_exec) (simp_all add: assms(2))
  let ?f = "and_then (begin_tx what) (\<lambda>_. and_then body (\<lambda>x. and_then (exec id) (\<lambda>_. pure_step (Inr x))))"
  have h: "hoare P ?f Q (\<lambda>_. True)"
    by (rule hoare_and_then [OF begin_P], rule hoare_and_then [OF assms(3)], rule hoare_and_then [OF commit])
      (rule hoare_return)
  show ?thesis
  proof (rule hoareI)
    fix a x a' assume "P a" "transaction (begin_tx what) body a = (Inr x, a')"
    then show "Q x a'" using hoareD_ok [OF h] by (auto simp: transaction_def split: prod.splits sum.splits)
  next
    fix a e a' assume "P a" "transaction (begin_tx what) body a = (Inl e, a')"
    then show "P a'" using assms(1) by (auto simp: transaction_def fault_free_def split: prod.splits sum.splits)
  qed
qed

subsection \<open>An administrator is left\<close>

definition has_admin :: "accounts \<Rightarrow> bool" where
  "has_admin a = list_ex is_enabled_admin (users a)"

definition other_admin :: "rowid \<Rightarrow> accounts \<Rightarrow> bool" where
  "other_admin uid a = list_ex (\<lambda>u. is_enabled_admin u \<and> user_id u \<noteq> uid) (users a)"

lemma faults_reads [simp]:
  "scanUser (a\<lparr>acc_faults := fs\<rparr>) = scanUser a"
  "user_by_id i (a\<lparr>acc_faults := fs\<rparr>) = user_by_id i a"
  "session_owner h (a\<lparr>acc_faults := fs\<rparr>) = session_owner h a"
proof -
  show 1: "scanUser (a\<lparr>acc_faults := fs\<rparr>) = scanUser a" by (rule ext) (simp add: scanUser_def)
  show 2: "user_by_id i (a\<lparr>acc_faults := fs\<rparr>) = user_by_id i a" for i by (simp add: user_by_id_def 1)
  show "session_owner h (a\<lparr>acc_faults := fs\<rparr>) = session_owner h a"
    by (simp add: session_owner_def 2 split: option.split)
qed

lemma fault_free_simps [simp]:
  "fault_free accounts_ok" "fault_free has_admin" "fault_free (other_admin i)"
  "fault_free (\<lambda>a. user_by_id i a = c)" "fault_free (\<lambda>a. b)"
  "fault_free P \<Longrightarrow> fault_free Q \<Longrightarrow> fault_free (\<lambda>a. P a \<and> Q a)"
  "fault_free P \<Longrightarrow> fault_free (\<lambda>a. b \<longrightarrow> P a)"
  by (simp_all add: fault_free_def has_admin_def other_admin_def)

lemma fault_free_eta [simp]: "fault_free P \<Longrightarrow> fault_free (\<lambda>a. P a)"
  by simp

lemma ensureNotLastAdmin_hoare:
  assumes "fault_free P"
  shows "hoare P (ensureNotLastAdmin i) (\<lambda>_ a. P a \<and> other_admin i a) (\<lambda>_. True)"
  unfolding ensureNotLastAdmin_def
proof (rule hoare_and_then)
  show "hoare P (wrapped ''count admins: '' (select (\<lambda>a. length (filter (\<lambda>u. is_enabled_admin u \<and> user_id u \<noteq> i) (users a)))))
     (\<lambda>n a. P a \<and> (n \<noteq> 0 \<longrightarrow> other_admin i a)) (\<lambda>_. True)"
    by (rule hoare_wrapped, rule hoare_select [OF assms])
      (auto simp: other_admin_def list_ex_iff filter_empty_conv)
qed (auto simp: hoare_def pure_step_def)

text \<open>Whoever loses the role, the flag or the row is not the only one.\<close>

definition spared :: "rowid \<Rightarrow> user \<Rightarrow> bool \<Rightarrow> accounts \<Rightarrow> bool" where
  "spared i cur losing a =
     (accounts_ok a \<and> has_admin a \<and> user_by_id i a = Some cur \<and> (losing \<longrightarrow> other_admin i a))"

lemma fault_free_spared [simp]: "fault_free (spared i cur losing)"
  unfolding spared_def by simp

lemma guard_hoare:
  "hoare (\<lambda>a. (accounts_ok a \<and> has_admin a) \<and> user_by_id i a = Some cur)
     (if losing then ensureNotLastAdmin i else pure_step (Inr ())) (\<lambda>_. spared i cur losing) (\<lambda>_. True)"
proof (cases losing)
  case True
  have "hoare (\<lambda>a. (accounts_ok a \<and> has_admin a) \<and> user_by_id i a = Some cur) (ensureNotLastAdmin i)
      (\<lambda>_ a. ((accounts_ok a \<and> has_admin a) \<and> user_by_id i a = Some cur) \<and> other_admin i a) (\<lambda>_. True)"
    by (rule ensureNotLastAdmin_hoare) simp
  from hoare_weaken [OF this] True show ?thesis by (simp add: spared_def)
qed (auto simp: spared_def)

lemma spared_cases:
  assumes "spared i cur losing a"
  obtains (other) w where "w \<in> set (users a)" "is_enabled_admin w" "user_id w \<noteq> i"
  | (self) w where "w \<in> set (users a)" "is_enabled_admin w" "user_id w = i" "\<not> losing"
      "user_role cur = RoleAdmin" "\<not> user_disabled cur"
proof -
  obtain w where w: "w \<in> set (users a)" "is_enabled_admin w"
    using assms by (auto simp: spared_def has_admin_def list_ex_iff)
  show ?thesis
  proof (cases "user_id w = i")
    case True
    have "find (\<lambda>u. user_id u = i) (users a) = Some w"
      using keyed_find [of user_id "users a" w] assms w True by (simp add: spared_def ok_unfold)
    then have "cur = scanUser a w" using assms by (simp add: spared_def user_by_id_def)
    moreover have thesis if losing
      using assms that other by (auto simp: spared_def other_admin_def list_ex_iff)
    ultimately show ?thesis
      using self [of w] w True by (auto simp: is_enabled_admin_def scanUser_def)
  next
    case False
    with w other show ?thesis by blast
  qed
qed

lemma UpdateUser_admin:
  "hoare (\<lambda>a. accounts_ok a \<and> has_admin a) (UpdateUser u) (\<lambda>_. has_admin) (\<lambda>a. accounts_ok a \<and> has_admin a)"
  unfolding UpdateUser_def Let_def GetUser_def
proof (rule hoare_transaction, goal_cases ff ff2 body)
  case body
  let ?i = "user_id u"
  let ?loses = "\<lambda>cur. user_role cur = RoleAdmin \<and> \<not> user_disabled cur \<and> (user_role u \<noteq> RoleAdmin \<or> user_disabled u)"
  let ?f = "\<lambda>x. x\<lparr>user_name := user_name u, user_role := user_role u, user_disabled := user_disabled u\<rparr>"
  have update: "has_admin (update_users ?i ?f a)" if "spared ?i cur (?loses cur) a" for cur a
    using that
  proof (cases rule: spared_cases)
    case (other w)
    then show ?thesis by (force simp: has_admin_def list_ex_iff update_users_def)
  next
    case (self w)
    then have "?f w \<in> set (users (update_users ?i ?f a))" "is_enabled_admin (?f w)"
      by (auto simp: update_users_def is_enabled_admin_def image_iff intro: bexI [of _ w])
    then show ?thesis unfolding has_admin_def list_ex_iff by blast
  qed
  have drop: "hoare has_admin (wrapped p (exec (drop_sessions Q))) (\<lambda>_. has_admin) (\<lambda>_. True)" for p Q
    by (rule hoare_wrapped, rule hoare_exec) (simp_all add: has_admin_def drop_sessions_def)
  show ?case
    by (rule hoare_and_then, rule hoare_select_row, simp, simp,
        rule hoare_and_then, rule guard_hoare,
        rule hoare_and_then [where R = "\<lambda>_. has_admin"], rule hoare_wrapped, rule hoare_exec, simp, erule update, simp,
        rule hoare_if, rule drop, rule hoare_return, assumption)
qed simp_all

lemma DeleteUser_admin:
  "hoare (\<lambda>a. accounts_ok a \<and> has_admin a) (DeleteUser i) (\<lambda>_. has_admin) (\<lambda>a. accounts_ok a \<and> has_admin a)"
  unfolding DeleteUser_def Let_def GetUser_def
proof (rule hoare_transaction, goal_cases ff ff2 body)
  case body
  have cascade: "has_admin (cascade_user i a)"
    if "spared i cur (user_role cur = RoleAdmin \<and> \<not> user_disabled cur) a" for cur a
    using that by (cases rule: spared_cases) (auto simp: has_admin_def list_ex_iff cascade_user_def)
  show ?case
    by (rule hoare_and_then, rule hoare_select_row, simp, simp,
        rule hoare_and_then, rule guard_hoare,
        rule hoare_wrapped, rule hoare_exec, simp, erule cascade, simp)
qed simp_all

subsection \<open>Statements on the account tables, and the states they reach\<close>

inductive account_step :: "accounts \<Rightarrow> accounts \<Rightarrow> bool" where
  create_user: "CreateUser h u a = (r, b) \<Longrightarrow> account_step a b"
| update_user: "UpdateUser u a = (r, b) \<Longrightarrow> account_step a b"
| delete_user: "DeleteUser i a = (r, b) \<Longrightarrow> account_step a b"
| set_password: "SetUserPassword i h k a = (r, b) \<Longrightarrow> account_step a b"
| touch_login: "TouchUserLogin i t a = (r, b) \<Longrightarrow> account_step a b"
| create_session: "CreateSession s a = (r, b) \<Longrightarrow> account_step a b"
| delete_session: "DeleteSession i a = (r, b) \<Longrightarrow> account_step a b"
| touch_session: "TouchSession i t e a = (r, b) \<Longrightarrow> account_step a b"
| expire_sessions: "DeleteExpiredSessions t a = (r, b) \<Longrightarrow> account_step a b"
| put_settings: "PutSettings kvs a = (r, b) \<Longrightarrow> account_step a b"
| put_totp: "PutTOTP tp hs a = (r, b) \<Longrightarrow> account_step a b"
| advance_totp: "AdvanceTOTPStep i n a = (r, b) \<Longrightarrow> account_step a b"
| delete_totp: "DeleteTOTP i a = (r, b) \<Longrightarrow> account_step a b"
| add_passkey: "AddWebAuthnCredential c hs a = (r, b) \<Longrightarrow> account_step a b"
| touch_passkey: "TouchWebAuthnCredential i x t a = (r, b) \<Longrightarrow> account_step a b"
| delete_passkey: "DeleteWebAuthnCredential u i a = (r, b) \<Longrightarrow> account_step a b"
| replace_codes: "ReplaceRecoveryCodes i hs a = (r, b) \<Longrightarrow> account_step a b"
| use_code: "UseRecoveryCode i h t a = (r, b) \<Longrightarrow> account_step a b"
| reset_mfa: "ResetUserMFA i a = (r, b) \<Longrightarrow> account_step a b"
| touch_device: "TouchKnownDevice i f l t a = (r, b) \<Longrightarrow> account_step a b"
| prune_devices: "PruneKnownDevices t a = (r, b) \<Longrightarrow> account_step a b"
| init_vapid: "InitVAPIDKeys k a = (r, b) \<Longrightarrow> account_step a b"
| upsert_push: "UpsertPushSubscription p a = (r, b) \<Longrightarrow> account_step a b"
| delete_push: "DeletePushSubscription i n a = (r, b) \<Longrightarrow> account_step a b"
| delete_endpoint: "DeletePushSubscriptionByEndpoint i e a = (r, b) \<Longrightarrow> account_step a b"
| mark_push: "MarkPushResult i c a = (r, b) \<Longrightarrow> account_step a b"
| read: "account_step a (a\<lparr>acc_faults := fs\<rparr>)"
| tick: "account_step a (a\<lparr>acc_clock := t\<rparr>)"

inductive reachable_accounts :: "accounts \<Rightarrow> bool" where
  start: "reachable_accounts (empty_accounts t fs)"
| step: "reachable_accounts a \<Longrightarrow> account_step a b \<Longrightarrow> reachable_accounts b"

lemmas statements_ok = CreateUser_ok UpdateUser_ok DeleteUser_ok SetUserPassword_ok TouchUserLogin_ok
  CreateSession_ok DeleteSession_ok TouchSession_ok DeleteExpiredSessions_ok PutSettings_ok PutTOTP_ok
  AdvanceTOTPStep_ok DeleteTOTP_ok AddWebAuthnCredential_ok TouchWebAuthnCredential_ok
  DeleteWebAuthnCredential_ok ReplaceRecoveryCodes_ok UseRecoveryCode_ok ResetUserMFA_ok
  TouchKnownDevice_ok PruneKnownDevices_ok InitVAPIDKeys_ok UpsertPushSubscription_ok
  DeletePushSubscription_ok DeletePushSubscriptionByEndpoint_ok MarkPushResult_ok

lemma account_step_ok: "account_step a b \<Longrightarrow> accounts_ok a \<Longrightarrow> accounts_ok b"
  by (induction rule: account_step.induct) (auto dest: statements_ok [THEN tables.keepsD])

interpretation admins: table_invariant has_admin
  by unfold_locales (simp add: has_admin_def)

lemma has_admin_simps [simp]:
  "has_admin (a\<lparr>sessions := x1\<rparr>) = has_admin a" "has_admin (a\<lparr>totps := x2\<rparr>) = has_admin a"
  "has_admin (a\<lparr>passkeys := x3\<rparr>) = has_admin a" "has_admin (a\<lparr>recovery_codes := x4\<rparr>) = has_admin a"
  "has_admin (a\<lparr>settings := x5\<rparr>) = has_admin a" "has_admin (a\<lparr>known_devices := x6\<rparr>) = has_admin a"
  "has_admin (a\<lparr>vapid := x7\<rparr>) = has_admin a" "has_admin (a\<lparr>subscriptions := x8\<rparr>) = has_admin a"
  "has_admin (a\<lparr>acc_clock := x9\<rparr>) = has_admin a" "has_admin (a\<lparr>acc_faults := fs\<rparr>) = has_admin a"
  by (simp_all add: has_admin_def)

lemma has_admin_update:
  "has_admin a \<Longrightarrow> (\<And>u. is_enabled_admin (f u) = is_enabled_admin u) \<Longrightarrow> has_admin (update_users i f a)"
  by (auto simp: has_admin_def list_ex_iff update_users_def)

lemma is_enabled_admin_simps [simp]:
  "is_enabled_admin (u\<lparr>user_hash := h\<rparr>) = is_enabled_admin u"
  "is_enabled_admin (u\<lparr>user_last_login := l\<rparr>) = is_enabled_admin u"
  by (simp_all add: is_enabled_admin_def)

lemma has_admin_parts [simp]:
  "has_admin (drop_sessions P a) = has_admin a" "has_admin (drop_recovery i a) = has_admin a"
  "has_admin (put_recovery i h a) = has_admin a" "has_admin (put_totp t a) = has_admin a"
  "has_admin (put_setting kv a) = has_admin a" "has_admin (put_device i fp l t' a) = has_admin a"
  by (simp_all add: drop_sessions_def drop_recovery_def put_recovery_def put_totp_def put_setting_def
      put_device_def Let_def)

lemmas statement_defs = CreateUser_def SetUserPassword_def TouchUserLogin_def CreateSession_def
  DeleteSession_def TouchSession_def DeleteExpiredSessions_def PutSettings_def PutTOTP_def
  AdvanceTOTPStep_def DeleteTOTP_def AddWebAuthnCredential_def TouchWebAuthnCredential_def
  DeleteWebAuthnCredential_def ReplaceRecoveryCodes_def UseRecoveryCode_def ResetUserMFA_def
  TouchKnownDevice_def PruneKnownDevices_def InitVAPIDKeys_def VAPIDKeys_def UpsertPushSubscription_def
  DeletePushSubscription_def DeletePushSubscriptionByEndpoint_def MarkPushResult_def
  replaceRecoveryCodes_def dropOrphanRecoveryCodes_def

lemma other_statements_admin:
  "admins.keeps (CreateUser h u)" "admins.keeps (SetUserPassword i h k)" "admins.keeps (TouchUserLogin i t)"
  "admins.keeps (CreateSession s)" "admins.keeps (DeleteSession i)" "admins.keeps (TouchSession i t e)"
  "admins.keeps (DeleteExpiredSessions t)" "admins.keeps (PutSettings kvs)" "admins.keeps (PutTOTP tp hs)"
  "admins.keeps (AdvanceTOTPStep i n)" "admins.keeps (DeleteTOTP i)" "admins.keeps (AddWebAuthnCredential c hs)"
  "admins.keeps (TouchWebAuthnCredential i x t)" "admins.keeps (DeleteWebAuthnCredential i n)"
  "admins.keeps (ReplaceRecoveryCodes i codes)" "admins.keeps (UseRecoveryCode i h t)" "admins.keeps (ResetUserMFA i)"
  "admins.keeps (TouchKnownDevice i f l t)" "admins.keeps (PruneKnownDevices t)" "admins.keeps (InitVAPIDKeys vk)"
  "admins.keeps (UpsertPushSubscription p)" "admins.keeps (DeletePushSubscription i n)"
  "admins.keeps (DeletePushSubscriptionByEndpoint i endpoint)" "admins.keeps (MarkPushResult i cause)"
  unfolding statement_defs Let_def
  by (rule admins.keeps_tables | erule has_admin_update | erule disjE
      | simp add: constraint_def has_admin_update split: option.split | fastforce simp: has_admin_def list_ex_iff)+

lemma account_step_admin:
  assumes "account_step a b" "accounts_ok a" "has_admin a"
  shows "has_admin b"
  using assms(1)
proof (cases rule: account_step.cases)
  case (update_user u r)
  then show ?thesis
    using hoareD_ok [OF UpdateUser_admin, of a u] hoareD_err [OF UpdateUser_admin, of a u] assms(2,3)
    by (cases r) blast+
next
  case (delete_user i r)
  then show ?thesis
    using hoareD_ok [OF DeleteUser_admin, of a i] hoareD_err [OF DeleteUser_admin, of a i] assms(2,3)
    by (cases r) blast+
qed (use assms(3) in \<open>auto dest: other_statements_admin [THEN admins.keepsD]\<close>)

lemma reachable_accounts_ok: "reachable_accounts a \<Longrightarrow> accounts_ok a"
  by (induction rule: reachable_accounts.induct) (auto dest: account_step_ok)

text \<open>
  C9: the account tables are well-formed in every state they reach: ids, addresses, token
  hashes, credential ids and endpoints are unique, every session, factor, code, device and
  subscription belongs to a user, and addresses are stored normalised.
\<close>

theorem accounts_well_formed:
  assumes "reachable_accounts a"
  shows "accounts_ok a"
  using assms by (rule reachable_accounts_ok)

text \<open>
  C13: the last enabled administrator cannot be lost. From any state reached that has one,
  whatever statements follow, in any order, with any arguments and whatever faults they meet,
  leave one.
\<close>

theorem admin_never_lost:
  assumes "reachable_accounts a"
    and "\<exists>u \<in> set (users a). user_role u = RoleAdmin \<and> \<not> user_disabled u"
    and "account_step\<^sup>*\<^sup>* a b"
  shows "\<exists>u \<in> set (users b). user_role u = RoleAdmin \<and> \<not> user_disabled u"
proof -
  have admin: "has_admin c = (\<exists>u \<in> set (users c). user_role u = RoleAdmin \<and> \<not> user_disabled u)" for c
    by (simp add: has_admin_def list_ex_iff is_enabled_admin_def)
  from assms(3) have "reachable_accounts b \<and> has_admin b"
  proof (induction rule: rtranclp_induct)
    case base
    then show ?case using assms(1,2) admin by blast
  next
    case (step c d)
    then show ?case
      using account_step_admin [OF step.hyps(2)] reachable_accounts_ok reachable_accounts.step by blast
  qed
  then show ?thesis by (simp add: admin)
qed

definition sample_account :: user where
  "sample_account = \<lparr>user_id = 0, user_email = ''root'', user_name = ''root'', user_role = RoleAdmin, user_hash = ''h'',
     user_disabled = False, user_created = 0, user_last_login = None, user_webauthn = [],
     user_totp_enabled = False, user_passkeys = 0\<rparr>"

definition sample_accounts :: accounts where
  "sample_accounts = snd (CreateUser ''handle'' sample_account (empty_accounts 100 []))"

lemma reachable_sample: "reachable_accounts sample_accounts"
proof -
  obtain r b where "CreateUser ''handle'' sample_account (empty_accounts 100 []) = (r, b)" by fastforce
  then show ?thesis
    using reachable_accounts.step [OF reachable_accounts.start account_step.create_user]
    by (auto simp: sample_accounts_def)
qed

lemma sample_users: "users sample_accounts =
  [\<lparr>user_id = 1, user_email = ''root'', user_name = ''root'', user_role = RoleAdmin, user_hash = ''h'',
    user_disabled = False, user_created = unix_to_time 100, user_last_login = None, user_webauthn = ''handle'',
    user_totp_enabled = False, user_passkeys = 0\<rparr>]"
  by (simp add: sample_accounts_def CreateUser_def sample_account_def empty_accounts_def wrapped_def sql_def
      constraint_def next_id_def acc_now_def normalizeEmail_def trim_space_def is_space_char_def to_lower_def)

theorem accounts_well_formed_witness: "accounts_ok sample_accounts"
  by (rule accounts_well_formed [OF reachable_sample])

theorem admin_never_lost_witness:
  "\<exists>u \<in> set (users (snd (DeleteUser 1 sample_accounts))). user_role u = RoleAdmin \<and> \<not> user_disabled u"
proof -
  obtain r b where b: "DeleteUser 1 sample_accounts = (r, b)" by fastforce
  have "account_step\<^sup>*\<^sup>* sample_accounts b" using account_step.delete_user [OF b] by blast
  with admin_never_lost [OF reachable_sample] b show ?thesis by (simp add: sample_users)
qed

end
