(* ===== verification/Throttle.thy ===== *)
theory Throttle
  imports Prelude
begin

text \<open>
  The in-memory state of the API's login: the limiter of internal/api/auth.go, which counts recent
  failures per key, and the map of short-lived entries of internal/api/mfa.go. The clock the code
  calls is an argument. The limiter is compared with a log of the attempts.
\<close>

subsection \<open>The login limiter\<close>

record login_fails =
  lf_n :: nat
  lf_last :: time

type_synonym limiter = "string \<rightharpoonup> login_fails"

definition limiter_window :: duration where "limiter_window = 15 * minute"
definition maxFail :: nat where "maxFail = 10"

definition newLoginLimiter :: limiter where "newLoginLimiter = Map.empty"

definition blocked :: "string \<Rightarrow> time \<Rightarrow> limiter \<Rightarrow> (bool \<times> duration) \<times> limiter" where
  "blocked key now l =
     (case l key of
        None \<Rightarrow> ((False, 0), l)
      | Some f \<Rightarrow>
          if now - lf_last f \<ge> limiter_window then ((False, 0), l(key := None))
          else if lf_n f < maxFail then ((False, 0), l)
          else ((True, limiter_window - (now - lf_last f)), l))"

text \<open>One turn of the loop of fail: the counter restarts when there is none or it has gone stale.\<close>

definition bump :: "time \<Rightarrow> string \<Rightarrow> limiter \<Rightarrow> nat" where
  "bump now k l =
     (case l k of
        None \<Rightarrow> 1
      | Some f \<Rightarrow> if now - lf_last f \<ge> limiter_window then 1 else lf_n f + 1)"

fun fail_loop :: "time \<Rightarrow> string list \<Rightarrow> nat \<Rightarrow> string list \<Rightarrow> limiter \<Rightarrow> (nat \<times> string list) \<times> limiter" where
  "fail_loop now [] worst locked l = ((worst, locked), l)"
| "fail_loop now (k # ks) worst locked l =
     (let n = bump now k l in
      fail_loop now ks (if n > worst then n else worst) (if n = maxFail then locked @ [k] else locked)
        (l(k \<mapsto> \<lparr>lf_n = n, lf_last = now\<rparr>)))"

definition fail :: "string list \<Rightarrow> time \<Rightarrow> limiter \<Rightarrow> (duration \<times> string list) \<times> limiter" where
  "fail keys now l =
     (case fail_loop now keys 0 [] l of ((worst, locked), l) \<Rightarrow>
        let d = int worst * 100 * 1000000 in
        ((if d > 2 * second then 2 * second else d, locked), l))"

definition succeed :: "string list \<Rightarrow> limiter \<Rightarrow> limiter" where
  "succeed keys l = fold (\<lambda>k l. l(k := None)) keys l"

definition limiter_sweep :: "time \<Rightarrow> limiter \<Rightarrow> limiter" where
  "limiter_sweep now l =
     (\<lambda>k. case l k of None \<Rightarrow> None
                    | Some f \<Rightarrow> if now - lf_last f \<ge> limiter_window then None else Some f)"

lemma succeed_apply: "succeed keys l k = (if k \<in> set keys then None else l k)"
  unfolding succeed_def by (induction keys arbitrary: l) auto

lemma fail_delay_bounded: "fail keys now l = ((d, locked), l') \<Longrightarrow> 0 \<le> d \<and> d \<le> 2 * second"
  by (auto simp: fail_def Let_def second_def split: prod.splits if_splits)

subsection \<open>The attempts behind the counters\<close>

text \<open>
  The reference is the log of what was attempted, newest first: the failures of a key since its
  last success, each less than a window before the next one, the last of them less than a window
  ago.
\<close>

datatype attempt = Failed string time | Succeeded string

fun streak :: "string \<Rightarrow> time \<Rightarrow> attempt list \<Rightarrow> nat" where
  "streak k now [] = 0"
| "streak k now (Failed k' t # log) =
     (if k' \<noteq> k then streak k now log
      else if now - t \<ge> limiter_window then 0
      else Suc (streak k t log))"
| "streak k now (Succeeded k' # log) = (if k' = k then 0 else streak k now log)"

fun last_failure :: "string \<Rightarrow> attempt list \<Rightarrow> time option" where
  "last_failure k [] = None"
| "last_failure k (Failed k' t # log) = (if k' = k then Some t else last_failure k log)"
| "last_failure k (Succeeded k' # log) = (if k' = k then None else last_failure k log)"

text \<open>What is asked of the limiter, and the answers of the code and of the log.\<close>

datatype limiter_call = CallBlocked string | CallFail "string list" | CallSucceed "string list" | CallSweep

datatype limiter_answer = Blocked bool duration | Delay duration "string list" | Done

definition limiter_step :: "time \<Rightarrow> limiter_call \<Rightarrow> limiter \<Rightarrow> limiter_answer \<times> limiter" where
  "limiter_step now c l =
     (case c of
        CallBlocked k \<Rightarrow> (case blocked k now l of ((b, d), l) \<Rightarrow> (Blocked b d, l))
      | CallFail ks \<Rightarrow> (case fail ks now l of ((d, locked), l) \<Rightarrow> (Delay d locked, l))
      | CallSucceed ks \<Rightarrow> (Done, succeed ks l)
      | CallSweep \<Rightarrow> (Done, limiter_sweep now l))"

fun limiter_run :: "(time \<times> limiter_call) list \<Rightarrow> limiter \<Rightarrow> limiter_answer list" where
  "limiter_run [] l = []"
| "limiter_run ((now, c) # cs) l = (case limiter_step now c l of (ans, l) \<Rightarrow> ans # limiter_run cs l)"

fun log_fails :: "time \<Rightarrow> string list \<Rightarrow> attempt list \<Rightarrow> (nat \<times> string list) \<times> attempt list" where
  "log_fails now [] log = ((0, []), log)"
| "log_fails now (k # ks) log =
     (case log_fails now ks (Failed k now # log) of ((worst, locked), log') \<Rightarrow>
        let n = streak k now (Failed k now # log) in
        ((max n worst, if n = maxFail then k # locked else locked), log'))"

definition log_step :: "time \<Rightarrow> limiter_call \<Rightarrow> attempt list \<Rightarrow> limiter_answer \<times> attempt list" where
  "log_step now c log =
     (case c of
        CallBlocked k \<Rightarrow>
          (if streak k now log \<ge> maxFail
           then Blocked True (the (last_failure k log) + limiter_window - now) else Blocked False 0, log)
      | CallFail ks \<Rightarrow>
          (case log_fails now ks log of ((worst, locked), log) \<Rightarrow>
             (Delay (min (2 * second) (int worst * 100 * 1000000)) locked, log))
      | CallSucceed ks \<Rightarrow> (Done, map Succeeded ks @ log)
      | CallSweep \<Rightarrow> (Done, log))"

fun log_run :: "(time \<times> limiter_call) list \<Rightarrow> attempt list \<Rightarrow> limiter_answer list" where
  "log_run [] log = []"
| "log_run ((now, c) # cs) log = (case log_step now c log of (ans, log) \<Rightarrow> ans # log_run cs log)"

subsection \<open>The limiter answers as the log does\<close>

lemma limiter_window_pos [simp]: "0 < limiter_window" "\<not> limiter_window \<le> 0"
  by (simp_all add: limiter_window_def minute_def second_def)

lemma streak_last:
  "streak k now log =
     (case last_failure k log of
        None \<Rightarrow> 0 | Some t \<Rightarrow> if now - t \<ge> limiter_window then 0 else streak k t log)"
  by (induction k log rule: last_failure.induct) (auto split: option.splits)

text \<open>The counters at a time describe the log: a missing counter is a streak that is over.\<close>

definition counts :: "time \<Rightarrow> limiter \<Rightarrow> attempt list \<Rightarrow> bool" where
  "counts now l log =
     (\<forall>k. case l k of
            None \<Rightarrow> (\<forall>t. last_failure k log = Some t \<longrightarrow> now - t \<ge> limiter_window)
          | Some f \<Rightarrow> last_failure k log = Some (lf_last f) \<and> lf_last f \<le> now \<and>
                      lf_n f = streak k (lf_last f) log)"

lemma counts_None: "counts now l log \<Longrightarrow> l k = None \<Longrightarrow> last_failure k log = Some t \<Longrightarrow> now - t \<ge> limiter_window"
  by (auto simp: counts_def dest: spec [of _ k])

lemma counts_Some:
  "counts now l log \<Longrightarrow> l k = Some f \<Longrightarrow>
     last_failure k log = Some (lf_last f) \<and> lf_last f \<le> now \<and> lf_n f = streak k (lf_last f) log"
  by (auto simp: counts_def dest: spec [of _ k])

lemma counts_new: "counts now newLoginLimiter []"
  by (simp add: counts_def newLoginLimiter_def)

lemma counts_later:
  assumes "counts now l log" "now \<le> now'"
  shows "counts now' l log"
  unfolding counts_def
proof
  fix k show "case l k of
            None \<Rightarrow> (\<forall>t. last_failure k log = Some t \<longrightarrow> now' - t \<ge> limiter_window)
          | Some f \<Rightarrow> last_failure k log = Some (lf_last f) \<and> lf_last f \<le> now' \<and> lf_n f = streak k (lf_last f) log"
  proof (cases "l k")
    case None
    then show ?thesis using counts_None [OF assms(1) None] assms(2) by fastforce
  next
    case (Some f)
    then show ?thesis using counts_Some [OF assms(1) Some] assms(2) by simp
  qed
qed

lemma counts_streak:
  assumes "counts now l log"
  shows "streak k now log =
    (case l k of None \<Rightarrow> 0 | Some f \<Rightarrow> if now - lf_last f \<ge> limiter_window then 0 else lf_n f)"
proof (cases "l k")
  case None
  then show ?thesis using counts_None [OF assms None]
    by (auto simp: streak_last [of k now] split: option.split)
next
  case (Some f)
  then show ?thesis using counts_Some [OF assms Some]
    by (auto simp: streak_last [of k now])
qed

text \<open>Forgetting a stale counter changes nothing.\<close>

lemma counts_forget:
  assumes "counts now l log" "\<And>k. m k = l k \<or> (m k = None \<and> (\<exists>f. l k = Some f \<and> now - lf_last f \<ge> limiter_window))"
  shows "counts now m log"
  unfolding counts_def
proof
  fix k show "case m k of
            None \<Rightarrow> (\<forall>t. last_failure k log = Some t \<longrightarrow> now - t \<ge> limiter_window)
          | Some f \<Rightarrow> last_failure k log = Some (lf_last f) \<and> lf_last f \<le> now \<and> lf_n f = streak k (lf_last f) log"
  proof (cases "m k = l k")
    case True
    then show ?thesis using assms(1) by (simp add: counts_def)
  next
    case False
    then obtain f where "m k = None" "l k = Some f" "now - lf_last f \<ge> limiter_window"
      using assms(2) [of k] by auto
    then show ?thesis using counts_Some [OF assms(1), of k f] by simp
  qed
qed

lemma bump_streak:
  assumes "counts now l log"
  shows "bump now k l = streak k now (Failed k now # log)"
  using counts_streak [OF assms, of k] by (auto simp: bump_def split: option.splits)

lemma counts_bump:
  assumes "counts now l log"
  shows "counts now (l(k \<mapsto> \<lparr>lf_n = bump now k l, lf_last = now\<rparr>)) (Failed k now # log)"
  unfolding counts_def
proof
  fix k'
  have other: "streak k' t (Failed k now # log) = streak k' t log" if "k' \<noteq> k" for t using that by simp
  show "case (l(k \<mapsto> \<lparr>lf_n = bump now k l, lf_last = now\<rparr>)) k' of
            None \<Rightarrow> (\<forall>t. last_failure k' (Failed k now # log) = Some t \<longrightarrow> now - t \<ge> limiter_window)
          | Some f \<Rightarrow> last_failure k' (Failed k now # log) = Some (lf_last f) \<and> lf_last f \<le> now \<and>
              lf_n f = streak k' (lf_last f) (Failed k now # log)"
  proof (cases "k' = k")
    case True
    then show ?thesis using bump_streak [OF assms, of k] by simp
  next
    case False
    then show ?thesis using assms [unfolded counts_def, rule_format, of k']
      by (cases "l k'") (auto simp: other)
  qed
qed

lemma counts_fail_loop:
  assumes "counts now l log" "fail_loop now ks w locked l = ((w', locked'), l')"
    and "log_fails now ks log = ((v, new), log')"
  shows "counts now l' log' \<and> w' = max w v \<and> locked' = locked @ new"
  using assms
proof (induction now ks w locked l arbitrary: log v new rule: fail_loop.induct)
  case (1 now w locked l)
  then show ?case by simp
next
  case (2 now k ks w locked l)
  obtain v2 new2 where rest: "log_fails now ks (Failed k now # log) = ((v2, new2), log')"
    using "2.prems"(3) by (auto simp: Let_def split: prod.splits)
  let ?n = "bump now k l"
  have n: "?n = streak k now (Failed k now # log)" by (rule bump_streak [OF "2.prems"(1)])
  have "fail_loop now ks (if ?n > w then ?n else w) (if ?n = maxFail then locked @ [k] else locked)
      (l(k \<mapsto> \<lparr>lf_n = ?n, lf_last = now\<rparr>)) = ((w', locked'), l')"
    using "2.prems"(2) by (simp add: Let_def)
  from "2.IH" [OF refl counts_bump [OF "2.prems"(1)] this rest]
  have "counts now l' log' \<and> w' = max (if ?n > w then ?n else w) v2 \<and>
      locked' = (if ?n = maxFail then locked @ [k] else locked) @ new2" .
  moreover have "v = max ?n v2" "new = (if ?n = maxFail then k # new2 else new2)"
    using "2.prems"(3) rest n by (auto simp: Let_def simp del: streak.simps)
  ultimately show ?case by auto
qed

lemma counts_succeed:
  assumes "counts now l log"
  shows "counts now (succeed ks l) (map Succeeded ks @ log)"
proof -
  have cleared: "last_failure k (map Succeeded ks @ log) = (if k \<in> set ks then None else last_failure k log)"
    "streak k t (map Succeeded ks @ log) = (if k \<in> set ks then 0 else streak k t log)" for k t
    by (induction ks) auto
  show ?thesis
    unfolding counts_def
  proof
    fix k show "case succeed ks l k of
            None \<Rightarrow> (\<forall>t. last_failure k (map Succeeded ks @ log) = Some t \<longrightarrow> now - t \<ge> limiter_window)
          | Some f \<Rightarrow> last_failure k (map Succeeded ks @ log) = Some (lf_last f) \<and> lf_last f \<le> now \<and>
              lf_n f = streak k (lf_last f) (map Succeeded ks @ log)"
      using assms [unfolded counts_def, rule_format, of k]
      by (cases "l k") (auto simp: succeed_apply cleared)
  qed
qed

lemma blocked_counts:
  assumes "counts now l log" "blocked k now l = ((b, d), l')"
  shows "counts now l' log" "b = (streak k now log \<ge> maxFail)"
    "d = (if b then the (last_failure k log) + limiter_window - now else 0)"
proof -
  show "counts now l' log"
    using assms by (auto simp: blocked_def split: option.splits if_splits intro!: counts_forget [OF assms(1)])
  show "b = (streak k now log \<ge> maxFail)"
    using assms(2) counts_streak [OF assms(1), of k]
    by (auto simp: blocked_def maxFail_def split: option.splits if_splits)
  show "d = (if b then the (last_failure k log) + limiter_window - now else 0)"
    using assms(2) counts_Some [OF assms(1), of k]
    by (auto simp: blocked_def split: option.splits if_splits)
qed

lemma limiter_step_log:
  assumes "counts now l log" "limiter_step now c l = (ans, l')"
  shows "\<exists>log'. log_step now c log = (ans, log') \<and> counts now l' log'"
proof (cases c)
  case (CallBlocked k)
  then show ?thesis using assms blocked_counts [OF assms(1), of k]
    by (auto simp: limiter_step_def log_step_def split: prod.splits)
next
  case (CallFail ks)
  obtain w locked l2 where f: "fail_loop now ks 0 [] l = ((w, locked), l2)" by (metis surj_pair)
  obtain v new log' where g: "log_fails now ks log = ((v, new), log')" by (metis surj_pair)
  from counts_fail_loop [OF assms(1) f g] assms(2) CallFail f g show ?thesis
    by (auto simp: limiter_step_def log_step_def fail_def Let_def)
next
  case (CallSucceed ks)
  then show ?thesis using assms(2) counts_succeed [OF assms(1), of ks]
    by (auto simp: limiter_step_def log_step_def)
next
  case CallSweep
  have "counts now (limiter_sweep now l) log"
    by (rule counts_forget [OF assms(1)]) (auto simp: limiter_sweep_def split: option.split)
  with CallSweep assms(2) show ?thesis by (simp add: limiter_step_def log_step_def)
qed

lemma limiter_run_log:
  assumes "counts t l log" "sorted (t # map fst cs)"
  shows "limiter_run cs l = log_run cs log"
  using assms
proof (induction cs arbitrary: t l log)
  case (Cons nc cs)
  obtain now c where nc: "nc = (now, c)" by (cases nc)
  have "t \<le> now" "sorted (now # map fst cs)" using Cons.prems(2) nc by auto
  obtain ans l' where st: "limiter_step now c l = (ans, l')" by (cases "limiter_step now c l")
  from limiter_step_log [OF counts_later [OF Cons.prems(1) \<open>t \<le> now\<close>] st]
  obtain log' where "log_step now c log = (ans, log')" "counts now l' log'" by blast
  with Cons.IH [OF _ \<open>sorted (now # map fst cs)\<close>] st nc show ?case by simp
qed simp

text \<open>
  C14: the login limiter answers as the log of the attempts would: a key is locked out exactly when
  its unbroken streak of failures (no success of the key in between, no pause of fifteen minutes)
  has ten or more, for the rest of the window after the last of them; a lockout is reported to the
  failure that makes the streak ten, once; and neither the clearing of a stale counter at a look nor
  the sweep changes any later answer.
\<close>

theorem limiter_matches_log:
  assumes "sorted (map fst cs)"
  shows "limiter_run cs newLoginLimiter = log_run cs []"
proof (cases cs)
  case (Cons c cs')
  then show ?thesis using limiter_run_log [of "fst c" newLoginLimiter "[]" cs] assms counts_new by simp
qed simp

definition sample_attempts :: "(time \<times> limiter_call) list" where
  "sample_attempts = replicate 10 (0, CallFail [''email:a'']) @
     [(minute, CallBlocked ''email:a''), (minute, CallBlocked ''email:b''), (16 * minute, CallBlocked ''email:a'')]"

theorem limiter_matches_log_witness:
  "limiter_run sample_attempts newLoginLimiter = log_run sample_attempts [] \<and>
   drop 9 (log_run sample_attempts []) =
     [Delay second [''email:a''], Blocked True (14 * minute), Blocked False 0, Blocked False 0]"
proof
  show "limiter_run sample_attempts newLoginLimiter = log_run sample_attempts []"
    by (rule limiter_matches_log) (simp add: sample_attempts_def minute_def second_def eval_nat_numeral)
  show "drop 9 (log_run sample_attempts []) =
     [Delay second [''email:a''], Blocked True (14 * minute), Blocked False 0, Blocked False 0]"
    by (simp add: sample_attempts_def log_step_def limiter_window_def maxFail_def minute_def second_def eval_nat_numeral)
qed

subsection \<open>Entries that expire\<close>

text \<open>pending[V]: a value and the time it expires at, per key.\<close>

type_synonym 'v pending = "string \<rightharpoonup> 'v \<times> time"

definition newPending :: "'v pending" where "newPending = Map.empty"

definition pending_put :: "string \<Rightarrow> 'v \<Rightarrow> duration \<Rightarrow> time \<Rightarrow> 'v pending \<Rightarrow> 'v pending" where
  "pending_put key v ttl now p =
     (\<lambda>k. case p k of None \<Rightarrow> None | Some (x, expires) \<Rightarrow> if now < expires then Some (x, expires) else None)
     (key \<mapsto> (v, now + ttl))"

text \<open>fn gives the changed value and whether the entry is kept.\<close>

definition pending_update :: "string \<Rightarrow> ('v \<Rightarrow> 'v \<times> bool) \<Rightarrow> time \<Rightarrow> 'v pending \<Rightarrow> 'v option \<times> 'v pending" where
  "pending_update key fn now p =
     (case p key of
        None \<Rightarrow> (None, p)
      | Some (v, expires) \<Rightarrow>
          if \<not> now < expires then (None, p(key := None))
          else case fn v of (v', keep) \<Rightarrow> (Some v, p(key := if keep then Some (v', expires) else None)))"

definition pending_get :: "string \<Rightarrow> time \<Rightarrow> 'v pending \<Rightarrow> 'v option \<times> 'v pending" where
  "pending_get key = pending_update key (\<lambda>v. (v, True))"

definition pending_take :: "string \<Rightarrow> time \<Rightarrow> 'v pending \<Rightarrow> 'v option \<times> 'v pending" where
  "pending_take key = pending_update key (\<lambda>v. (v, False))"

definition pending_del :: "string \<Rightarrow> 'v pending \<Rightarrow> 'v pending" where
  "pending_del key p = p(key := None)"

definition live :: "'v pending \<Rightarrow> time \<Rightarrow> string \<Rightarrow> 'v option" where
  "live p now key = (case p key of None \<Rightarrow> None | Some (v, expires) \<Rightarrow> if now < expires then Some v else None)"

lemma live_later: "live p now key = Some v \<Longrightarrow> now' \<le> now \<Longrightarrow> live p now' key = Some v"
  by (auto simp: live_def split: option.splits if_splits)

lemma live_new [simp]: "live newPending now key = None"
  by (simp add: live_def newPending_def)

lemma live_put:
  "now \<le> now' \<Longrightarrow> live (pending_put key v ttl now p) now' k =
     (if k = key then if now' < now + ttl then Some v else None else live p now' k)"
  by (auto simp: live_def pending_put_def split: option.split)

lemma live_del [simp]: "live (pending_del key p) now k = (if k = key then None else live p now k)"
  by (simp add: live_def pending_del_def)

lemma pending_update_result: "fst (pending_update key fn now p) = live p now key"
  by (simp add: pending_update_def live_def split: option.split prod.split)

lemma live_update:
  assumes "now \<le> now'"
  shows "live (snd (pending_update key fn now p)) now' k =
    (if k \<noteq> key then live p now' k
     else case live p now' key of None \<Rightarrow> None | Some v \<Rightarrow> if snd (fn v) then Some (fst (fn v)) else None)"
  using assms by (auto simp: live_def pending_update_def split: option.split prod.split)

text \<open>A live entry is read any number of times, and taken once.\<close>

lemma pending_get_live: "fst (pending_get key now p) = live p now key"
  by (simp add: pending_get_def pending_update_result)

lemma live_get: "now \<le> now' \<Longrightarrow> live (snd (pending_get key now p)) now' k = live p now' k"
  by (simp add: pending_get_def live_update split: option.split)

lemma pending_take_live: "fst (pending_take key now p) = live p now key"
  by (simp add: pending_take_def pending_update_result)

lemma live_take: "now \<le> now' \<Longrightarrow> live (snd (pending_take key now p)) now' k = (if k = key then None else live p now' k)"
  by (simp add: pending_take_def live_update split: option.split)

end
