(* ===== verification/Server.thy ===== *)
theory Server
  imports AccountSteps Throttle Http
begin

text \<open>
  The API server's state and the helpers its handlers share (internal/api: auth.go, security.go,
  mfa.go). What comes from outside, the argon2 and SHA-256 hashes, the random source, the secret
  box, the queue for a hashing slot and the classification of addresses, is a parameter. A handler
  answers a payload, or refuses with a status and a message. The security events it posts are
  collected; their delivery is that of the notification service.
\<close>

subsection \<open>Requests and answers\<close>

record request =
  rq_authorization :: string
  rq_forwarded :: string
  rq_remote :: string
  rq_agent :: string

definition splits_at :: "string \<Rightarrow> string \<Rightarrow> bool" where
  "splits_at needle s = (take (length needle) s = needle)"

fun contains :: "string \<Rightarrow> string \<Rightarrow> bool" where
  "contains [] needle = (needle = [])"
| "contains (c # s) needle = (splits_at needle (c # s) \<or> contains s needle)"

definition after_last :: "char \<Rightarrow> string \<Rightarrow> string" where
  "after_last c s = rev (takeWhile (\<lambda>x. x \<noteq> c) (rev s))"

definition before_last :: "char \<Rightarrow> string \<Rightarrow> string" where
  "before_last c s = rev (drop 1 (dropWhile (\<lambda>x. x \<noteq> c) (rev s)))"

text \<open>net.SplitHostPort, the host only; None is its error.\<close>

definition split_host :: "string \<Rightarrow> string option" where
  "split_host s =
     (if CHR '':'' \<notin> set s then None
      else case s of
        CHR ''['' # t \<Rightarrow>
          if CHR '']'' \<notin> set t then None
          else let host = takeWhile (\<lambda>c. c \<noteq> CHR '']'') t; rest = drop (length host + 1) t in
            (case rest of
               CHR '':'' # port \<Rightarrow>
                 if CHR '':'' \<in> set port \<or> CHR ''['' \<in> set t \<or> CHR '']'' \<in> set port then None else Some host
             | _ \<Rightarrow> None)
      | _ \<Rightarrow>
          let host = before_last (CHR '':'') s in
          if CHR '':'' \<in> set host \<or> CHR ''['' \<in> set s \<or> CHR '']'' \<in> set s then None else Some host)"

definition clientIP :: "request \<Rightarrow> bool \<Rightarrow> string" where
  "clientIP r trustProxy =
     (if trustProxy \<and> rq_forwarded r \<noteq> [] then trim_space (after_last (CHR '','') (rq_forwarded r))
      else case split_host (rq_remote r) of None \<Rightarrow> trim_space (rq_remote r) | Some host \<Rightarrow> host)"

definition bearer :: "request \<Rightarrow> string" where
  "bearer r =
     (let h = rq_authorization r in
      if length h \<le> 7 \<or> map to_lower (take 7 h) \<noteq> ''bearer '' then [] else drop 7 h)"

text \<open>utf8.RuneStart: not a continuation byte.\<close>

definition rune_start :: "char \<Rightarrow> bool" where
  "rune_start c = (\<not> (128 \<le> (of_char c :: nat) \<and> (of_char c :: nat) < 192))"

fun truncate_at :: "string \<Rightarrow> nat \<Rightarrow> string" where
  "truncate_at s 0 = []"
| "truncate_at s (Suc n) = (if rune_start (s ! Suc n) then take (Suc n) s else truncate_at s n)"

definition truncate_bytes :: "string \<Rightarrow> nat \<Rightarrow> string" where
  "truncate_bytes s n = (if length s \<le> n then s else truncate_at s n)"

text \<open>utf8.RuneCountInString of valid UTF-8, which is what JSON decoding yields.\<close>

definition rune_count :: "string \<Rightarrow> nat" where
  "rune_count s = length (filter rune_start s)"

subsection \<open>Where a login came from\<close>

datatype browser = Edge | Opera | YandexBrowser | Firefox | Chrome | Safari | NoUserAgent | OtherClient
datatype os = IOS | Android | Windows | MacOS | ChromeOS | Linux | UnknownOS

definition browser_of :: "string \<Rightarrow> browser" where
  "browser_of ua =
     (if contains ua ''Edg/'' then Edge
      else if contains ua ''OPR/'' then Opera
      else if contains ua ''YaBrowser/'' then YandexBrowser
      else if contains ua ''Firefox/'' \<or> contains ua ''FxiOS/'' then Firefox
      else if contains ua ''Chrome/'' \<or> contains ua ''CriOS/'' then Chrome
      else if contains ua ''Safari/'' then Safari
      else if ua = [] then NoUserAgent
      else OtherClient)"

definition os_of :: "string \<Rightarrow> os" where
  "os_of ua =
     (if contains ua ''iPhone'' \<or> contains ua ''iPad'' then IOS
      else if contains ua ''Android'' then Android
      else if contains ua ''Windows'' then Windows
      else if contains ua ''Mac OS X'' \<or> contains ua ''Macintosh'' then MacOS
      else if contains ua ''CrOS'' then ChromeOS
      else if contains ua ''Linux'' then Linux
      else UnknownOS)"

definition uaFamily :: "string \<Rightarrow> browser \<times> os" where
  "uaFamily ua = (browser_of ua, os_of ua)"

text \<open>The names the code gives them, in UTF-8.\<close>

definition browser_name :: "browser \<Rightarrow> string" where
  "browser_name b =
     (case b of
        Edge \<Rightarrow> ''Edge'' | Opera \<Rightarrow> ''Opera'' | Firefox \<Rightarrow> ''Firefox'' | Chrome \<Rightarrow> ''Chrome'' | Safari \<Rightarrow> ''Safari''
      | YandexBrowser \<Rightarrow>
          [CHR 0xD0, CHR 0xAF, CHR 0xD0, CHR 0xBD, CHR 0xD0, CHR 0xB4, CHR 0xD0, CHR 0xB5, CHR 0xD0,
          CHR 0xBA, CHR 0xD1, CHR 0x81] @ '' '' @ [CHR 0xD0, CHR 0x91, CHR 0xD1, CHR 0x80,
          CHR 0xD0, CHR 0xB0, CHR 0xD1, CHR 0x83, CHR 0xD0, CHR 0xB7, CHR 0xD0, CHR 0xB5,
          CHR 0xD1, CHR 0x80]
      | NoUserAgent \<Rightarrow> [CHR 0xD0, CHR 0xB1, CHR 0xD0, CHR 0xB5, CHR 0xD0, CHR 0xB7] @ '' User-Agent''
      | OtherClient \<Rightarrow>
          [CHR 0xD0, CHR 0xB4, CHR 0xD1, CHR 0x80, CHR 0xD1, CHR 0x83, CHR 0xD0, CHR 0xB3, CHR 0xD0,
          CHR 0xBE, CHR 0xD0, CHR 0xB9] @ '' '' @ [CHR 0xD0, CHR 0xBA, CHR 0xD0, CHR 0xBB,
          CHR 0xD0, CHR 0xB8, CHR 0xD0, CHR 0xB5, CHR 0xD0, CHR 0xBD, CHR 0xD1, CHR 0x82])"

definition os_name :: "os \<Rightarrow> string" where
  "os_name k =
     (case k of
        IOS \<Rightarrow> ''iOS'' | Android \<Rightarrow> ''Android'' | Windows \<Rightarrow> ''Windows'' | MacOS \<Rightarrow> ''macOS''
      | ChromeOS \<Rightarrow> ''ChromeOS'' | Linux \<Rightarrow> ''Linux'' | UnknownOS \<Rightarrow> ''?'')"

subsection \<open>Security events\<close>

datatype lockout_reason = WrongPassword | WrongSecondFactor

text \<open>The texts the handlers compose, by what they say; by is the label of who did it.\<close>

datatype security_message =
    MsgAccountLocked lockout_reason string
  | MsgAddressLocked lockout_reason string
  | MsgNewDevice string
  | MsgPasswordChanged
  | MsgUserCreated role string
  | MsgUserChanged "(role \<times> role) option" bool bool bool string
  | MsgUserDeleted string
  | MsgFactorsReset string
  | MsgLastFactorRemoved bool

subsection \<open>The server\<close>

text \<open>
  A user's login waiting for its second factor: the account, the wrong answers so far and the
  assertion challenge, if one was issued.
\<close>

record 'v mfa_challenge =
  ch_user :: rowid
  ch_fails :: nat
  ch_webauthn :: "'v option"

record 'v passkey_enrollment =
  pe_session :: 'v
  pe_name :: string

record 'v server =
  sv_acc :: accounts
  sv_limiter :: limiter
  sv_challenges :: "'v mfa_challenge pending"
  sv_totp :: "string pending"
  sv_passkeys :: "'v passkey_enrollment pending"
  sv_now :: time
  sv_draws :: nat
  sv_slots :: "bool list"
  sv_events :: "(string \<times> security_message) list"

text \<open>
  en_random gives the n-th read of the random source, of a length; en_address is whether
  mail.ParseAddress accepts an address; en_box is the secret box (None
  without a master key); en_code and en_new_totp are the one-time password library's code for a
  step and its new secret, provisioning address and picture; sv_slots says which of the next waits for a hashing slot give up.
\<close>

record secret_box =
  bx_seal :: "string \<Rightarrow> err + string \<times> string"
  bx_open :: "string \<Rightarrow> string \<Rightarrow> err + string"

record api_env =
  en_token :: string
  en_store :: bool
  en_notify :: bool
  en_trust_proxy :: bool
  en_token_hash :: "string \<Rightarrow> string"
  en_verify :: "string \<Rightarrow> string \<Rightarrow> err + bool"
  en_hash :: "string \<Rightarrow> string \<Rightarrow> string"
  en_random :: "nat \<Rightarrow> nat \<Rightarrow> err + string"
  en_encode :: "string \<Rightarrow> string"
  en_fingerprint :: "browser \<times> os \<Rightarrow> string \<Rightarrow> string"
  en_network :: "string \<Rightarrow> string"
  en_address :: "string \<Rightarrow> bool"
  en_box :: "secret_box option"
  en_code :: "string \<Rightarrow> int \<Rightarrow> err + string"
  en_new_totp :: "nat \<Rightarrow> string \<Rightarrow> string \<Rightarrow> err + string \<times> string \<times> string"

definition on_store :: "(accounts, 'a) op \<Rightarrow> ('v server, 'a) op" where
  "on_store f sv = (case f (sv_acc sv) of (r, a) \<Rightarrow> (r, sv\<lparr>sv_acc := a\<rparr>))"

definition storeErrStatus :: "err \<Rightarrow> nat \<times> string" where
  "storeErrStatus e =
     (if err_is ErrNotFound e then (404, ''not found'')
      else if err_is ErrLastAdmin e then (409, ''refusing to leave the instance without an enabled admin'')
      else if err_is ErrSelfTarget e then (409, ''cannot apply this change to your own account'')
      else internal e)"

definition securityEvent :: "api_env \<Rightarrow> string \<Rightarrow> security_message \<Rightarrow> 'v server \<Rightarrow> 'v server" where
  "securityEvent E subject msg sv =
     (if en_notify E then sv\<lparr>sv_events := sv_events sv @ [(subject, msg)]\<rparr> else sv)"

text \<open>A hashing slot, or the wait gives up.\<close>

definition acquirePW :: "'v server \<Rightarrow> bool \<times> 'v server" where
  "acquirePW sv = (case sv_slots sv of [] \<Rightarrow> (True, sv) | b # bs \<Rightarrow> (\<not> b, sv\<lparr>sv_slots := bs\<rparr>))"

definition hashing_slot :: "('v server, unit) handler" where
  "hashing_slot sv = (case acquirePW sv of (ok, sv) \<Rightarrow>
     if ok then answer () sv else refuse 503 ''server busy, retry shortly'' sv)"

definition draw :: "api_env \<Rightarrow> nat \<Rightarrow> ('v server, string) op" where
  "draw E len sv = (en_random E (sv_draws sv) len, sv\<lparr>sv_draws := Suc (sv_draws sv)\<rparr>)"

definition NewSessionToken :: "api_env \<Rightarrow> ('v server, string) op" where
  "NewSessionToken E sv =
     (case draw E 32 sv of
        (Inl e, sv) \<Rightarrow> (Inl (Wrap ''auth: read token: '' e), sv)
      | (Inr b, sv) \<Rightarrow> (Inr (en_encode E b), sv))"

definition HashPassword :: "api_env \<Rightarrow> string \<Rightarrow> ('v server, string) op" where
  "HashPassword E pw sv =
     (case draw E 16 sv of
        (Inl e, sv) \<Rightarrow> (Inl (Wrap ''auth: read salt: '' e), sv)
      | (Inr salt, sv) \<Rightarrow> (Inr (en_hash E salt pw), sv))"

end
