(* ===== verification/Access.thy ===== *)
theory Access
  imports Server
begin

text \<open>
  Who is making a request, and the life of a session (internal/api/auth.go, handlers_auth.go and
  the policy of mfa.go). A handler runs to its end before the next one starts: the store's own
  guarantees under interleaving are those of the statement relation.
\<close>

subsection \<open>Principals\<close>

definition sessionTTL :: duration where "sessionTTL = 30 * 24 * hour"
definition sessionMaxAge :: duration where "sessionMaxAge = 90 * 24 * hour"
definition touchInterval :: duration where "touchInterval = minute"

text \<open>pr_login is nil for the static token: the account and the session otherwise.\<close>

record principal =
  pr_static :: bool
  pr_role :: role
  pr_login :: "(user \<times> session) option"
  pr_enroll :: bool

definition IsAdmin :: "principal \<Rightarrow> bool" where "IsAdmin p = at_least (pr_role p) RoleAdmin"

definition UserID :: "principal \<Rightarrow> rowid" where
  "UserID p = (case pr_login p of None \<Rightarrow> 0 | Some (u, s) \<Rightarrow> user_id u)"

definition principal_label :: "principal \<Rightarrow> string" where
  "principal_label p = (if pr_static p then ''api-token'' else case pr_login p of None \<Rightarrow> [] | Some (u, s) \<Rightarrow> user_email u)"

definition static_principal :: principal where
  "static_principal = \<lparr>pr_static = True, pr_role = RoleAdmin, pr_login = None, pr_enroll = False\<rparr>"

subsection \<open>The second-factor policy\<close>

definition policyCovers :: "string \<Rightarrow> role \<Rightarrow> bool" where
  "policyCovers policy r = (if policy = ''all'' then True else if policy = ''admins'' then r = RoleAdmin else False)"

definition mfaPolicy :: "api_env \<Rightarrow> ('v server, string) op" where
  "mfaPolicy E =
     (if \<not> en_store E then pure_step (Inr ''off'')
      else and_then (on_store (GetSetting ''mfa_required'' ''off'')) (\<lambda>v.
        pure_step (Inr (if v \<noteq> ''admins'' \<and> v \<noteq> ''all'' then ''off'' else v))))"

subsection \<open>Authentication\<close>

definition slideExpiry :: "time \<Rightarrow> time \<Rightarrow> time" where
  "slideExpiry created now =
     (let e = now + sessionTTL; cap = created + sessionMaxAge in if e > cap then cap else e)"

definition errNoSession :: err where "errNoSession = Errorf ''no live session for this token''"

definition is_no_session :: "err \<Rightarrow> bool" where "is_no_session = err_is errNoSession"

definition resolveSession :: "api_env \<Rightarrow> string \<Rightarrow> ('v server, principal) op" where
  "resolveSession E tok sv =
     (if \<not> en_store E then (Inl (Detail errNoSession '': no session store''), sv)
      else case on_store (SessionByToken (en_token_hash E tok)) sv of
        (Inl e, sv) \<Rightarrow> (Inl (if err_is ErrNotFound e then errNoSession else e), sv)
      | (Inr (s, u), sv) \<Rightarrow>
          let now = sv_now sv in
          if \<not> now < ses_expires s
          then (Inl (Detail errNoSession '': expired''), snd (on_store (DeleteSession (ses_id s)) sv))
          else if user_disabled u then (Inl (Detail errNoSession '': user disabled''), sv)
          else
            let sv = (if now - ses_last_seen s \<ge> touchInterval
                      then snd (on_store (TouchSession (ses_id s) now (slideExpiry (ses_created s) now)) sv)
                      else sv);
                p = \<lparr>pr_static = False, pr_role = user_role u, pr_login = Some (u, s), pr_enroll = False\<rparr>
            in if mfa_enabled u then (Inr p, sv)
               else (case mfaPolicy E sv of
                       (Inl e, sv) \<Rightarrow> (Inl e, sv)
                     | (Inr policy, sv) \<Rightarrow> (Inr (p\<lparr>pr_enroll := policyCovers policy (user_role u)\<rparr>), sv)))"

definition authenticate :: "api_env \<Rightarrow> request \<Rightarrow> ('v server, principal) handler" where
  "authenticate E r sv =
     (let tok = bearer r in
      if tok = [] then refuse 401 ''unauthorized'' sv
      else if en_token E \<noteq> [] \<and> tok = en_token E then (Inr static_principal, sv)
      else case resolveSession E tok sv of
        (Inl e, sv) \<Rightarrow>
          if is_no_session e then refuse 401 ''unauthorized'' sv
          else refuse 503 ''user store unavailable'' sv
      | (Inr p, sv) \<Rightarrow> (Inr p, sv))"

definition role_text :: "role \<Rightarrow> string" where
  "role_text r = (case r of RoleViewer \<Rightarrow> ''viewer'' | RoleOperator \<Rightarrow> ''operator'' | RoleAdmin \<Rightarrow> ''admin'' | OtherRole s \<Rightarrow> s)"

definition role_of :: "string \<Rightarrow> role" where
  "role_of s = (if s = ''viewer'' then RoleViewer else if s = ''operator'' then RoleOperator
     else if s = ''admin'' then RoleAdmin else OtherRole s)"

definition guard :: "role \<Rightarrow> bool \<Rightarrow> (principal \<Rightarrow> ('v server, 'b) handler) \<Rightarrow> principal option \<Rightarrow> ('v server, 'b) handler" where
  "guard want enrollOK h p =
     (case p of
        None \<Rightarrow> refuse 401 ''unauthorized''
      | Some p \<Rightarrow>
          if pr_enroll p \<and> \<not> enrollOK then refuse 403 ''two-factor authentication must be set up first''
          else if \<not> at_least (pr_role p) want then refuse 403 (''forbidden: requires role '' @ role_text want)
          else h p)"

text \<open>A route behind the middleware.\<close>

definition route :: "api_env \<Rightarrow> role \<Rightarrow> bool \<Rightarrow> (principal \<Rightarrow> ('v server, 'b) handler) \<Rightarrow> request \<Rightarrow> ('v server, 'b) handler" where
  "route E want enrollOK h r = go_on (authenticate E r) (\<lambda>p. guard want enrollOK h (Some p))"

definition sessionAlive :: "api_env \<Rightarrow> principal option \<Rightarrow> 'v server \<Rightarrow> bool \<times> 'v server" where
  "sessionAlive E p sv =
     (case p of
        None \<Rightarrow> (False, sv)
      | Some p \<Rightarrow>
          case pr_login p of
            None \<Rightarrow> (True, sv)
          | Some (u, s) \<Rightarrow>
              if pr_static p \<or> \<not> en_store E then (True, sv)
              else case on_store (SessionByToken (ses_hash s)) sv of
                (Inl e, sv) \<Rightarrow> (False, sv)
              | (Inr (s, u), sv) \<Rightarrow> (\<not> user_disabled u \<and> sv_now sv < ses_expires s, sv))"

subsection \<open>Security notices\<close>

text \<open>reportLockout: the key before the colon says which kind of counter it was.\<close>

definition cut_colon :: "string \<Rightarrow> string \<times> string" where
  "cut_colon k = (takeWhile (\<lambda>c. c \<noteq> CHR '':'') k, drop 1 (dropWhile (\<lambda>c. c \<noteq> CHR '':'') k))"

definition report_key :: "api_env \<Rightarrow> string \<Rightarrow> string \<Rightarrow> lockout_reason \<Rightarrow> string \<Rightarrow> 'v server \<Rightarrow> 'v server" where
  "report_key E email ip why k =
     (case cut_colon k of (kind, v) \<Rightarrow>
        if kind = ''email'' \<or> kind = ''mfa'' then securityEvent E email (MsgAccountLocked why ip)
        else if kind = ''ip'' \<or> kind = ''mfa-ip'' then securityEvent E v (MsgAddressLocked why email)
        else id)"

definition reportLockout :: "api_env \<Rightarrow> string list \<Rightarrow> string \<Rightarrow> string \<Rightarrow> lockout_reason \<Rightarrow> 'v server \<Rightarrow> 'v server" where
  "reportLockout E locked email ip why = fold (report_key E email ip why) locked"

text \<open>The separator of the label is a middle dot, in UTF-8.\<close>

definition deviceOf :: "api_env \<Rightarrow> string \<Rightarrow> string \<Rightarrow> string \<times> string" where
  "deviceOf E ua ip =
     (case uaFamily ua of (b, k) \<Rightarrow>
        (en_fingerprint E (b, k) (en_network E ip),
         browser_name b @ '' '' @ [CHR 0xC2, CHR 0xB7] @ '' '' @ os_name k @ (if ip \<noteq> [] then '', '' @ ip else [])))"

definition noteDevice :: "api_env \<Rightarrow> user \<Rightarrow> string \<Rightarrow> string \<Rightarrow> 'v server \<Rightarrow> 'v server" where
  "noteDevice E u ua ip sv =
     (case deviceOf E ua ip of (fp, label) \<Rightarrow>
        (case on_store (TouchKnownDevice (user_id u) fp label (sv_now sv)) sv of
           (Inl e, sv) \<Rightarrow> sv
         | (Inr (isNew, hadAny), sv) \<Rightarrow>
             if isNew \<and> hadAny then securityEvent E (user_email u) (MsgNewDevice label) sv else sv))"

subsection \<open>Login\<close>

datatype login_answer =
    SignedIn string time user "nat option"
  | SecondFactor string "string list"

definition login_keys :: "string \<Rightarrow> string \<Rightarrow> string \<Rightarrow> string \<Rightarrow> string list" where
  "login_keys account who address ip =
     (account @ who) # (if ip \<noteq> [] then [address @ ip] else [])"

text \<open>The keys are looked at in turn, until one of them is locked out.\<close>

fun check_limits :: "string list \<Rightarrow> ('v server, unit) handler" where
  "check_limits [] sv = answer () sv"
| "check_limits (k # ks) sv =
     (case blocked k (sv_now sv) (sv_limiter sv) of
        ((True, retry), l) \<Rightarrow> (Inl (TooManyRequests (retry div second + 1)), sv\<lparr>sv_limiter := l\<rparr>)
      | ((False, _), l) \<Rightarrow> check_limits ks (sv\<lparr>sv_limiter := l\<rparr>))"

definition count_failure ::
  "api_env \<Rightarrow> string list \<Rightarrow> string \<Rightarrow> string \<Rightarrow> lockout_reason \<Rightarrow> 'v server \<Rightarrow> 'v server" where
  "count_failure E keys email ip why sv =
     (case fail keys (sv_now sv) (sv_limiter sv) of
        ((delay, locked), l) \<Rightarrow> reportLockout E locked email ip why (sv\<lparr>sv_limiter := l\<rparr>))"

definition forget_failures :: "string list \<Rightarrow> 'v server \<Rightarrow> 'v server" where
  "forget_failures keys sv = sv\<lparr>sv_limiter := succeed keys (sv_limiter sv)\<rparr>"

definition new_session :: "api_env \<Rightarrow> request \<Rightarrow> user \<Rightarrow> string \<Rightarrow> time \<Rightarrow> session" where
  "new_session E r u tok now =
     \<lparr>ses_id = 0, ses_user = user_id u, ses_hash = en_token_hash E tok, ses_agent = truncate_bytes (rq_agent r) 200,
      ses_ip = clientIP r (en_trust_proxy E), ses_created = now, ses_last_seen = now,
      ses_expires = now + sessionTTL\<rparr>"

definition issueSession :: "api_env \<Rightarrow> request \<Rightarrow> user \<Rightarrow> nat option \<Rightarrow> ('v server, login_answer) handler" where
  "issueSession E r u codesLeft =
     go_on (or_refuse (NewSessionToken E) internal) (\<lambda>tok.
     with_server (\<lambda>sv. let now = sv_now sv; s = new_session E r u tok now in
       go_on (or_refuse (on_store (CreateSession s)) internal) (\<lambda>_.
       modify (\<lambda>sv. noteDevice E u (ses_agent s) (ses_ip s)
                      (snd (on_store (TouchUserLogin (user_id u) now) sv)))
         (answer (SignedIn tok (ses_expires s) u codesLeft)))))"

definition mfaChallengeTTL :: duration where "mfaChallengeTTL = 5 * minute"

text \<open>passkeys is whether a WebAuthn relying party is configured.\<close>

definition startMFAChallenge :: "api_env \<Rightarrow> bool \<Rightarrow> user \<Rightarrow> ('v server, login_answer) handler" where
  "startMFAChallenge E passkeys_on u =
     go_on (or_refuse (NewSessionToken E) internal) (\<lambda>tok.
     modify (\<lambda>sv. sv\<lparr>sv_challenges := pending_put (en_token_hash E tok)
              \<lparr>ch_user = user_id u, ch_fails = 0, ch_webauthn = None\<rparr> mfaChallengeTTL (sv_now sv) (sv_challenges sv)\<rparr>)
       (answer (SecondFactor tok
          ((if user_totp_enabled u then [''totp''] else []) @
           (if user_passkeys u > 0 \<and> passkeys_on then [''webauthn''] else []) @ [''recovery'']))))"

definition password_ok :: "api_env \<Rightarrow> err + user \<Rightarrow> string \<Rightarrow> bool" where
  "password_ok E res pw =
     (case res of
        Inl e \<Rightarrow> False
      | Inr u \<Rightarrow> if user_disabled u then False
                 else case en_verify E (user_hash u) pw of Inl e \<Rightarrow> False | Inr ok \<Rightarrow> ok)"

definition login :: "api_env \<Rightarrow> bool \<Rightarrow> request \<Rightarrow> (string \<times> string) body \<Rightarrow> ('v server, login_answer) handler" where
  "login E passkeys_on r body =
     (if \<not> en_store E then refuse 503 ''user store unavailable''
      else go_on (plain_body body) (\<lambda>(address, pw).
          let email = normalizeEmail address; ip = clientIP r (en_trust_proxy E);
              keys = login_keys ''email:'' email ''ip:'' ip in
          if email = [] \<or> pw = [] then refuse 400 ''email and password are required''
          else
            go_on (check_limits keys) (\<lambda>_.
            modify (\<lambda>sv. sv\<lparr>sv_limiter := limiter_sweep (sv_now sv) (sv_limiter sv)\<rparr>)
              (go_on hashing_slot (\<lambda>_.
               call (on_store (GetUserByEmail email)) (\<lambda>res.
               case res of
                 Inl e \<Rightarrow>
                   if \<not> err_is ErrNotFound e then refuse 503 ''user store unavailable''
                   else modify (count_failure E keys email ip WrongPassword) (refuse 401 ''invalid email or password'')
               | Inr u \<Rightarrow>
                   if \<not> password_ok E res pw
                   then modify (count_failure E keys email ip WrongPassword) (refuse 401 ''invalid email or password'')
                   else modify (forget_failures keys)
                     (if mfa_enabled u then startMFAChallenge E passkeys_on u else issueSession E r u None)))))))"

subsection \<open>The session handlers\<close>

definition logout :: "api_env \<Rightarrow> principal \<Rightarrow> ('v server, unit) handler" where
  "logout E p =
     (case pr_login p of
        None \<Rightarrow> answer ()
      | Some (u, s) \<Rightarrow>
          if \<not> en_store E then answer ()
          else call (on_store (DeleteSession (ses_id s))) (\<lambda>r. case r of
            Inl e \<Rightarrow> if err_is ErrNotFound e then answer () else refuse 500 (err_text e)
          | Inr _ \<Rightarrow> answer ()))"

definition minPasswordLen :: nat where "minPasswordLen = 10"

definition validatePassword :: "string \<Rightarrow> err option" where
  "validatePassword pw =
     (if rune_count pw < minPasswordLen
      then Some (Errorf (''password must be at least '' @ dec (int minPasswordLen) @ '' characters'')) else None)"

definition password_valid :: "string \<Rightarrow> ('v server, unit) handler" where
  "password_valid pw = (case validatePassword pw of Some e \<Rightarrow> refuse 400 (err_text e) | None \<Rightarrow> answer ())"

text \<open>body: the old and the new password.\<close>

definition changeOwnPassword :: "api_env \<Rightarrow> principal \<Rightarrow> (string \<times> string) body \<Rightarrow> ('v server, unit) handler" where
  "changeOwnPassword E p body =
     (case pr_login p of
        None \<Rightarrow> refuse 400 ''the static API token has no password to change''
      | Some (u, s) \<Rightarrow>
          go_on (plain_body body) (\<lambda>(old, new).
               go_on (password_valid new) (\<lambda>_.
               go_on hashing_slot (\<lambda>_.
               case en_verify E (user_hash u) old of
                 Inl e \<Rightarrow> refuse 500 (err_text e)
               | Inr False \<Rightarrow> refuse 403 ''current password is incorrect''
               | Inr True \<Rightarrow>
                   go_on (or_refuse (HashPassword E new) internal) (\<lambda>h.
                   go_on (or_refuse (on_store (SetUserPassword (user_id u) h (ses_id s))) storeErrStatus) (\<lambda>_.
                   modify (securityEvent E (user_email u) MsgPasswordChanged) (answer ())))))))"

text \<open>Each session with its owner's address (for an admin) and whether it is the caller's.\<close>

definition listSessions :: "api_env \<Rightarrow> principal \<Rightarrow> ('v server, (session \<times> string \<times> bool) list) handler" where
  "listSessions E p =
     (if \<not> en_store E then refuse 503 ''user store unavailable''
      else let owner = (if IsAdmin p then 0 else UserID p);
               cur = (case pr_login p of None \<Rightarrow> 0 | Some (u, s) \<Rightarrow> ses_id s) in
      if \<not> IsAdmin p \<and> owner = 0 then answer []
      else go_on (or_refuse (on_store (ListSessions owner)) internal) (\<lambda>ss.
           go_on (if IsAdmin p then or_refuse (on_store ListUsers) internal else answer []) (\<lambda>us.
           answer (map (\<lambda>s. (s, case map_of (map (\<lambda>u. (user_id u, user_email u)) us) (ses_user s) of
                               None \<Rightarrow> [] | Some e \<Rightarrow> e, ses_id s = cur)) ss))))"

definition deleteSession :: "api_env \<Rightarrow> principal \<Rightarrow> rowid option \<Rightarrow> ('v server, unit) handler" where
  "deleteSession E p path =
     (if \<not> en_store E then refuse 503 ''user store unavailable''
      else go_on (pathID path) (\<lambda>i.
          go_on (or_refuse (on_store (GetSession i)) storeErrStatus) (\<lambda>s.
          if \<not> IsAdmin p \<and> ses_user s \<noteq> UserID p then refuse 403 ''forbidden: not your session''
          else or_refuse (on_store (DeleteSession i)) storeErrStatus)))"

end
