(* ===== verification/Factors.thy ===== *)
theory Factors
  imports Access
begin

text \<open>
  Second factors: one-time codes and recovery codes (internal/auth/totp.go), the second step of a
  login and the self-service of factors (internal/api/handlers_mfa.go). The WebAuthn library is a
  record of its calls; a credential is the library's own value 'c, a ceremony's session data a 'v.
\<close>

record ('v, 'c) webauthn =
  wl_decode :: "string \<Rightarrow> err + 'c"
  wl_encode :: "'c \<Rightarrow> err + string"
  wl_id :: "'c \<Rightarrow> string"
  wl_begin_login :: "user \<Rightarrow> 'c list \<Rightarrow> err + string \<times> 'v"
  wl_parse_login :: "string \<Rightarrow> err + string"
  wl_validate :: "user \<Rightarrow> 'c list \<Rightarrow> 'v \<Rightarrow> string \<Rightarrow> err + 'c"
  wl_begin_registration :: "user \<Rightarrow> 'c list \<Rightarrow> err + string \<times> 'v"
  wl_parse_creation :: "string \<Rightarrow> err + string"
  wl_create :: "user \<Rightarrow> 'c list \<Rightarrow> 'v \<Rightarrow> string \<Rightarrow> err + 'c"

subsection \<open>One-time codes\<close>

definition totpPeriod :: int where "totpPeriod = 30"
definition totpDigits :: nat where "totpDigits = 6"

text \<open>Go's integer division rounds towards zero.\<close>

definition go_quot :: "int \<Rightarrow> int \<Rightarrow> int" where
  "go_quot a b = (if a < 0 then - ((- a) div b) else a div b)"

fun matching_step :: "(int \<Rightarrow> err + string) \<Rightarrow> string \<Rightarrow> int \<Rightarrow> int list \<Rightarrow> int option" where
  "matching_step gen code afterStep [] = None"
| "matching_step gen code afterStep (step # steps) =
     (if step \<le> afterStep then matching_step gen code afterStep steps
      else case gen step of
        Inl e \<Rightarrow> None
      | Inr want \<Rightarrow> if want = code then Some step else matching_step gen code afterStep steps)"

definition VerifyTOTP :: "(int \<Rightarrow> err + string) \<Rightarrow> string \<Rightarrow> time \<Rightarrow> int \<Rightarrow> int option" where
  "VerifyTOTP gen typed now afterStep =
     (let code = trim_space (filter (\<lambda>c. c \<noteq> CHR '' '') typed); cur = go_quot (unix now) totpPeriod in
      if length code \<noteq> totpDigits then None
      else matching_step gen code afterStep [cur - 1, cur, cur + 1])"

subsection \<open>Recovery codes\<close>

definition RecoveryCodeCount :: nat where "RecoveryCodeCount = 10"
definition recoveryAlphabet :: string where "recoveryAlphabet = ''0123456789abcdefghjkmnpqrstvwxyz''"
definition recoveryLen :: nat where "recoveryLen = 12"

definition recovery_symbol :: "char \<Rightarrow> char" where
  "recovery_symbol c = recoveryAlphabet ! (of_char c mod 32)"

fun dashed :: "nat \<Rightarrow> string \<Rightarrow> string" where
  "dashed i [] = []"
| "dashed i (c # cs) = (if i > 0 \<and> i mod 4 = 0 then [CHR ''-''] else []) @ c # dashed (Suc i) cs"

definition recovery_text :: "string \<Rightarrow> string" where
  "recovery_text raw = dashed 0 (map recovery_symbol raw)"

definition fold_symbol :: "char \<Rightarrow> char" where
  "fold_symbol c = (if c = CHR ''o'' then CHR ''0'' else if c = CHR ''i'' \<or> c = CHR ''l'' then CHR ''1'' else c)"

definition normal_code :: "string \<Rightarrow> string" where
  "normal_code code = map fold_symbol (filter (\<lambda>c. c \<notin> {CHR ''-'', CHR '' '', CHR 0x09}) (map to_lower code))"

definition RecoveryCodeHash :: "api_env \<Rightarrow> string \<Rightarrow> string" where
  "RecoveryCodeHash E code = en_token_hash E (normal_code code)"

fun draw_codes :: "api_env \<Rightarrow> nat \<Rightarrow> ('v server, string list) op" where
  "draw_codes E 0 sv = (Inr [], sv)"
| "draw_codes E (Suc n) sv =
     (case draw E recoveryLen sv of
        (Inl e, sv) \<Rightarrow> (Inl (Wrap ''auth: read recovery code: '' e), sv)
      | (Inr raw, sv) \<Rightarrow>
          (case draw_codes E n sv of
             (Inl e, sv) \<Rightarrow> (Inl e, sv)
           | (Inr codes, sv) \<Rightarrow> (Inr (recovery_text raw # codes), sv)))"

definition NewRecoveryCodes :: "api_env \<Rightarrow> ('v server, string list \<times> string list) op" where
  "NewRecoveryCodes E =
     and_then (draw_codes E RecoveryCodeCount) (\<lambda>codes. pure_step (Inr (codes, map (RecoveryCodeHash E) codes)))"

text \<open>Codes, and the hashes to store: neither for an account that has a factor.\<close>

definition firstFactorCodes :: "api_env \<Rightarrow> user \<Rightarrow> ('v server, string list \<times> string list option) op" where
  "firstFactorCodes E u =
     (if mfa_enabled u then pure_step (Inr ([], None))
      else and_then (NewRecoveryCodes E) (\<lambda>(codes, hashes). pure_step (Inr (codes, Some hashes))))"

subsection \<open>Login, second step\<close>

definition errChallengeGone :: string where "errChallengeGone = ''sign-in attempt expired, sign in again''"
definition mfaChallengeFail :: nat where "mfaChallengeFail = 5"
definition mfaEnrollTTL :: duration where "mfaEnrollTTL = 10 * minute"

definition userKey :: "rowid \<Rightarrow> string" where "userKey uid = dec uid"

definition challenge_get :: "string \<Rightarrow> 'v server \<Rightarrow> 'v mfa_challenge option \<times> 'v server" where
  "challenge_get key sv =
     (case pending_get key (sv_now sv) (sv_challenges sv) of (c, p) \<Rightarrow> (c, sv\<lparr>sv_challenges := p\<rparr>))"

definition challenge_update ::
  "string \<Rightarrow> ('v mfa_challenge \<Rightarrow> 'v mfa_challenge \<times> bool) \<Rightarrow> 'v server \<Rightarrow> 'v mfa_challenge option \<times> 'v server" where
  "challenge_update key fn sv =
     (case pending_update key fn (sv_now sv) (sv_challenges sv) of (c, p) \<Rightarrow> (c, sv\<lparr>sv_challenges := p\<rparr>))"

definition challenge_take :: "string \<Rightarrow> 'v server \<Rightarrow> 'v mfa_challenge option \<times> 'v server" where
  "challenge_take key sv =
     (case pending_take key (sv_now sv) (sv_challenges sv) of (c, p) \<Rightarrow> (c, sv\<lparr>sv_challenges := p\<rparr>))"

definition challenge_del :: "string \<Rightarrow> 'v server \<Rightarrow> 'v server" where
  "challenge_del key sv = sv\<lparr>sv_challenges := pending_del key (sv_challenges sv)\<rparr>"

fun decode_all :: "('v, 'c) webauthn \<Rightarrow> passkey list \<Rightarrow> err + 'c list" where
  "decode_all W [] = Inr []"
| "decode_all W (r # rs) =
     (case wl_decode W (pk_data r) of
        Inl e \<Rightarrow> Inl (Wrap (''decode passkey '' @ dec (pk_id r) @ '': '') e)
      | Inr c \<Rightarrow> (case decode_all W rs of Inl e \<Rightarrow> Inl e | Inr cs \<Rightarrow> Inr (c # cs)))"

definition loadWAUser :: "('v, 'c) webauthn \<Rightarrow> user \<Rightarrow> ('v server, 'c list \<times> passkey list) op" where
  "loadWAUser W u =
     and_then (on_store (ListWebAuthnCredentials (user_id u))) (\<lambda>rows.
     pure_step (case decode_all W rows of Inl e \<Rightarrow> Inl e | Inr cs \<Rightarrow> Inr (cs, rows)))"

definition no_passkeys :: string where
  "no_passkeys = ''passkeys are not configured on this instance (DUSKRUN_PUBLIC_URL)''"

definition loginMFAWebAuthnOptions ::
  "api_env \<Rightarrow> ('v, 'c) webauthn option \<Rightarrow> string body \<Rightarrow> ('v server, string) handler" where
  "loginMFAWebAuthnOptions E W body =
     (if \<not> en_store E then refuse 503 ''user store unavailable''
      else go_on (decode body) (\<lambda>token.
       case W of
         None \<Rightarrow> refuse 409 no_passkeys
       | Some L \<Rightarrow>
           let key = en_token_hash E token in
           go_on (if_live (challenge_get key) 410 errChallengeGone) (\<lambda>ch.
           call (on_store (GetUser (ch_user ch))) (\<lambda>r. case r of
             Inl e \<Rightarrow> refuse 410 errChallengeGone
           | Inr u \<Rightarrow>
               go_on (or_refuse (loadWAUser L u) internal) (\<lambda>(creds, rows).
               if creds = [] then refuse 409 ''this account has no passkeys''
               else go_on (or_refuse (pure_step (wl_begin_login L u creds)) internal) (\<lambda>(assertion, session).
               go_on (if_live (challenge_update key (\<lambda>c. (c\<lparr>ch_webauthn := Some session\<rparr>, True))) 410 errChallengeGone) (\<lambda>_.
               answer assertion)))))))"

definition openTOTP :: "api_env \<Rightarrow> totp \<Rightarrow> err + string" where
  "openTOTP E t =
     (case en_box E of
        None \<Rightarrow> Inl (Errorf ''no master key: TOTP secrets cannot be opened'')
      | Some b \<Rightarrow> bx_open b (totp_secret t) (totp_key t))"

definition verifyLoginTOTP :: "api_env \<Rightarrow> user \<Rightarrow> string \<Rightarrow> ('v server, bool) op" where
  "verifyLoginTOTP E u code sv =
     (if \<not> user_totp_enabled u then (Inr False, sv)
      else case on_store (GetTOTP (user_id u)) sv of
        (Inl e, sv) \<Rightarrow> (if err_is ErrNotFound e then Inr False else Inl e, sv)
      | (Inr t, sv) \<Rightarrow>
          (case openTOTP E t of
             Inl e \<Rightarrow> (Inl e, sv)
           | Inr secret \<Rightarrow>
               (case VerifyTOTP (en_code E secret) code (sv_now sv) (totp_last_step t) of
                  None \<Rightarrow> (Inr False, sv)
                | Some step \<Rightarrow> on_store (AdvanceTOTPStep (user_id u) step) sv)))"

text \<open>The assertion challenge is consumed whatever comes of it.\<close>

definition verifyLoginPasskey ::
  "('v, 'c) webauthn option \<Rightarrow> string \<Rightarrow> user \<Rightarrow> string \<Rightarrow> ('v server, bool) op" where
  "verifyLoginPasskey W key u credential sv =
     (case W of
        None \<Rightarrow> (Inr False, sv)
      | Some L \<Rightarrow>
          if credential = [] then (Inr False, sv)
          else case challenge_update key (\<lambda>c. (c\<lparr>ch_webauthn := None\<rparr>, True)) sv of
            (ch, sv) \<Rightarrow>
              (case Option.bind ch ch_webauthn of
                 None \<Rightarrow> (Inr False, sv)
               | Some session \<Rightarrow>
                   (case wl_parse_login L credential of
                      Inl e \<Rightarrow> (Inr False, sv)
                    | Inr parsed \<Rightarrow>
                        (case loadWAUser L u sv of
                           (Inl e, sv) \<Rightarrow> (Inl e, sv)
                         | (Inr (creds, rows), sv) \<Rightarrow>
                             (case wl_validate L u creds session parsed of
                                Inl e \<Rightarrow> (Inr False, sv)
                              | Inr cred \<Rightarrow>
                                  (case find (\<lambda>r. pk_credential r = wl_id L cred) rows of
                                     None \<Rightarrow> (Inr False, sv)
                                   | Some row \<Rightarrow>
                                       (case wl_encode L cred of
                                          Inl e \<Rightarrow> (Inl e, sv)
                                        | Inr data \<Rightarrow>
                                            (Inr True, snd (on_store (TouchWebAuthnCredential (pk_id row) data (sv_now sv)) sv)))))))))"

datatype factor_method = ByTOTP | ByRecovery | ByPasskey | is_other: OtherMethod string

record mfa_login =
  ml_token :: string
  ml_method :: factor_method
  ml_code :: string
  ml_credential :: string

text \<open>Whether the factor is right, and the recovery codes left after a login with one.\<close>

definition check_recovery :: "api_env \<Rightarrow> user \<Rightarrow> string \<Rightarrow> ('v server, bool \<times> nat option) op" where
  "check_recovery E u code sv =
     (case on_store (UseRecoveryCode (user_id u) (RecoveryCodeHash E code) (sv_now sv)) sv of
        (Inl e, sv) \<Rightarrow> (Inl e, sv)
      | (Inr False, sv) \<Rightarrow> (Inr (False, None), sv)
      | (Inr True, sv) \<Rightarrow>
          (case on_store (CountRecoveryCodes (user_id u)) sv of
             (Inl e, sv) \<Rightarrow> (Inr (True, None), sv)
           | (Inr n, sv) \<Rightarrow> (Inr (True, Some n), sv)))"

definition check_factor ::
  "api_env \<Rightarrow> ('v, 'c) webauthn option \<Rightarrow> string \<Rightarrow> user \<Rightarrow> mfa_login \<Rightarrow> ('v server, bool \<times> nat option) op" where
  "check_factor E W key u q =
     (case ml_method q of
        ByTOTP \<Rightarrow> and_then (verifyLoginTOTP E u (ml_code q)) (\<lambda>ok. pure_step (Inr (ok, None)))
      | ByRecovery \<Rightarrow> check_recovery E u (ml_code q)
      | _ \<Rightarrow> and_then (verifyLoginPasskey W key u (ml_credential q)) (\<lambda>ok. pure_step (Inr (ok, None))))"

definition wrong_factor :: "string \<Rightarrow> 'v server \<Rightarrow> 'v server" where
  "wrong_factor key sv =
     snd (challenge_update key (\<lambda>c. let c = c\<lparr>ch_fails := Suc (ch_fails c)\<rparr> in (c, ch_fails c < mfaChallengeFail)) sv)"

definition loginMFA ::
  "api_env \<Rightarrow> ('v, 'c) webauthn option \<Rightarrow> request \<Rightarrow> mfa_login body \<Rightarrow> ('v server, login_answer) handler" where
  "loginMFA E W r body =
     (if \<not> en_store E then refuse 503 ''user store unavailable''
      else go_on (decode body) (\<lambda>q.
       let key = en_token_hash E (ml_token q); ip = clientIP r (en_trust_proxy E) in
       go_on (if_live (challenge_get key) 410 errChallengeGone) (\<lambda>ch.
       let keys = login_keys ''mfa:'' (dec (ch_user ch)) ''mfa-ip:'' ip in
       go_on (check_limits keys) (\<lambda>_.
       call (on_store (GetUser (ch_user ch))) (\<lambda>found.
       case found of
         Inl e \<Rightarrow> modify (challenge_del key) (refuse 410 errChallengeGone)
       | Inr u \<Rightarrow>
           if user_disabled u then modify (challenge_del key) (refuse 410 errChallengeGone)
           else if is_other (ml_method q)
           then refuse 400 ''method must be one of totp, recovery, webauthn''
           else call (check_factor E W key u q) (\<lambda>checked.
             case checked of
               Inl e \<Rightarrow> refuse 503 ''could not verify the second factor, retry shortly''
             | Inr (verified, codesLeft) \<Rightarrow>
                 if \<not> verified
                 then modify (\<lambda>sv. count_failure E keys (user_email u) ip WrongSecondFactor (wrong_factor key sv))
                        (refuse 401 ''invalid code'')
                 else go_on (if_live (challenge_take key) 410 errChallengeGone) (\<lambda>_.
                      modify (forget_failures keys) (issueSession E r u codesLeft))))))))"

subsection \<open>Self-service\<close>

record mfa_status =
  ms_totp :: bool
  ms_passkeys :: "passkey list"
  ms_codes_left :: nat
  ms_available :: bool
  ms_policy :: string
  ms_required :: bool

definition mfaUser :: "api_env \<Rightarrow> principal \<Rightarrow> ('v server, user) handler" where
  "mfaUser E p =
     (if \<not> en_store E then refuse 503 ''user store unavailable''
      else case pr_login p of
        None \<Rightarrow> refuse 400 ''the static API token has no second factor''
      | Some (u, s) \<Rightarrow> answer u)"

definition mfaStatus :: "api_env \<Rightarrow> ('v, 'c) webauthn option \<Rightarrow> principal \<Rightarrow> ('v server, mfa_status) handler" where
  "mfaStatus E W p =
     go_on (mfaUser E p) (\<lambda>u.
     go_on (or_refuse (on_store (ListWebAuthnCredentials (user_id u))) internal) (\<lambda>rows.
     go_on (or_refuse (on_store (CountRecoveryCodes (user_id u))) internal) (\<lambda>left.
     go_on (or_refuse (mfaPolicy E) internal) (\<lambda>policy.
     answer \<lparr>ms_totp = user_totp_enabled u, ms_passkeys = rows, ms_codes_left = left,
        ms_available = (W \<noteq> None), ms_policy = policy, ms_required = policyCovers policy (user_role u)\<rparr>))))"

definition confirmPassword :: "api_env \<Rightarrow> user \<Rightarrow> string \<Rightarrow> ('v server, unit) handler" where
  "confirmPassword E u pw =
     (if pw = [] then refuse 400 ''password is required''
      else go_on hashing_slot (\<lambda>_.
        case en_verify E (user_hash u) pw of
          Inl e \<Rightarrow> refuse 500 (err_text e)
        | Inr ok \<Rightarrow> if ok then answer () else refuse 403 ''current password is incorrect''))"

definition totpSetup :: "api_env \<Rightarrow> principal \<Rightarrow> string body \<Rightarrow> ('v server, string \<times> string \<times> string) handler" where
  "totpSetup E p body =
     go_on (mfaUser E p) (\<lambda>u.
     if en_box E = None then refuse 503 ''TOTP needs the master key to store its secret''
     else go_on (decode body) (\<lambda>pw.
       go_on (confirmPassword E u pw) (\<lambda>_.
       go_on (or_refuse (on_store (GetSetting ''instance_name'' ''Duskrun'')) internal) (\<lambda>issuer.
       go_on (or_refuse (\<lambda>sv. (en_new_totp E (sv_draws sv) issuer (user_email u), sv\<lparr>sv_draws := Suc (sv_draws sv)\<rparr>)) internal)
        (\<lambda>(secret, url, qr).
         modify (\<lambda>sv. sv\<lparr>sv_totp := pending_put (userKey (user_id u)) secret mfaEnrollTTL (sv_now sv) (sv_totp sv)\<rparr>)
           (answer (secret, url, qr)))))))"

definition setup_get :: "string \<Rightarrow> 'v server \<Rightarrow> string option \<times> 'v server" where
  "setup_get key sv = (case pending_get key (sv_now sv) (sv_totp sv) of (x, p) \<Rightarrow> (x, sv\<lparr>sv_totp := p\<rparr>))"

text \<open>
  A secret waits only if the setup found the secret box, so that Seal has one to call; without
  it the code would stop with a nil dereference, which answers 500.
\<close>

definition seal_totp :: "api_env \<Rightarrow> string \<Rightarrow> err + string \<times> string" where
  "seal_totp E secret = (case en_box E of None \<Rightarrow> Inl (Errorf ''nil dereference'') | Some b \<Rightarrow> bx_seal b secret)"

definition totpConfirm :: "api_env \<Rightarrow> principal \<Rightarrow> string body \<Rightarrow> ('v server, string list) handler" where
  "totpConfirm E p body =
     go_on (mfaUser E p) (\<lambda>u.
     go_on (decode body) (\<lambda>code.
     go_on (if_live (setup_get (userKey (user_id u))) 409 ''no TOTP setup in progress, start again'') (\<lambda>secret.
     with_server (\<lambda>sv. case VerifyTOTP (en_code E secret) code (sv_now sv) 0 of
       None \<Rightarrow> refuse 400 ''invalid code''
     | Some step \<Rightarrow>
         go_on (or_refuse (pure_step (seal_totp E secret)) internal) (\<lambda>(cipher, key).
         go_on (or_refuse (firstFactorCodes E u) internal) (\<lambda>(codes, hashes).
         go_on (or_refuse (on_store (PutTOTP \<lparr>totp_user = user_id u, totp_secret = cipher, totp_key = key,
             totp_last_step = step, totp_created = 0\<rparr> hashes)) internal) (\<lambda>_.
         modify (\<lambda>sv. sv\<lparr>sv_totp := pending_del (userKey (user_id u)) (sv_totp sv)\<rparr>) (answer codes))))))))"

definition lastFactorGuard :: "api_env \<Rightarrow> user \<Rightarrow> int \<Rightarrow> ('v server, unit) handler" where
  "lastFactorGuard E u remaining =
     (if remaining > 0 then answer ()
      else go_on (or_refuse (mfaPolicy E) internal) (\<lambda>policy.
        if policyCovers policy (user_role u)
        then refuse 409 ''two-factor authentication is required on this instance; add another factor before removing this one''
        else answer ()))"

definition totpDisable :: "api_env \<Rightarrow> principal \<Rightarrow> string body \<Rightarrow> ('v server, unit) handler" where
  "totpDisable E p body =
     go_on (mfaUser E p) (\<lambda>u.
     go_on (decode body) (\<lambda>pw.
     if \<not> user_totp_enabled u then refuse 409 ''TOTP is not enabled''
     else go_on (lastFactorGuard E u (user_passkeys u)) (\<lambda>_.
       go_on (confirmPassword E u pw) (\<lambda>_.
       go_on (or_refuse (on_store (DeleteTOTP (user_id u))) storeErrStatus) (\<lambda>_.
       modify (if user_passkeys u = 0 then securityEvent E (user_email u) (MsgLastFactorRemoved True) else id)
         (answer ()))))))"

text \<open>body: the password and the name of the new passkey.\<close>

definition passkeyOptions ::
  "api_env \<Rightarrow> ('v, 'c) webauthn option \<Rightarrow> principal \<Rightarrow> (string \<times> string) body \<Rightarrow> ('v server, string) handler" where
  "passkeyOptions E W p body =
     go_on (mfaUser E p) (\<lambda>u.
     case W of
       None \<Rightarrow> refuse 409 no_passkeys
     | Some L \<Rightarrow>
         go_on (decode body) (\<lambda>(pw, typed).
         let name = (if trim_space typed = [] then ''Passkey'' else trim_space typed) in
         if rune_count name > 64 then refuse 400 ''name must be at most 64 characters''
         else go_on (confirmPassword E u pw) (\<lambda>_.
           go_on (or_refuse (loadWAUser L u) internal) (\<lambda>(creds, rows).
           go_on (or_refuse (pure_step (wl_begin_registration L u creds)) internal) (\<lambda>(creation, session).
           modify (\<lambda>sv. sv\<lparr>sv_passkeys := pending_put (userKey (user_id u)) \<lparr>pe_session = session, pe_name = name\<rparr>
                      mfaEnrollTTL (sv_now sv) (sv_passkeys sv)\<rparr>)
             (answer creation))))))"

definition enrollment_take :: "string \<Rightarrow> 'v server \<Rightarrow> 'v passkey_enrollment option \<times> 'v server" where
  "enrollment_take key sv =
     (case pending_take key (sv_now sv) (sv_passkeys sv) of (x, p) \<Rightarrow> (x, sv\<lparr>sv_passkeys := p\<rparr>))"

text \<open>isUniqueViolation looks for the driver's message, in any case.\<close>

definition isUniqueViolation :: "err \<Rightarrow> bool" where
  "isUniqueViolation e = contains (map to_lower (err_text e)) ''unique constraint failed''"

definition bad_request :: "string \<Rightarrow> err \<Rightarrow> nat \<times> string" where
  "bad_request what e = (400, what @ err_text e)"

definition passkeyRegister ::
  "api_env \<Rightarrow> ('v, 'c) webauthn option \<Rightarrow> principal \<Rightarrow> string body \<Rightarrow> ('v server, passkey \<times> string list) handler" where
  "passkeyRegister E W p body =
     go_on (mfaUser E p) (\<lambda>u.
     case W of
       None \<Rightarrow> refuse 409 no_passkeys
     | Some L \<Rightarrow>
         go_on (decode body) (\<lambda>credential.
         go_on (if_live (enrollment_take (userKey (user_id u))) 409 ''no passkey registration in progress, start again'') (\<lambda>enr.
         go_on (or_refuse (pure_step (wl_parse_creation L credential)) (bad_request ''malformed credential: '')) (\<lambda>parsed.
         go_on (or_refuse (loadWAUser L u) internal) (\<lambda>(creds, rows).
         go_on (or_refuse (pure_step (wl_create L u creds (pe_session enr) parsed)) (bad_request ''passkey verification failed: '')) (\<lambda>cred.
         go_on (or_refuse (pure_step (wl_encode L cred)) internal) (\<lambda>data.
         go_on (or_refuse (firstFactorCodes E u) internal) (\<lambda>(codes, hashes).
         let row = \<lparr>pk_id = 0, pk_user = user_id u, pk_credential = wl_id L cred, pk_name = pe_name enr,
                    pk_data = data, pk_created = 0, pk_last_used = None\<rparr> in
         go_on (or_refuse (on_store (AddWebAuthnCredential row hashes))
             (\<lambda>e. if isUniqueViolation e then (409, ''this passkey is already registered'') else internal e)) (\<lambda>i.
         with_server (\<lambda>sv. answer (row\<lparr>pk_id := i, pk_created := sv_now sv\<rparr>, codes)))))))))))"

definition passkeyDelete :: "api_env \<Rightarrow> principal \<Rightarrow> rowid option \<Rightarrow> string body \<Rightarrow> ('v server, unit) handler" where
  "passkeyDelete E p path body =
     go_on (mfaUser E p) (\<lambda>u.
     go_on (pathID path) (\<lambda>i.
     go_on (decode body) (\<lambda>pw.
     let remaining = user_passkeys u - 1 + (if user_totp_enabled u then 1 else 0) in
     go_on (lastFactorGuard E u remaining) (\<lambda>_.
     go_on (confirmPassword E u pw) (\<lambda>_.
     go_on (or_refuse (on_store (DeleteWebAuthnCredential (user_id u) i)) storeErrStatus) (\<lambda>_.
     modify (if remaining = 0 then securityEvent E (user_email u) (MsgLastFactorRemoved False) else id) (answer ())))))))"

definition regenerateRecoveryCodes :: "api_env \<Rightarrow> principal \<Rightarrow> string body \<Rightarrow> ('v server, string list) handler" where
  "regenerateRecoveryCodes E p body =
     go_on (mfaUser E p) (\<lambda>u.
     go_on (decode body) (\<lambda>pw.
     if \<not> mfa_enabled u then refuse 409 ''enable a second factor first''
     else go_on (confirmPassword E u pw) (\<lambda>_.
       go_on (or_refuse (NewRecoveryCodes E) internal) (\<lambda>(codes, hashes).
       go_on (or_refuse (on_store (ReplaceRecoveryCodes (user_id u) hashes)) internal) (\<lambda>_.
       answer codes)))))"

definition resetUserMFA :: "api_env \<Rightarrow> principal \<Rightarrow> rowid option \<Rightarrow> ('v server, user) handler" where
  "resetUserMFA E p path =
     (if \<not> en_store E then refuse 503 ''user store unavailable''
      else go_on (pathID path) (\<lambda>i.
       if UserID p = i then refuse 409 ''manage your own second factors from your security settings''
       else go_on (or_refuse (on_store (ResetUserMFA i)) storeErrStatus) (\<lambda>_.
         modify (\<lambda>sv. sv\<lparr>sv_totp := pending_del (userKey i) (sv_totp sv),
                          sv_passkeys := pending_del (userKey i) (sv_passkeys sv)\<rparr>)
           (go_on (or_refuse (on_store (GetUser i)) internal) (\<lambda>u.
            modify (securityEvent E (user_email u) (MsgFactorsReset (principal_label p))) (answer u))))))"

end
