(* ===== verification/Members.thy ===== *)
theory Members
  imports Factors
begin

text \<open>
  Account management (internal/api/handlers_user.go) and the steps of the whole account API: every
  handler of the session, factor and user routes behind its middleware.
\<close>

subsection \<open>Account management\<close>

definition validateEmail :: "api_env \<Rightarrow> string \<Rightarrow> ('v server, string) handler" where
  "validateEmail E typed =
     (let e = normalizeEmail typed in
      if e = [] then refuse 400 ''email is required''
      else if \<not> en_address E e then refuse 400 ''email is not a valid address''
      else answer e)"

definition valid_role :: "string \<Rightarrow> ('v server, role) handler" where
  "valid_role typed =
     (let r = role_of (trim_space typed) in
      if \<not> role_valid r then refuse 400 ''role must be one of admin, operator, viewer'' else answer r)"

definition listUsers :: "api_env \<Rightarrow> ('v server, user list) handler" where
  "listUsers E = (if \<not> en_store E then refuse 503 ''user store unavailable'' else or_refuse (on_store ListUsers) internal)"

record new_user =
  nu_email :: string
  nu_name :: string
  nu_role :: string
  nu_password :: string

definition blank_user :: user where
  "blank_user = \<lparr>user_id = 0, user_email = [], user_name = [], user_role = OtherRole [], user_hash = [],
     user_disabled = False, user_created = 0, user_last_login = None, user_webauthn = [],
     user_totp_enabled = False, user_passkeys = 0\<rparr>"

text \<open>handle is what the database's randomblob gives.\<close>

definition createUser :: "api_env \<Rightarrow> string \<Rightarrow> principal \<Rightarrow> new_user body \<Rightarrow> ('v server, user) handler" where
  "createUser E handle p body =
     (if \<not> en_store E then refuse 503 ''user store unavailable''
      else go_on (plain_body body) (\<lambda>q.
       go_on (validateEmail E (nu_email q)) (\<lambda>email.
       go_on (valid_role (nu_role q)) (\<lambda>r.
       go_on (password_valid (nu_password q)) (\<lambda>_.
       go_on hashing_slot (\<lambda>_.
       go_on (or_refuse (HashPassword E (nu_password q)) internal) (\<lambda>h.
       go_on (or_refuse (on_store (CreateUser handle (blank_user\<lparr>user_email := email,
           user_name := trim_space (nu_name q), user_role := r, user_hash := h\<rparr>)))
           (\<lambda>e. if isUniqueViolation e then (409, ''a user with this email already exists'') else internal e)) (\<lambda>i.
       go_on (or_refuse (on_store (GetUser i)) internal) (\<lambda>u.
       modify (securityEvent E (user_email u) (MsgUserCreated (user_role u) (principal_label p))) (answer u))))))))))"

record user_change =
  uc_name :: "string option"
  uc_role :: "string option"
  uc_disabled :: "bool option"
  uc_password :: "string option"

text \<open>None is the empty text, for which no event is posted.\<close>

definition userChange :: "user \<Rightarrow> user \<Rightarrow> bool \<Rightarrow> string \<Rightarrow> security_message option" where
  "userChange was is passwordReset who =
     (let roles = (if user_role was \<noteq> user_role is then Some (user_role was, user_role is) else None);
          locked = (\<not> user_disabled was \<and> user_disabled is);
          unlocked = (user_disabled was \<and> \<not> user_disabled is) in
      if roles = None \<and> \<not> locked \<and> \<not> unlocked \<and> \<not> passwordReset then None
      else Some (MsgUserChanged roles locked unlocked passwordReset who))"

definition new_hash :: "api_env \<Rightarrow> string option \<Rightarrow> ('v server, string) handler" where
  "new_hash E pw =
     (case pw of
        None \<Rightarrow> answer []
      | Some pw \<Rightarrow>
          go_on (password_valid pw) (\<lambda>_.
          go_on hashing_slot (\<lambda>_.
          or_refuse (HashPassword E pw) internal)))"

definition own_session :: "principal \<Rightarrow> rowid \<Rightarrow> rowid" where
  "own_session p i = (case pr_login p of Some (u, s) \<Rightarrow> if user_id u = i then ses_id s else 0 | None \<Rightarrow> 0)"

definition updateUser :: "api_env \<Rightarrow> principal \<Rightarrow> rowid option \<Rightarrow> user_change body \<Rightarrow> ('v server, user) handler" where
  "updateUser E p path body =
     (if \<not> en_store E then refuse 503 ''user store unavailable''
      else go_on (pathID path) (\<lambda>i.
       go_on (plain_body body) (\<lambda>q.
       go_on (or_refuse (on_store (GetUser i)) storeErrStatus) (\<lambda>cur.
       go_on (case uc_role q of None \<Rightarrow> answer (user_role cur) | Some t \<Rightarrow> valid_role t) (\<lambda>r.
       let next = cur\<lparr>user_name := (case uc_name q of None \<Rightarrow> user_name cur | Some n \<Rightarrow> trim_space n),
                      user_role := r,
                      user_disabled := (case uc_disabled q of None \<Rightarrow> user_disabled cur | Some b \<Rightarrow> b)\<rparr> in
       if UserID p = i \<and> (user_disabled next \<noteq> user_disabled cur \<or> user_role next \<noteq> user_role cur)
       then refuse 409 ''cannot change your own role or disable yourself''
       else
         go_on (new_hash E (uc_password q)) (\<lambda>h.
         go_on (or_refuse (on_store (UpdateUser next)) storeErrStatus) (\<lambda>_.
         go_on (if h \<noteq> [] then or_refuse (on_store (SetUserPassword i h (own_session p i))) storeErrStatus
                else answer ()) (\<lambda>_.
         go_on (or_refuse (on_store (GetUser i)) internal) (\<lambda>out.
         modify (case userChange cur out (h \<noteq> [] \<and> UserID p \<noteq> i) (principal_label p) of
                   None \<Rightarrow> id | Some m \<Rightarrow> securityEvent E (user_email out) m)
           (answer out))))))))))"

definition deleteUser :: "api_env \<Rightarrow> principal \<Rightarrow> rowid option \<Rightarrow> ('v server, unit) handler" where
  "deleteUser E p path =
     (if \<not> en_store E then refuse 503 ''user store unavailable''
      else go_on (pathID path) (\<lambda>i.
       if UserID p = i then refuse 409 ''cannot delete your own account''
       else go_on (or_refuse (on_store (GetUser i)) storeErrStatus) (\<lambda>u.
         go_on (or_refuse (on_store (DeleteUser i)) storeErrStatus) (\<lambda>_.
         modify (securityEvent E (user_email u) (MsgUserDeleted (principal_label p))) (answer ())))))"

end
