(* ===== verification/ApiFrame.thy ===== *)
theory ApiFrame
  imports Members
begin

text \<open>
  What every handler of the account API respects. A handler is an operation on the server, so the
  rules for relations every call respects apply to it; the locales name the statements each group
  of handlers makes, and lift an invariant of the tables those keep to the handlers.
\<close>

sublocale table_invariant \<subseteq> api: server_frame "\<lambda>sv sv' :: 'v server. I (sv_acc sv) \<longrightarrow> I (sv_acc sv')"
  by unfold_locales auto

context table_invariant
begin

lemma keeps_on_store: "keeps f \<Longrightarrow> api.keeps (on_store f)"
  by (rule api.keepsI) (auto simp: on_store_def split: prod.splits dest: keepsD)

lemma keeps_reads:
  "keeps (GetUser i)" "keeps (GetUserByEmail e)" "keeps ListUsers" "keeps (GetSetting k d)"
  "keeps (SessionByToken h)" "keeps (GetSession i)" "keeps (ListSessions i)"
  "keeps (ListWebAuthnCredentials i)" "keeps (CountRecoveryCodes i)" "keeps (GetTOTP i)"
  unfolding GetUser_def GetUserByEmail_def ListUsers_def GetSetting_def SessionByToken_def GetSession_def
    ListSessions_def ListWebAuthnCredentials_def CountRecoveryCodes_def GetTOTP_def
  by (intro keeps_wrapped keeps_select keeps_select_row)+

text \<open>What only touches the memory of the server.\<close>

lemma keeps_memory: "(\<And>sv. sv_acc (snd (f sv)) = sv_acc sv) \<Longrightarrow> api.keeps f"
  by (simp add: api.keeps_def)

end

subsection \<open>What only touches memory\<close>

lemma securityEvent_acc [simp]: "sv_acc (securityEvent E s m sv) = sv_acc sv"
  by (simp add: securityEvent_def)

lemma report_acc [simp]: "sv_acc (reportLockout E locked email ip why sv) = sv_acc sv"
  unfolding reportLockout_def
  by (induction locked arbitrary: sv) (auto simp: report_key_def split: prod.split)

lemma count_failure_acc [simp]: "sv_acc (count_failure E keys email ip why sv) = sv_acc sv"
  by (auto simp: count_failure_def split: prod.split)

lemma wrong_factor_acc [simp]: "sv_acc (wrong_factor key sv) = sv_acc sv"
  by (simp add: wrong_factor_def challenge_update_def split: prod.split)

lemma forget_acc [simp]: "sv_acc (forget_failures keys sv) = sv_acc sv"
  by (simp add: forget_failures_def)

lemma challenge_del_acc [simp]: "sv_acc (challenge_del key sv) = sv_acc sv"
  by (simp add: challenge_del_def)

lemma check_limits_acc [simp]: "sv_acc (snd (check_limits ks sv)) = sv_acc sv"
  by (induction ks sv rule: check_limits.induct) (auto simp: answer_def split: prod.split bool.split)

lemma draw_codes_acc [simp]: "sv_acc (snd (draw_codes E n sv)) = sv_acc sv"
  by (induction E n sv rule: draw_codes.induct) (auto simp: draw_def split: prod.splits sum.splits)

lemma memory_acc [simp]:
  "sv_acc (snd (hashing_slot sv)) = sv_acc sv" "sv_acc (snd (draw E n sv)) = sv_acc sv"
  "sv_acc (snd (NewSessionToken E sv)) = sv_acc sv" "sv_acc (snd (HashPassword E pw sv)) = sv_acc sv"
  "sv_acc (snd (challenge_get key sv)) = sv_acc sv" "sv_acc (snd (challenge_take key sv)) = sv_acc sv"
  "sv_acc (snd (challenge_update key fn sv)) = sv_acc sv" "sv_acc (snd (setup_get key sv)) = sv_acc sv"
  "sv_acc (snd (enrollment_take key sv)) = sv_acc sv"
  by (auto simp: hashing_slot_def acquirePW_def answer_def refuse_def draw_def NewSessionToken_def HashPassword_def
      challenge_get_def challenge_take_def challenge_update_def setup_get_def enrollment_take_def
      split: list.split prod.split sum.split)

subsection \<open>Calls on the way to a session\<close>

text \<open>An invariant kept by what follows the making of a session.\<close>

locale session_statements = table_invariant +
  assumes touch_login: "keeps (TouchUserLogin i t)" and touch_device: "keeps (TouchKnownDevice i f l t)"
begin

lemma noteDevice_keeps: "I (sv_acc sv) \<Longrightarrow> I (sv_acc (noteDevice E u ua ip sv))"
  using api.keepsD [OF keeps_on_store [OF touch_device], of "user_id u" "fst (deviceOf E ua ip)" "snd (deviceOf E ua ip)" "sv_now sv" sv]
  by (auto simp: noteDevice_def split: prod.split sum.split)

lemma keeps_issueSession:
  assumes "\<And>tok now. keeps (CreateSession (new_session E r u tok now))"
  shows "api.keeps (issueSession E r u left)"
proof -
  have noted: "api.keeps (modify (\<lambda>sv. noteDevice E u ua ip (snd (on_store (TouchUserLogin (user_id u) t) sv))) h)"
    if "api.keeps h" for ua ip t and h :: "('v server, login_answer) handler"
  proof (rule api.keeps_modify [OF _ that], rule impI)
    fix sv :: "'v server" assume "I (sv_acc sv)"
    with api.keepsD [OF keeps_on_store [OF touch_login], of "user_id u" t sv]
    show "I (sv_acc (noteDevice E u ua ip (snd (on_store (TouchUserLogin (user_id u) t) sv))))"
      by (intro noteDevice_keeps) (metis prod.collapse)
  qed
  show ?thesis unfolding issueSession_def Let_def
    by (intro api.keeps_handler keeps_on_store keeps_memory [OF memory_acc(3)] assms noted)
qed

end

text \<open>An invariant the statements of a login keep, but for the one that makes the session.\<close>

locale login_statements = session_statements +
  assumes advance: "keeps (AdvanceTOTPStep i n)" and use_code: "keeps (UseRecoveryCode i h t)"
    and touch_passkey: "keeps (TouchWebAuthnCredential i x t)"
begin

lemma keeps_loadWAUser: "api.keeps (loadWAUser L u)"
  unfolding loadWAUser_def by (intro api.keeps_handler keeps_on_store keeps_reads)

lemma keeps_verifyLoginTOTP: "api.keeps (verifyLoginTOTP E u code)"
proof (rule api.keepsI, rule impI)
  fix sv :: "'v server" and x sv' assume run: "verifyLoginTOTP E u code sv = (x, sv')" and ok: "I (sv_acc sv)"
  obtain r sv1 where get: "on_store (GetTOTP (user_id u)) sv = (r, sv1)" by fastforce
  have "I (sv_acc sv1)" using api.keepsD [OF keeps_on_store [OF keeps_reads(10)] get] ok by blast
  moreover have "I (sv_acc sv2)" if "on_store (AdvanceTOTPStep (user_id u) n) sv1 = (y, sv2)" "I (sv_acc sv1)" for n y sv2
    using api.keepsD [OF keeps_on_store [OF advance] that(1)] that(2) by blast
  ultimately show "I (sv_acc sv')"
    using run ok get by (auto simp: verifyLoginTOTP_def split: if_splits sum.splits option.splits)
qed

lemma keeps_check_recovery: "api.keeps (check_recovery E u code)"
proof (rule api.keepsI, rule impI)
  fix sv :: "'v server" and x sv' assume run: "check_recovery E u code sv = (x, sv')" and ok: "I (sv_acc sv)"
  let ?use = "on_store (UseRecoveryCode (user_id u) (RecoveryCodeHash E code) (sv_now sv))"
  obtain r sv1 where use: "?use sv = (r, sv1)" by fastforce
  have "I (sv_acc sv1)" using api.keepsD [OF keeps_on_store [OF use_code] use] ok by blast
  moreover have "I (sv_acc sv2)" if "on_store (CountRecoveryCodes (user_id u)) sv1 = (y, sv2)" "I (sv_acc sv1)" for y sv2
    using api.keepsD [OF keeps_on_store [OF keeps_reads(9)] that(1)] that(2) by blast
  ultimately show "I (sv_acc sv')"
    using run use by (auto simp: check_recovery_def split: sum.splits bool.splits prod.splits)
qed

lemma keeps_verifyLoginPasskey:
  fixes W :: "('v, 'c) webauthn option"
  shows "api.keeps (verifyLoginPasskey W key u cred)"
proof (rule api.keepsI, rule impI)
  fix sv :: "'v server" and x sv' assume run: "verifyLoginPasskey W key u cred sv = (x, sv')" and ok: "I (sv_acc sv)"
  obtain ch sv1 where upd: "challenge_update key (\<lambda>c. (c\<lparr>ch_webauthn := None\<rparr>, True)) sv = (ch, sv1)" by fastforce
  have s1: "I (sv_acc sv1)" using ok upd memory_acc(7) [of key "\<lambda>c. (c\<lparr>ch_webauthn := None\<rparr>, True)" sv] by simp
  have s2: "I (sv_acc sv2)" if "loadWAUser L u sv1 = (y, sv2)" for L y sv2
    using api.keepsD [OF keeps_loadWAUser that] s1 by blast
  have s3: "I (sv_acc (snd (on_store (TouchWebAuthnCredential i d t) sv2)))" if "I (sv_acc sv2)" for i d t and sv2 :: "'v server"
    using api.keepsD [OF keeps_on_store [OF touch_passkey]] that by (metis prod.collapse)
  show "I (sv_acc sv')"
    using run ok upd s1
    by (auto simp: verifyLoginPasskey_def split: option.splits if_splits sum.splits prod.splits intro: s3 dest: s2)
qed

lemma keeps_check_factor: "api.keeps (check_factor E W key u q)"
  unfolding check_factor_def
  by (cases "ml_method q")
    (auto intro!: api.keeps_handler keeps_verifyLoginTOTP keeps_check_recovery keeps_verifyLoginPasskey)

end

subsection \<open>Looking a session up\<close>

lemma select_row_result:
  assumes "select_row what g a = (r, b)" "\<And>fs. g (a\<lparr>acc_faults := fs\<rparr>) = g a"
  shows "(\<exists>fs. b = a\<lparr>acc_faults := fs\<rparr>) \<and> (\<forall>x. r = Inr x \<longrightarrow> g a = Some x)"
proof -
  have "\<exists>fs. a = a\<lparr>acc_faults := fs\<rparr>" by (rule exI [of _ "acc_faults a"]) simp
  then show ?thesis using assms
    by (auto simp: select_row_def and_then_def wrapped_def select_def sql_def pure_step_def
        split: prod.splits sum.splits list.splits if_splits option.splits)
qed

lemma SessionByToken_result:
  assumes "SessionByToken h a = (r, b)"
  shows "\<exists>fs. b = a\<lparr>acc_faults := fs\<rparr>" "r = Inr (s, u) \<Longrightarrow> session_owner h a = Some (s, u)"
  using select_row_result [OF assms [unfolded SessionByToken_def]] by auto

lemma session_owner_rows:
  assumes "session_owner h a = Some (s, u)"
  obtains w where "s \<in> set (sessions a)" "ses_hash s = h" "w \<in> set (users a)" "user_id w = ses_user s"
    "u = scanUser a w"
  using assms find_Some_in [of "\<lambda>s. ses_hash s = h" "sessions a"]
  by (fastforce simp: session_owner_def user_by_id_def split: option.splits dest: find_Some_in)

lemma scanUser_simps [simp]:
  "user_id (scanUser a u) = user_id u" "user_role (scanUser a u) = user_role u"
  "user_disabled (scanUser a u) = user_disabled u" "user_hash (scanUser a u) = user_hash u"
  "user_email (scanUser a u) = user_email u"
  by (simp_all add: scanUser_def)

subsection \<open>The whole API\<close>

text \<open>
  An invariant kept by every statement the handlers make, by the ones other parts of the program
  make, and by the prolonging of a session. The making of one is left to the lemmas that need it.
\<close>

locale api_statements = login_statements +
  assumes create_user: "keeps (CreateUser h u)" and update_user: "keeps (UpdateUser u)"
    and delete_user: "keeps (DeleteUser i)" and set_password: "keeps (SetUserPassword i h k)"
    and delete_session: "keeps (DeleteSession i)" and put_totp: "keeps (PutTOTP tp hs)"
    and delete_totp: "keeps (DeleteTOTP i)" and add_passkey: "keeps (AddWebAuthnCredential c hs)"
    and delete_passkey: "keeps (DeleteWebAuthnCredential i n)" and replace_codes: "keeps (ReplaceRecoveryCodes i codes)"
    and reset_factors: "keeps (ResetUserMFA i)"
    and prolong: "I a \<Longrightarrow> s \<in> set (sessions a) \<Longrightarrow>
      TouchSession (ses_id s) t (slideExpiry (ses_created s) n) a = (r, b) \<Longrightarrow> I b"
    and elsewhere: "account_step a b \<Longrightarrow> set (sessions b) \<subseteq> set (sessions a) \<Longrightarrow> I a \<Longrightarrow> I b"
begin

lemmas statement_rules = create_user update_user delete_user set_password delete_session put_totp delete_totp
  add_passkey delete_passkey replace_codes reset_factors advance use_code touch_passkey touch_login touch_device

lemmas memory_rules = keeps_memory [OF memory_acc(1)] keeps_memory [OF memory_acc(2)] keeps_memory [OF memory_acc(3)]
  keeps_memory [OF memory_acc(4)] keeps_memory [OF memory_acc(5)] keeps_memory [OF memory_acc(6)]
  keeps_memory [OF memory_acc(7)] keeps_memory [OF memory_acc(8)] keeps_memory [OF memory_acc(9)]
  keeps_memory [OF check_limits_acc] keeps_memory [OF draw_codes_acc]

lemmas handler_rules = api.keeps_handler keeps_on_store statement_rules keeps_reads memory_rules

lemma keeps_modify_memory:
  "(\<And>sv. sv_acc (f sv) = sv_acc sv) \<Longrightarrow> api.keeps h \<Longrightarrow> api.keeps (modify f h)"
  by (rule api.keeps_modify) simp

lemma keeps_mfaPolicy: "api.keeps (mfaPolicy E)"
  unfolding mfaPolicy_def by (intro handler_rules)

lemma keeps_NewRecoveryCodes: "api.keeps (NewRecoveryCodes E)"
  unfolding NewRecoveryCodes_def by (intro handler_rules)

lemma keeps_firstFactorCodes: "api.keeps (firstFactorCodes E u)"
  unfolding firstFactorCodes_def by (intro handler_rules keeps_NewRecoveryCodes)

lemma keeps_startMFAChallenge: "api.keeps (startMFAChallenge E pk u)"
  unfolding startMFAChallenge_def by (intro handler_rules keeps_modify_memory) simp

lemma keeps_password_valid: "api.keeps (password_valid pw)"
  unfolding password_valid_def by (intro handler_rules)

lemma keeps_login:
  assumes "\<And>u tok now. keeps (CreateSession (new_session E r u tok now))"
  shows "api.keeps (login E pk r body)"
  unfolding login_def Let_def
  by (intro handler_rules keeps_modify_memory keeps_startMFAChallenge keeps_issueSession assms) simp_all

lemma keeps_logout: "api.keeps (logout E p)"
  unfolding logout_def by (intro handler_rules)

lemma keeps_changeOwnPassword: "api.keeps (changeOwnPassword E p body)"
  unfolding changeOwnPassword_def
  by (intro handler_rules keeps_modify_memory keeps_password_valid) simp_all

lemma keeps_listSessions: "api.keeps (listSessions E p)"
  unfolding listSessions_def Let_def by (intro handler_rules)

lemma keeps_deleteSession: "api.keeps (deleteSession E p path)"
  unfolding deleteSession_def by (intro handler_rules)

lemma keeps_options: "api.keeps (loginMFAWebAuthnOptions E W body)"
  unfolding loginMFAWebAuthnOptions_def Let_def by (intro handler_rules keeps_loadWAUser)

lemma keeps_loginMFA:
  assumes "\<And>u tok now. keeps (CreateSession (new_session E r u tok now))"
  shows "api.keeps (loginMFA E W r body)"
  unfolding loginMFA_def Let_def
  by (intro handler_rules keeps_modify_memory keeps_check_factor keeps_issueSession assms) simp_all

lemma keeps_mfaUser: "api.keeps (mfaUser E p)"
  unfolding mfaUser_def by (intro handler_rules)

lemma keeps_confirmPassword: "api.keeps (confirmPassword E u pw)"
  unfolding confirmPassword_def by (intro handler_rules)

lemma keeps_lastFactorGuard: "api.keeps (lastFactorGuard E u n)"
  unfolding lastFactorGuard_def by (intro handler_rules keeps_mfaPolicy)

lemmas factor_rules = handler_rules keeps_modify_memory keeps_mfaUser keeps_confirmPassword keeps_lastFactorGuard
  keeps_mfaPolicy keeps_loadWAUser keeps_firstFactorCodes keeps_NewRecoveryCodes keeps_password_valid

lemma keeps_self_service:
  "api.keeps (mfaStatus E W p)" "api.keeps (totpSetup E p b)"
  "api.keeps (totpConfirm E p b)" "api.keeps (totpDisable E p b)"
  "api.keeps (passkeyOptions E W p b2)" "api.keeps (passkeyRegister E W p b)"
  "api.keeps (passkeyDelete E p path b)" "api.keeps (regenerateRecoveryCodes E p b)"
  "api.keeps (resetUserMFA E p path)"
  unfolding mfaStatus_def totpSetup_def totpConfirm_def totpDisable_def passkeyOptions_def passkeyRegister_def
    passkeyDelete_def regenerateRecoveryCodes_def resetUserMFA_def Let_def
  by (rule factor_rules keeps_memory | simp)+

lemma keeps_account_handlers:
  "api.keeps (listUsers E)" "api.keeps (createUser E h p nb)"
  "api.keeps (updateUser E p path cb)" "api.keeps (deleteUser E p path)"
  unfolding listUsers_def createUser_def updateUser_def deleteUser_def validateEmail_def valid_role_def new_hash_def Let_def
  by (rule factor_rules | simp split: option.split)+

text \<open>Authentication prolongs the session it finds, or deletes it.\<close>

lemma keeps_resolveSession: "api.keeps (resolveSession E tok)"
proof (rule api.keepsI, rule impI)
  fix sv :: "'v server" and r sv' assume run: "resolveSession E tok sv = (r, sv')" and ok: "I (sv_acc sv)"
  let ?h = "en_token_hash E tok"
  obtain q b where q: "SessionByToken ?h (sv_acc sv) = (q, b)" by fastforce
  then obtain fs where b: "b = (sv_acc sv)\<lparr>acc_faults := fs\<rparr>" using SessionByToken_result(1) by blast
  have b_ok: "I b" using ok b by (simp add: faults)
  let ?sv1 = "sv\<lparr>sv_acc := b\<rparr>"
  show "I (sv_acc sv')"
  proof (cases q)
    case (Inl e)
    then show ?thesis using run ok q b_ok by (auto simp: resolveSession_def on_store_def split: if_splits)
  next
    case (Inr su)
    obtain s u where su: "su = (s, u)" by (cases su)
    have owner: "session_owner ?h (sv_acc sv) = Some (s, u)" using SessionByToken_result(2) [OF q] Inr su by simp
    have st: "on_store (SessionByToken ?h) sv = (Inr (s, u), ?sv1)" using q Inr su by (simp add: on_store_def)
    have in_b: "s \<in> set (sessions b)" using owner b by (elim session_owner_rows) simp
    have del: "I (sv_acc (snd (on_store (DeleteSession i) ?sv1)))" for i
      using api.keepsD [OF keeps_on_store [OF delete_session], of i ?sv1] b_ok
      by (cases "on_store (DeleteSession i) ?sv1") auto
    have touch: "I (sv_acc (snd (on_store (TouchSession (ses_id s) t (slideExpiry (ses_created s) n)) ?sv1)))" for t n
      using prolong [OF b_ok in_b, of t n]
      by (cases "TouchSession (ses_id s) t (slideExpiry (ses_created s) n) b") (auto simp: on_store_def)
    let ?sv2 = "if sv_now sv - ses_last_seen s \<ge> touchInterval
        then snd (on_store (TouchSession (ses_id s) (sv_now sv) (slideExpiry (ses_created s) (sv_now sv))) ?sv1) else ?sv1"
    have s2: "I (sv_acc ?sv2)" using touch b_ok by simp
    have policy: "I (sv_acc sv3)" if "mfaPolicy E ?sv2 = (y, sv3)" for y and sv3 :: "'v server"
      using api.keepsD [OF keeps_mfaPolicy that] s2 by blast
    show ?thesis using run ok st del b_ok s2 policy
      by (auto simp: resolveSession_def Let_def split: if_splits prod.splits sum.splits)
  qed
qed

lemma keeps_authenticate: "api.keeps (authenticate E r)"
proof (rule api.keepsI, rule impI)
  fix sv :: "'v server" and x sv' assume run: "authenticate E r sv = (x, sv')" and ok: "I (sv_acc sv)"
  obtain q sv1 where q: "resolveSession E (bearer r) sv = (q, sv1)" by fastforce
  with run ok api.keepsD [OF keeps_resolveSession q] show "I (sv_acc sv')"
    by (auto simp: authenticate_def Let_def refuse_def split: if_splits sum.splits)
qed

lemma keeps_route: "(\<And>p. api.keeps (h p)) \<Longrightarrow> api.keeps (route E want enrol h r)"
  unfolding route_def guard_def by (intro handler_rules keeps_authenticate) simp_all

lemmas routed_handlers = keeps_logout keeps_changeOwnPassword keeps_listSessions keeps_deleteSession
  keeps_self_service keeps_account_handlers api.keeps_answer

lemma routed: "route E want enrol h r sv = (x, sv') \<Longrightarrow> I (sv_acc sv) \<Longrightarrow> (\<And>p. api.keeps (h p)) \<Longrightarrow> I (sv_acc sv')"
  using keeps_route [THEN api.keepsD] by blast

end

end
