(* ===== verification/AccountApi.thy ===== *)
theory AccountApi
  imports ApiFrame
begin

text \<open>
  The requests the account API serves, as a step relation on the server, and the properties of
  the states they reach: who a token identifies, and what ends a session.
\<close>

subsection \<open>Requests\<close>

text \<open>
  One rule per route, behind its middleware with the role and the enrolment exemption it is
  registered with. Beside requests there are the statements of the rest of the program (the
  command line, the settings and push handlers, the start of the daemon), none of which makes or
  prolongs a session; the clock; and a restart, which loses what is kept in memory.
\<close>

inductive api_step ::
  "api_env \<Rightarrow> ('v, 'c) webauthn option \<Rightarrow> 'v server \<Rightarrow> 'v server \<Rightarrow> bool" for E W where
  login: "login E (W \<noteq> None) r b sv = (x, sv') \<Longrightarrow> api_step E W sv sv'"
| login_options: "loginMFAWebAuthnOptions E W b sv = (x, sv') \<Longrightarrow> api_step E W sv sv'"
| login_mfa: "loginMFA E W r b sv = (x, sv') \<Longrightarrow> api_step E W sv sv'"
| logout: "route E RoleViewer True (logout E) r sv = (x, sv') \<Longrightarrow> api_step E W sv sv'"
| me: "route E RoleViewer True answer r sv = (x, sv') \<Longrightarrow> api_step E W sv sv'"
| change_password: "route E RoleViewer False (\<lambda>p. changeOwnPassword E p b) r sv = (x, sv') \<Longrightarrow> api_step E W sv sv'"
| list_sessions: "route E RoleViewer False (listSessions E) r sv = (x, sv') \<Longrightarrow> api_step E W sv sv'"
| delete_session: "route E RoleViewer False (\<lambda>p. deleteSession E p i) r sv = (x, sv') \<Longrightarrow> api_step E W sv sv'"
| mfa_status: "route E RoleViewer True (mfaStatus E W) r sv = (x, sv') \<Longrightarrow> api_step E W sv sv'"
| totp_setup: "route E RoleViewer True (\<lambda>p. totpSetup E p b) r sv = (x, sv') \<Longrightarrow> api_step E W sv sv'"
| totp_confirm: "route E RoleViewer True (\<lambda>p. totpConfirm E p b) r sv = (x, sv') \<Longrightarrow> api_step E W sv sv'"
| totp_disable: "route E RoleViewer False (\<lambda>p. totpDisable E p b) r sv = (x, sv') \<Longrightarrow> api_step E W sv sv'"
| passkey_options: "route E RoleViewer True (\<lambda>p. passkeyOptions E W p b) r sv = (x, sv') \<Longrightarrow> api_step E W sv sv'"
| passkey_register: "route E RoleViewer True (\<lambda>p. passkeyRegister E W p b) r sv = (x, sv') \<Longrightarrow> api_step E W sv sv'"
| passkey_delete: "route E RoleViewer False (\<lambda>p. passkeyDelete E p i b) r sv = (x, sv') \<Longrightarrow> api_step E W sv sv'"
| recovery_codes: "route E RoleViewer False (\<lambda>p. regenerateRecoveryCodes E p b) r sv = (x, sv') \<Longrightarrow> api_step E W sv sv'"
| reset_mfa: "route E RoleAdmin False (\<lambda>p. resetUserMFA E p i) r sv = (x, sv') \<Longrightarrow> api_step E W sv sv'"
| list_users: "route E RoleAdmin False (\<lambda>p. listUsers E) r sv = (x, sv') \<Longrightarrow> api_step E W sv sv'"
| create_user: "route E RoleAdmin False (\<lambda>p. createUser E h p b) r sv = (x, sv') \<Longrightarrow> api_step E W sv sv'"
| update_user: "route E RoleAdmin False (\<lambda>p. updateUser E p i b) r sv = (x, sv') \<Longrightarrow> api_step E W sv sv'"
| delete_user: "route E RoleAdmin False (\<lambda>p. deleteUser E p i) r sv = (x, sv') \<Longrightarrow> api_step E W sv sv'"
| elsewhere: "account_step (sv_acc sv) a \<Longrightarrow> set (sessions a) \<subseteq> set (sessions (sv_acc sv)) \<Longrightarrow>
    api_step E W sv (sv\<lparr>sv_acc := a\<rparr>)"
| time_passes: "sv_now sv \<le> t \<Longrightarrow> api_step E W sv (sv\<lparr>sv_now := t\<rparr>)"
| restart: "api_step E W sv (sv\<lparr>sv_limiter := newLoginLimiter, sv_challenges := newPending,
    sv_totp := newPending, sv_passkeys := newPending\<rparr>)"

definition fresh_server :: "accounts \<Rightarrow> time \<Rightarrow> bool list \<Rightarrow> 'v server" where
  "fresh_server a t slots = \<lparr>sv_acc = a, sv_limiter = newLoginLimiter, sv_challenges = newPending,
     sv_totp = newPending, sv_passkeys = newPending, sv_now = t, sv_draws = 0, sv_slots = slots, sv_events = []\<rparr>"

inductive reachable_api :: "api_env \<Rightarrow> ('v, 'c) webauthn option \<Rightarrow> 'v server \<Rightarrow> bool" for E W where
  start: "reachable_api E W (fresh_server (empty_accounts c fs) t slots)"
| step: "reachable_api E W sv \<Longrightarrow> api_step E W sv sv' \<Longrightarrow> reachable_api E W sv'"

context api_statements
begin

lemma api_step_keeps:
  assumes "api_step E W sv sv'" "I (sv_acc sv)"
    and "\<And>r u tok now. keeps (CreateSession (new_session E r u tok now))"
  shows "I (sv_acc sv')"
  using assms(1,2)
proof (induction rule: api_step.induct)
  case (elsewhere sv a)
  then show ?case using api_statements.elsewhere [OF api_statements_axioms] by simp
next
  case (login r b sv x sv')
  then show ?case using api.keepsD [OF keeps_login [OF assms(3)]] by blast
next
  case (login_options b sv x sv')
  then show ?case using api.keepsD [OF keeps_options] by blast
next
  case (login_mfa r b sv x sv')
  then show ?case using api.keepsD [OF keeps_loginMFA [OF assms(3)]] by blast
qed (simp | erule (1) routed, rule routed_handlers)+

end

subsection \<open>How long a session may live\<close>

definition aged :: "accounts \<Rightarrow> bool" where
  "aged a = list_all (\<lambda>s. ses_expires s \<le> ses_created s + sessionMaxAge) (sessions a)"

definition sound :: "accounts \<Rightarrow> bool" where "sound a = (accounts_ok a \<and> aged a)"

lemma aged_simps [simp]:
  "aged (a\<lparr>users := x0\<rparr>) = aged a" "aged (a\<lparr>totps := x2\<rparr>) = aged a"
  "aged (a\<lparr>passkeys := x3\<rparr>) = aged a" "aged (a\<lparr>recovery_codes := x4\<rparr>) = aged a"
  "aged (a\<lparr>settings := x5\<rparr>) = aged a" "aged (a\<lparr>known_devices := x6\<rparr>) = aged a"
  "aged (a\<lparr>vapid := x7\<rparr>) = aged a" "aged (a\<lparr>subscriptions := x8\<rparr>) = aged a"
  "aged (a\<lparr>acc_clock := x9\<rparr>) = aged a" "aged (a\<lparr>acc_faults := fs\<rparr>) = aged a"
  by (simp_all add: aged_def)

lemma aged_parts [simp]:
  "aged (drop_recovery i a) = aged a" "aged (put_recovery i h a) = aged a" "aged (put_totp t a) = aged a"
  "aged (put_setting kv a) = aged a" "aged (put_device i fp l t' a) = aged a"
  "aged (update_users i f a) = aged a"
  by (simp_all add: drop_recovery_def put_recovery_def put_totp_def put_setting_def put_device_def
      update_users_def Let_def)

lemma aged_drop: "aged a \<Longrightarrow> aged (drop_sessions P a)" "aged a \<Longrightarrow> aged (cascade_user i a)"
  by (auto simp: aged_def drop_sessions_def cascade_user_def list_all_iff)

lemma aged_subset: "set (sessions b) \<subseteq> set (sessions a) \<Longrightarrow> aged a \<Longrightarrow> aged b"
  by (auto simp: aged_def list_all_iff)

interpretation ages: table_invariant aged
  by unfold_locales simp

interpretation sound: table_invariant sound
  by unfold_locales (simp add: sound_def)

lemma sound_keeps: "tables.keeps f \<Longrightarrow> ages.keeps f \<Longrightarrow> sound.keeps f"
  by (rule sound.keepsI) (auto simp: sound_def dest: tables.keepsD ages.keepsD)

lemma statements_aged:
  "ages.keeps (CreateUser h u)" "ages.keeps (UpdateUser u)" "ages.keeps (DeleteUser i)"
  "ages.keeps (SetUserPassword i h k)" "ages.keeps (TouchUserLogin i t)" "ages.keeps (DeleteSession i)"
  "ages.keeps (PutTOTP tp hs)" "ages.keeps (AdvanceTOTPStep i n)" "ages.keeps (DeleteTOTP i)"
  "ages.keeps (AddWebAuthnCredential c hs)" "ages.keeps (TouchWebAuthnCredential i x t)"
  "ages.keeps (DeleteWebAuthnCredential i n)" "ages.keeps (ReplaceRecoveryCodes i codes)"
  "ages.keeps (UseRecoveryCode i h t)" "ages.keeps (ResetUserMFA i)" "ages.keeps (TouchKnownDevice i f l t)"
  unfolding statement_defs UpdateUser_def DeleteUser_def GetUser_def ensureNotLastAdmin_def Let_def
  by (rule ages.keeps_tables | erule disjE
      | simp add: constraint_def aged_drop split: option.split | fastforce simp: aged_drop)+

lemma stored_time_le: "stored_time t \<le> t"
proof -
  have "t div second * second + t mod second = t" "0 \<le> t mod second" by simp_all
  then show ?thesis unfolding stored_time_def unix_to_time_def unix_def by linarith
qed

lemma stored_time_plus: "stored_time (t + k * second) = stored_time t + k * second"
proof -
  have "(t + k * second) div second = t div second + k"
    by (subst div_mult_self1) (simp_all add: second_def)
  then show ?thesis by (simp add: stored_time_def unix_to_time_def unix_def distrib_right)
qed

lemma sessionTTL_seconds: "sessionTTL = 2592000 * second" "sessionMaxAge = 7776000 * second"
  by (simp_all add: sessionTTL_def sessionMaxAge_def hour_def minute_def)

lemma slideExpiry_cap: "slideExpiry created now \<le> created + sessionMaxAge"
  by (simp add: slideExpiry_def Let_def)

lemma CreateSession_sound:
  assumes "ses_created s = now" "ses_expires s = now + sessionTTL"
  shows "sound.keeps (CreateSession s)"
proof (rule sound_keeps [OF CreateSession_ok])
  have new: "stored_time (now + sessionTTL) \<le> stored_time now + sessionMaxAge"
    by (simp add: sessionTTL_seconds stored_time_plus)
  show "ages.keeps (CreateSession s)"
    unfolding CreateSession_def
  proof (intro ages.keeps_wrapped ages.keeps_sql)
    fix a assume "aged a"
    then show "aged (snd (if ses_hash s \<in> set (map ses_hash (sessions a)) then (Inl unique_violation, a)
       else constraint (is_user (ses_user s) a) foreign_key_violation
         (\<lambda>a. let i = next_id (map ses_id (sessions a)) in
            (i, a\<lparr>sessions := sessions a @ [s\<lparr>ses_id := i, ses_created := stored_time (ses_created s),
                ses_last_seen := stored_time (ses_last_seen s), ses_expires := stored_time (ses_expires s)\<rparr>]\<rparr>)) a))"
      using new assms by (simp add: constraint_def Let_def aged_def)
  qed
qed

lemma TouchSession_aged:
  assumes "sound a" "s \<in> set (sessions a)" "TouchSession (ses_id s) t (slideExpiry (ses_created s) now) a = (r, b)"
  shows "sound b"
proof -
  have "accounts_ok b" using tables.keepsD [OF TouchSession_ok assms(3)] assms(1) by (simp add: sound_def)
  moreover have one: "x = s" if "x \<in> set (sessions a)" "ses_id x = ses_id s" for x
    using keyedD [of ses_id "sessions a" x s] assms(1,2) that by (simp add: sound_def ok_unfold)
  have "stored_time (slideExpiry (ses_created s) now) \<le> ses_created x + sessionMaxAge"
    if "x \<in> set (sessions a)" "ses_id x = ses_id s" for x
    using one [OF that] stored_time_le [of "slideExpiry (ses_created s) now"] slideExpiry_cap [of "ses_created s" now] by simp
  then have "aged b"
    using assms(1,3)
    by (auto simp: TouchSession_def wrapped_def exec_def sql_def sound_def aged_def list_all_iff
        split: list.splits if_splits)
  ultimately show ?thesis by (simp add: sound_def)
qed

lemma sound_statements:
  "sound.keeps (CreateUser h u)" "sound.keeps (UpdateUser u)" "sound.keeps (DeleteUser i)"
  "sound.keeps (SetUserPassword i h k)" "sound.keeps (TouchUserLogin i t)" "sound.keeps (DeleteSession i)"
  "sound.keeps (PutTOTP tp hs)" "sound.keeps (AdvanceTOTPStep i n)" "sound.keeps (DeleteTOTP i)"
  "sound.keeps (AddWebAuthnCredential c hs)" "sound.keeps (TouchWebAuthnCredential i x t)"
  "sound.keeps (DeleteWebAuthnCredential i n)" "sound.keeps (ReplaceRecoveryCodes i codes)"
  "sound.keeps (UseRecoveryCode i h t)" "sound.keeps (ResetUserMFA i)" "sound.keeps (TouchKnownDevice i f l t)"
  by (rule sound_keeps, rule statements_ok, rule statements_aged)+

lemma statement_sound: "sound.keeps f \<Longrightarrow> sound a \<Longrightarrow> f a = (r, b) \<Longrightarrow> sound b"
  by (blast dest: sound.keepsD)

interpretation sound: api_statements sound
proof (unfold_locales, goal_cases)
  case (17 a s t n r b)
  then show ?case by (rule TouchSession_aged)
next
  case (18 a b)
  then show ?case using account_step_ok aged_subset by (auto simp: sound_def)
qed (rule sound_statements)+

lemma new_session_sound: "sound.keeps (CreateSession (new_session E r u tok now))"
  by (rule CreateSession_sound) (simp_all add: new_session_def)

lemma reachable_api_sound: "reachable_api E W sv \<Longrightarrow> sound (sv_acc sv)"
proof (induction rule: reachable_api.induct)
  case (start c fs t slots)
  show ?case by (simp add: fresh_server_def sound_def aged_def empty_accounts_def [of c fs])
    (simp add: empty_accounts_def [symmetric])
next
  case (step sv sv')
  then show ?case by (blast intro: sound.api_step_keeps new_session_sound)
qed

text \<open>Who a session token identifies: the row, its owner, and the limits it is still within.\<close>

definition authorised :: "'v server \<Rightarrow> string \<Rightarrow> principal \<Rightarrow> bool" where
  "authorised sv h p =
     (\<exists>s u w. pr_login p = Some (u, s) \<and> \<not> pr_static p \<and>
        s \<in> set (sessions (sv_acc sv)) \<and> ses_hash s = h \<and> sv_now sv < ses_expires s \<and>
        w \<in> set (users (sv_acc sv)) \<and> user_id w = ses_user s \<and> user_id u = user_id w \<and>
        \<not> user_disabled w \<and> pr_role p = user_role w)"

lemma resolveSession_authorised:
  assumes "resolveSession E tok sv = (Inr p, sv')"
  shows "authorised sv (en_token_hash E tok) p"
proof -
  let ?h = "en_token_hash E tok"
  obtain q b where q: "SessionByToken ?h (sv_acc sv) = (q, b)" by fastforce
  show ?thesis
  proof (cases q)
    case (Inl e)
    then show ?thesis using assms q by (auto simp: resolveSession_def on_store_def split: if_splits)
  next
    case (Inr su)
    obtain s u where su: "su = (s, u)" by (cases su)
    have owner: "session_owner ?h (sv_acc sv) = Some (s, u)" using SessionByToken_result(2) [OF q] Inr su by simp
    have st: "on_store (SessionByToken ?h) sv = (Inr (s, u), sv\<lparr>sv_acc := b\<rparr>)" using q Inr su by (simp add: on_store_def)
    have p: "sv_now sv < ses_expires s" "\<not> user_disabled u" "pr_login p = Some (u, s)" "\<not> pr_static p" "pr_role p = user_role u"
      using assms st by (auto simp: resolveSession_def Let_def split: if_splits prod.splits sum.splits)
    from owner show ?thesis
    proof (rule session_owner_rows)
      fix w assume "s \<in> set (sessions (sv_acc sv))" "ses_hash s = ?h" "w \<in> set (users (sv_acc sv))"
        "user_id w = ses_user s" "u = scanUser (sv_acc sv) w"
      with p show ?thesis unfolding authorised_def by (intro exI [of _ s] exI [of _ u] exI [of _ w]) simp
    qed
  qed
qed

text \<open>
  C11: in every state the account API reaches, a request that is let in carries either the
  configured static token or a token whose hash is that of a stored session which has not expired,
  was made less than ninety days ago however often it was prolonged, and belongs to an account
  that is enabled now; the request acts with the role that account has now.
\<close>

theorem session_authenticates:
  assumes "reachable_api E W sv" "authenticate E r sv = (Inr p, sv')"
  shows "pr_static p \<and> en_token E \<noteq> [] \<and> bearer r = en_token E \<or>
    (\<exists>s w. s \<in> set (sessions (sv_acc sv)) \<and> ses_hash s = en_token_hash E (bearer r) \<and>
       sv_now sv < ses_expires s \<and> sv_now sv < ses_created s + 90 * 24 * hour \<and>
       w \<in> set (users (sv_acc sv)) \<and> user_id w = ses_user s \<and> UserID p = user_id w \<and>
       \<not> user_disabled w \<and> pr_role p = user_role w)"
proof (cases "en_token E \<noteq> [] \<and> bearer r = en_token E")
  case True
  then show ?thesis using assms(2) by (auto simp: authenticate_def Let_def static_principal_def refuse_def)
next
  case False
  have ok: "sound (sv_acc sv)" using assms(1) by (rule reachable_api_sound)
  obtain q sv1 where q: "resolveSession E (bearer r) sv = (q, sv1)" by fastforce
  with assms(2) False have "q = Inr p"
    by (auto simp: authenticate_def Let_def refuse_def split: if_splits sum.splits)
  from resolveSession_authorised [OF q [unfolded this]] obtain s u w where a:
    "pr_login p = Some (u, s)" "s \<in> set (sessions (sv_acc sv))" "ses_hash s = en_token_hash E (bearer r)"
    "sv_now sv < ses_expires s" "w \<in> set (users (sv_acc sv))" "user_id w = ses_user s" "user_id u = user_id w"
    "\<not> user_disabled w" "pr_role p = user_role w"
    unfolding authorised_def by blast
  moreover have "ses_expires s \<le> ses_created s + sessionMaxAge"
    using ok a(2) by (simp add: sound_def aged_def list_all_iff)
  ultimately show ?thesis by (auto simp: UserID_def sessionMaxAge_def intro!: exI [of _ s] bexI [of _ w])
qed

subsection \<open>What ends a session\<close>

text \<open>The account statements that must end access, and the session each of them spares.\<close>

inductive revokes :: "rowid \<Rightarrow> rowid \<Rightarrow> accounts \<Rightarrow> accounts \<Rightarrow> bool" where
  disabled: "UpdateUser u a = (Inr (), b) \<Longrightarrow> user_disabled u \<Longrightarrow>
    user_by_id (user_id u) a = Some c \<Longrightarrow> \<not> user_disabled c \<Longrightarrow> revokes (user_id u) 0 a b"
| deleted: "DeleteUser i a = (Inr (), b) \<Longrightarrow> revokes i 0 a b"
| password: "SetUserPassword i h k a = (Inr (), b) \<Longrightarrow> revokes i k a b"
| factors: "ResetUserMFA i a = (Inr (), b) \<Longrightarrow> revokes i 0 a b"

definition ended :: "rowid \<Rightarrow> rowid \<Rightarrow> accounts \<Rightarrow> accounts \<Rightarrow> bool" where
  "ended i k a b = (\<forall>s \<in> set (sessions b). s \<in> set (sessions a) \<and> (ses_user s = i \<longrightarrow> ses_id s = k))"

definition like :: "accounts \<Rightarrow> accounts \<Rightarrow> bool" where
  "like a b = (b\<lparr>acc_faults := []\<rparr> = a\<lparr>acc_faults := []\<rparr>)"

lemma like_refl [simp]: "like a a"
  by (simp add: like_def)

lemma like_reads: "like a b \<Longrightarrow> user_by_id i b = user_by_id i a \<and> sessions b = sessions a"
  unfolding like_def by (metis accounts.select_convs(2) accounts.surjective accounts.update_convs(11) faults_reads(2))

lemmas like_user = like_reads [THEN conjunct1]
lemmas like_sessions = like_reads [THEN conjunct2]

lemma fault_free_like [simp]:
  "fault_free (like a)" "fault_free (ended i k a)" "fault_free (\<lambda>b. sessions b = sessions a)"
  by (simp_all add: fault_free_def like_def ended_def)

lemma drop_ended:
  assumes "\<And>s. ses_user s = i \<Longrightarrow> ses_id s \<noteq> k \<Longrightarrow> D s"
  shows "hoare (\<lambda>b. sessions b = sessions a) (wrapped p (exec (drop_sessions D))) (\<lambda>_. ended i k a) (\<lambda>_. True)"
  by (rule hoare_wrapped, rule hoare_exec) (use assms in \<open>auto simp: ended_def drop_sessions_def\<close>)

lemma disabled_ends:
  assumes "user_disabled u" "user_by_id (user_id u) a = Some c" "\<not> user_disabled c"
  shows "hoare (like a) (UpdateUser u) (\<lambda>_. ended (user_id u) 0 a) (like a)"
  unfolding UpdateUser_def Let_def GetUser_def
proof (rule hoare_transaction, goal_cases ff ff2 body)
  case body
  let ?P = "\<lambda>cur b. like a b \<and> user_by_id (user_id u) b = Some cur"
  have guard: "hoare (?P cur) (if x then ensureNotLastAdmin (user_id u) else pure_step (Inr ())) (\<lambda>_. ?P cur) (\<lambda>_. True)" for cur x
    by (rule hoare_if, rule hoare_weaken [OF ensureNotLastAdmin_hoare [of "?P cur"]], simp_all) (rule hoare_return, simp)
  have update: "hoare (?P cur) (wrapped p (exec (update_users j f))) (\<lambda>_ b. sessions b = sessions a \<and> cur = c) (\<lambda>_. True)" for cur p j f
    by (rule hoare_wrapped, rule hoare_exec) (use assms(2) in \<open>auto simp: update_users_def dest: like_user [where i = "user_id u"] like_sessions\<close>)
  have drop: "hoare (\<lambda>b. sessions b = sessions a \<and> cur = c)
      (if user_disabled u \<and> \<not> user_disabled cur then wrapped p (exec (drop_sessions (\<lambda>s. ses_user s = user_id u)))
       else pure_step (Inr ())) (\<lambda>_. ended (user_id u) 0 a) (\<lambda>_. True)" for cur p
  proof (cases "cur = c")
    case True
    then show ?thesis using assms drop_ended [of "user_id u" 0 "\<lambda>s. ses_user s = user_id u" a p] by simp
  qed (simp add: hoare_def)
  show ?case
    by (rule hoare_and_then, rule hoare_select_row, simp, simp,
        rule hoare_and_then, rule guard, rule hoare_and_then, rule update, rule drop)
qed simp_all

lemma deleted_ends: "hoare (like a) (DeleteUser i) (\<lambda>_. ended i 0 a) (like a)"
  unfolding DeleteUser_def Let_def GetUser_def
proof (rule hoare_transaction, goal_cases ff ff2 body)
  case body
  let ?P = "\<lambda>cur b. like a b \<and> user_by_id i b = Some cur"
  have guard: "hoare (?P cur) (if x then ensureNotLastAdmin i else pure_step (Inr ())) (\<lambda>_. like a) (\<lambda>_. True)" for cur x
    by (rule hoare_if, rule hoare_weaken [OF ensureNotLastAdmin_hoare [of "?P cur"]], simp_all) (rule hoare_return, simp)
  show ?case
    by (rule hoare_and_then, rule hoare_select_row, simp, simp,
        rule hoare_and_then, rule guard, rule hoare_wrapped, rule hoare_exec)
      (auto simp: ended_def cascade_user_def dest: like_sessions)
qed simp_all

lemma password_ends: "hoare (like a) (SetUserPassword i h k) (\<lambda>_. ended i k a) (like a)"
  unfolding SetUserPassword_def Let_def
proof (rule hoare_transaction, goal_cases ff ff2 body)
  case body
  have update: "hoare (like a) (wrapped p (sql (\<lambda>x. (Inr (is_user i x), update_users i f x))))
      (\<lambda>_ b. sessions b = sessions a) (\<lambda>_. True)" for p f
    by (rule hoare_wrapped, rule hoare_sql) (auto simp: update_users_def dest: like_sessions)
  show ?case
    by (rule hoare_and_then, rule update, rule hoare_if, rule hoare_fail, simp, rule drop_ended, simp)
qed simp_all

lemma factors_end: "hoare (like a) (ResetUserMFA i) (\<lambda>_. ended i 0 a) (like a)"
  unfolding ResetUserMFA_def Let_def for_each.simps
proof (rule hoare_transaction, goal_cases ff ff2 body)
  case body
  let ?S = "\<lambda>b. sessions b = sessions a"
  have other: "hoare ?S (wrapped p (exec g)) (\<lambda>_. ?S) (\<lambda>_. True)" if "\<And>b. sessions (g b) = sessions b" for p g
    by (rule hoare_wrapped, rule hoare_exec) (simp_all add: that)
  have found: "hoare (like a) (select_row p g) (\<lambda>_. ?S) (\<lambda>_. True)" for p and g :: "accounts \<Rightarrow> unit option"
    by (rule hoare_weaken [OF hoare_select_row [of "like a" "\<lambda>_. True"]]) (auto dest: like_sessions)
  show ?case
    by (rule hoare_and_then, rule found, rule hoare_and_then, rule other, simp, rule hoare_and_then, rule other, simp,
        rule hoare_and_then, rule other, simp add: drop_recovery_def, rule hoare_and_then, rule drop_ended, simp, rule hoare_return)
qed simp_all

lemma revokes_ends: "revokes i k a b \<Longrightarrow> ended i k a b"
proof (induction rule: revokes.induct)
  case (disabled u a b c)
  then show ?case using hoareD_ok [OF disabled_ends like_refl] by blast
qed (use hoareD_ok [OF deleted_ends like_refl] hoareD_ok [OF password_ends like_refl]
      hoareD_ok [OF factors_end like_refl] in blast)+

text \<open>
  C12: access ends at once. When an account has been disabled, deleted, given a new password or
  had its factors reset, no token of a session it had before (but the one a password change spares)
  is let in any more: the request is refused, whatever faults the lookup meets.
\<close>

theorem revoked_sessions_refused:
  assumes "reachable_api E W sv" "revokes i k (sv_acc sv) b"
    and "s \<in> set (sessions (sv_acc sv))" "ses_user s = i" "ses_id s \<noteq> k"
    and "en_token_hash E (bearer r) = ses_hash s" "bearer r \<noteq> en_token E"
  shows "\<exists>e sv'. authenticate E r (sv\<lparr>sv_acc := b\<rparr>) = (Inl e, sv')"
proof -
  have ok: "sound (sv_acc sv)" using assms(1) by (rule reachable_api_sound)
  have gone: "ses_hash t \<noteq> ses_hash s" if "t \<in> set (sessions b)" for t
  proof
    assume same: "ses_hash t = ses_hash s"
    have t: "t \<in> set (sessions (sv_acc sv))" "ses_user t = i \<longrightarrow> ses_id t = k"
      using revokes_ends [OF assms(2)] that by (auto simp: ended_def)
    have "t = s" using keyedD [of ses_hash "sessions (sv_acc sv)" t s] ok t(1) assms(3) same by (simp add: sound_def ok_unfold)
    then show False using t(2) assms(4,5) by simp
  qed
  then have "find (\<lambda>t. ses_hash t = ses_hash s) (sessions b) = None" by (auto simp: find_None_iff)
  then have "session_owner (ses_hash s) b = None" by (simp add: session_owner_def)
  then have "fst (SessionByToken (ses_hash s) b) \<noteq> Inr x" for x
    using SessionByToken_result(2) [of "ses_hash s" b "Inr x" "snd (SessionByToken (ses_hash s) b)" "fst x" "snd x"]
    by (metis option.distinct(1) prod.collapse)
  then obtain e c where "SessionByToken (ses_hash s) b = (Inl e, c)"
    by (metis old.sum.exhaust prod.collapse)
  then show ?thesis using assms(6,7)
    by (auto simp: authenticate_def resolveSession_def on_store_def refuse_def Let_def)
qed

end
