(* ===== verification/SecondFactor.thy ===== *)
theory SecondFactor
  imports AccountApi
begin

text \<open>
  What it takes to get a session (login and loginMFA of internal/api): the password alone for an
  account without a second factor, and one factor proved, once, on a live challenge otherwise.
\<close>

subsection \<open>One-time codes are spent\<close>

lemma matching_step_after: "matching_step gen code n steps = Some step \<Longrightarrow> n < step \<and> step \<in> set steps \<and> gen step = Inr code"
  by (induction gen code n steps rule: matching_step.induct) (auto split: if_splits sum.splits)

lemma VerifyTOTP_after:
  assumes "VerifyTOTP gen code now n = Some step"
  shows "n < step \<and> \<bar>step - go_quot (unix now) totpPeriod\<bar> \<le> 1"
  using assms by (auto simp: VerifyTOTP_def Let_def simp del: matching_step.simps
      split: if_splits dest!: matching_step_after)

lemma sql_result:
  assumes "sql f a = (Inr x, b)"
  obtains fs where "f (a\<lparr>acc_faults := fs\<rparr>) = (Inr x, b)"
proof (cases "acc_faults a")
  case Nil
  then have "a = a\<lparr>acc_faults := []\<rparr>" by simp
  with assms Nil that [of "[]"] show ?thesis by (simp add: sql_def)
next
  case (Cons c cs)
  with assms that show ?thesis by (auto simp: sql_def split: if_splits)
qed

text \<open>A step is recorded for the one row of the user, and only if it is newer than the last.\<close>

lemma AdvanceTOTPStep_True:
  assumes "AdvanceTOTPStep i n a = (Inr True, b)" "accounts_ok a" "t \<in> set (totps a)" "totp_user t = i"
  shows "totp_last_step t < n" "t\<lparr>totp_last_step := n\<rparr> \<in> set (totps b)" "sessions b = sessions a"
proof -
  let ?b = "\<lambda>fs. a\<lparr>acc_faults := fs, totps := map (\<lambda>t. if older_totp i n t then t\<lparr>totp_last_step := n\<rparr> else t) (totps a)\<rparr>"
  have "\<exists>fs. length (filter (older_totp i n) (totps a)) = 1 \<and> ?b fs = b"
    using assms(1) unfolding AdvanceTOTPStep_def wrapped_Inr_iff by (rule sql_result) auto
  then obtain fs where fs: "length (filter (older_totp i n) (totps a)) = 1" "b = ?b fs" by auto
  then have "filter (older_totp i n) (totps a) \<noteq> []" by auto
  then obtain t' where "t' \<in> set (totps a)" "older_totp i n t'" by (auto simp: filter_empty_conv)
  moreover have "t' = t"
    using keyedD [of totp_user "totps a" t' t] calculation assms(2,3,4) by (simp add: older_totp_def ok_unfold)
  ultimately show "totp_last_step t < n" "t\<lparr>totp_last_step := n\<rparr> \<in> set (totps b)" "sessions b = sessions a"
    using fs assms(3) by (auto simp: older_totp_def image_iff intro: bexI [of _ t])
qed

lemma UseRecoveryCode_True:
  assumes "UseRecoveryCode i h now a = (Inr True, b)"
  obtains c where "c \<in> set (recovery_codes a)" "usable_code i c" "rc_hash c = h"
    "c\<lparr>rc_used := Some (stored_time now)\<rparr> \<in> set (recovery_codes b)" "sessions b = sessions a"
proof -
  let ?b = "\<lambda>fs c. a\<lparr>acc_faults := fs, recovery_codes :=
       map (\<lambda>x. if rc_id x = rc_id c then x\<lparr>rc_used := Some (stored_time now)\<rparr> else x) (recovery_codes a)\<rparr>"
  have "\<exists>fs c. find (\<lambda>c. usable_code i c \<and> rc_hash c = h) (recovery_codes a) = Some c \<and> ?b fs c = b"
    using assms unfolding UseRecoveryCode_def wrapped_Inr_iff by (rule sql_result) (auto split: option.splits)
  then obtain fs c where c: "find (\<lambda>c. usable_code i c \<and> rc_hash c = h) (recovery_codes a) = Some c"
    "b = ?b fs c" by auto
  with find_Some_in [OF c(1)] that show ?thesis by (auto simp: image_iff)
qed

subsection \<open>Sessions that were already there\<close>

text \<open>Every session has a token that had one before, or belongs to the account.\<close>

definition grown :: "string set \<Rightarrow> rowid option \<Rightarrow> accounts \<Rightarrow> bool" where
  "grown old i a = (\<forall>s \<in> set (sessions a). ses_hash s \<in> old \<or> Some (ses_user s) = i)"

interpretation grown: table_invariant "grown old i" for old i
  by unfold_locales (simp add: grown_def)

lemma grown_parts [simp]:
  "grown old i (a\<lparr>users := x1\<rparr>) = grown old i a" "grown old i (a\<lparr>totps := x2\<rparr>) = grown old i a"
  "grown old i (a\<lparr>passkeys := x3\<rparr>) = grown old i a" "grown old i (a\<lparr>recovery_codes := x4\<rparr>) = grown old i a"
  "grown old i (put_device j fp l t a) = grown old i a" "grown old i (update_users j f a) = grown old i a"
  "grown old i (put_totp tp a) = grown old i a" "grown old i (put_recovery j h a) = grown old i a"
  "grown old i (drop_recovery j a) = grown old i a"
  by (simp_all add: grown_def put_device_def update_users_def put_totp_def put_recovery_def drop_recovery_def Let_def)

lemma grown_drop: "grown old i a \<Longrightarrow> grown old i (drop_sessions P a)" "grown old i a \<Longrightarrow> grown old i (cascade_user j a)"
  by (auto simp: grown_def drop_sessions_def cascade_user_def)

lemma statements_grown:
  "grown.keeps old i (TouchUserLogin j t)" "grown.keeps old i (TouchKnownDevice j f l t)"
  "grown.keeps old i (AdvanceTOTPStep j n)" "grown.keeps old i (UseRecoveryCode j h t)"
  "grown.keeps old i (TouchWebAuthnCredential j x t)" "grown.keeps old i (CreateUser h u)"
  "grown.keeps old i (UpdateUser u)" "grown.keeps old i (DeleteUser j)" "grown.keeps old i (SetUserPassword j h k)"
  "grown.keeps old i (DeleteSession j)" "grown.keeps old i (PutTOTP tp hs)" "grown.keeps old i (DeleteTOTP j)"
  "grown.keeps old i (AddWebAuthnCredential c hs)" "grown.keeps old i (DeleteWebAuthnCredential j n)"
  "grown.keeps old i (ReplaceRecoveryCodes j codes)" "grown.keeps old i (ResetUserMFA j)"
  unfolding statement_defs UpdateUser_def DeleteUser_def GetUser_def ensureNotLastAdmin_def Let_def
  by (rule grown.keeps_tables | erule disjE
      | simp add: constraint_def grown_drop split: option.split | fastforce simp: grown_drop)+

lemma TouchSession_grown: "grown.keeps old i (TouchSession j t e)"
  unfolding TouchSession_def by (rule grown.keeps_tables)+ (auto simp: grown_def)

lemma CreateSession_grown: "ses_user s = j \<Longrightarrow> grown.keeps old (Some j) (CreateSession s)"
  unfolding CreateSession_def
  by (rule grown.keeps_wrapped, rule grown.keeps_sql) (auto simp: constraint_def Let_def grown_def)

interpretation grown: api_statements "grown old i" for old i
proof (unfold_locales, goal_cases)
  case (17 a s t n r b)
  then show ?case using grown.keepsD [OF TouchSession_grown] by blast
next
  case (18 a b)
  then show ?case by (auto simp: grown_def)
qed (rule statements_grown)+

subsection \<open>A factor proved\<close>

text \<open>
  What the answer proves, on the tables it is checked against and those it leaves: a code of a
  step newer than any accepted, which becomes the last one; an unused recovery code, which becomes
  used; an assertion the library validates for a challenge issued to this login, by a passkey of the
  account.
\<close>

definition proved ::
  "api_env \<Rightarrow> ('v, 'c) webauthn option \<Rightarrow> mfa_login \<Rightarrow> 'v mfa_challenge \<Rightarrow> time \<Rightarrow> accounts \<Rightarrow> accounts \<Rightarrow> bool" where
  "proved E W q ch now a b =
     (case ml_method q of
        ByTOTP \<Rightarrow> \<exists>t \<in> set (totps a). \<exists>secret step. totp_user t = ch_user ch \<and> openTOTP E t = Inr secret \<and>
          VerifyTOTP (en_code E secret) (ml_code q) now (totp_last_step t) = Some step \<and>
          t\<lparr>totp_last_step := step\<rparr> \<in> set (totps b)
      | ByRecovery \<Rightarrow> \<exists>c \<in> set (recovery_codes a). usable_code (ch_user ch) c \<and> rc_hash c = RecoveryCodeHash E (ml_code q) \<and>
          c\<lparr>rc_used := Some (stored_time now)\<rparr> \<in> set (recovery_codes b)
      | ByPasskey \<Rightarrow> \<exists>L session parsed u creds cred. \<exists>row \<in> set (passkeys a). W = Some L \<and>
          ch_webauthn ch = Some session \<and> wl_parse_login L (ml_credential q) = Inr parsed \<and>
          wl_validate L u creds session parsed = Inr cred \<and> user_id u = ch_user ch \<and>
          pk_user row = ch_user ch \<and> pk_credential row = wl_id L cred
      | OtherMethod m \<Rightarrow> False)"

lemma on_store_result: "on_store f sv = (r, sv') \<longleftrightarrow> f (sv_acc sv) = (r, sv_acc sv') \<and> sv' = sv\<lparr>sv_acc := sv_acc sv'\<rparr>"
  by (auto simp: on_store_def split: prod.splits)

lemma verifyLoginTOTP_True:
  assumes "verifyLoginTOTP E u code sv = (Inr True, sv')" "accounts_ok (sv_acc sv)"
  shows "\<exists>t \<in> set (totps (sv_acc sv)). \<exists>secret step. totp_user t = user_id u \<and> openTOTP E t = Inr secret \<and>
    VerifyTOTP (en_code E secret) code (sv_now sv) (totp_last_step t) = Some step \<and>
    t\<lparr>totp_last_step := step\<rparr> \<in> set (totps (sv_acc sv'))"
proof -
  obtain g sv1 where g: "on_store (GetTOTP (user_id u)) sv = (g, sv1)" by fastforce
  from assms(1) g obtain t secret step where t: "g = Inr t" "openTOTP E t = Inr secret"
      "VerifyTOTP (en_code E secret) code (sv_now sv1) (totp_last_step t) = Some step"
      "on_store (AdvanceTOTPStep (user_id u) step) sv1 = (Inr True, sv')"
    by (auto simp: verifyLoginTOTP_def split: if_splits sum.splits option.splits)
  from g have get: "GetTOTP (user_id u) (sv_acc sv) = (g, sv_acc sv1)" "sv_now sv1 = sv_now sv"
    unfolding on_store_result by (auto, metis server.select_convs(6) server.surjective server.update_convs(1))
  from select_row_result [OF get(1) [unfolded GetTOTP_def]] t(1)
  obtain fs where fs: "sv_acc sv1 = (sv_acc sv)\<lparr>acc_faults := fs\<rparr>"
    and "find (\<lambda>t. totp_user t = user_id u) (totps (sv_acc sv)) = Some t" by auto
  then have row: "t \<in> set (totps (sv_acc sv))" "totp_user t = user_id u" by (auto dest: find_Some_in)
  moreover have "t\<lparr>totp_last_step := step\<rparr> \<in> set (totps (sv_acc sv'))"
    using AdvanceTOTPStep_True(2) [of "user_id u" step "sv_acc sv1" "sv_acc sv'" t] t(4) fs row assms(2)
    by (simp add: on_store_result)
  ultimately show ?thesis using t(2,3) get(2) by auto
qed

lemma wrapped_select_result:
  assumes "wrapped p (select g) a = (r, b)"
  shows "\<exists>fs. b = a\<lparr>acc_faults := fs\<rparr> \<and> (\<forall>x. r = Inr x \<longrightarrow> x = g b)"
proof (cases "acc_faults a")
  case Nil
  then have "b = a" "r = Inr (g a)" using assms by (auto simp: wrapped_def select_def sql_def)
  moreover have "a = a\<lparr>acc_faults := acc_faults a\<rparr>" by simp
  ultimately show ?thesis by blast
next
  case (Cons c cs)
  with assms show ?thesis by (auto simp: wrapped_def select_def sql_def split: if_splits)
qed

lemma check_recovery_True:
  assumes "check_recovery E u code sv = (Inr (True, left), sv')"
  shows "\<exists>c \<in> set (recovery_codes (sv_acc sv)). usable_code (user_id u) c \<and> rc_hash c = RecoveryCodeHash E code \<and>
    c\<lparr>rc_used := Some (stored_time (sv_now sv))\<rparr> \<in> set (recovery_codes (sv_acc sv'))"
proof -
  let ?use = "on_store (UseRecoveryCode (user_id u) (RecoveryCodeHash E code) (sv_now sv))"
  obtain y sv1 where use: "?use sv = (Inr True, sv1)" and cnt: "on_store (CountRecoveryCodes (user_id u)) sv1 = (y, sv')"
    using assms by (auto simp: check_recovery_def split: prod.splits sum.splits bool.splits)
  have "recovery_codes (sv_acc sv') = recovery_codes (sv_acc sv1)"
    using cnt wrapped_select_result unfolding on_store_result CountRecoveryCodes_def by fastforce
  with UseRecoveryCode_True [of "user_id u" _ "sv_now sv" "sv_acc sv" "sv_acc sv1"] use show ?thesis
    by (simp add: on_store_result) blast
qed

lemma verifyLoginPasskey_True:
  assumes "verifyLoginPasskey W key u credential sv = (Inr True, sv')"
    and "live (sv_challenges sv) (sv_now sv) key = Some ch"
  shows "\<exists>L session parsed creds cred. \<exists>row \<in> set (passkeys (sv_acc sv)). W = Some L \<and>
    ch_webauthn ch = Some session \<and> wl_parse_login L credential = Inr parsed \<and>
    wl_validate L u creds session parsed = Inr cred \<and> pk_user row = user_id u \<and> pk_credential row = wl_id L cred"
proof -
  obtain c sv1 where c: "challenge_update key (\<lambda>c. (c\<lparr>ch_webauthn := None\<rparr>, True)) sv = (c, sv1)" by fastforce
  have "c = Some ch" using c assms(2) pending_update_result [of key "\<lambda>c. (c\<lparr>ch_webauthn := None\<rparr>, True)" "sv_now sv" "sv_challenges sv"]
    by (auto simp: challenge_update_def split: prod.splits)
  moreover have acc: "sv_acc sv1 = sv_acc sv" using c memory_acc(7) [of key "\<lambda>c. (c\<lparr>ch_webauthn := None\<rparr>, True)" sv] by simp
  ultimately obtain L session parsed creds rows sv2 cred row where r: "W = Some L" "ch_webauthn ch = Some session"
      "wl_parse_login L credential = Inr parsed" "loadWAUser L u sv1 = (Inr (creds, rows), sv2)"
      "wl_validate L u creds session parsed = Inr cred" "find (\<lambda>r. pk_credential r = wl_id L cred) rows = Some row"
    using assms(1) c by (auto simp: verifyLoginPasskey_def split: option.splits if_splits sum.splits prod.splits)
  from r(4) obtain xs sv3 where xs: "on_store (ListWebAuthnCredentials (user_id u)) sv1 = (Inr xs, sv3)"
      "pure_step (case decode_all L xs of Inl e \<Rightarrow> Inl e | Inr cs \<Rightarrow> Inr (cs, xs)) sv3 = (Inr (creds, rows), sv2)"
    by (auto simp: loadWAUser_def and_then_Inr_iff)
  then have "xs = rows" by (cases "decode_all L xs") (auto simp: pure_step_iff)
  moreover have "set xs = {p \<in> set (passkeys (sv_acc sv)). pk_user p = user_id u}"
    using xs(1) acc wrapped_select_result unfolding on_store_result ListWebAuthnCredentials_def by fastforce
  ultimately have "set rows = {p \<in> set (passkeys (sv_acc sv)). pk_user p = user_id u}" by simp
  with r find_Some_in [OF r(6)] show ?thesis by blast
qed

lemma check_factor_proved:
  assumes "check_factor E W key u q sv = (Inr (True, left), sv')" "accounts_ok (sv_acc sv)"
    and "live (sv_challenges sv) (sv_now sv) key = Some ch" "user_id u = ch_user ch" "\<not> is_other (ml_method q)"
  shows "proved E W q ch (sv_now sv) (sv_acc sv) (sv_acc sv')"
proof (cases "ml_method q")
  case ByTOTP
  then have "verifyLoginTOTP E u (ml_code q) sv = (Inr True, sv')"
    using assms(1) by (auto simp: check_factor_def and_then_Inr_iff pure_step_def)
  from verifyLoginTOTP_True [OF this assms(2)] ByTOTP assms(4) show ?thesis by (simp add: proved_def)
next
  case ByRecovery
  then have "check_recovery E u (ml_code q) sv = (Inr (True, left), sv')" using assms(1) by (simp add: check_factor_def)
  from check_recovery_True [OF this] ByRecovery assms(4) show ?thesis by (simp add: proved_def)
next
  case ByPasskey
  then have "verifyLoginPasskey W key u (ml_credential q) sv = (Inr True, sv')"
    using assms(1) by (auto simp: check_factor_def and_then_Inr_iff pure_step_def)
  from verifyLoginPasskey_True [OF this assms(3)] ByPasskey assms(4) show ?thesis
    unfolding proved_def by simp blast
next
  case (OtherMethod m)
  with assms(5) show ?thesis by simp
qed

subsection \<open>Where a session comes from\<close>

lemma grown_mono: "grown old None a \<Longrightarrow> grown old i a"
  by (auto simp: grown_def)

lemma like_faults: "like a (a\<lparr>acc_faults := fs\<rparr>)"
  by (simp add: like_def)

lemma like_trans: "like a b \<Longrightarrow> like b c \<Longrightarrow> like a c"
  by (simp add: like_def)

lemma like_obtain: "like a b \<Longrightarrow> b = a\<lparr>acc_faults := acc_faults b\<rparr>"
  unfolding like_def by (metis accounts.select_convs(11) accounts.surjective accounts.update_convs(11))

lemma GetUser_result:
  assumes "GetUser i a = (r, b)"
  shows "like a b" "r = Inr u \<Longrightarrow> user_by_id i a = Some u"
  using select_row_result [OF assms [unfolded GetUser_def]] like_faults by auto

lemma GetUserByEmail_result:
  assumes "GetUserByEmail e a = (r, b)"
  shows "like a b" "r = Inr u \<Longrightarrow> user_by_email (normalizeEmail e) a = Some u"
proof -
  have "user_by_email m (a\<lparr>acc_faults := fs\<rparr>) = user_by_email m a" for m fs by (simp add: user_by_email_def)
  from select_row_result [OF assms [unfolded GetUserByEmail_def] this] like_faults
  show "like a b" "r = Inr u \<Longrightarrow> user_by_email (normalizeEmail e) a = Some u" by auto
qed

lemma user_by_id_owner: "user_by_id i a = Some u \<Longrightarrow> user_id u = i"
  by (auto simp: user_by_id_def dest: find_Some_in)

text \<open>A session is issued to the account that signed in, and nothing it proved is undone.\<close>

lemma issueSession_grown:
  assumes "issueSession E r u left sv = (x, sv')" "grown old None (sv_acc sv)"
  shows "grown old (Some (user_id u)) (sv_acc sv')"
proof -
  have "grown.keeps old (Some (user_id u)) (CreateSession (new_session E r u tok now))" for tok now
    by (rule CreateSession_grown) (simp add: new_session_def)
  from grown.keeps_issueSession [OF this, THEN grown.api.keepsD, OF assms(1)] assms(2)
  show ?thesis by (simp add: grown_mono)
qed

definition same_proofs :: "totp list \<Rightarrow> recovery_code list \<Rightarrow> accounts \<Rightarrow> bool" where
  "same_proofs T C a = (totps a = T \<and> recovery_codes a = C)"

interpretation proofs: table_invariant "same_proofs T C" for T C
  by unfold_locales (simp add: same_proofs_def)

interpretation proofs: session_statements "same_proofs T C" for T C
proof (unfold_locales, goal_cases)
  case (1 i t)
  show ?case unfolding TouchUserLogin_def
    by (rule proofs.keeps_tables)+ (simp add: same_proofs_def update_users_def)
next
  case (2 i f l t)
  show ?case unfolding TouchKnownDevice_def
    by (rule proofs.keeps_tables | simp add: same_proofs_def put_device_def constraint_def)+
qed

lemma issueSession_proofs:
  assumes "issueSession E r u left sv = (x, sv')"
  shows "totps (sv_acc sv') = totps (sv_acc sv)" "recovery_codes (sv_acc sv') = recovery_codes (sv_acc sv)"
proof -
  have "proofs.keeps T C (CreateSession s)" for T C s
    unfolding CreateSession_def
    by (rule proofs.keeps_wrapped, rule proofs.keeps_sql) (auto simp: constraint_def Let_def same_proofs_def)
  from proofs.keeps_issueSession [OF this, THEN proofs.api.keepsD, OF assms]
  show "totps (sv_acc sv') = totps (sv_acc sv)" "recovery_codes (sv_acc sv') = recovery_codes (sv_acc sv)"
    by (auto simp: same_proofs_def)
qed

text \<open>The pending challenges and the time, which most of a login leaves alone.\<close>

interpretation waiting: server_frame
  "\<lambda>sv sv' :: 'v server. sv_challenges sv' = sv_challenges sv \<and> sv_now sv' = sv_now sv"
  by unfold_locales auto

lemma waiting_on_store: "waiting.keeps (on_store f)"
  by (rule waiting.keepsI) (auto simp: on_store_def split: prod.splits)

lemma waiting_event [simp]:
  "sv_challenges (securityEvent E s m sv) = sv_challenges sv" "sv_now (securityEvent E s m sv) = sv_now sv"
  by (simp_all add: securityEvent_def)

lemma waiting_noteDevice [simp]:
  "sv_challenges (noteDevice E u ua ip sv) = sv_challenges sv" "sv_now (noteDevice E u ua ip sv) = sv_now sv"
  by (auto simp: noteDevice_def on_store_def split: prod.split sum.split)

lemma waiting_issueSession: "waiting.keeps (issueSession E r u left)"
  unfolding issueSession_def Let_def
proof (intro waiting.keeps_handler waiting_on_store)
  show "waiting.keeps (NewSessionToken E)"
    by (rule waiting.keepsI) (auto simp: NewSessionToken_def draw_def split: sum.splits)
next
  fix tok sv0 x
  show "waiting.keeps (modify (\<lambda>sv. noteDevice E u (ses_agent (new_session E r u tok (sv_now sv0)))
       (ses_ip (new_session E r u tok (sv_now sv0))) (snd (on_store (TouchUserLogin (user_id u) (sv_now sv0)) sv)))
       (answer (SignedIn tok (ses_expires (new_session E r u tok (sv_now sv0))) u left)))"
    by (rule waiting.keeps_modify [OF _ waiting.keeps_answer]) (simp add: on_store_def split: prod.split)
qed

lemma waiting_check_limits: "check_limits ks sv = (x, sv') \<Longrightarrow> sv_challenges sv' = sv_challenges sv \<and> sv_now sv' = sv_now sv \<and> sv_acc sv' = sv_acc sv"
  by (induction ks sv rule: check_limits.induct) (auto simp: answer_def split: prod.splits bool.splits)

text \<open>What a new session takes: a right password without a second factor, or a factor proved.\<close>

definition by_password :: "api_env \<Rightarrow> accounts \<Rightarrow> rowid \<Rightarrow> bool" where
  "by_password E a i = (\<exists>u pw email. user_by_email email a = Some u \<and> user_id u = i \<and> \<not> user_disabled u \<and>
     \<not> mfa_enabled u \<and> en_verify E (user_hash u) pw = Inr True)"

lemma startMFAChallenge_acc: "startMFAChallenge E pk u sv = (x, sv') \<Longrightarrow> sv_acc sv' = sv_acc sv"
  by (auto simp: startMFAChallenge_def go_on_def or_refuse_def call_def modify_def answer_def refuse_def
      NewSessionToken_def draw_def split: sum.splits prod.splits)

text \<open>What login does with the account it looked up.\<close>

definition signed_in ::
  "api_env \<Rightarrow> bool \<Rightarrow> request \<Rightarrow> string list \<Rightarrow> string \<Rightarrow> string \<Rightarrow> string \<Rightarrow> err + user \<Rightarrow> ('v server, login_answer) handler" where
  "signed_in E pk r keys email ip pw res =
     (case res of
        Inl e \<Rightarrow> if \<not> err_is ErrNotFound e then refuse 503 ''user store unavailable''
          else modify (count_failure E keys email ip WrongPassword) (refuse 401 ''invalid email or password'')
      | Inr u \<Rightarrow> if \<not> password_ok E res pw
          then modify (count_failure E keys email ip WrongPassword) (refuse 401 ''invalid email or password'')
          else modify (forget_failures keys) (if mfa_enabled u then startMFAChallenge E pk u else issueSession E r u None))"

lemma login_body:
  assumes "en_store E" "normalizeEmail address \<noteq> []" "pw \<noteq> []"
  shows "login E pk r (Body (address, pw)) =
    (let email = normalizeEmail address; ip = clientIP r (en_trust_proxy E);
         keys = login_keys ''email:'' email ''ip:'' ip in
     go_on (check_limits keys) (\<lambda>_.
     modify (\<lambda>sv. sv\<lparr>sv_limiter := limiter_sweep (sv_now sv) (sv_limiter sv)\<rparr>)
       (go_on hashing_slot (\<lambda>_. call (on_store (GetUserByEmail email)) (signed_in E pk r keys email ip pw)))))"
  unfolding login_def plain_body_def body.case go_on_answer prod.case Let_def signed_in_def
  using assms by (simp only: not_True_eq_False if_False simp_thms)

lemma signed_in_grown:
  assumes "signed_in E pk r keys email ip pw res sv = (x, sv')" "grown old None (sv_acc sv)"
    and "\<And>u. res = Inr u \<Longrightarrow> user_by_email email a = Some u"
  shows "grown old None (sv_acc sv') \<or> (\<exists>i. by_password E a i \<and> grown old (Some i) (sv_acc sv'))"
proof (cases res)
  case (Inl e)
  then show ?thesis using assms(1,2) by (auto simp: signed_in_def refuse_def modify_def split: if_splits)
next
  case (Inr u)
  show ?thesis
  proof (cases "password_ok E res pw")
    case False
    then show ?thesis using assms(1,2) Inr by (auto simp: signed_in_def refuse_def modify_def)
  next
    case ok: True
    show ?thesis
    proof (cases "mfa_enabled u")
      case True
      then have "startMFAChallenge E pk u (forget_failures keys sv) = (x, sv')"
        using assms(1) ok Inr by (simp add: signed_in_def modify_def)
      from startMFAChallenge_acc [OF this] assms(2) show ?thesis by simp
    next
      case False
      then have "issueSession E r u None (forget_failures keys sv) = (x, sv')"
        using assms(1) ok Inr by (simp add: signed_in_def modify_def)
      from issueSession_grown [OF this] assms(2) have "grown old (Some (user_id u)) (sv_acc sv')" by simp
      moreover have "by_password E a (user_id u)"
        using assms(3) [OF Inr] False ok Inr
        by (auto simp: by_password_def password_ok_def split: if_splits sum.splits)
      ultimately show ?thesis by blast
    qed
  qed
qed

lemma login_earned:
  assumes run: "login E pk r body sv = (x, sv')" and old: "grown old None (sv_acc sv)"
  shows "grown old None (sv_acc sv') \<or> (\<exists>i. by_password E (sv_acc sv) i \<and> grown old (Some i) (sv_acc sv'))"
proof (cases "\<exists>address pw. en_store E \<and> body = Body (address, pw) \<and> \<not> (normalizeEmail address = [] \<or> pw = [])")
  case False
  then have "sv' = sv" using run
    by (cases body) (auto simp: login_def go_on_answer go_on_refuse plain_body_def refuse_def Let_def split: if_splits)
  then show ?thesis using old by simp
next
  case True
  then obtain address pw where b: "en_store E" "body = Body (address, pw)" "normalizeEmail address \<noteq> []" "pw \<noteq> []" by blast
  let ?email = "normalizeEmail address" and ?ip = "clientIP r (en_trust_proxy E)"
  let ?keys = "login_keys ''email:'' ?email ''ip:'' ?ip"
  let ?sweep = "\<lambda>sv. sv\<lparr>sv_limiter := limiter_sweep (sv_now sv) (sv_limiter sv)\<rparr>"
  have run': "go_on (check_limits ?keys) (\<lambda>_. modify ?sweep (go_on hashing_slot (\<lambda>_.
      call (on_store (GetUserByEmail ?email)) (signed_in E pk r ?keys ?email ?ip pw)))) sv = (x, sv')"
    using run unfolding b(2) login_body [OF b(1,3,4)] Let_def .
  show ?thesis
  proof (cases rule: go_on_cases [OF run'])
    case (1 e)
    then show ?thesis using waiting_check_limits [OF 1] old by simp
  next
    case (2 y sv1)
    have acc1: "sv_acc sv1 = sv_acc sv" using waiting_check_limits [OF 2(1)] by simp
    have step: "go_on hashing_slot (\<lambda>_. call (on_store (GetUserByEmail ?email)) (signed_in E pk r ?keys ?email ?ip pw)) (?sweep sv1) = (x, sv')"
      using 2(2) by (simp add: modify_def)
    show ?thesis
    proof (cases rule: go_on_cases [OF step])
      case (1 e)
      then show ?thesis using memory_acc(1) [of "?sweep sv1"] acc1 old by simp
    next
      case (2 y2 sv2)
      have acc2: "sv_acc sv2 = sv_acc sv" using 2(1) memory_acc(1) [of "?sweep sv1"] acc1 by simp
      from 2(2) obtain res sv3 where res: "on_store (GetUserByEmail ?email) sv2 = (res, sv3)"
        "signed_in E pk r ?keys ?email ?ip pw res sv3 = (x, sv')" by (rule call_cases)
      have lk: "like (sv_acc sv) (sv_acc sv3)"
        and found: "\<And>u. res = Inr u \<Longrightarrow> user_by_email ?email (sv_acc sv) = Some u"
        using GetUserByEmail_result [of ?email "sv_acc sv" res "sv_acc sv3"] res(1) acc2
        by (auto simp: on_store_result)
      from signed_in_grown [OF res(2) _ found] show ?thesis
        using old like_sessions [OF lk] by (simp add: grown_def)
    qed
  qed
qed

text \<open>The same for loginMFA, once the challenge is found and the attempt allowed.\<close>

definition factor_answered ::
  "api_env \<Rightarrow> request \<Rightarrow> string \<Rightarrow> string list \<Rightarrow> string \<Rightarrow> user \<Rightarrow> err + bool \<times> nat option \<Rightarrow>
   ('v server, login_answer) handler" where
  "factor_answered E r key keys ip u checked =
     (case checked of
        Inl e \<Rightarrow> refuse 503 ''could not verify the second factor, retry shortly''
      | Inr (verified, codesLeft) \<Rightarrow>
          if \<not> verified
          then modify (\<lambda>sv. count_failure E keys (user_email u) ip WrongSecondFactor (wrong_factor key sv))
                 (refuse 401 ''invalid code'')
          else go_on (if_live (challenge_take key) 410 errChallengeGone) (\<lambda>_.
                 modify (forget_failures keys) (issueSession E r u codesLeft)))"

definition owner_found ::
  "api_env \<Rightarrow> ('v, 'c) webauthn option \<Rightarrow> request \<Rightarrow> string \<Rightarrow> string list \<Rightarrow> string \<Rightarrow> mfa_login \<Rightarrow> err + user \<Rightarrow>
   ('v server, login_answer) handler" where
  "owner_found E W r key keys ip q found =
     (case found of
        Inl e \<Rightarrow> modify (challenge_del key) (refuse 410 errChallengeGone)
      | Inr u \<Rightarrow>
          if user_disabled u then modify (challenge_del key) (refuse 410 errChallengeGone)
          else if is_other (ml_method q) then refuse 400 ''method must be one of totp, recovery, webauthn''
          else call (check_factor E W key u q) (factor_answered E r key keys ip u))"

lemma loginMFA_body:
  assumes "en_store E"
  shows "loginMFA E W r (Body q) =
    (let key = en_token_hash E (ml_token q); ip = clientIP r (en_trust_proxy E) in
     go_on (if_live (challenge_get key) 410 errChallengeGone) (\<lambda>ch.
       let keys = login_keys ''mfa:'' (dec (ch_user ch)) ''mfa-ip:'' ip in
       go_on (check_limits keys) (\<lambda>_. call (on_store (GetUser (ch_user ch))) (owner_found E W r key keys ip q))))"
  unfolding loginMFA_def decode_def body.case go_on_answer Let_def owner_found_def factor_answered_def
  using assms by (simp only: not_True_eq_False if_False simp_thms)

lemma challenge_results [simp]:
  "fst (challenge_get key sv) = live (sv_challenges sv) (sv_now sv) key"
  "fst (challenge_take key sv) = live (sv_challenges sv) (sv_now sv) key"
  "sv_now (snd (challenge_get key sv)) = sv_now sv" "sv_now (snd (challenge_take key sv)) = sv_now sv"
  "sv_now t \<le> now \<Longrightarrow> live (sv_challenges (snd (challenge_get key t))) now k = live (sv_challenges t) now k"
  "sv_now t \<le> now \<Longrightarrow> live (sv_challenges (snd (challenge_take key t))) now k =
     (if k = key then None else live (sv_challenges t) now k)"
  using pending_get_live [of key "sv_now sv" "sv_challenges sv"] pending_take_live [of key "sv_now sv" "sv_challenges sv"]
    live_get [of "sv_now t" now key "sv_challenges t" k] live_take [of "sv_now t" now key "sv_challenges t" k]
  by (simp_all add: challenge_get_def challenge_take_def case_prod_unfold)

text \<open>A session made at the end of a two-step login.\<close>

lemma factor_answered_earned:
  assumes "factor_answered E r key keys ip u checked sv = (x, sv')" "grown old None (sv_acc sv)"
  shows "grown old None (sv_acc sv') \<or>
    (\<exists>left. checked = Inr (True, left) \<and> grown old (Some (user_id u)) (sv_acc sv') \<and>
       totps (sv_acc sv') = totps (sv_acc sv) \<and> recovery_codes (sv_acc sv') = recovery_codes (sv_acc sv) \<and>
       (\<forall>t \<ge> sv_now sv'. live (sv_challenges sv') t key = None))"
proof (cases "\<exists>left. checked = Inr (True, left)")
  case False
  then show ?thesis using assms
    by (auto simp: factor_answered_def refuse_def modify_def split: sum.splits if_splits)
next
  case True
  then obtain left where c: "checked = Inr (True, left)" by blast
  have run: "go_on (if_live (challenge_take key) 410 errChallengeGone) (\<lambda>_.
     modify (forget_failures keys) (issueSession E r u left)) sv = (x, sv')"
    using assms(1) c by (simp add: factor_answered_def)
  show ?thesis
  proof (cases rule: go_on_cases [OF run])
    case (1 e)
    from 1 have "sv_acc sv' = sv_acc sv" by (rule if_live_cases) simp_all
    then show ?thesis using assms(2) by simp
  next
    case (2 v sv1)
    from 2(1) have s1: "sv1 = snd (challenge_take key sv)" by (rule if_live_cases) simp_all
    have issue: "issueSession E r u left (forget_failures keys sv1) = (x, sv')"
      using 2(2) by (simp add: modify_def)
    have "sv_challenges sv' = sv_challenges sv1" "sv_now sv' = sv_now sv1"
      using waiting.keepsD [OF waiting_issueSession issue] by (simp_all add: forget_failures_def)
    with issueSession_grown [OF issue] issueSession_proofs [OF issue] show ?thesis
      using assms(2) s1 c by (auto simp del: challenge_results(1,2))
  qed
qed

lemma like_tables:
  assumes "like a b"
  shows "totps b = totps a" "passkeys b = passkeys a" "recovery_codes b = recovery_codes a" "sessions b = sessions a"
    "accounts_ok b = accounts_ok a"
proof -
  obtain fs where b: "b = a\<lparr>acc_faults := fs\<rparr>" using like_obtain [OF assms] by blast
  show "totps b = totps a" "passkeys b = passkeys a" "recovery_codes b = recovery_codes a" "sessions b = sessions a"
    "accounts_ok b = accounts_ok a"
    by (simp_all add: b)
qed

lemma proved_like: "like a a' \<Longrightarrow> proved E W q ch now a' b \<Longrightarrow> proved E W q ch now a b"
  unfolding proved_def by (simp only: like_tables)

lemma proved_after:
  "proved E W q ch now a b \<Longrightarrow> totps b' = totps b \<Longrightarrow> recovery_codes b' = recovery_codes b \<Longrightarrow> proved E W q ch now a b'"
  unfolding proved_def by (simp only:)

text \<open>The account of a challenge signs in with a factor proved, and the challenge is used up.\<close>

definition by_factor ::
  "api_env \<Rightarrow> ('v, 'c) webauthn option \<Rightarrow> 'v server \<Rightarrow> rowid \<Rightarrow> 'v server \<Rightarrow> bool" where
  "by_factor E W sv i sv' =
     (\<exists>q ch u. let key = en_token_hash E (ml_token q) in
        live (sv_challenges sv) (sv_now sv) key = Some ch \<and> ch_user ch = i \<and>
        user_by_id i (sv_acc sv) = Some u \<and> \<not> user_disabled u \<and>
        proved E W q ch (sv_now sv) (sv_acc sv) (sv_acc sv') \<and>
        (\<forall>t \<ge> sv_now sv'. live (sv_challenges sv') t key = None))"

lemma owner_found_earned:
  assumes run: "owner_found E W r key keys ip q found sv = (x, sv')" and old: "grown old None (sv_acc sv)"
    and ok: "accounts_ok (sv_acc sv)" and ch: "live (sv_challenges sv) (sv_now sv) key = Some ch"
    and key: "key = en_token_hash E (ml_token q)" and u: "\<And>u. found = Inr u \<Longrightarrow> user_by_id (ch_user ch) (sv_acc sv) = Some u"
  shows "grown old None (sv_acc sv') \<or> (\<exists>i. by_factor E W sv i sv' \<and> grown old (Some i) (sv_acc sv'))"
proof (cases "\<exists>u. found = Inr u \<and> \<not> user_disabled u \<and> \<not> is_other (ml_method q)")
  case False
  then show ?thesis using run old
    by (auto simp: owner_found_def refuse_def modify_def split: sum.splits if_splits)
next
  case True
  then obtain u where f: "found = Inr u" "\<not> user_disabled u" "\<not> is_other (ml_method q)" by blast
  have run': "call (check_factor E W key u q) (factor_answered E r key keys ip u) sv = (x, sv')"
    using run f by (simp add: owner_found_def)
  have id: "user_id u = ch_user ch" using u [OF f(1)] by (rule user_by_id_owner)
  from run' obtain c sv1 where c: "check_factor E W key u q sv = (c, sv1)" "factor_answered E r key keys ip u c sv1 = (x, sv')"
    by (rule call_cases)
  have g1: "grown old None (sv_acc sv1)" using grown.api.keepsD [OF grown.keeps_check_factor c(1)] old by blast
  from factor_answered_earned [OF c(2) g1] show ?thesis
  proof (elim disjE exE conjE)
    fix left assume l: "c = Inr (True, left)" "grown old (Some (user_id u)) (sv_acc sv')"
      "totps (sv_acc sv') = totps (sv_acc sv1)" "recovery_codes (sv_acc sv') = recovery_codes (sv_acc sv1)"
      "\<forall>t \<ge> sv_now sv'. live (sv_challenges sv') t key = None"
    have "proved E W q ch (sv_now sv) (sv_acc sv) (sv_acc sv1)"
      using c(1) l(1) by (intro check_factor_proved [OF _ ok ch id f(3)]) simp
    then have "proved E W q ch (sv_now sv) (sv_acc sv) (sv_acc sv')" using l(3,4) by (rule proved_after)
    then have "by_factor E W sv (ch_user ch) sv'"
      using ch u [OF f(1)] f(2) l(5) key unfolding by_factor_def Let_def by blast
    then show ?thesis using l(2) id by auto
  qed simp
qed

lemma by_factor_like:
  assumes "by_factor E W sv1 i sv'" "like (sv_acc sv) (sv_acc sv1)" "sv_now sv1 = sv_now sv"
    and "\<And>k. live (sv_challenges sv1) (sv_now sv) k = live (sv_challenges sv) (sv_now sv) k"
  shows "by_factor E W sv i sv'"
proof -
  have now: "sv_now sv1 = sv_now sv" and lk: "like (sv_acc sv) (sv_acc sv1)" by (rule assms)+
  from assms(1) [unfolded by_factor_def Let_def now assms(4) like_user [OF lk]]
  show ?thesis unfolding by_factor_def Let_def using proved_like [OF lk] by blast
qed

lemma loginMFA_earned:
  assumes run: "loginMFA E W r body sv = (x, sv')" and old: "grown old None (sv_acc sv)" and ok: "accounts_ok (sv_acc sv)"
  shows "grown old None (sv_acc sv') \<or> (\<exists>i. by_factor E W sv i sv' \<and> grown old (Some i) (sv_acc sv'))"
proof (cases "\<exists>q. en_store E \<and> body = Body q")
  case False
  then have "sv' = sv" using run
    by (cases body) (auto simp: loginMFA_def go_on_refuse decode_def refuse_def split: if_splits)
  then show ?thesis using old by simp
next
  case True
  then obtain q where b: "en_store E" "body = Body q" by blast
  let ?key = "en_token_hash E (ml_token q)" and ?ip = "clientIP r (en_trust_proxy E)"
  let ?keys = "\<lambda>ch. login_keys ''mfa:'' (dec (ch_user ch)) ''mfa-ip:'' ?ip"
  have run': "go_on (if_live (challenge_get ?key) 410 errChallengeGone) (\<lambda>ch.
      go_on (check_limits (?keys ch)) (\<lambda>_. call (on_store (GetUser (ch_user ch))) (owner_found E W r ?key (?keys ch) ?ip q)))
      sv = (x, sv')"
    using run unfolding b(2) loginMFA_body [OF b(1)] Let_def .
  show ?thesis
  proof (cases rule: go_on_cases [OF run'])
    case (1 e)
    from 1 have "sv_acc sv' = sv_acc sv" by (rule if_live_cases) simp_all
    then show ?thesis using old by simp
  next
    case (2 ch sv1)
    from 2(1) have ch: "live (sv_challenges sv) (sv_now sv) ?key = Some ch" and s1: "sv1 = snd (challenge_get ?key sv)"
      by (rule if_live_cases; simp)+
    show ?thesis
    proof (cases rule: go_on_cases [OF 2(2)])
      case (1 e)
      then show ?thesis using waiting_check_limits [OF 1] s1 old by simp
    next
      case (2 y sv2)
      from 2(2) obtain res sv3 where res: "on_store (GetUser (ch_user ch)) sv2 = (res, sv3)"
        "owner_found E W r ?key (?keys ch) ?ip q res sv3 = (x, sv')" by (rule call_cases)
      have acc2: "sv_acc sv2 = sv_acc sv" using waiting_check_limits [OF 2(1)] s1 by simp
      have lk: "like (sv_acc sv) (sv_acc sv3)" and found: "\<And>u. res = Inr u \<Longrightarrow> user_by_id (ch_user ch) (sv_acc sv) = Some u"
        using GetUser_result [of "ch_user ch" "sv_acc sv" res "sv_acc sv3"] res(1) acc2 by (auto simp: on_store_result)
      have now: "sv_now sv3 = sv_now sv" and same: "live (sv_challenges sv3) (sv_now sv) k = live (sv_challenges sv) (sv_now sv) k" for k
        using waiting.keepsD [OF waiting_on_store res(1)] waiting_check_limits [OF 2(1)] s1 by simp_all
      have "grown old None (sv_acc sv3)" "accounts_ok (sv_acc sv3)"
        using old ok like_tables [OF lk] by (simp_all add: grown_def)
      from owner_found_earned [OF res(2) this _ refl, of ch] have
        "grown old None (sv_acc sv') \<or> (\<exists>i. by_factor E W sv3 i sv' \<and> grown old (Some i) (sv_acc sv'))"
        using ch found now same like_user [OF lk] by simp
      then show ?thesis using by_factor_like [OF _ lk now same] by blast
    qed
  qed
qed


end
