(* ===== verification/SignIn.thy ===== *)
theory SignIn
  imports SecondFactor
begin

text \<open>
  A run of the account API from an empty database: the first account is made, signs in with its
  password and gets a session. The properties of the API hold of the states of this run.
\<close>

definition demo_env :: api_env where
  "demo_env = \<lparr>en_token = ''static'', en_store = True, en_notify = False, en_trust_proxy = False,
     en_token_hash = (\<lambda>t. t), en_verify = (\<lambda>h pw. Inr (h = pw)), en_hash = (\<lambda>salt pw. pw),
     en_random = (\<lambda>n len. Inr ''tok''), en_encode = (\<lambda>s. s), en_fingerprint = (\<lambda>f ip. ''fp''), en_network = (\<lambda>ip. ip),
     en_address = (\<lambda>s. True), en_box = None, en_code = (\<lambda>secret step. Inl (Errorf ''none'')),
     en_new_totp = (\<lambda>n issuer account. Inl (Errorf ''none''))\<rparr>"

definition demo_request :: request where
  "demo_request = \<lparr>rq_authorization = ''bearer tok'', rq_forwarded = [], rq_remote = [], rq_agent = []\<rparr>"

definition demo_start :: "unit server" where
  "demo_start = (fresh_server (empty_accounts 100 []) 100 [])\<lparr>sv_acc := sample_accounts\<rparr>"

definition demo_login :: "(refusal + login_answer) \<times> unit server" where
  "demo_login = login demo_env False demo_request (Body (''root'', ''h'')) demo_start"

lemma demo_start_reachable: "reachable_api demo_env (None :: (unit, unit) webauthn option) demo_start"
proof -
  have "account_step (empty_accounts 100 []) sample_accounts"
    unfolding sample_accounts_def by (rule account_step.create_user) (rule prod.collapse [symmetric])
  then have "api_step demo_env (None :: (unit, unit) webauthn option) (fresh_server (empty_accounts 100 []) 100 []) demo_start"
    unfolding demo_start_def by (intro api_step.elsewhere)
      (simp_all add: fresh_server_def sample_accounts_def CreateUser_def sample_account_def empty_accounts_def wrapped_def sql_def
        constraint_def next_id_def acc_now_def normalizeEmail_def trim_space_def is_space_char_def to_lower_def)
  then show ?thesis using reachable_api.step [OF reachable_api.start] by blast
qed

lemma demo_login_reachable: "reachable_api demo_env (None :: (unit, unit) webauthn option) (snd demo_login)"
proof -
  have "api_step demo_env (None :: (unit, unit) webauthn option) demo_start (snd demo_login)"
    unfolding demo_login_def
    by (rule api_step.login [where x = "fst (login demo_env False demo_request (Body (''root'', ''h'')) demo_start)"]) simp
  then show ?thesis using reachable_api.step [OF demo_start_reachable] by blast
qed

lemma demo_sessions: "sessions (sv_acc (snd demo_login)) =
  [\<lparr>ses_id = 1, ses_user = 1, ses_hash = ''tok'', ses_agent = [], ses_ip = [], ses_created = stored_time 100,
    ses_last_seen = stored_time 100, ses_expires = stored_time (100 + sessionTTL)\<rparr>]"
  by code_simp

lemma demo_let_in: "\<exists>p sv'. authenticate demo_env demo_request (snd demo_login) = (Inr p, sv') \<and> \<not> pr_static p"
proof -
  have "case fst (authenticate demo_env demo_request (snd demo_login)) of Inl e \<Rightarrow> False | Inr p \<Rightarrow> \<not> pr_static p"
    by code_simp
  then show ?thesis
    by (cases "authenticate demo_env demo_request (snd demo_login)") (auto split: sum.splits)
qed

theorem session_authenticates_witness:
  "\<exists>s w. s \<in> set (sessions (sv_acc (snd demo_login))) \<and> ses_hash s = ''tok'' \<and>
     w \<in> set (users (sv_acc (snd demo_login))) \<and> user_id w = ses_user s \<and> \<not> user_disabled w"
proof -
  obtain p sv' where p: "authenticate demo_env demo_request (snd demo_login) = (Inr p, sv')" "\<not> pr_static p"
    using demo_let_in by blast
  have "en_token_hash demo_env (bearer demo_request) = ''tok''" by code_simp
  with session_authenticates [OF demo_login_reachable p(1)] p(2) show ?thesis by auto
qed

lemma demo_new_password: "\<exists>b. SetUserPassword 1 ''new'' 0 (sv_acc (snd demo_login)) = (Inr (), b)"
proof -
  have "fst (SetUserPassword 1 ''new'' 0 (sv_acc (snd demo_login))) = Inr ()" by code_simp
  then show ?thesis by (metis prod.collapse)
qed

theorem revoked_sessions_refused_witness:
  "\<exists>b e sv'. SetUserPassword 1 ''new'' 0 (sv_acc (snd demo_login)) = (Inr (), b) \<and>
     authenticate demo_env demo_request ((snd demo_login)\<lparr>sv_acc := b\<rparr>) = (Inl e, sv')"
proof -
  obtain b where b: "SetUserPassword 1 ''new'' 0 (sv_acc (snd demo_login)) = (Inr (), b)"
    using demo_new_password by blast
  have "en_token_hash demo_env (bearer demo_request) = ''tok''" "bearer demo_request \<noteq> en_token demo_env" by code_simp+
  with revoked_sessions_refused [OF demo_login_reachable revokes.password [OF b],
      of "hd (sessions (sv_acc (snd demo_login)))" demo_request] b
  show ?thesis by (simp add: demo_sessions)
qed


end
