(* ===== verification/Resources.thy ===== *)
theory Resources
  imports Http Dispatcher
begin

text \<open>
  The handlers of the catalog: handlers_write.go, handlers_delete.go and the actions of
  handlers_action.go. They run on the world, one after the other. What the program is linked with,
  the plugin registries, the cron library, the check for dump tools and the secret box, is a
  parameter. The default host-key mode is read from the settings, another part of the store, and
  is an argument of the one handler that uses it.
\<close>

subsection \<open>What the handlers are given\<close>

record site =
  si_connectors :: "unit registry"
  si_dumpers :: "(raw \<Rightarrow> string) registry"
  si_codecs :: "unit registry"
  si_notifiers :: "unit registry"
  si_parse :: cron_parser
  si_tool :: "string \<Rightarrow> err option"
  si_seal :: "(string \<Rightarrow> string \<Rightarrow> string \<Rightarrow> err + secret) option"
  si_open :: "(secret \<Rightarrow> err + string) option"
  si_accepts :: "string \<Rightarrow> raw \<Rightarrow> err option"
  si_notify :: bool
  si_number :: "string \<Rightarrow> string option"

text \<open>An int64 duration given in seconds wraps around.\<close>

definition wrap64 :: "int \<Rightarrow> int" where
  "wrap64 n = (n + 2 ^ 63) mod 2 ^ 64 - 2 ^ 63"

definition seconds64 :: "int \<Rightarrow> duration" where
  "seconds64 n = wrap64 (n * second)"

text \<open>What a failed store call answers: not found by its name, otherwise as it is.\<close>

definition found_or :: "nat \<Rightarrow> string \<Rightarrow> nat \<Rightarrow> err \<Rightarrow> nat \<times> string" where
  "found_or missing msg other e = (if err_is ErrNotFound e then (missing, msg) else (other, err_text e))"

definition bad :: "err \<Rightarrow> nat \<times> string" where "bad e = (400, err_text e)"

definition check :: "err option \<Rightarrow> (err \<Rightarrow> nat \<times> string) \<Rightarrow> ('s, unit) handler" where
  "check e st = (case e of None \<Rightarrow> answer () | Some e \<Rightarrow> refuse (fst (st e)) (snd (st e)))"

subsection \<open>Secrets\<close>

record secret_req =
  sr_name :: string
  sr_type :: string
  sr_value :: string

text \<open>
  The id answered is left out: for a name that exists the code reports the id of the last row the
  connection inserted, which need not be that of the secret.
\<close>

definition createSecret :: "site \<Rightarrow> secret_req body \<Rightarrow> (world, unit) handler" where
  "createSecret N body =
     (case si_seal N of
        None \<Rightarrow> refuse 503 ''secret store unavailable (no master key configured)''
      | Some seal \<Rightarrow> go_on (decode body) (\<lambda>q.
          if sr_name q = [] \<or> sr_type q = [] \<or> sr_value q = [] then refuse 400 ''name, type and value are required''
          else go_on (or_refuse (pure_step (seal (sr_name q) (sr_type q) (sr_value q))) internal) (\<lambda>sealed.
               or_refuse (on_db (PutSecret sealed)) bad)))"

subsection \<open>Connections\<close>

record connection_req =
  cr_name :: string
  cr_engine :: string
  cr_type :: string
  cr_config :: raw
  cr_user :: string
  cr_secret_ref :: string

definition buildConnection :: "site \<Rightarrow> connection_req \<Rightarrow> rowid \<Rightarrow> err + connection" where
  "buildConnection N q i =
     (if cr_name q = [] \<or> cr_engine q = [] \<or> cr_type q = []
      then Inl (Errorf ''name, engine and connector_type are required'')
      else if \<not> Has (si_connectors N) (cr_type q) then Inl (Errorf (''unknown connector type: '' @ cr_type q))
      else if \<not> Has (si_dumpers N) (cr_engine q) then Inl (Errorf (''unknown engine (no dumper): '' @ cr_engine q))
      else Inr \<lparr>con_id = i, con_name = cr_name q, con_engine = cr_engine q, con_type = cr_type q,
                con_config = cr_config q, con_user = cr_user q, con_secret_ref = cr_secret_ref q, con_created = 0\<rparr>)"

text \<open>The members of a parsed object: a Go map, marshalled in the order of its keys.\<close>

definition as_map :: "obj \<Rightarrow> obj" where
  "as_map kvs = map (\<lambda>k. (k, the (map_of (rev kvs) k))) (sort (remdups (map fst kvs)))"

definition mode_named :: "json option \<Rightarrow> bool" where
  "mode_named v = (case v of Some (JStr s) \<Rightarrow> s \<noteq> [] | _ \<Rightarrow> False)"

definition applyHostKeyDefault :: "string \<Rightarrow> raw \<Rightarrow> string \<Rightarrow> err + raw" where
  "applyHostKeyDefault connectorType cfg mode =
     (if connectorType \<noteq> ''ssh-tunnel'' \<or> mode = [] then Inr cfg
      else
        let fields = (if cfg = raw_empty then Inr []
                      else case cfg of
                        Raw (JObj kvs) \<Rightarrow> Inr kvs
                      | Raw JNull \<Rightarrow> Inr []
                      | _ \<Rightarrow> Inl (Errorf ''connector_config: cannot unmarshal'')) in
        case fields of
          Inl e \<Rightarrow> Inl e
        | Inr kvs \<Rightarrow>
            if mode_named (map_of (rev kvs) ''host_key_mode'') then Inr cfg
            else Inr (Raw (JObj (as_map (kvs @ [(''host_key_mode'', JStr mode)])))))"

definition createConnection :: "site \<Rightarrow> string \<Rightarrow> connection_req body \<Rightarrow> (world, rowid) handler" where
  "createConnection N mode body =
     go_on (decode body) (\<lambda>q.
     go_on (or_refuse (pure_step (buildConnection N q 0)) bad) (\<lambda>c.
     go_on (or_refuse (pure_step (applyHostKeyDefault (con_type c) (con_config c) mode)) bad) (\<lambda>cfg.
       or_refuse (on_db (CreateConnection (c\<lparr>con_config := cfg\<rparr>))) bad)))"

text \<open>The stored row is read to undo the masking; an error of that read is passed over.\<close>

definition updateConnection :: "site \<Rightarrow> rowid option \<Rightarrow> connection_req body \<Rightarrow> (world, rowid) handler" where
  "updateConnection N path body =
     go_on (pathID path) (\<lambda>i. go_on (decode body) (\<lambda>q.
     call (on_db (GetConnection i)) (\<lambda>current.
       let q = (case current of Inl _ \<Rightarrow> q | Inr c \<Rightarrow> q\<lparr>cr_config := unmaskSecrets (cr_config q) (con_config c)\<rparr>) in
       go_on (or_refuse (pure_step (buildConnection N q i)) bad) (\<lambda>c.
       go_on (or_refuse (on_db (UpdateConnection c)) (found_or 404 ''connection not found'' 400)) (\<lambda>_. answer i)))))"

subsection \<open>Storages\<close>

record storage_req =
  tr_name :: string
  tr_type :: string
  tr_config :: raw
  tr_secret_ref :: string

definition storageFromReq :: "storage_req \<Rightarrow> rowid \<Rightarrow> (world, storage) handler" where
  "storageFromReq q i =
     (if tr_name q = [] \<or> tr_type q = [] then refuse 400 ''name and type are required''
      else if \<not> Has Storages (tr_type q) then refuse 400 (''unknown storage type: '' @ tr_type q)
      else answer \<lparr>sto_id = i, sto_name = tr_name q, sto_type = tr_type q, sto_config = tr_config q,
                   sto_secret_ref = tr_secret_ref q, sto_created = 0\<rparr>)"

definition createStorage :: "storage_req body \<Rightarrow> (world, rowid) handler" where
  "createStorage body =
     go_on (decode body) (\<lambda>q. go_on (storageFromReq q 0) (\<lambda>s. or_refuse (on_db (CreateStorage s)) bad))"

definition updateStorage :: "rowid option \<Rightarrow> storage_req body \<Rightarrow> (world, rowid) handler" where
  "updateStorage path body =
     go_on (pathID path) (\<lambda>i. go_on (decode body) (\<lambda>q.
     call (on_db (GetStorage i)) (\<lambda>current.
       let q = (case current of Inl _ \<Rightarrow> q | Inr s \<Rightarrow> q\<lparr>tr_config := unmaskSecrets (tr_config q) (sto_config s)\<rparr>) in
       go_on (storageFromReq q i) (\<lambda>s.
       go_on (or_refuse (on_db (UpdateStorage s)) (found_or 404 ''storage not found'' 400)) (\<lambda>_. answer i)))))"

subsection \<open>Tasks\<close>

record task_req =
  kr_name :: string
  kr_connection :: rowid
  kr_storage :: rowid
  kr_opts :: raw
  kr_codecs :: "string list"
  kr_cron :: string
  kr_retention :: retention
  kr_notifiers :: "string list"
  kr_enabled :: "bool option"
  kr_retries :: int
  kr_timeout :: int
  kr_watchdog :: "int option"

definition timeoutFromSec :: "int \<Rightarrow> duration" where "timeoutFromSec sec = seconds64 sec"

text \<open>The first element a check refuses, as the loops over the codecs and the channels find it.\<close>

definition all_known :: "string \<Rightarrow> (string \<Rightarrow> bool) \<Rightarrow> string list \<Rightarrow> err option" where
  "all_known what known xs =
     (case find (\<lambda>x. \<not> known x) xs of None \<Rightarrow> None | Some x \<Rightarrow> Some (Errorf (what @ x)))"

definition watchdog_of :: "int option \<Rightarrow> duration \<Rightarrow> err + duration" where
  "watchdog_of sec fallback =
     (case sec of
        None \<Rightarrow> Inr fallback
      | Some n \<Rightarrow> if n < - 1
          then Inl (Errorf ''watchdog_sec must be >= 0 (0 = derive from cron) or -1 (off)'')
          else Inr (seconds64 n))"

definition taskFromReq :: "site \<Rightarrow> task_req \<Rightarrow> rowid \<Rightarrow> bool \<Rightarrow> duration \<Rightarrow> (world, task) handler" where
  "taskFromReq N q i enabled watchdog =
     (if kr_name q = [] then refuse 400 ''name is required''
      else
       go_on (or_refuse (pure_step (ParseCron (si_parse N) (kr_cron q))) (\<lambda>e. (400, ''invalid cron: '' @ err_text e))) (\<lambda>_.
       go_on (or_refuse (on_db (GetConnection (kr_connection q))) (found_or 400 ''connection does not exist'' 500)) (\<lambda>conn.
       go_on (check (si_tool N (con_engine conn)) bad) (\<lambda>_.
       go_on (or_refuse (on_db (GetStorage (kr_storage q))) (found_or 400 ''storage does not exist'' 500)) (\<lambda>_.
       go_on (check (all_known ''unknown codec: '' (Has (si_codecs N)) (kr_codecs q)) bad) (\<lambda>_.
       go_on (or_refuse (on_db ListNotifiers) internal) (\<lambda>chans.
       go_on (check (all_known ''unknown notifier channel: '' (\<lambda>n. n \<in> set (map ch_name chans)) (kr_notifiers q)) bad) (\<lambda>_.
       go_on (check (ret_validate (kr_retention q)) (\<lambda>e. (400, ''invalid retention: '' @ err_text e))) (\<lambda>_.
       go_on (or_refuse (pure_step (watchdog_of (kr_watchdog q) watchdog)) bad) (\<lambda>w.
         answer \<lparr>task_id = i, task_name = kr_name q, task_connection = kr_connection q, task_opts = kr_opts q,
           task_codecs = kr_codecs q, task_storage = kr_storage q, task_cron = kr_cron q,
           task_retention = ret_normalized (kr_retention q), task_notifiers = kr_notifiers q,
           task_enabled = (case kr_enabled q of None \<Rightarrow> enabled | Some b \<Rightarrow> b), task_misfire = MisfireOther [],
           task_retries = kr_retries q, task_timeout = timeoutFromSec (kr_timeout q), task_watchdog = w,
           task_enabled_at = 0, task_created = 0\<rparr>))))))))))"

definition createTask :: "site \<Rightarrow> task_req body \<Rightarrow> (world, rowid) handler" where
  "createTask N body =
     go_on (decode body) (\<lambda>q. go_on (taskFromReq N q 0 True WatchdogAuto) (\<lambda>t. or_refuse (on_db (CreateTask t)) bad))"

definition updateTask :: "site \<Rightarrow> rowid option \<Rightarrow> task_req body \<Rightarrow> (world, rowid) handler" where
  "updateTask N path body =
     go_on (pathID path) (\<lambda>i.
     go_on (or_refuse (on_db (GetTask i)) (found_or 404 ''task not found'' 500)) (\<lambda>current.
     go_on (decode body) (\<lambda>q.
     go_on (taskFromReq N q i (task_enabled current) (task_watchdog current)) (\<lambda>t.
     go_on (or_refuse (on_db (UpdateTask t)) (found_or 404 ''task not found'' 400)) (\<lambda>_. answer i)))))"

subsection \<open>Deletion\<close>

definition writeDeleteResult :: "string \<Rightarrow> in_use_reason \<Rightarrow> err + unit \<Rightarrow> ('s, unit) handler" where
  "writeDeleteResult entity reason r =
     (case r of
        Inr _ \<Rightarrow> answer ()
      | Inl e \<Rightarrow>
          if err_is ErrNotFound e then refuse 404 (entity @ '' not found'')
          else if err_is ErrInUse e then (\<lambda>s. (Inl (Conflict reason), s))
          else refuse 500 (err_text e))"

definition deleteConnection :: "rowid option \<Rightarrow> (world, unit) handler" where
  "deleteConnection path = go_on (pathID path) (\<lambda>i.
     call (on_db (DeleteConnection i)) (writeDeleteResult ''connection'' ConnectionInUse))"

definition deleteStorage :: "rowid option \<Rightarrow> (world, unit) handler" where
  "deleteStorage path = go_on (pathID path) (\<lambda>i.
     call (on_db (DeleteStorage i)) (writeDeleteResult ''storage'' StorageInUse))"

definition deleteTask :: "rowid option \<Rightarrow> (world, unit) handler" where
  "deleteTask path = go_on (pathID path) (\<lambda>i.
     call (on_db (DeleteTask i)) (writeDeleteResult ''task'' TaskRunning))"

definition GetSecretByID :: "rowid \<Rightarrow> (db, secret) op" where
  "GetSecretByID i = query_row (''get secret '' @ dec i @ '': '') 
     (\<lambda>d. map_option (\<lambda>s. s\<lparr>sec_cipher := []\<rparr>) (find (\<lambda>s. sec_id s = i) (secrets d)))"

definition SecretRefs :: "string \<Rightarrow> (db, secret_user list) op" where
  "SecretRefs name =
     and_then ListConnections (\<lambda>_. and_then ListStorages (\<lambda>_. and_then ListNotifiers (\<lambda>_.
       with_state (\<lambda>d. pure_step (Inr (secret_refs name d))))))"

definition deleteSecret :: "rowid option \<Rightarrow> (world, unit) handler" where
  "deleteSecret path =
     go_on (pathID path) (\<lambda>i.
     go_on (or_refuse (on_db (GetSecretByID i)) (found_or 404 ''secret not found'' 500)) (\<lambda>sec.
     go_on (or_refuse (on_db (SecretRefs (sec_name sec))) internal) (\<lambda>refs.
       if refs \<noteq> [] then (\<lambda>s. (Inl (Conflict (SecretReferenced refs)), s))
       else call (on_db (DeleteSecret i)) (writeDeleteResult ''secret'' SecretInUse))))"

subsection \<open>Actions\<close>

definition runNow :: "rowid option \<Rightarrow> (world, rowid) handler" where
  "runNow path =
     go_on (pathID path) (\<lambda>i.
     go_on (or_refuse (on_db (GetTask i)) (found_or 404 ''task not found'' 500)) (\<lambda>_.
     or_refuse (on_db (Enqueue i)) (\<lambda>e. if err_is ErrAlreadyActive e then (409, ''task already has an active run'') else internal e)))"

definition restoreHint :: "site \<Rightarrow> rowid option \<Rightarrow> (world, string) handler" where
  "restoreHint N path =
     go_on (pathID path) (\<lambda>i.
     go_on (or_refuse (on_db (GetTask i)) (found_or 404 ''task not found'' 500)) (\<lambda>t.
     go_on (or_refuse (on_db (GetConnection (task_connection t))) internal) (\<lambda>conn.
     go_on (or_refuse (pure_step (Create (si_dumpers N) (con_engine conn) (task_opts t))) internal) (\<lambda>hint.
       answer (hint (task_opts t))))))"

text \<open>A download: the name after the last slash of the key, the length announced, and the bytes.\<close>

record download =
  dl_name :: string
  dl_length :: "int option"
  dl_body :: string

definition path_base :: "string \<Rightarrow> string" where
  "path_base p =
     (if p = [] then ''.''
      else let p' = rev (dropWhile (\<lambda>c. c = CHR ''/'') (rev p)) in
        if p' = [] then ''/'' else rev (takeWhile (\<lambda>c. c \<noteq> CHR ''/'') (rev p')))"

text \<open>The registry of storages once more, for the operation that reads an object.\<close>

definition Readers :: "(string \<Rightarrow> (world, string) op) registry" where
  "Readers = (case Register ''localfs'' (\<lambda>cfg. map_sum id (\<lambda>s key. on_disk (Read s key)) (New cfg)) (NewRegistry ''storage'') of
     Some r \<Rightarrow> r | None \<Rightarrow> NewRegistry ''storage'')"

definition downloadArtifactObject :: "site \<Rightarrow> err + artifact \<Rightarrow> (world, download) handler" where
  "downloadArtifactObject N found =
     go_on (or_refuse (pure_step found) (found_or 404 ''artifact not found'' 500)) (\<lambda>art.
     go_on (or_refuse (on_db (GetStorage (art_storage art))) internal) (\<lambda>stor.
     go_on (or_refuse (Resolve (\<lambda>ref. on_db (OpenSecret (si_open N) ref)) (sto_config stor)) internal) (\<lambda>config.
     go_on (or_refuse (pure_step (Create Readers (sto_type stor) config)) internal) (\<lambda>read.
     go_on (or_refuse (read (art_key art)) internal) (\<lambda>bytes.
       answer \<lparr>dl_name = path_base (art_key art),
         dl_length = (if art_size art > 0 then Some (art_size art) else None), dl_body = bytes\<rparr>)))))"

definition downloadArtifact :: "site \<Rightarrow> rowid option \<Rightarrow> (world, download) handler" where
  "downloadArtifact N path = go_on (pathID path) (\<lambda>i. call (on_db (GetArtifact i)) (downloadArtifactObject N))"

definition downloadRunArtifact :: "site \<Rightarrow> rowid option \<Rightarrow> (world, download) handler" where
  "downloadRunArtifact N path = go_on (pathID path) (\<lambda>i. call (on_db (GetArtifactByRun i)) (downloadArtifactObject N))"

end
