(* ===== verification/Channels.thy ===== *)
theory Channels
  imports Resources
begin

text \<open>
  The handlers of notification channels (internal/api/handlers_notifier.go): what an administrator
  and what an operator may change of a channel, and the delivery log.
\<close>

subsection \<open>When two configs are the same\<close>

text \<open>
  The document a text parses to: objects as maps, the last of equal keys winning, numbers as the
  floating-point library reads them. A text with a number it refuses is no document.
\<close>

fun document :: "(string \<Rightarrow> string option) \<Rightarrow> json \<Rightarrow> json option"
  and document_members :: "(string \<Rightarrow> string option) \<Rightarrow> obj \<Rightarrow> obj option"
  and document_items :: "(string \<Rightarrow> string option) \<Rightarrow> json list \<Rightarrow> json list option" where
  "document fl (JObj kvs) = map_option (\<lambda>kvs. JObj (as_map kvs)) (document_members fl kvs)"
| "document fl (JArr vs) = map_option JArr (document_items fl vs)"
| "document fl (JNum n) = map_option JNum (fl n)"
| "document fl v = Some v"
| "document_members fl [] = Some []"
| "document_members fl ((k, v) # kvs) =
     (case document fl v of None \<Rightarrow> None | Some w \<Rightarrow> map_option (\<lambda>ws. (k, w) # ws) (document_members fl kvs))"
| "document_items fl [] = Some []"
| "document_items fl (v # vs) =
     (case document fl v of None \<Rightarrow> None | Some w \<Rightarrow> map_option (\<lambda>ws. w # ws) (document_items fl vs))"

text \<open>Absent, null and the empty object are all no configuration.\<close>

definition norm_config :: "(string \<Rightarrow> string option) \<Rightarrow> raw \<Rightarrow> json option" where
  "norm_config fl r =
     (if r = raw_empty then Some JNull
      else case r of
        BadRaw s \<Rightarrow> None
      | Raw v \<Rightarrow> map_option (\<lambda>w. if w = JObj [] then JNull else w) (document fl v))"

definition sameJSON :: "(string \<Rightarrow> string option) \<Rightarrow> raw \<Rightarrow> raw \<Rightarrow> bool" where
  "sameJSON fl a b = (norm_config fl a \<noteq> None \<and> norm_config fl a = norm_config fl b)"

subsection \<open>The handlers\<close>

record notifier_req =
  nr_name :: string
  nr_type :: string
  nr_config :: raw
  nr_events :: "string list option"
  nr_enabled :: "bool option"

definition site_notify :: "site \<Rightarrow> world notify_env" where
  "site_notify N = world_notify (si_accepts N) (si_open N)"

definition notifierFromReq :: "site \<Rightarrow> notifier_req \<Rightarrow> rowid \<Rightarrow> channel option \<Rightarrow> (world, channel) handler" where
  "notifierFromReq N q i current =
     (if nr_name q = [] \<or> nr_type q = [] then refuse 400 ''name and type are required''
      else if \<not> Has (si_notifiers N) (nr_type q) then refuse 400 (''unknown notifier type: '' @ nr_type q)
      else
       go_on (check (all_known ''unknown event kind: '' ValidEventKind (case nr_events q of None \<Rightarrow> [] | Some es \<Rightarrow> es)) bad)
         (\<lambda>_. answer
           \<lparr>ch_id = i, ch_name = nr_name q, ch_type = nr_type q,
            ch_config = (case current of
               None \<Rightarrow> nr_config q
             | Some c \<Rightarrow> if nr_config q = raw_empty then ch_config c else unmaskSecrets (nr_config q) (ch_config c)),
            ch_events = (case nr_events q of
               Some es \<Rightarrow> es
             | None \<Rightarrow> (case current of Some c \<Rightarrow> ch_events c | None \<Rightarrow> map kind_text DefaultEventKinds)),
            ch_enabled = (case nr_enabled q of
               Some b \<Rightarrow> b
             | None \<Rightarrow> (case current of Some c \<Rightarrow> ch_enabled c | None \<Rightarrow> True)),
            ch_created = 0\<rparr>))"

definition notifierBuilds :: "site \<Rightarrow> channel \<Rightarrow> (world, unit) handler" where
  "notifierBuilds N ch =
     (if \<not> si_notify N then answer ()
      else (\<lambda>w. case Validate (site_notify N) ch w of (e, w) \<Rightarrow> check e bad w))"

text \<open>What an operator may change: when a channel fires, not what it is.\<close>

definition notifierPatchAllowed :: "site \<Rightarrow> bool \<Rightarrow> notifier_req \<Rightarrow> channel \<Rightarrow> ('s, unit) handler" where
  "notifierPatchAllowed N admin q current =
     (let deny = (\<lambda>field. refuse 403 (''forbidden: changing '' @ field @ '' requires role admin'')) in
      if admin then answer ()
      else if nr_name q \<noteq> ch_name current then deny ''name''
      else if nr_type q \<noteq> ch_type current then deny ''type''
      else if nr_config q \<noteq> raw_empty \<and>
              \<not> sameJSON (si_number N) (unmaskSecrets (nr_config q) (ch_config current)) (ch_config current)
      then deny ''config''
      else answer ())"

definition createNotifier :: "site \<Rightarrow> notifier_req body \<Rightarrow> (world, rowid) handler" where
  "createNotifier N body =
     go_on (decode body) (\<lambda>q. go_on (notifierFromReq N q 0 None) (\<lambda>ch.
     go_on (notifierBuilds N ch) (\<lambda>_. or_refuse (on_db (CreateNotifier ch)) bad)))"

definition updateNotifier :: "site \<Rightarrow> bool \<Rightarrow> rowid option \<Rightarrow> notifier_req body \<Rightarrow> (world, rowid) handler" where
  "updateNotifier N admin path body =
     go_on (pathID path) (\<lambda>i.
     go_on (or_refuse (on_db (GetNotifier i)) (found_or 404 ''notifier not found'' 500)) (\<lambda>current.
     go_on (decode body) (\<lambda>q.
     go_on (notifierPatchAllowed N admin q current) (\<lambda>_.
     go_on (notifierFromReq N q i (Some current)) (\<lambda>ch.
     go_on (notifierBuilds N ch) (\<lambda>_.
     go_on (or_refuse (on_db (UpdateNotifier ch)) (found_or 404 ''notifier not found'' 400)) (\<lambda>_. answer i)))))))"

definition deleteNotifier :: "rowid option \<Rightarrow> (world, unit) handler" where
  "deleteNotifier path =
     go_on (pathID path) (\<lambda>i. or_refuse (on_db (DeleteNotifier i)) (\<lambda>e.
       if err_is ErrNotFound e then (404, ''notifier not found'')
       else if err_is ErrInUse e then (409, err_text e) else internal e))"

text \<open>A failed delivery is an answer, not an error: its text, or none.\<close>

definition testNotifier :: "site \<Rightarrow> rowid option \<Rightarrow> (world, string option) handler" where
  "testNotifier N path =
     (if \<not> si_notify N then refuse 503 ''notifications not configured''
      else
       go_on (pathID path) (\<lambda>i.
       go_on (or_refuse (on_db (GetNotifier i)) (found_or 404 ''notifier not found'' 500)) (\<lambda>ch.
         (\<lambda>w. case Test (site_notify N) ch w of (e, w) \<Rightarrow> answer (map_option err_text e) w))))"

subsection \<open>Listings\<close>

definition shown_channel :: "channel \<Rightarrow> channel" where
  "shown_channel c = c\<lparr>ch_config := maskSecrets (ch_config c)\<rparr>"

fun list_notifiers :: "channel list \<Rightarrow> (db, (channel \<times> string list) list) op" where
  "list_notifiers [] = pure_step (Inr [])"
| "list_notifiers (c # cs) =
     and_then (NotifierUsers (ch_name c)) (\<lambda>users.
     and_then (list_notifiers cs) (\<lambda>out. pure_step (Inr ((shown_channel c, users) # out))))"

definition listNotifiers :: "(world, (channel \<times> string list) list) handler" where
  "listNotifiers = or_refuse (on_db (and_then ListNotifiers list_notifiers)) internal"

text \<open>strconv.Atoi, on a 64-bit int.\<close>

definition atoi :: "string \<Rightarrow> int option" where
  "atoi s =
     (let (neg, ds) = (case s of c # t \<Rightarrow> if c = CHR ''-'' then (True, t) else if c = CHR ''+'' then (False, t) else (False, s)
                       | [] \<Rightarrow> (False, s));
          n = (if neg then - int (undec ds) else int (undec ds))
      in if ds = [] \<or> \<not> list_all is_digit ds \<or> n < - (2 ^ 63) \<or> n \<ge> 2 ^ 63 then None else Some n)"

text \<open>The limit of a page: an empty parameter leaves it to the store.\<close>

definition page_limit :: "int \<Rightarrow> string \<Rightarrow> ('s, int) handler" where
  "page_limit most v =
     (if v = [] then answer 0
      else case atoi v of
        None \<Rightarrow> refuse 400 ''limit must be a positive integer''
      | Some n \<Rightarrow>
          if n \<le> 0 then refuse 400 ''limit must be a positive integer''
          else if n > most then refuse 400 (''limit must be at most '' @ dec most)
          else answer n)"

definition maxNotificationLimit :: int where "maxNotificationLimit = 500"

definition listNotifications :: "string \<Rightarrow> (world, notification list) handler" where
  "listNotifications limit =
     go_on (page_limit maxNotificationLimit limit) (\<lambda>n. or_refuse (on_db (ListNotifications n)) internal)"

end
