(* ===== verification/SiteSteps.thy ===== *)
theory SiteSteps
  imports Channels
begin

text \<open>
  What the resource handlers keep true of the catalog, whatever they are asked: every row names
  plugins the program has, every task a schedule that parses, a policy that is valid and channels
  that exist. And what a masked listing and an operator can and cannot change.
\<close>

subsection \<open>Triples over handlers\<close>

lemma hoare_go_on:
  assumes "hoare P f R E" "\<And>x. hoare (R x) (g x) Q E"
  shows "hoare P (go_on f g) Q E"
proof (rule hoareI)
  fix s x s' assume s: "P s" and f: "go_on f g s = (Inr x, s')"
  show "Q x s'"
    using f hoareD_ok [OF assms(1) s] hoareD_ok [OF assms(2)]
    by (auto simp: go_on_def split: prod.splits sum.splits)
next
  fix s e s' assume s: "P s" and f: "go_on f g s = (Inl e, s')"
  show "E s'"
    using f hoareD_ok [OF assms(1) s] hoareD_err [OF assms(1) s] hoareD_err [OF assms(2)]
    by (auto simp: go_on_def split: prod.splits sum.splits)
qed

lemma hoare_call:
  assumes "hoare P f R R'" "\<And>x. hoare (R x) (g (Inr x)) Q E" "\<And>e. hoare R' (g (Inl e)) Q E"
  shows "hoare P (call f g) Q E"
proof (rule hoareI)
  fix s x s' assume s: "P s" and f: "call f g s = (Inr x, s')"
  from f obtain r u where r: "f s = (r, u)" "g r u = (Inr x, s')" by (rule call_cases)
  then show "Q x s'"
    using hoareD_ok [OF assms(1) s] hoareD_err [OF assms(1) s] hoareD_ok [OF assms(2)] hoareD_ok [OF assms(3)]
    by (cases r) auto
next
  fix s e s' assume s: "P s" and f: "call f g s = (Inl e, s')"
  from f obtain r u where r: "f s = (r, u)" "g r u = (Inl e, s')" by (rule call_cases)
  then show "E s'"
    using hoareD_ok [OF assms(1) s] hoareD_err [OF assms(1) s] hoareD_err [OF assms(2)] hoareD_err [OF assms(3)]
    by (cases r) auto
qed

lemma hoare_refuse: "(\<And>s. P s \<Longrightarrow> E s) \<Longrightarrow> hoare P (refuse n m) Q E"
  by (simp add: hoare_def refuse_def)

lemma hoare_answer: "(\<And>s. P s \<Longrightarrow> Q x s) \<Longrightarrow> hoare P (answer x) Q E"
  by (simp add: hoare_def answer_def)

lemma hoare_or_refuse:
  assumes "hoare P f Q E"
  shows "hoare P (or_refuse f st) Q E"
  unfolding or_refuse_def
  by (rule hoare_call [OF assms]) (simp_all add: hoare_refuse hoare_answer)

lemma hoare_check: "(\<And>s. e = None \<Longrightarrow> P s \<Longrightarrow> Q () s) \<Longrightarrow> (\<And>s. P s \<Longrightarrow> E s) \<Longrightarrow> hoare P (check e st) Q E"
  by (cases e) (auto simp: check_def intro: hoare_refuse hoare_answer)

lemma hoare_input:
  "hoare P (decode b) (\<lambda>_. P) P" "hoare P (pathID path) (\<lambda>_. P) P"
  by (auto simp: decode_def pathID_def intro: hoare_refuse hoare_answer split: body.split option.split)

lemma hoare_pure_value: "hoare P (pure_step r) (\<lambda>x s. P s \<and> r = Inr x) P"
  by (simp add: hoare_def pure_step_def split: sum.split)

lemma hoare_on_db: "hoare P f Q E \<Longrightarrow> hoare (\<lambda>w. P (wdb w)) (on_db f) (\<lambda>x w. Q x (wdb w)) (\<lambda>w. E (wdb w))"
  by (auto simp: hoare_def on_db_def split: prod.splits sum.splits)

subsection \<open>Rows the program can serve\<close>

definition con_valid :: "site \<Rightarrow> connection \<Rightarrow> bool" where
  "con_valid N c = (Has (si_connectors N) (con_type c) \<and> Has (si_dumpers N) (con_engine c) \<and>
     con_name c \<noteq> [] \<and> con_engine c \<noteq> [] \<and> con_type c \<noteq> [])"

definition chan_valid :: "site \<Rightarrow> channel \<Rightarrow> bool" where
  "chan_valid N c = (Has (si_notifiers N) (ch_type c) \<and> list_all ValidEventKind (ch_events c))"

definition task_valid :: "site \<Rightarrow> db \<Rightarrow> task \<Rightarrow> bool" where
  "task_valid N d t =
     (is_ok (ParseCron (si_parse N) (task_cron t)) \<and> list_all (Has (si_codecs N)) (task_codecs t) \<and>
      ret_validate (task_retention t) = None \<and> ret_normalized (task_retention t) = task_retention t \<and>
      set (task_notifiers t) \<subseteq> set (map ch_name (channels d)))"

definition rows_ok :: "site \<Rightarrow> db \<Rightarrow> bool" where
  "rows_ok N d =
     (distinct (map ch_id (channels d)) \<and> distinct (map ch_name (channels d)) \<and>
      list_all (con_valid N) (connections d) \<and> list_all (\<lambda>s. Has Storages (sto_type s)) (storages d) \<and>
      list_all (chan_valid N) (channels d) \<and> list_all (task_valid N d) (tasks d) \<and>
      distinct (map con_name (connections d)))"

definition served :: "site \<Rightarrow> db \<Rightarrow> bool" where "served N d = (db_ok d \<and> rows_ok N d)"

lemma task_valid_other [simp]:
  "task_valid N (d\<lparr>faults := fs\<rparr>) = task_valid N d" "task_valid N (d\<lparr>tasks := ts\<rparr>) = task_valid N d"
  "task_valid N (d\<lparr>connections := cs\<rparr>) = task_valid N d" "task_valid N (d\<lparr>storages := ss\<rparr>) = task_valid N d"
  by (simp_all add: fun_eq_iff task_valid_def)

lemma task_valid_cong: "channels d' = channels d \<Longrightarrow> task_valid N d' = task_valid N d"
  by (simp add: fun_eq_iff task_valid_def)

lemma rows_ok_cong:
  "channels d' = channels d \<Longrightarrow> connections d' = connections d \<Longrightarrow> storages d' = storages d \<Longrightarrow> tasks d' = tasks d \<Longrightarrow>
   rows_ok N d' = rows_ok N d"
  by (simp add: rows_ok_def task_valid_cong [of d' d])

lemma rows_ok_faults [simp]: "rows_ok N (d\<lparr>faults := fs\<rparr>) = rows_ok N d"
  by (rule rows_ok_cong) simp_all

lemma served_same: "same_tables d d' \<Longrightarrow> served N d' = served N d"
  unfolding served_def same_tables_def by (metis db_ok_faults rows_ok_faults)

lemma rows_okE:
  assumes "rows_ok N d"
  shows "distinct (map ch_id (channels d))" "distinct (map ch_name (channels d))"
    "list_all (con_valid N) (connections d)" "list_all (\<lambda>s. Has Storages (sto_type s)) (storages d)"
    "list_all (chan_valid N) (channels d)" "list_all (task_valid N d) (tasks d)"
    "distinct (map con_name (connections d))"
  using assms by (simp_all add: rows_ok_def)

text \<open>A statement keeps the rows if what it does to the tables does.\<close>

lemma stmt_rows:
  assumes "stmt what f d = (r, d')" "rows_ok N d" "\<And>d r d'. f d = (r, d') \<Longrightarrow> rows_ok N d \<Longrightarrow> P d \<Longrightarrow> rows_ok N d'"
    and "P d" "\<And>fs. P (d\<lparr>faults := fs\<rparr>) = P d"
  shows "rows_ok N d'"
  using assms(1)
proof (cases rule: stmt_cases)
  case (fault bs)
  then show ?thesis using assms(2) by simp
next
  case (ran bs)
  then show ?thesis using assms(3) [OF ran] assms(2,4,5) by simp
qed

lemma con_valid_simps [simp]:
  "con_valid N (c\<lparr>con_id := i\<rparr>) = con_valid N c" "con_valid N (c\<lparr>con_config := x\<rparr>) = con_valid N c"
  "con_valid N (c\<lparr>con_created := t\<rparr>) = con_valid N c"
  by (simp_all add: con_valid_def)

lemma chan_valid_simps [simp]:
  "chan_valid N (c\<lparr>ch_id := i\<rparr>) = chan_valid N c" "chan_valid N (c\<lparr>ch_config := x\<rparr>) = chan_valid N c"
  "chan_valid N (c\<lparr>ch_created := t\<rparr>) = chan_valid N c"
  by (simp_all add: chan_valid_def)

lemma task_valid_simps [simp]:
  "task_valid N d (t\<lparr>task_id := i\<rparr>) = task_valid N d t" "task_valid N d (t\<lparr>task_enabled_at := x\<rparr>) = task_valid N d t"
  "task_valid N d (t\<lparr>task_created := y\<rparr>) = task_valid N d t" "task_valid N d (stored_task t) = task_valid N d t"
  by (simp_all add: task_valid_def stored_task_def Let_def)

lemma task_valid_channels:
  "task_valid N d t \<Longrightarrow> set (map ch_name (channels d)) \<subseteq> set (map ch_name (channels d')) \<Longrightarrow> task_valid N d' t"
  by (auto simp: task_valid_def)

lemma rows_tasks:
  "rows_ok N d \<Longrightarrow> list_all (task_valid N d) ts \<Longrightarrow> rows_ok N (d\<lparr>tasks := ts\<rparr>)"
  by (simp add: rows_ok_def)

lemma rows_connections: "rows_ok N d \<Longrightarrow> list_all (con_valid N) cs \<Longrightarrow> distinct (map con_name cs) \<Longrightarrow>
   rows_ok N (d\<lparr>connections := cs\<rparr>)"
  by (simp add: rows_ok_def)

lemma rows_storages: "rows_ok N d \<Longrightarrow> list_all (\<lambda>s. Has Storages (sto_type s)) ss \<Longrightarrow> rows_ok N (d\<lparr>storages := ss\<rparr>)"
  by (simp add: rows_ok_def)

subsection \<open>The statements\<close>

lemma distinct_update_key:
  assumes ids: "distinct (map i xs)" and names: "distinct (map n xs)"
    and free: "\<And>x. x \<in> set xs \<Longrightarrow> n x = m \<Longrightarrow> i x = j" and new: "\<And>x. n (g x) = m"
  shows "distinct (map n (map (\<lambda>x. if i x = j then g x else x) xs))"
proof -
  have "inj_on (\<lambda>x. n (if i x = j then g x else x)) (set xs)"
  proof (rule inj_onI)
    fix x y assume x: "x \<in> set xs" and y: "y \<in> set xs" and eq: "n (if i x = j then g x else x) = n (if i y = j then g y else y)"
    show "x = y"
    proof (cases "i x = j"; cases "i y = j")
      assume "i x = j" "i y = j"
      then show ?thesis using distinct_map_eq [OF ids x y] by simp
    next
      assume "i x = j" "i y \<noteq> j"
      then show ?thesis using free [OF y] eq new by simp
    next
      assume "i x \<noteq> j" "i y = j"
      then show ?thesis using free [OF x] eq new by simp
    next
      assume "i x \<noteq> j" "i y \<noteq> j"
      then show ?thesis using distinct_map_eq [OF names x y] eq by simp
    qed
  qed
  moreover have "distinct xs" using ids by (simp only: distinct_map)
  ultimately have "distinct (map (\<lambda>x. n (if i x = j then g x else x)) xs)" by (simp only: distinct_map)
  then show ?thesis by (simp only: map_map comp_def)
qed

lemma CreateConnection_rows: "CreateConnection c d = (r, d') \<Longrightarrow> rows_ok N d \<Longrightarrow> con_valid N c \<Longrightarrow> rows_ok N d'"
  unfolding CreateConnection_def Let_def
  by (erule stmt_rows [where P = "\<lambda>_. True"])
    (auto split: if_splits intro!: rows_connections dest: rows_okE(3) rows_okE(7))

lemma list_all_update: "list_all P xs \<Longrightarrow> (\<And>x. P (f x)) \<Longrightarrow> list_all P (map (\<lambda>x. if q x then f x else x) xs)"
  by (auto simp: list_all_iff)

lemma list_all_filter: "list_all P xs \<Longrightarrow> list_all P (filter Q xs)"
  by (simp add: list_all_iff)

lemma UpdateConnection_rows:
  assumes "UpdateConnection c d = (r, d')" "rows_ok N d" "con_valid N c" "db_ok d"
  shows "rows_ok N d'"
  using assms(1) unfolding UpdateConnection_def Let_def
proof (rule stmt_rows [where P = db_ok, OF _ assms(2) _ assms(4)], goal_cases)
  case (1 a r b)
  let ?cs = "map (\<lambda>x. if con_id x = con_id c
    then c\<lparr>con_config := raw_or_empty_object (con_config c), con_created := con_created x\<rparr> else x) (connections a)"
  show ?case
  proof (cases "con_id c \<notin> set (map con_id (connections a)) \<or>
      list_ex (\<lambda>x. con_id x \<noteq> con_id c \<and> con_name x = con_name c) (connections a)")
    case True
    then show ?thesis using 1(1,2) by (auto split: if_splits)
  next
    case False
    have "distinct (map con_name ?cs)"
    proof (rule distinct_update_key [where m = "con_name c"])
      show "distinct (map con_id (connections a))" using 1(3) by (simp add: db_ok_def)
      show "distinct (map con_name (connections a))" by (rule rows_okE(7) [OF 1(2)])
      show "con_id x = con_id c" if "x \<in> set (connections a)" "con_name x = con_name c" for x
        using False that by (auto simp: list_ex_iff)
    qed simp
    moreover have "list_all (con_valid N) ?cs"
      by (rule list_all_update [OF rows_okE(3) [OF 1(2)]]) (simp add: assms(3))
    ultimately have "rows_ok N (a\<lparr>connections := ?cs\<rparr>)" by (intro rows_connections 1(2))
    then show ?thesis using 1(1) False by simp
  qed
qed simp

lemma CreateStorage_rows: "CreateStorage s d = (r, d') \<Longrightarrow> rows_ok N d \<Longrightarrow> Has Storages (sto_type s) \<Longrightarrow> rows_ok N d'"
  unfolding CreateStorage_def Let_def
  by (erule stmt_rows [where P = "\<lambda>_. True"]) (auto split: if_splits intro!: rows_storages dest: rows_okE(4))

lemma UpdateStorage_rows: "UpdateStorage s d = (r, d') \<Longrightarrow> rows_ok N d \<Longrightarrow> Has Storages (sto_type s) \<Longrightarrow> rows_ok N d'"
  unfolding UpdateStorage_def Let_def
  by (erule stmt_rows [where P = "\<lambda>_. True"])
    (auto split: if_splits intro!: rows_storages list_all_update dest: rows_okE(4))

lemma CreateTask_rows: "CreateTask t d = (r, d') \<Longrightarrow> rows_ok N d \<Longrightarrow> task_valid N d t \<Longrightarrow> rows_ok N d'"
  unfolding CreateTask_def Let_def
  by (erule stmt_rows [where P = "\<lambda>d. task_valid N d t"]) (auto split: if_splits intro!: rows_tasks dest: rows_okE(6))

lemma UpdateTask_rows: "UpdateTask t d = (r, d') \<Longrightarrow> rows_ok N d \<Longrightarrow> task_valid N d t \<Longrightarrow> rows_ok N d'"
  unfolding UpdateTask_def Let_def
  by (erule stmt_rows [where P = "\<lambda>d. task_valid N d t"])
    (auto split: if_splits intro!: rows_tasks list_all_update dest: rows_okE(6))

lemma DeleteConnection_rows: "DeleteConnection i d = (r, d') \<Longrightarrow> rows_ok N d \<Longrightarrow> rows_ok N d'"
  unfolding DeleteConnection_def Let_def
  by (erule stmt_rows [where P = "\<lambda>_. True"]) (auto split: if_splits intro!: rows_connections list_all_filter distinct_map_filter dest: rows_okE(3) rows_okE(7))

lemma DeleteStorage_rows: "DeleteStorage i d = (r, d') \<Longrightarrow> rows_ok N d \<Longrightarrow> rows_ok N d'"
  unfolding DeleteStorage_def Let_def
  by (erule stmt_rows [where P = "\<lambda>_. True"]) (auto split: if_splits intro!: rows_storages list_all_filter dest: rows_okE(4))

lemma cascade_task_rows: "rows_ok N d \<Longrightarrow> rows_ok N (cascade_task i d)"
  by (auto simp: rows_ok_def task_valid_def cascade_task_def list_all_iff)

lemma query_rows: "query what g d = (r, d') \<Longrightarrow> rows_ok N d \<Longrightarrow> rows_ok N d'"
  by (metis query_same same_tables_def rows_ok_faults)

lemma query_row_rows: "query_row what g d = (r, d') \<Longrightarrow> rows_ok N d \<Longrightarrow> rows_ok N d'"
  by (metis query_row_same same_tables_def rows_ok_faults)

lemma DeleteTask_rows: "DeleteTask i d = (r, d') \<Longrightarrow> rows_ok N d \<Longrightarrow> rows_ok N d'"
proof -
  assume run: "DeleteTask i d = (r, d')" and ok: "rows_ok N d"
  let ?q = "query (''delete task '' @ dec i @ '': '' @ ''check active run: '') (\<lambda>d. length (filter (active_for i) (runs d))) d"
  obtain x u where q: "?q = (x, u)" by fastforce
  have u: "rows_ok N u" by (rule query_rows [OF q ok])
  show ?thesis
  proof (cases x)
    case (Inl e)
    then show ?thesis using run q u by (simp add: DeleteTask_def Let_def)
  next
    case (Inr n)
    show ?thesis
    proof (cases "n > 0")
      case True
      then show ?thesis using run q u Inr by (simp add: DeleteTask_def Let_def)
    next
      case False
      then have "stmt (''delete task '' @ dec i @ '': '') (\<lambda>d. if i \<notin> set (map task_id (tasks d)) then (Inl ErrNotFound, d)
          else (Inr (), cascade_task i d)) u = (r, d')"
        using run q Inr by (simp add: DeleteTask_def Let_def)
      then show ?thesis
        by (rule stmt_rows [where P = "\<lambda>_. True"]) (auto split: if_splits intro: u cascade_task_rows)
    qed
  qed
qed

lemma rows_channels:
  assumes "rows_ok N d" "distinct (map ch_id cs)" "distinct (map ch_name cs)" "list_all (chan_valid N) cs"
    and "\<And>t. t \<in> set (tasks d) \<Longrightarrow> set (task_notifiers t) \<subseteq> set (map ch_name cs)"
  shows "rows_ok N (d\<lparr>channels := cs\<rparr>)"
  using assms by (auto simp: rows_ok_def task_valid_def list_all_iff)

lemma rows_channels_tasks:
  assumes "rows_ok N d" "distinct (map ch_id cs)" "distinct (map ch_name cs)" "list_all (chan_valid N) cs"
    and "list_all (task_valid N (d\<lparr>channels := cs\<rparr>)) ts"
  shows "rows_ok N (d\<lparr>channels := cs, tasks := ts\<rparr>)"
  using assms by (simp add: rows_ok_def task_valid_def)

lemma task_channels: "rows_ok N d \<Longrightarrow> t \<in> set (tasks d) \<Longrightarrow> set (task_notifiers t) \<subseteq> set (map ch_name (channels d))"
  by (auto simp: rows_ok_def task_valid_def list_all_iff)

lemma CreateNotifier_rows: "CreateNotifier c d = (r, d') \<Longrightarrow> rows_ok N d \<Longrightarrow> chan_valid N c \<Longrightarrow> rows_ok N d'"
  unfolding CreateNotifier_def Let_def
proof (erule stmt_rows [where P = "\<lambda>_. True"], assumption, goal_cases)
  case (1 a r b)
  note rows = rows_okE [OF 1(4)]
  let ?i = "next_id (map ch_id (channels a))"
  let ?cs = "channels a @ [c\<lparr>ch_id := ?i, ch_config := raw_or_empty_object (ch_config c), ch_created := now_time a\<rparr>]"
  show ?case
  proof (cases "ch_name c \<in> set (map ch_name (channels a))")
    case True
    then show ?thesis using 1(3,4) by simp
  next
    case False
    have "rows_ok N (a\<lparr>channels := ?cs\<rparr>)"
    proof (rule rows_channels [OF 1(4)])
      show "distinct (map ch_id ?cs)" using rows(1) next_id_fresh [of "map ch_id (channels a)"] by simp
      show "distinct (map ch_name ?cs)" using rows(2) False by simp
      show "list_all (chan_valid N) ?cs" using rows(5) 1(2) by simp
      show "set (task_notifiers t) \<subseteq> set (map ch_name ?cs)" if "t \<in> set (tasks a)" for t
        using task_channels [OF 1(4) that] by auto
    qed
    then show ?thesis using 1(3) False by simp
  qed
qed simp_all

text \<open>A renamed channel is renamed in the tasks that name it.\<close>

lemma UpdateNotifier_rows: "UpdateNotifier c d = (r, d') \<Longrightarrow> rows_ok N d \<Longrightarrow> chan_valid N c \<Longrightarrow> rows_ok N d'"
  unfolding UpdateNotifier_def Let_def
proof (erule stmt_rows [where P = "\<lambda>_. True"], assumption, goal_cases)
  case (1 a r b)
  note rows = rows_okE [OF 1(4)]
  let ?put = "\<lambda>x. if ch_id x = ch_id c then c\<lparr>ch_config := raw_or_empty_object (ch_config c), ch_created := ch_created x\<rparr> else x"
  let ?cs = "map ?put (channels a)"
  show ?case
  proof (cases "find (\<lambda>x. ch_id x = ch_id c) (channels a)")
    case None
    then show ?thesis using 1(3,4) by simp
  next
    case (Some old)
    then have old: "old \<in> set (channels a)" "ch_id old = ch_id c" by (auto dest: find_Some_in)
    have one: "x = old" if "x \<in> set (channels a)" "ch_id x = ch_id c" for x
      using distinct_map_eq [OF rows(1), of x old] that old by simp
    show ?thesis
    proof (cases "list_ex (\<lambda>x. ch_id x \<noteq> ch_id c \<and> ch_name x = ch_name c) (channels a)")
      case True
      then show ?thesis using 1(3,4) Some by simp
    next
      case False
      then have free: "ch_id x = ch_id c" if "x \<in> set (channels a)" "ch_name x = ch_name c" for x
        using that by (auto simp: list_ex_iff)
      have ids: "map ch_id ?cs = map ch_id (channels a)" by simp
      have names: "distinct (map ch_name ?cs)"
        by (rule distinct_update_key [OF rows(1,2) free]) simp_all
      have valid: "list_all (chan_valid N) ?cs" using rows(5) 1(2) by (auto simp: list_all_iff)
      have new: "ch_name c \<in> set (map ch_name ?cs)"
      proof -
        have "ch_name (?put old) \<in> set (map ch_name ?cs)" using old(1) by (simp only: set_map image_image) (rule imageI)
        then show ?thesis using old(2) by simp
      qed
      have kept: "n \<in> set (map ch_name ?cs)" if n: "n \<in> set (map ch_name (channels a))" "n \<noteq> ch_name old" for n
      proof -
        from n(1) obtain x where x: "x \<in> set (channels a)" "n = ch_name x" by auto
        have "ch_id x \<noteq> ch_id c" using one [OF x(1)] n(2) x(2) by auto
        moreover have "ch_name (?put x) \<in> set (map ch_name ?cs)" using x(1) by (simp only: set_map image_image) (rule imageI)
        ultimately show ?thesis using x(2) by simp
      qed
      have ok: "rows_ok N (a\<lparr>channels := ?cs, tasks := ts\<rparr>)"
        if "\<And>t. t \<in> set ts \<Longrightarrow> task_valid N (a\<lparr>channels := ?cs\<rparr>) t" for ts
      proof (rule rows_channels_tasks [OF 1(4) _ names valid])
        show "distinct (map ch_id ?cs)" by (simp only: ids rows(1))
        show "list_all (task_valid N (a\<lparr>channels := ?cs\<rparr>)) ts" using that by (simp only: list_all_iff Ball_def) blast
      qed
      have task: "task_valid N a t" if "t \<in> set (tasks a)" for t using rows(6) that by (simp add: list_all_iff)
      show ?thesis
      proof (cases "ch_name old = ch_name c")
        case True
        have all: "set (map ch_name (channels a)) \<subseteq> set (map ch_name ?cs)"
        proof
          fix n assume "n \<in> set (map ch_name (channels a))"
          then show "n \<in> set (map ch_name ?cs)" using kept [of n] new True by (cases "n = ch_name old") simp_all
        qed
        have "rows_ok N (a\<lparr>channels := ?cs\<rparr>)"
        proof (rule rows_channels [OF 1(4) _ names valid])
          show "distinct (map ch_id ?cs)" by (simp only: ids rows(1))
          show "set (task_notifiers t) \<subseteq> set (map ch_name ?cs)" if "t \<in> set (tasks a)" for t
            by (rule subset_trans [OF task_channels [OF 1(4) that] all])
        qed
        then show ?thesis using 1(3) Some False True by simp
      next
        case other: False
        have "task_valid N (a\<lparr>channels := ?cs\<rparr>) (if ch_name old \<in> set (task_notifiers t) then rename_in (ch_name old) (ch_name c) t else t)"
          if t: "t \<in> set (tasks a)" for t
        proof -
          let ?t = "if ch_name old \<in> set (task_notifiers t) then rename_in (ch_name old) (ch_name c) t else t"
          have same: "task_cron ?t = task_cron t" "task_codecs ?t = task_codecs t" "task_retention ?t = task_retention t"
            by (simp_all add: rename_in_def)
          have names: "set (task_notifiers t) \<subseteq> set (map ch_name (channels a))" using task [OF t] by (simp add: task_valid_def)
          have "n \<in> set (map ch_name ?cs)" if n: "n \<in> set (task_notifiers ?t)" for n
          proof (cases "n = ch_name c")
            case True
            then show ?thesis using new by simp
          next
            case False
            then have "n \<in> set (task_notifiers t)" "n \<noteq> ch_name old"
              using n by (auto simp: rename_in_def split: if_splits)
            then show ?thesis using kept names by blast
          qed
          then have "set (task_notifiers ?t) \<subseteq> set (map ch_name (channels (a\<lparr>channels := ?cs\<rparr>)))" by (simp add: subset_iff)
          then show ?thesis using task [OF t] by (simp only: task_valid_def same simp_thms)
        qed
        then have "rows_ok N (a\<lparr>channels := ?cs, tasks := map (\<lambda>t. if ch_name old \<in> set (task_notifiers t)
            then rename_in (ch_name old) (ch_name c) t else t) (tasks a)\<rparr>)"
        proof (intro ok)
          fix t' assume all: "\<And>t. t \<in> set (tasks a) \<Longrightarrow> task_valid N (a\<lparr>channels := ?cs\<rparr>) (if ch_name old \<in> set (task_notifiers t) then rename_in (ch_name old) (ch_name c) t else t)"
            and t': "t' \<in> set (map (\<lambda>t. if ch_name old \<in> set (task_notifiers t)
            then rename_in (ch_name old) (ch_name c) t else t) (tasks a))"
          from t' obtain t where "t \<in> set (tasks a)" "t' = (if ch_name old \<in> set (task_notifiers t) then rename_in (ch_name old) (ch_name c) t else t)"
            by (simp only: set_map) blast
          then show "task_valid N (a\<lparr>channels := ?cs\<rparr>) t'" using all [of t] by (simp only:)
        qed
        then show ?thesis using 1(3) Some False other by simp
      qed
    qed
  qed
qed simp_all

lemma in_notifier_users: "n \<in> set (task_notifiers t) \<Longrightarrow> t \<in> set (tasks d) \<Longrightarrow> notifier_users n d \<noteq> []"
proof -
  assume "n \<in> set (task_notifiers t)" "t \<in> set (tasks d)"
  then have "task_name t \<in> set (notifier_users n d)" by (auto simp: notifier_users_def)
  then show ?thesis by auto
qed

lemma GetNotifier_found:
  assumes "GetNotifier i d = (Inr c, u)"
  shows "same_tables d u" "c \<in> set (channels d)" "ch_id c = i"
proof -
  show "same_tables d u" using assms unfolding GetNotifier_def by (rule query_row_same)
  have "find (\<lambda>c. ch_id c = i) (channels d) = Some c"
    by (rule query_row_ok [OF assms [unfolded GetNotifier_def]]) (simp add: table_fun_def)
  then show "c \<in> set (channels d)" "ch_id c = i" by (auto dest: find_Some_in)
qed

text \<open>A channel that a task names is not deleted.\<close>

lemma DeleteNotifier_rows:
  assumes "DeleteNotifier i d = (r, d')" "rows_ok N d"
  shows "rows_ok N d'"
proof -
  obtain x d1 where g: "GetNotifier i d = (x, d1)" by fastforce
  then have 1: "rows_ok N d1" using assms(2) unfolding GetNotifier_def by (rule query_row_rows)
  show ?thesis
  proof (cases x)
    case (Inl e)
    then show ?thesis using assms(1) g 1 by (simp add: DeleteNotifier_def)
  next
    case (Inr ch)
    obtain y d2 where u: "NotifierUsers (ch_name ch) d1 = (y, d2)" by fastforce
    then have st2: "same_tables d1 d2" unfolding NotifierUsers_def by (rule query_same)
    have 2: "rows_ok N d2" by (rule query_rows [OF u [unfolded NotifierUsers_def] 1])
    note found = GetNotifier_found [OF g [unfolded Inr]]
    show ?thesis
    proof (cases "y = Inr []")
      case True
      have "notifier_users (ch_name ch) d1 = []"
        by (rule query_ok [OF u [unfolded NotifierUsers_def True], symmetric]) (simp add: table_fun_def notifier_users_def)
      then have unused: "ch_name ch \<notin> set (task_notifiers t)" if "t \<in> set (tasks d2)" for t
        using in_notifier_users [of "ch_name ch" t d1] that same_tables_selectors(3) [OF st2] by auto
      have there: "ch \<in> set (channels d2)"
        using found(2) same_tables_selectors(9) [OF found(1)] same_tables_selectors(9) [OF st2] by simp
      have "stmt (''delete notifier '' @ dec i @ '': '') (\<lambda>d. if i \<notin> set (map ch_id (channels d)) then (Inl ErrNotFound, d)
          else (Inr (), d\<lparr>channels := filter (\<lambda>c. ch_id c \<noteq> i) (channels d)\<rparr>)) d2 = (r, d')"
        using assms(1) g u Inr True by (simp add: DeleteNotifier_def)
      then show ?thesis
      proof (rule stmt_rows [where P = "\<lambda>d. channels d = channels d2 \<and> tasks d = tasks d2", OF _ 2], goal_cases)
        case (1 a r b)
        note rows = rows_okE [OF 1(2)]
        have "rows_ok N (a\<lparr>channels := filter (\<lambda>c. ch_id c \<noteq> i) (channels a)\<rparr>)"
        proof (rule rows_channels [OF 1(2)])
          show "set (task_notifiers t) \<subseteq> set (map ch_name (filter (\<lambda>c. ch_id c \<noteq> i) (channels a)))"
            if t: "t \<in> set (tasks a)" for t
          proof
            fix n assume n: "n \<in> set (task_notifiers t)"
            then obtain c where c: "c \<in> set (channels a)" "n = ch_name c"
              using task_channels [OF 1(2) t] by auto
            have "ch_id c \<noteq> i"
            proof
              assume "ch_id c = i"
              then have "c = ch" using distinct_map_eq [OF rows(1), of c ch] c(1) there found(3) 1(3) by simp
              then show False using unused [of t] t n c(2) 1(3) by simp
            qed
            then show "n \<in> set (map ch_name (filter (\<lambda>c. ch_id c \<noteq> i) (channels a)))" using c by simp
          qed
        qed (use rows in \<open>simp_all add: distinct_map_filter list_all_filter\<close>)
        then show ?case using 1(1,2) by (auto split: if_splits)
      qed simp_all
    next
      case False
      then show ?thesis
        using assms(1) g u Inr 2 by (auto simp: DeleteNotifier_def split: sum.splits if_splits)
    qed
  qed
qed

end
