(* ===== verification/SiteRuns.thy ===== *)
theory SiteRuns
  imports SiteSteps
begin

text \<open>
  The catalog under the API: one step per handler, and the steps of the rest of the program, which
  leave the four configured tables as they are. In every state so reached a task can be run with
  the plugins the program has. Handlers run one after the other here; the code does not hold a
  transaction from the checks of a handler to its write.
\<close>

subsection \<open>Handlers that keep the rows\<close>

interpretation serve: server_frame "\<lambda>w w'. served N (wdb w) \<longrightarrow> served N (wdb w')" for N
  by unfold_locales auto

abbreviation serving :: "site \<Rightarrow> world \<Rightarrow> bool" where
  "serving N w \<equiv> served N (wdb w)"

lemma serve_hoare: "serve.keeps N f \<longleftrightarrow> hoare (serving N) f (\<lambda>_. serving N) (serving N)"
proof
  assume k: "serve.keeps N f"
  show "hoare (serving N) f (\<lambda>_. serving N) (serving N)"
    by (rule hoareI) (use serve.keepsD [OF k] in blast)+
next
  assume h: "hoare (serving N) f (\<lambda>_. serving N) (serving N)"
  show "serve.keeps N f"
  proof (rule serve.keepsI, rule impI)
    fix w x w' assume "f w = (x, w')" "serving N w"
    then show "serving N w'" using hoareD_ok [OF h] hoareD_err [OF h] by (cases x) blast+
  qed
qed

lemma serve_on_db:
  assumes "\<And>d r d'. f d = (r, d') \<Longrightarrow> served N d \<Longrightarrow> served N d'"
  shows "serve.keeps N (on_db f)"
  by (rule serve.keepsI) (use assms in \<open>auto elim: on_dbE\<close>)

lemma serve_read:
  assumes "\<And>d r d'. f d = (r, d') \<Longrightarrow> same_tables d d'"
  shows "serve.keeps N (on_db f)"
  by (rule serve_on_db) (use assms served_same in blast)

lemma serve_query: "serve.keeps N (on_db (query what g))" "serve.keeps N (on_db (query_row what h))"
  by (rule serve_read, erule query_same query_row_same)+

lemma serve_quiet: "world_frame.keeps f \<Longrightarrow> serve.keeps N f"
proof (rule serve.keepsI, rule impI)
  fix w x w' assume k: "world_frame.keeps f" and run: "f w = (x, w')" and ok: "serving N w"
  have c: "core (wdb w') = core (wdb w)" using world_frame.keepsD [OF k run] by (simp add: quiet_def)
  note sel = core_selectors [OF c]
  have "rows_ok N (wdb w') = rows_ok N (wdb w)" by (rule rows_ok_cong [OF sel(8) sel(1) sel(2) sel(3)])
  then show "serving N w'" using ok core_db_ok [OF c] by (simp add: served_def)
qed

lemma serve_gets:
  "serve.keeps N (on_db (GetConnection i))" "serve.keeps N (on_db (GetStorage i))" "serve.keeps N (on_db (GetTask i))"
  "serve.keeps N (on_db (GetNotifier i))" "serve.keeps N (on_db (GetArtifact i))" "serve.keeps N (on_db (GetArtifactByRun i))"
  "serve.keeps N (on_db (GetSecretByID i))" "serve.keeps N (on_db ListNotifiers)"
  unfolding GetConnection_def GetStorage_def GetTask_def GetNotifier_def GetArtifact_def GetArtifactByRun_def
    GetSecretByID_def ListNotifiers_def by (rule serve_query)+

lemma serve_stmt:
  assumes "\<And>d r d'. f d = (r, d') \<Longrightarrow> db_ok d \<Longrightarrow> db_ok d'"
    and "\<And>d r d'. f d = (r, d') \<Longrightarrow> rows_ok N d \<Longrightarrow> rows_ok N d'"
  shows "serve.keeps N (on_db f)"
  by (rule serve_on_db) (use assms in \<open>auto simp: served_def\<close>)

lemma rows_stmt_other:
  assumes "stmt what f d = (r, d')" "rows_ok N d"
    and other: "\<And>d r d'. f d = (r, d') \<Longrightarrow> channels d' = channels d \<and> connections d' = connections d \<and> storages d' = storages d \<and> tasks d' = tasks d"
  shows "rows_ok N d'"
proof (rule stmt_rows [OF assms(1,2), where P = "\<lambda>_. True"])
  fix d r d' assume "f d = (r, d')" "rows_ok N d"
  then show "rows_ok N d'" using other rows_ok_cong [of d' d N] by simp
qed simp_all

lemma serve_other:
  "serve.keeps N (on_db (Enqueue i))" "serve.keeps N (on_db (PutSecret s))" "serve.keeps N (on_db (DeleteSecret i))"
proof -
  show "serve.keeps N (on_db (Enqueue i))"
    by (rule serve_stmt, erule Enqueue_ok, assumption, unfold Enqueue_def Let_def, erule rows_stmt_other, assumption)
      (auto simp: insert_run_def Let_def split: if_splits prod.splits sum.splits)
  show "serve.keeps N (on_db (PutSecret s))"
    by (rule serve_stmt, erule PutSecret_ok, assumption, unfold PutSecret_def Let_def, erule rows_stmt_other, assumption)
      (auto split: if_splits)
  show "serve.keeps N (on_db (DeleteSecret i))"
    by (rule serve_stmt, erule DeleteSecret_ok, assumption, unfold DeleteSecret_def Let_def, erule rows_stmt_other, assumption)
      (auto split: if_splits)
qed

lemma serve_deletes:
  "serve.keeps N (on_db (DeleteConnection i))" "serve.keeps N (on_db (DeleteStorage i))"
  "serve.keeps N (on_db (DeleteTask i))" "serve.keeps N (on_db (DeleteNotifier i))"
  by (rule serve_stmt, erule DeleteConnection_ok, assumption, erule DeleteConnection_rows, assumption)
    (rule serve_stmt, erule DeleteStorage_ok, assumption, erule DeleteStorage_rows, assumption,
     rule serve_stmt, erule DeleteTask_ok, assumption, erule DeleteTask_rows, assumption,
     rule serve_stmt, erule DeleteNotifier_ok, assumption, erule DeleteNotifier_rows, assumption)

subsection \<open>What the handlers check before they write\<close>

lemma hoare_given: "(p \<Longrightarrow> hoare P f Q E) \<Longrightarrow> hoare (\<lambda>s. P s \<and> p) f Q E"
  by (auto simp: hoare_def)

lemma serve_create_connection: "con_valid N c \<Longrightarrow> serve.keeps N (on_db (CreateConnection c))"
  by (rule serve_stmt, erule CreateConnection_ok, assumption, erule CreateConnection_rows, assumption, assumption)

lemma serve_update_connection: "con_valid N c \<Longrightarrow> serve.keeps N (on_db (UpdateConnection c))"
  by (rule serve_on_db) (auto simp: served_def intro: UpdateConnection_ok UpdateConnection_rows)

lemma serve_create_storage: "Has Storages (sto_type s) \<Longrightarrow> serve.keeps N (on_db (CreateStorage s))"
  by (rule serve_stmt, erule CreateStorage_ok, assumption, erule CreateStorage_rows, assumption, assumption)

lemma serve_update_storage: "Has Storages (sto_type s) \<Longrightarrow> serve.keeps N (on_db (UpdateStorage s))"
  by (rule serve_stmt, erule UpdateStorage_ok, assumption, erule UpdateStorage_rows, assumption, assumption)

lemma serve_create_notifier: "chan_valid N c \<Longrightarrow> serve.keeps N (on_db (CreateNotifier c))"
  by (rule serve_stmt, erule CreateNotifier_ok, assumption, erule CreateNotifier_rows, assumption, assumption)

lemma serve_update_notifier: "chan_valid N c \<Longrightarrow> serve.keeps N (on_db (UpdateNotifier c))"
  by (rule serve_stmt, erule UpdateNotifier_ok, assumption, erule UpdateNotifier_rows, assumption, assumption)

lemma buildConnection_valid:
  "buildConnection N q i = Inr c \<Longrightarrow> con_valid N c \<and> con_id c = i"
  by (auto simp: buildConnection_def con_valid_def split: if_splits)

text \<open>A handler that goes on with a value whose property it knows.\<close>

lemma serve_go_on_value:
  assumes "hoare (serving N) f (\<lambda>x s. serving N s \<and> V x) (serving N)" "\<And>x. V x \<Longrightarrow> serve.keeps N (g x)"
  shows "serve.keeps N (go_on f g)"
  unfolding serve_hoare
  by (rule hoare_go_on [OF assms(1)], rule hoare_given) (rule assms(2) [unfolded serve_hoare])

lemma serve_pure_value:
  "(\<And>x. r = Inr x \<Longrightarrow> V x) \<Longrightarrow> hoare (serving N) (or_refuse (pure_step r) st) (\<lambda>x s. serving N s \<and> V x) (serving N)"
  by (rule hoare_or_refuse) (auto simp: hoare_def pure_step_def split: sum.split)

lemma serve_storageFromReq:
  "hoare (serving N) (storageFromReq q i) (\<lambda>s w. serving N w \<and> Has Storages (sto_type s)) (serving N)"
  unfolding storageFromReq_def by (intro hoare_if hoare_refuse hoare_answer) auto

lemma all_known_None: "all_known what ok xs = None \<longleftrightarrow> list_all ok xs"
  by (auto simp: all_known_def list_all_iff find_None_iff split: option.split dest: find_Some_in)

lemma serve_notifierFromReq:
  assumes "\<And>c. current = Some c \<Longrightarrow> chan_valid N c"
  shows "hoare (serving N) (notifierFromReq N q i current) (\<lambda>c w. serving N w \<and> chan_valid N c) (serving N)"
proof -
  have known: "list_all ValidEventKind (map kind_text DefaultEventKinds)" by code_simp
  show ?thesis
    unfolding notifierFromReq_def
    by (intro hoare_if hoare_refuse hoare_go_on [where R = "\<lambda>_ s. serving N s \<and>
          all_known ''unknown event kind: '' ValidEventKind (case nr_events q of None \<Rightarrow> [] | Some es \<Rightarrow> es) = None"]
          hoare_check hoare_answer)
      (use assms known in \<open>auto simp: all_known_None chan_valid_def split: option.splits\<close>)
qed

lemma serve_notifierBuilds: "serve.keeps N (notifierBuilds N ch)"
proof (cases "si_notify N")
  case True
  have "world_frame.keeps (\<lambda>w. case Validate (site_notify N) ch w of (e, w) \<Rightarrow> check e bad w)"
  proof (rule world_frame.keepsI)
    fix w x w' assume run: "(case Validate (site_notify N) ch w of (e, w) \<Rightarrow> check e bad w) = (x, w')"
    obtain y u where b: "build (site_notify N) ch w = (y, u)" by fastforce
    from run b have "w' = u"
      by (auto simp: Validate_def check_def answer_def refuse_def split: sum.splits)
    then show "quiet w w'" using world_quiet.build_keeps [OF b [unfolded site_notify_def]] by simp
  qed
  then show ?thesis using True by (simp add: notifierBuilds_def serve_quiet)
next
  case False
  then show ?thesis by (simp add: notifierBuilds_def serve.keeps_answer)
qed

context notify_frame
begin

lemma Test_keeps:
  assumes "Test E ch w = (r, w')"
  shows "R w w'"
proof -
  obtain ev at where T: "Test E ch w =
      (case build E ch w of
         (Inl e, w) \<Rightarrow> (Some e, record_delivery E ev at (ch_name ch) (Some e) w)
       | (Inr n, w) \<Rightarrow>
           (case n ev w of
              (Inl e, w) \<Rightarrow> (Some e, record_delivery E ev at (ch_name ch) (Some e) w)
            | (Inr _, w) \<Rightarrow> (None, record_delivery E ev at (ch_name ch) None w)))"
    unfolding Test_def Let_def by blast
  note T' = T [unfolded assms]
  obtain y u where b: "build E ch w = (y, u)" by fastforce
  note k = build_keeps [OF b]
  show ?thesis
  proof (cases y)
    case (Inl e)
    then have "w' = record_delivery E ev at (ch_name ch) (Some e) u" using T' b by (simp only: prod.case sum.case prod.inject)
    then show ?thesis using record_keeps [OF conjunct1 [OF k]] by (simp only:)
  next
    case (Inr n)
    obtain z v where s: "n ev u = (z, v)" by fastforce
    have "keeps (n ev)" using conjunct2 [OF k] Inr by simp
    then have "R u v" using s by (rule keepsD)
    from chain [OF conjunct1 [OF k] this] have v: "R w v" .
    have "w' = record_delivery E ev at (ch_name ch) (case z of Inl e \<Rightarrow> Some e | Inr _ \<Rightarrow> None) v"
      using T' b Inr s by (cases z) (simp_all only: prod.case sum.case prod.inject)
    then show ?thesis using record_keeps [OF v] by (simp only:)
  qed
qed

end

lemma serve_testNotifier: "serve.keeps N (testNotifier N path)"
proof -
  have t: "world_frame.keeps (\<lambda>w. case Test (site_notify N) ch w of (e, w) \<Rightarrow> answer (map_option err_text e) w)" for ch
    by (rule world_frame.keepsI)
      (auto simp: site_notify_def answer_def split: prod.splits dest: world_quiet.Test_keeps)
  show ?thesis
    unfolding testNotifier_def
    by (intro serve.keeps_handler serve_gets serve_quiet [OF t])
qed

lemma serve_keeps_value: "serve.keeps N f \<Longrightarrow> hoare (serving N) (or_refuse f st) (\<lambda>_. serving N) (serving N)"
  by (rule hoare_or_refuse) (simp only: serve_hoare)

lemma channels_listed:
  "hoare (serving N) (on_db ListNotifiers)
     (\<lambda>cs w. serving N w \<and> set (map ch_name cs) = set (map ch_name (channels (wdb w)))) (serving N)"
proof (rule hoareI)
  fix w cs w' assume ok: "serving N w" and run: "on_db ListNotifiers w = (Inr cs, w')"
  then obtain d where d: "ListNotifiers (wdb w) = (Inr cs, d)" "w' = w\<lparr>wdb := d\<rparr>" by (auto elim: on_dbE)
  have same: "same_tables (wdb w) d" by (rule query_same [OF d(1) [unfolded ListNotifiers_def]])
  have "cs = sort_key ch_id (channels (wdb w))"
    by (rule query_ok [OF d(1) [unfolded ListNotifiers_def]]) (simp add: table_fun_def)
  then show "serving N w' \<and> set (map ch_name cs) = set (map ch_name (channels (wdb w')))"
    using ok d(2) served_same [OF same] same_tables_selectors(9) [OF same] by simp
next
  fix w e w' assume "serving N w" "on_db ListNotifiers w = (Inl e, w')"
  then show "serving N w'" using serve.keepsD [OF serve_gets(8)] by blast
qed

lemma ret_validate_normalized: "ret_validate r = None \<Longrightarrow> ret_validate (ret_normalized r) = None"
  by (cases r) (auto simp: ret_validate_None_iff ret_normalized_def split: option.splits)

lemma hoare_check_given:
  "hoare P (check e st) (\<lambda>_ s. P s \<and> e = None) P"
  by (rule hoare_check) simp_all

lemma serve_taskFromReq:
  "hoare (serving N) (taskFromReq N q i en wd) (\<lambda>t w. serving N w \<and> task_valid N (wdb w) t) (serving N)"
proof -
  let ?cron = "is_ok (ParseCron (si_parse N) (kr_cron q))"
  let ?codecs = "list_all (Has (si_codecs N)) (kr_codecs q)"
  let ?names = "\<lambda>w. set (kr_notifiers q) \<subseteq> set (map ch_name (channels (wdb w)))"
  note keeps = serve_keeps_value [OF serve_gets(1)] serve_keeps_value [OF serve_gets(2)]
  have chans: "hoare (serving N) (or_refuse (on_db ListNotifiers) internal)
      (\<lambda>cs w. serving N w \<and> set (map ch_name cs) = set (map ch_name (channels (wdb w)))) (serving N)"
    by (rule hoare_or_refuse [OF channels_listed])
  have names: "hoare (\<lambda>w. serving N w \<and> set (map ch_name cs) = set (map ch_name (channels (wdb w))))
      (check (all_known ''unknown notifier channel: '' (\<lambda>n. n \<in> set (map ch_name cs)) (kr_notifiers q)) bad)
      (\<lambda>_ w. serving N w \<and> ?names w) (serving N)" for cs
    by (rule hoare_check) (auto simp: all_known_None list_all_iff)
  have known: "hoare (serving N) (check (all_known ''unknown codec: '' (Has (si_codecs N)) (kr_codecs q)) bad)
      (\<lambda>_ w. serving N w \<and> ?codecs) (serving N)"
    by (rule hoare_check) (simp_all add: all_known_None)
  have ret: "hoare (\<lambda>w. serving N w \<and> ?names w) (check (ret_validate (kr_retention q)) st)
      (\<lambda>_ w. (serving N w \<and> ?names w) \<and> ret_validate (kr_retention q) = None) (serving N)" for st
    by (rule hoare_check) simp_all
  have dog: "hoare (\<lambda>w. serving N w \<and> ?names w) (or_refuse (pure_step (watchdog_of a b)) bad)
      (\<lambda>_ w. serving N w \<and> ?names w) (serving N)" for a b
    by (rule hoare_or_refuse) (simp add: hoare_def pure_step_def split: sum.split)
  show ?thesis
    unfolding taskFromReq_def
  proof (rule hoare_if, rule hoare_refuse, assumption,
      rule hoare_go_on [OF serve_pure_value [where V = "\<lambda>_. ?cron"]], simp add: is_ok_def, rule hoare_given,
      rule hoare_go_on [OF keeps(1)], rule hoare_go_on [where R = "\<lambda>_. serving N", OF hoare_check], assumption, assumption,
      rule hoare_go_on [OF keeps(2)], rule hoare_go_on [OF known], rule hoare_given,
      rule hoare_go_on [OF chans], rule hoare_go_on [OF names], rule hoare_go_on [OF ret], rule hoare_given,
      rule hoare_go_on [OF dog], rule hoare_answer, goal_cases)
    case (1 u conn v sto w cs x y z s)
    then show ?case by (simp add: task_valid_def ret_validate_normalized)
  qed
qed

subsection \<open>Every handler keeps the rows\<close>

lemma serve_connections:
  "serve.keeps N (createConnection N mode b)" "serve.keeps N (updateConnection N path b)"
proof -
  have built: "hoare (serving N) (or_refuse (pure_step (buildConnection N q i)) bad)
      (\<lambda>c w. serving N w \<and> con_valid N c) (serving N)" for q i
    by (rule serve_pure_value) (simp add: buildConnection_valid)
  show "serve.keeps N (createConnection N mode b)"
    unfolding createConnection_def
    by (intro serve.keeps_handler serve_go_on_value [OF built] serve_create_connection) simp
  show "serve.keeps N (updateConnection N path b)"
    unfolding updateConnection_def Let_def
    by (intro serve.keeps_handler serve_gets serve_go_on_value [OF built] serve_update_connection)
qed

lemma serve_storages: "serve.keeps N (createStorage b)" "serve.keeps N (updateStorage path b)"
  unfolding createStorage_def updateStorage_def Let_def
  by (intro serve.keeps_handler serve_gets serve_go_on_value [OF serve_storageFromReq]
      serve_create_storage serve_update_storage; assumption)+

lemma serve_put_task:
  "hoare (\<lambda>w. serving N w \<and> task_valid N (wdb w) t) (on_db (CreateTask t)) (\<lambda>_. serving N) (serving N)"
  "hoare (\<lambda>w. serving N w \<and> task_valid N (wdb w) t) (on_db (UpdateTask t)) (\<lambda>_. serving N) (serving N)"
  by (rule hoareI; auto simp: served_def elim!: on_dbE intro: CreateTask_ok UpdateTask_ok CreateTask_rows UpdateTask_rows)+

lemma serve_tasks: "serve.keeps N (createTask N b)" "serve.keeps N (updateTask N path b)"
proof -
  have c: "serve.keeps N (go_on (taskFromReq N q i en wd) (\<lambda>t. or_refuse (on_db (CreateTask t)) bad))" for q i en wd
    unfolding serve_hoare by (rule hoare_go_on [OF serve_taskFromReq], rule hoare_or_refuse) (rule serve_put_task)
  have u: "serve.keeps N (go_on (taskFromReq N q i en wd) (\<lambda>t. go_on (or_refuse (on_db (UpdateTask t)) st) (\<lambda>_. answer i)))"
    for q i en wd st
    unfolding serve_hoare
    by (rule hoare_go_on [OF serve_taskFromReq], rule hoare_go_on, rule hoare_or_refuse, rule serve_put_task)
      (rule hoare_answer)
  show "serve.keeps N (createTask N b)"
    unfolding createTask_def by (rule serve.keeps_go_on, rule serve.keeps_body, rule c)
  show "serve.keeps N (updateTask N path b)"
    unfolding updateTask_def
    by (intro serve.keeps_go_on serve.keeps_body serve.keeps_or_refuse serve_gets u)
qed

lemma serve_delete_result: "serve.keeps N (writeDeleteResult entity reason r)"
  unfolding writeDeleteResult_def by (intro serve.keeps_handler world_frame.keeps_pure) (simp_all add: serve.keeps_def)

lemma serve_delete_handlers:
  "serve.keeps N (deleteConnection path)" "serve.keeps N (deleteStorage path)" "serve.keeps N (deleteTask path)"
  "serve.keeps N (deleteNotifier path)"
  unfolding deleteConnection_def deleteStorage_def deleteTask_def deleteNotifier_def
  by (intro serve.keeps_go_on serve.keeps_body serve.keeps_call serve.keeps_or_refuse serve_deletes serve_delete_result)+

lemma serve_secrets: "serve.keeps N (createSecret N b)" "serve.keeps N (deleteSecret path)"
proof -
  show "serve.keeps N (createSecret N b)"
    unfolding createSecret_def by (intro serve.keeps_handler serve_other)
  have refs: "serve.keeps N (on_db (SecretRefs name))" for name
    by (rule serve_read)
      (auto simp: SecretRefs_def and_then_def with_state_def pure_step_def ListConnections_def ListStorages_def ListNotifiers_def
        split: prod.splits sum.splits dest!: query_same intro: same_tables_trans)
  show "serve.keeps N (deleteSecret path)"
    unfolding deleteSecret_def
    by (intro serve.keeps_go_on serve.keeps_body serve.keeps_or_refuse serve_gets refs serve.keeps_if serve.keeps_call
        serve_other serve_delete_result) (simp add: serve.keeps_def)
qed

lemma serve_notifiers: "serve.keeps N (createNotifier N b)" "serve.keeps N (updateNotifier N admin path b)"
proof -
  show "serve.keeps N (createNotifier N b)"
    unfolding createNotifier_def
    by (intro serve.keeps_go_on serve.keeps_body serve_go_on_value [OF serve_notifierFromReq] serve_notifierBuilds
        serve.keeps_or_refuse serve_create_notifier) simp_all
  have found: "hoare (serving N) (or_refuse (on_db (GetNotifier i)) st) (\<lambda>c w. serving N w \<and> chan_valid N c) (serving N)" for i st
  proof (rule hoare_or_refuse, rule hoareI)
    fix w c w' assume ok: "serving N w" and run: "on_db (GetNotifier i) w = (Inr c, w')"
    then obtain d where d: "GetNotifier i (wdb w) = (Inr c, d)" by (auto elim: on_dbE)
    have "chan_valid N c"
      using GetNotifier_found(2) [OF d] rows_okE(5) [of N "wdb w"] ok by (simp add: served_def list_all_iff)
    then show "serving N w' \<and> chan_valid N c" using serve.keepsD [OF serve_gets(4) run] ok by blast
  next
    fix w e w' assume "serving N w" "on_db (GetNotifier i) w = (Inl e, w')"
    then show "serving N w'" using serve.keepsD [OF serve_gets(4)] by blast
  qed
  have patch: "serve.keeps N (notifierPatchAllowed N admin q c)" for q c
    unfolding notifierPatchAllowed_def Let_def by (intro serve.keeps_if serve.keeps_answer serve.keeps_refuse)
  show "serve.keeps N (updateNotifier N admin path b)"
    unfolding updateNotifier_def
    by (intro serve.keeps_go_on [OF serve.keeps_body(3)] serve_go_on_value [OF found] serve.keeps_go_on [OF serve.keeps_body(2)]
        serve.keeps_go_on [OF patch] serve_go_on_value [OF serve_notifierFromReq] serve.keeps_go_on [OF serve_notifierBuilds]
        serve.keeps_go_on serve.keeps_or_refuse serve_update_notifier serve.keeps_answer) simp_all
qed

lemma serve_runs: "serve.keeps N (runNow path)" "serve.keeps N (restoreHint M path)"
  unfolding runNow_def restoreHint_def
  by (intro serve.keeps_go_on serve.keeps_body serve.keeps_or_refuse serve_gets serve_other serve.keeps_pure_step serve.keeps_answer)+

lemma serve_downloads:
  "serve.keeps N (downloadArtifact M path)" "serve.keeps N (downloadRunArtifact M path)"
proof -
  have opened: "serve.keeps N (on_db (OpenSecret box ref))" for box ref
    by (rule serve_read) (rule OpenSecret_same)
  have bytes: "serve.keeps N (read key)" if "Create Readers t cfg = Inr read" for t cfg read key
    using that
    by (cases "New cfg")
      (auto simp: Readers_def Register_def NewRegistry_def Create_def serve.keeps_def on_disk_def
        split: if_splits prod.split option.splits sum.splits)
  have read: "serve.keeps N (go_on (or_refuse (pure_step (Create Readers t cfg)) st) (\<lambda>read. go_on (or_refuse (read key) su) g))"
    if "\<And>x. serve.keeps N (g x)" for t cfg st key su and g :: "string \<Rightarrow> (world, download) handler"
  proof (rule serve_go_on_value)
    show "hoare (serving N) (or_refuse (pure_step (Create Readers t cfg)) st)
        (\<lambda>read w. serving N w \<and> (\<forall>key. serve.keeps N (read key))) (serving N)"
      by (rule serve_pure_value) (use bytes in blast)
    show "serve.keeps N (go_on (or_refuse (read key) su) g)" if "\<forall>key. serve.keeps N (read key)" for read
      using that \<open>\<And>x. serve.keeps N (g x)\<close> by (intro serve.keeps_go_on serve.keeps_or_refuse) simp_all
  qed
  have object: "serve.keeps N (downloadArtifactObject M found)" for found
    unfolding downloadArtifactObject_def
    by (intro serve.keeps_go_on [OF serve.keeps_or_refuse] serve.keeps_pure_step serve_gets serve.Resolve_keeps opened read
        serve.keeps_answer)
  show "serve.keeps N (downloadArtifact M path)" "serve.keeps N (downloadRunArtifact M path)"
    unfolding downloadArtifact_def downloadRunArtifact_def
    by (intro serve.keeps_go_on serve.keeps_body serve.keeps_call serve_gets object)+
qed

subsection \<open>The steps\<close>

inductive site_step :: "site \<Rightarrow> world \<Rightarrow> world \<Rightarrow> bool" for N where
  create_secret: "createSecret N sb w = (r, w') \<Longrightarrow> site_step N w w'"
| delete_secret: "deleteSecret path w = (r, w') \<Longrightarrow> site_step N w w'"
| create_connection: "createConnection N mode cb w = (r, w') \<Longrightarrow> site_step N w w'"
| update_connection: "updateConnection N path cb w = (r, w') \<Longrightarrow> site_step N w w'"
| delete_connection: "deleteConnection path w = (r, w') \<Longrightarrow> site_step N w w'"
| create_storage: "createStorage tb w = (r, w') \<Longrightarrow> site_step N w w'"
| update_storage: "updateStorage path tb w = (r, w') \<Longrightarrow> site_step N w w'"
| delete_storage: "deleteStorage path w = (r, w') \<Longrightarrow> site_step N w w'"
| create_task: "createTask N kb w = (r, w') \<Longrightarrow> site_step N w w'"
| update_task: "updateTask N path kb w = (r, w') \<Longrightarrow> site_step N w w'"
| delete_task: "deleteTask path w = (r, w') \<Longrightarrow> site_step N w w'"
| create_notifier: "createNotifier N nb w = (r, w') \<Longrightarrow> site_step N w w'"
| update_notifier: "updateNotifier N admin path nb w = (r, w') \<Longrightarrow> site_step N w w'"
| delete_notifier: "deleteNotifier path w = (r, w') \<Longrightarrow> site_step N w w'"
| test_notifier: "testNotifier N path w = (r, w') \<Longrightarrow> site_step N w w'"
| run_now: "runNow path w = (r, w') \<Longrightarrow> site_step N w w'"
| hint: "restoreHint N path w = (h, w') \<Longrightarrow> site_step N w w'"
| download: "downloadArtifact N path w = (f, w') \<Longrightarrow> site_step N w w'"
| download_run: "downloadRunArtifact N path w = (f, w') \<Longrightarrow> site_step N w w'"
| elsewhere: "store_step (wdb w) (wdb w') \<Longrightarrow> channels (wdb w') = channels (wdb w) \<Longrightarrow>
    connections (wdb w') = connections (wdb w) \<Longrightarrow> storages (wdb w') = storages (wdb w) \<Longrightarrow>
    tasks (wdb w') = tasks (wdb w) \<Longrightarrow> site_step N w w'"

inductive site_reach :: "site \<Rightarrow> world \<Rightarrow> bool" for N where
  start: "wdb w = empty_db t fs \<Longrightarrow> site_reach N w"
| step: "site_reach N w \<Longrightarrow> site_step N w w' \<Longrightarrow> site_reach N w'"

lemmas serve_handlers = serve_secrets serve_connections serve_storages serve_tasks serve_notifiers
  serve_delete_handlers serve_testNotifier serve_runs serve_downloads

lemma serve_step: "f w = (r, w') \<Longrightarrow> serving N w \<Longrightarrow> serve.keeps N f \<Longrightarrow> serving N w'"
  by (rule mp [OF serve.keepsD])

lemma site_step_served: "site_step N w w' \<Longrightarrow> serving N w \<Longrightarrow> serving N w'"
proof (induction rule: site_step.induct)
  case (elsewhere w w')
  then have "db_ok (wdb w')" using store_step_ok by (simp add: served_def)
  moreover have "rows_ok N (wdb w') = rows_ok N (wdb w)" by (rule rows_ok_cong) fact+
  ultimately show ?case using elsewhere by (simp add: served_def)
qed (erule serve_step, assumption, rule serve_handlers)+

lemma empty_db_served: "served N (empty_db t fs)"
  using reachable_db_ok [OF reachable_db.start] by (simp add: served_def rows_ok_def empty_db_def)

lemma site_reach_served: "site_reach N w \<Longrightarrow> serving N w"
  by (induction rule: site_reach.induct) (simp_all add: empty_db_served site_step_served)

lemma task_connection_there:
  "served N d \<Longrightarrow> t \<in> set (tasks d) \<Longrightarrow>
   \<exists>c \<in> set (connections d). con_id c = task_connection t \<and> con_valid N c"
  using db_ok_refs [of d t] rows_okE(3) [of N d] by (auto simp: served_def task_refs_ok_def list_all_iff)

lemma task_storage_there:
  "served N d \<Longrightarrow> t \<in> set (tasks d) \<Longrightarrow>
   \<exists>s \<in> set (storages d). sto_id s = task_storage t \<and> Has Storages (sto_type s)"
  using db_ok_refs [of d t] rows_okE(4) [of N d] by (auto simp: served_def task_refs_ok_def list_all_iff)

lemma task_channel_there:
  "served N d \<Longrightarrow> t \<in> set (tasks d) \<Longrightarrow> n \<in> set (task_notifiers t) \<Longrightarrow>
   \<exists>c \<in> set (channels d). ch_name c = n \<and> Has (si_notifiers N) (ch_type c)"
  using task_channels [of N d t] rows_okE(5) [of N d] by (fastforce simp: served_def chan_valid_def list_all_iff)

lemma task_fields_valid:
  "served N d \<Longrightarrow> t \<in> set (tasks d) \<Longrightarrow>
   is_ok (ParseCron (si_parse N) (task_cron t)) \<and> list_all (Has (si_codecs N)) (task_codecs t) \<and>
   ret_validate (task_retention t) = None"
  using rows_okE(6) [of N d] by (auto simp: served_def task_valid_def list_all_iff)


subsection \<open>A site\<close>

definition known :: "string list \<Rightarrow> 'p \<Rightarrow> 'p registry" where
  "known keys p = \<lparr>reg_kind = ''plugin'', reg_m = (\<lambda>k. if k \<in> set keys then Some (\<lambda>_. Inr p) else None), reg_keys = keys\<rparr>"

definition sample_site :: site where
  "sample_site = \<lparr>si_connectors = known [''direct'', ''ssh-tunnel''] (), si_dumpers = known [''postgres''] (\<lambda>_. ''pg_restore''),
     si_codecs = known [''gzip''] (), si_notifiers = known [''telegram''] (), si_parse = sample_parser, si_tool = (\<lambda>_. None),
     si_seal = None, si_open = None, si_accepts = (\<lambda>_ _. None), si_notify = True, si_number = Some\<rparr>"

definition sample_connection_req :: connection_req where
  "sample_connection_req = \<lparr>cr_name = ''pg'', cr_engine = ''postgres'', cr_type = ''ssh-tunnel'',
     cr_config = Raw (JObj [(''host'', JStr ''db''), (''password'', JStr ''pw'')]), cr_user = ''u'', cr_secret_ref = []\<rparr>"

definition sample_storage_req :: storage_req where
  "sample_storage_req = \<lparr>tr_name = ''disk'', tr_type = ''localfs'', tr_config = Raw (JObj [(''root'', JStr ''/srv'')]), tr_secret_ref = []\<rparr>"

definition sample_notifier_req :: notifier_req where
  "sample_notifier_req = \<lparr>nr_name = ''ops'', nr_type = ''telegram'', nr_config = Raw (JObj [(''token'', JStr ''t''), (''chat_id'', JNum ''7'')]),
     nr_events = None, nr_enabled = None\<rparr>"

definition sample_task_req :: task_req where
  "sample_task_req = \<lparr>kr_name = ''nightly'', kr_connection = 1, kr_storage = 1, kr_opts = raw_empty, kr_codecs = [''gzip''],
     kr_cron = ''0 3 * * *'', kr_retention = \<lparr>keep_last = 3, ret_gfs = None\<rparr>, kr_notifiers = [''ops''], kr_enabled = None,
     kr_retries = 1, kr_timeout = 60, kr_watchdog = None\<rparr>"

definition bare_world :: world where
  "bare_world = \<lparr>wdb = empty_db 0 [], wdisk = \<lparr>dk_files = [], dk_dirs = [], dk_locked = [], dk_clock = 0, dk_faults = []\<rparr>, outbox = [], net_faults = []\<rparr>"

definition site_world :: world where
  "site_world =
     snd (createTask sample_site (Body sample_task_req)
     (snd (createNotifier sample_site (Body sample_notifier_req)
     (snd (createStorage (Body sample_storage_req)
     (snd (createConnection sample_site ''tofu'' (Body sample_connection_req) bare_world)))))))"

lemma site_world_reached: "site_reach sample_site site_world"
proof -
  let ?a = "snd (createConnection sample_site ''tofu'' (Body sample_connection_req) bare_world)"
  let ?b = "snd (createStorage (Body sample_storage_req) ?a)"
  let ?c = "snd (createNotifier sample_site (Body sample_notifier_req) ?b)"
  have 0: "site_reach sample_site bare_world" by (rule site_reach.start) (simp add: bare_world_def)
  have a: "site_reach sample_site ?a" by (rule site_reach.step [OF 0 site_step.create_connection]) (rule prod.collapse [symmetric])
  have b: "site_reach sample_site ?b" by (rule site_reach.step [OF a site_step.create_storage]) (rule prod.collapse [symmetric])
  have c: "site_reach sample_site ?c" by (rule site_reach.step [OF b site_step.create_notifier]) (rule prod.collapse [symmetric])
  show ?thesis
    unfolding site_world_def by (rule site_reach.step [OF c site_step.create_task]) (rule prod.collapse [symmetric])
qed

lemma site_world_task: "map task_notifiers (tasks (wdb site_world)) = [[''ops'']]"
  by code_simp


end
