(* ===== verification/Edits.thy ===== *)
theory Edits
  imports SiteRuns
begin

text \<open>
  What an edit through the API can change: a masked listing sent back, the same when the stored row
  could not be read, and what an operator may send for a channel.
\<close>

subsection \<open>Sending back what was shown\<close>

text \<open>The request a client makes of a listed row: every field as shown, the config masked.\<close>

definition shown_connection :: "connection \<Rightarrow> connection_req" where
  "shown_connection c = \<lparr>cr_name = con_name c, cr_engine = con_engine c, cr_type = con_type c,
     cr_config = maskSecrets (con_config c), cr_user = con_user c, cr_secret_ref = con_secret_ref c\<rparr>"

lemma find_by_key: "distinct (map f xs) \<Longrightarrow> x \<in> set xs \<Longrightarrow> find (\<lambda>y. f y = f x) xs = Some x"
  by (induction xs) auto

lemma update_with_itself:
  assumes "distinct (map f xs)" "x \<in> set xs" "\<And>y. f y = f x \<Longrightarrow> y \<in> set xs \<Longrightarrow> g y = y"
  shows "map (\<lambda>y. if f y = f x then g y else y) xs = xs"
  by (rule map_idI) (use assms(3) in simp)

lemma unmask_shown: "keys_distinct v \<Longrightarrow> unmaskSecrets (maskSecrets (Raw v)) (Raw v) = Raw v"
  using unmask_mask(1) [of v] by (simp add: unmaskSecrets_def maskSecrets_def raw_empty_def)

lemma buildConnection_shown:
  "con_valid N c \<Longrightarrow> buildConnection N (shown_connection c\<lparr>cr_config := cfg\<rparr>) (con_id c) = Inr (c\<lparr>con_config := cfg, con_created := 0\<rparr>)"
  by (simp add: con_valid_def buildConnection_def shown_connection_def)

text \<open>The row that an update of a connection writes, when nothing fails.\<close>

lemma UpdateConnection_row:
  assumes "served N d" "faults d = []" "c \<in> set (connections d)"
  shows "UpdateConnection (c\<lparr>con_config := cfg, con_created := 0\<rparr>) d =
    (Inr (), d\<lparr>connections := map (\<lambda>x. if con_id x = con_id c then c\<lparr>con_config := raw_or_empty_object cfg\<rparr> else x) (connections d)\<rparr>)"
proof -
  have ids: "distinct (map con_id (connections d))" and names: "distinct (map con_name (connections d))"
    using assms(1) by (simp_all add: served_def db_ok_def rows_ok_def)
  have one: "x = c" if "x \<in> set (connections d)" "con_id x = con_id c" for x
    using distinct_map_eq [OF ids that(1) assms(3)] that(2) by simp
  have "\<not> list_ex (\<lambda>x. con_id x \<noteq> con_id c \<and> con_name x = con_name c) (connections d)"
    using distinct_map_eq [OF names _ assms(3)] by (auto simp: list_ex_iff)
  moreover have "con_id c \<in> con_id ` set (connections d)" using assms(3) by simp
  moreover have "map (\<lambda>x. if con_id x = con_id c
      then c\<lparr>con_config := cfg, con_created := 0, con_config := raw_or_empty_object (con_config (c\<lparr>con_config := cfg, con_created := 0\<rparr>)),
        con_created := con_created x\<rparr> else x) (connections d) =
    map (\<lambda>x. if con_id x = con_id c then c\<lparr>con_config := raw_or_empty_object cfg\<rparr> else x) (connections d)"
    by (rule map_cong [OF refl]) (auto dest: one)
  ultimately show ?thesis
    unfolding UpdateConnection_def Let_def using assms(2) by (simp del: map_eq_conv)
qed

lemma update_shown:
  assumes "served N (wdb w)" "faults (wdb w) = []" "c \<in> set (connections (wdb w))" "con_config c = Raw v" "keys_distinct v"
  shows "updateConnection N (Some (con_id c)) (Body (shown_connection c)) w = (Inr (con_id c), w)"
proof -
  have ids: "distinct (map con_id (connections (wdb w)))" and valid: "con_valid N c"
    using assms(1,3) by (simp_all add: served_def db_ok_def rows_ok_def list_all_iff)
  have get: "on_db (GetConnection (con_id c)) w = (Inr c, w)"
    using assms(2) find_by_key [OF ids assms(3)] by (simp add: on_db_def GetConnection_def query_row_def)
  have same: "map (\<lambda>x. if con_id x = con_id c then c\<lparr>con_config := raw_or_empty_object (Raw v)\<rparr> else x) (connections (wdb w)) = connections (wdb w)"
    by (rule update_with_itself [OF ids assms(3)])
      (use distinct_map_eq [OF ids _ assms(3)] assms(4) in \<open>force simp: raw_or_empty_object_def raw_empty_def\<close>)
  have put: "on_db (UpdateConnection (c\<lparr>con_config := Raw v, con_created := 0\<rparr>)) w = (Inr (), w)"
    unfolding on_db_def UpdateConnection_row [OF assms(1-3)] same by simp
  have cfg: "unmaskSecrets (cr_config (shown_connection c)) (con_config c) = Raw v"
    using unmask_shown [OF assms(5)] assms(4) by (simp add: shown_connection_def)
  show ?thesis
    unfolding updateConnection_def
    by (simp add: go_on_def pathID_def decode_def answer_def call_def get Let_def cfg or_refuse_def pure_step_def
        buildConnection_shown [OF valid] put)
qed


lemma site_world_connection:
  "map con_config (connections (wdb site_world)) =
     [Raw (JObj [(''host'', JStr ''db''), (''host_key_mode'', JStr ''tofu''), (''password'', JStr ''pw'')])]"
  "faults (wdb site_world) = []"
  by code_simp+


text \<open>
  C18: The stored row is read to undo the masking, and an error of that read is passed over: then
  what is saved is the listing itself, and the mask replaces every credential of the connection.
\<close>

theorem unread_row_stores_mask:
  assumes "site_reach N w" "faults (wdb w) = [True]" "c \<in> set (connections (wdb w))" "con_config c = Raw v"
  shows "updateConnection N (Some (con_id c)) (Body (shown_connection c)) w =
    (Inr (con_id c), w\<lparr>wdb := (wdb w)\<lparr>faults := [], connections :=
       map (\<lambda>x. if con_id x = con_id c then c\<lparr>con_config := Raw (maskValue v)\<rparr> else x) (connections (wdb w))\<rparr>\<rparr>)"
proof -
  let ?d = "(wdb w)\<lparr>faults := []\<rparr>"
  have ok: "served N (wdb w)" by (rule site_reach_served) fact
  have d: "served N ?d" using ok by (simp add: served_def)
  have valid: "con_valid N c" using ok assms(3) by (simp add: served_def rows_ok_def list_all_iff)
  have get: "on_db (GetConnection (con_id c)) w = (Inl (Wrap ''scan connection: '' db_error), w\<lparr>wdb := ?d\<rparr>)"
    using assms(2) by (simp add: on_db_def GetConnection_def query_row_def stmt_def)
  have c: "c \<in> set (connections ?d)" using assms(3) by simp
  have req: "shown_connection c = shown_connection c\<lparr>cr_config := Raw (maskValue v)\<rparr>"
    using assms(4) by (simp add: shown_connection_def maskSecrets_def raw_empty_def)
  have cfg: "raw_or_empty_object (Raw (maskValue v)) = Raw (maskValue v)"
    by (simp add: raw_or_empty_object_def raw_empty_def)
  have put: "on_db (UpdateConnection (c\<lparr>con_config := Raw (maskValue v), con_created := 0\<rparr>)) (w\<lparr>wdb := ?d\<rparr>) =
      (Inr (), w\<lparr>wdb := ?d\<lparr>connections :=
       map (\<lambda>x. if con_id x = con_id c then c\<lparr>con_config := Raw (maskValue v)\<rparr> else x) (connections (wdb w))\<rparr>\<rparr>)"
    using UpdateConnection_row [OF d _ c, of "Raw (maskValue v)"] by (simp add: on_db_def cfg)
  have built: "buildConnection N (shown_connection c) (con_id c) = Inr (c\<lparr>con_config := Raw (maskValue v), con_created := 0\<rparr>)"
    by (subst req) (rule buildConnection_shown [OF valid])
  show ?thesis
    unfolding updateConnection_def
    by (simp add: go_on_def pathID_def decode_def answer_def call_def get Let_def or_refuse_def pure_step_def built put)
qed

definition unread_world :: world where
  "unread_world = site_world\<lparr>wdb := (wdb site_world)\<lparr>faults := [True]\<rparr>\<rparr>"

lemma unread_world_reached: "site_reach sample_site unread_world"
proof (rule site_reach.step [OF site_world_reached site_step.elsewhere])
  show "store_step (wdb site_world) (wdb unread_world)"
    by (rule store_step.read) (simp add: unread_world_def)
qed (simp_all add: unread_world_def)

theorem unread_row_stores_mask_witness:
  "\<exists>c. connections (wdb unread_world) = [c] \<and> maskSecrets (con_config c) \<noteq> con_config c \<and>
     map con_config (connections (wdb (snd (updateConnection sample_site (Some (con_id c)) (Body (shown_connection c)) unread_world)))) =
       [maskSecrets (con_config c)]"
proof -
  obtain c v where c: "connections (wdb unread_world) = [c]" "con_config c = Raw v"
    and v: "v = JObj [(''host'', JStr ''db''), (''host_key_mode'', JStr ''tofu''), (''password'', JStr ''pw'')]"
    using site_world_connection(1) by (cases "connections (wdb site_world)") (auto simp: unread_world_def)
  have f: "faults (wdb unread_world) = [True]" by (simp add: unread_world_def)
  have "c \<in> set (connections (wdb unread_world))" using c by simp
  from unread_row_stores_mask [OF unread_world_reached f this c(2)]
  have "map con_config (connections (wdb (snd (updateConnection sample_site (Some (con_id c)) (Body (shown_connection c)) unread_world)))) =
      [Raw (maskValue v)]"
    using c(1) by simp
  moreover have "maskSecrets (con_config c) = Raw (maskValue v)" using c(2) by (simp add: maskSecrets_def raw_empty_def)
  moreover have "Raw (maskValue v) \<noteq> con_config c" unfolding c(2) v by code_simp
  ultimately show ?thesis using c(1) by metis
qed

subsection \<open>What an operator may change of a channel\<close>

definition identity :: "site \<Rightarrow> channel \<Rightarrow> rowid \<times> string \<times> string \<times> json option" where
  "identity N c = (ch_id c, ch_name c, ch_type c, norm_config (si_number N) (ch_config c))"

lemma norm_config_empty: "norm_config fl (raw_or_empty_object r) = norm_config fl r"
  by (simp add: raw_or_empty_object_def norm_config_def raw_empty_def as_map_def)

lemma UpdateNotifier_identity:
  assumes "UpdateNotifier ch d = (r, d')" "distinct (map ch_id (channels d))" "c \<in> set (channels d)" "identity N ch = identity N c"
  shows "map (identity N) (channels d') = map (identity N) (channels d)"
  using assms(1) unfolding UpdateNotifier_def Let_def
proof (cases rule: stmt_cases)
  case (fault bs)
  then show ?thesis by simp
next
  case (ran bs)
  let ?cs = "map (\<lambda>x. if ch_id x = ch_id ch
    then ch\<lparr>ch_config := raw_or_empty_object (ch_config ch), ch_created := ch_created x\<rparr> else x) (channels d)"
  have "identity N (if ch_id x = ch_id ch then ch\<lparr>ch_config := raw_or_empty_object (ch_config ch), ch_created := ch_created x\<rparr> else x) = identity N x"
    if x: "x \<in> set (channels d)" for x
  proof (cases "ch_id x = ch_id ch")
    case True
    then have "ch_id x = ch_id c" using assms(4) by (simp add: identity_def)
    then have "x = c" by (rule distinct_map_eq [OF assms(2) x assms(3)])
    then show ?thesis using True assms(4) by (simp add: identity_def norm_config_empty)
  qed simp
  then have same: "map (identity N) ?cs = map (identity N) (channels d)" by simp
  have "channels d' = channels d \<or> channels d' = ?cs"
    using ran by (auto split: option.splits if_splits)
  then show ?thesis using same by (elim disjE) simp_all
qed

lemma operator_patch:
  assumes "notifierPatchAllowed N False q c w = (Inr x, w')"
  shows "nr_name q = ch_name c" "nr_type q = ch_type c"
    "nr_config q = raw_empty \<or> norm_config (si_number N) (unmaskSecrets (nr_config q) (ch_config c)) = norm_config (si_number N) (ch_config c)"
  using assms by (auto simp: notifierPatchAllowed_def Let_def refuse_def sameJSON_def split: if_splits)

lemma notifierFromReq_identity:
  assumes "notifierFromReq N q i (Some c) w = (Inr ch, w')" "ch_id c = i"
    and "nr_name q = ch_name c" "nr_type q = ch_type c"
    "nr_config q = raw_empty \<or> norm_config (si_number N) (unmaskSecrets (nr_config q) (ch_config c)) = norm_config (si_number N) (ch_config c)"
  shows "identity N ch = identity N c"
  using assms
  by (auto simp: notifierFromReq_def identity_def refuse_def go_on_def answer_def check_def split: if_splits prod.splits sum.splits option.splits)

text \<open>Steps that leave the channels alone.\<close>

definition same_channels :: "world \<Rightarrow> world \<Rightarrow> bool" where
  "same_channels w w' = (channels (wdb w') = channels (wdb w))"

interpretation still: server_frame same_channels
  by unfold_locales (simp_all add: same_channels_def)

lemma still_builds: "still.keeps (notifierBuilds N ch)"
proof (rule still.keepsI)
  fix w r w' assume run: "notifierBuilds N ch w = (r, w')"
  show "same_channels w w'"
  proof (cases "si_notify N")
    case True
    obtain y u where b: "build (site_notify N) ch w = (y, u)" by fastforce
    have "notifierBuilds N ch w = check (case y of Inl e \<Rightarrow> Some e | Inr _ \<Rightarrow> None) bad u"
      using True b by (cases y) (simp_all add: notifierBuilds_def Validate_def)
    with run have "w' = u" by (cases y) (simp_all add: check_def answer_def refuse_def)
    moreover have "quiet w u" using world_quiet.build_keeps [OF b [unfolded site_notify_def]] by simp
    ultimately show ?thesis using core_selectors(8) [of "wdb u" "wdb w"] by (simp add: same_channels_def quiet_def)
  next
    case False
    then show ?thesis using run by (simp add: notifierBuilds_def answer_def same_channels_def)
  qed
qed

lemma still_notifierFromReq: "still.keeps (notifierFromReq N q i current)"
  unfolding notifierFromReq_def check_def by (intro still.keeps_handler)

lemma still_notifierPatchAllowed: "still.keeps (notifierPatchAllowed N admin q c)"
  unfolding notifierPatchAllowed_def Let_def by (intro still.keeps_handler)

lemma still_value:
  assumes "still.keeps f" "\<And>s x s'. channels (wdb s) = cs \<Longrightarrow> f s = (Inr x, s') \<Longrightarrow> V x"
  shows "hoare (\<lambda>s. channels (wdb s) = cs) f (\<lambda>x s. channels (wdb s) = cs \<and> V x) (\<lambda>s. map g (channels (wdb s)) = map g cs)"
  by (rule hoareI) (use assms still.keepsD [OF assms(1)] in \<open>force simp: same_channels_def\<close>)+

lemma or_refuse_ok: "or_refuse f st s = (Inr x, s') \<Longrightarrow> f s = (Inr x, s')"
  by (auto simp: or_refuse_def call_def refuse_def answer_def split: prod.splits sum.splits)

lemma still_found:
  "hoare (\<lambda>s. channels (wdb s) = cs) (or_refuse (on_db (GetNotifier i)) st)
     (\<lambda>c s. channels (wdb s) = cs \<and> c \<in> set cs \<and> ch_id c = i) (\<lambda>s. map g (channels (wdb s)) = map g cs)"
proof (rule still_value)
  show "still.keeps (or_refuse (on_db (GetNotifier i)) st)"
  proof (rule still.keeps_or_refuse, rule still.keepsI)
    fix w r w' assume "on_db (GetNotifier i) w = (r, w')"
    then obtain d where d: "GetNotifier i (wdb w) = (r, d)" "w' = w\<lparr>wdb := d\<rparr>" by (rule on_dbE)
    have "same_tables (wdb w) d" using d(1) unfolding GetNotifier_def by (rule query_row_same)
    then show "same_channels w w'" using same_tables_selectors(9) d(2) by (simp add: same_channels_def)
  qed
  show "c \<in> set cs \<and> ch_id c = i"
    if "channels (wdb s) = cs" "or_refuse (on_db (GetNotifier i)) st s = (Inr c, s')" for s c s'
  proof -
    note run = that
    obtain d where "GetNotifier i (wdb s) = (Inr c, d)" by (rule on_dbE [OF or_refuse_ok [OF run(2)]])
    from GetNotifier_found(2,3) [OF this] run(1) show ?thesis by simp
  qed
qed

lemma UpdateNotifier_hoare:
  assumes "distinct (map ch_id cs)" "c \<in> set cs" "identity N ch = identity N c"
  shows "hoare (\<lambda>s. channels (wdb s) = cs) (or_refuse (on_db (UpdateNotifier ch)) st)
    (\<lambda>_ s. map (identity N) (channels (wdb s)) = map (identity N) cs) (\<lambda>s. map (identity N) (channels (wdb s)) = map (identity N) cs)"
proof -
  have "map (identity N) (channels (wdb s')) = map (identity N) cs"
    if "channels (wdb s) = cs" "on_db (UpdateNotifier ch) s = (r, s')" for s r s'
  proof -
    note run = that
    obtain d where d: "UpdateNotifier ch (wdb s) = (r, d)" "s' = s\<lparr>wdb := d\<rparr>" by (rule on_dbE [OF run(2)])
    show ?thesis using UpdateNotifier_identity [OF d(1) _ _ assms(3)] assms(1,2) run(1) d(2) by simp
  qed
  then show ?thesis by (intro hoare_or_refuse hoareI)
qed

lemma updateNotifier_operator:
  assumes ids: "distinct (map ch_id cs)"
  shows "hoare (\<lambda>s. channels (wdb s) = cs) (updateNotifier N False path body)
    (\<lambda>_ s. map (identity N) (channels (wdb s)) = map (identity N) cs) (\<lambda>s. map (identity N) (channels (wdb s)) = map (identity N) cs)"
  unfolding updateNotifier_def
proof (rule hoare_go_on [OF still_value [where V = "\<lambda>_. True"]], rule still.keeps_body, rule TrueI, rule hoare_given,
    rule hoare_go_on [OF still_found], rule hoare_given, elim conjE,
    rule hoare_go_on [OF still_value [where V = "\<lambda>_. True"]], rule still.keeps_body, rule TrueI, rule hoare_given,
    goal_cases)
  case (1 i c q)
  have V: "nr_name q = ch_name c \<and> nr_type q = ch_type c \<and> (nr_config q = raw_empty \<or>
      norm_config (si_number N) (unmaskSecrets (nr_config q) (ch_config c)) = norm_config (si_number N) (ch_config c))"
    if "channels (wdb s) = cs" "notifierPatchAllowed N False q c s = (Inr x, s')" for s x s'
    using operator_patch [OF that(2)] by blast
  show ?case
  proof (rule hoare_go_on [OF still_value [OF still_notifierPatchAllowed V]], assumption+, rule hoare_given, elim conjE,
      rule hoare_go_on [OF still_value [where V = "\<lambda>ch. identity N ch = identity N c", OF still_notifierFromReq]],
      erule notifierFromReq_identity, rule 1(3), assumption+, rule hoare_given,
      rule hoare_go_on [OF still_value [where V = "\<lambda>_. True", OF still_builds]], rule TrueI, rule hoare_given,
      rule hoare_go_on, erule UpdateNotifier_hoare [OF ids 1(2)], rule hoare_answer, assumption)
  qed
qed

text \<open>
  C16: Whatever an operator sends for a channel, no channel gets another name, type or
  configuration: an operator sets when a channel fires, not where it sends.
\<close>

theorem operator_cannot_repoint_channel:
  assumes "site_reach N w" "updateNotifier N False path body w = (r, w')"
  shows "map (identity N) (channels (wdb w')) = map (identity N) (channels (wdb w))"
proof -
  have "served N (wdb w)" by (rule site_reach_served) fact
  then have ids: "distinct (map ch_id (channels (wdb w)))" by (simp add: served_def rows_ok_def)
  show ?thesis
    using hoareD_ok [OF updateNotifier_operator [OF ids] refl] hoareD_err [OF updateNotifier_operator [OF ids] refl] assms(2)
    by (cases r) blast+
qed

theorem operator_cannot_repoint_channel_witness:
  "map (identity sample_site) (channels (wdb (snd (updateNotifier sample_site False (Some 1)
     (Body (sample_notifier_req\<lparr>nr_enabled := Some False\<rparr>)) site_world)))) =
   map (identity sample_site) (channels (wdb site_world))"
  by (rule operator_cannot_repoint_channel [OF site_world_reached prod.collapse [symmetric]])

end
