(* ===== verification/Push.thy ===== *)
theory Push
  imports Access
begin

text \<open>
  Notifications to browsers (internal/notifier/webpush: service.go, channel.go, send.go): the
  instance's signing keys, which endpoints it may call, whom a channel reaches, and what is recorded
  about a delivery. The URL parser, the address classes, the key generation, the digest of topics
  and the rendering of texts are parameters; the push services are a schedule of answers. The
  time a payload carries is left out, as an event carries none here. A broadcast sends one request
  after the other, the code up to eight at a time.
\<close>

subsection \<open>The service\<close>

record url =
  url_scheme :: string
  url_host :: string
  url_name :: string
  url_user :: bool

record push_lib =
  pl_parse :: "string \<Rightarrow> url option"
  pl_loopback :: "string \<Rightarrow> bool"
  pl_keys :: "err + string \<times> string"
  pl_digest :: "string \<Rightarrow> string"
  pl_title :: "event \<Rightarrow> string"
  pl_text :: "message \<Rightarrow> string"

record push_service =
  pv_hosts :: "string list"
  pv_subject :: string
  pv_reason :: string
  pv_public :: string
  pv_private :: string

record push_box =
  pb_seal :: "string \<Rightarrow> string \<Rightarrow> string \<Rightarrow> err + secret"
  pb_open :: "secret \<Rightarrow> err + string"

definition ReasonNoPublicURL :: string where "ReasonNoPublicURL = ''no_public_url''"
definition ReasonInsecureOrigin :: string where "ReasonInsecureOrigin = ''insecure_origin''"
definition ReasonNoMasterKey :: string where "ReasonNoMasterKey = ''no_master_key''"
definition ReasonKeyUnreadable :: string where "ReasonKeyUnreadable = ''key_unreadable''"

definition DefaultHosts :: "string list" where
  "DefaultHosts = [''fcm.googleapis.com'', ''updates.push.services.mozilla.com'', ''.push.apple.com'', ''.notify.windows.com'']"

definition isLoopback :: "push_lib \<Rightarrow> string \<Rightarrow> bool" where
  "isLoopback L host = (host = ''localhost'' \<or> pl_loopback L host)"

text \<open>The reason push is unavailable, and the contact to sign with.\<close>

definition originCheck :: "push_lib \<Rightarrow> string \<Rightarrow> string \<times> string" where
  "originCheck L publicURL =
     (if publicURL = [] then (ReasonNoPublicURL, [])
      else case pl_parse L publicURL of
        None \<Rightarrow> (ReasonNoPublicURL, [])
      | Some u \<Rightarrow>
          if url_host u = [] then (ReasonNoPublicURL, [])
          else if url_scheme u = ''https'' then ([], url_scheme u @ ''://'' @ url_host u)
          else if url_scheme u = ''http'' \<and> isLoopback L (url_name u) then ([], ''duskrun@localhost'')
          else (ReasonInsecureOrigin, []))"

subsection \<open>The state\<close>

datatype push_answer = NoAnswer string | Answered nat string

record payload =
  py_kind :: string
  py_task :: string
  py_subject :: string
  py_title :: string
  py_run :: rowid
  py_message :: string
  py_url :: string
  py_urgent :: bool

record push_options =
  po_subscriber :: string
  po_public :: string
  po_private :: string
  po_ttl :: int
  po_high :: bool
  po_topic :: string

record push_world =
  pw_acc :: accounts
  pw_sent :: "(push_subscription \<times> payload \<times> push_options) list"
  pw_answers :: "push_answer list"

definition on_accounts :: "(accounts, 'a) op \<Rightarrow> (push_world, 'a) op" where
  "on_accounts f w = (case f (pw_acc w) of (r, a) \<Rightarrow> (r, w\<lparr>pw_acc := a\<rparr>))"

text \<open>A stored key pair is kept; one the box cannot open turns push off.\<close>

definition loadKeys :: "push_lib \<Rightarrow> push_box \<Rightarrow> push_service \<Rightarrow> (push_world, push_service) op" where
  "loadKeys L box S =
     and_then (wrapped ''webpush: generate vapid keys: '' (pure_step (pl_keys L))) (\<lambda>(priv, pub).
     and_then (wrapped ''webpush: seal vapid key: '' (pure_step (pb_seal box ''vapid'' ''vapid'' priv))) (\<lambda>sealed.
     and_then (wrapped ''webpush: '' (on_accounts (InitVAPIDKeys
        \<lparr>vk_public = pub, vk_private = sec_cipher sealed, vk_key = sec_key sealed, vk_created = 0\<rparr>))) (\<lambda>stored.
       pure_step (Inr (case pb_open box \<lparr>sec_id = 0, sec_name = [], sec_type = [], sec_cipher = vk_private stored,
         sec_key = vk_key stored, sec_created = 0, sec_last_used = None\<rparr> of
         Inl e \<Rightarrow> S\<lparr>pv_reason := ReasonKeyUnreadable\<rparr>
       | Inr plain \<Rightarrow> S\<lparr>pv_public := vk_public stored, pv_private := plain\<rparr>)))))"

definition NewPush :: "push_lib \<Rightarrow> push_box option \<Rightarrow> string \<Rightarrow> string list \<Rightarrow> (push_world, push_service) op" where
  "NewPush L box publicURL extra =
     (case originCheck L publicURL of (reason, subject) \<Rightarrow>
      let reason = (if reason = [] \<and> box = None then ReasonNoMasterKey else reason);
          S = \<lparr>pv_hosts = DefaultHosts @ extra, pv_subject = subject, pv_reason = reason, pv_public = [], pv_private = []\<rparr>
      in case box of
           None \<Rightarrow> pure_step (Inr S)
         | Some b \<Rightarrow> if reason \<noteq> [] then pure_step (Inr S) else loadKeys L b S)"

definition Available :: "push_service option \<Rightarrow> string \<times> string" where
  "Available svc = (case svc of None \<Rightarrow> ([], ReasonNoPublicURL) | Some S \<Rightarrow> (pv_public S, pv_reason S))"

definition unavailableError :: "push_service \<Rightarrow> err option" where
  "unavailableError S =
     (if pv_reason S = ReasonNoPublicURL then Some (Errorf ''push: DUSKRUN_PUBLIC_URL is not set'')
      else if pv_reason S = ReasonInsecureOrigin
      then Some (Errorf ''push: DUSKRUN_PUBLIC_URL must be https:// (or http://localhost)'')
      else if pv_reason S = ReasonNoMasterKey
      then Some (Errorf ''push: no master key to store the signing key with'')
      else if pv_reason S = ReasonKeyUnreadable
      then Some (Errorf ''push: the stored signing key cannot be opened with the current master key'')
      else None)"

text \<open>A host of the list: a leading dot matches every subdomain.\<close>

definition known_host :: "string \<Rightarrow> string \<Rightarrow> bool" where
  "known_host host h =
     (let h = map to_lower (trim_space h) in
      case h of [] \<Rightarrow> False | c # t \<Rightarrow> if c = CHR ''.'' then suffix h host else host = h)"

definition CheckEndpoint :: "push_lib \<Rightarrow> push_service \<Rightarrow> string \<Rightarrow> err option" where
  "CheckEndpoint L S endpoint =
     (case pl_parse L endpoint of
        None \<Rightarrow> Some (Errorf ''push: endpoint is not a URL'')
      | Some u \<Rightarrow>
          if url_host u = [] then Some (Errorf ''push: endpoint is not a URL'')
          else if url_scheme u \<noteq> ''https'' then Some (Errorf ''push: endpoint must be https'')
          else if url_user u then Some (Errorf ''push: endpoint must not carry credentials'')
          else let host = map to_lower (url_name u) in
            if list_ex (known_host host) (pv_hosts S) then None
            else Some (Errorf (''push: '' @ host @ '' is not a known push service (see DUSKRUN_PUSH_ENDPOINTS)'')))"

subsection \<open>Payloads\<close>

definition ErrGone :: err where "ErrGone = Errorf ''push: the browser is no longer subscribed''"
definition ErrNoSubscribers :: err where "ErrNoSubscribers = Errorf ''push: no subscribed browsers''"

definition KindTest :: string where "KindTest = ''test''"
definition maxMessageBytes :: nat where "maxMessageBytes = 1600"
definition maxTaskBytes :: nat where "maxTaskBytes = 200"
definition maxTitleBytes :: nat where "maxTitleBytes = 260"

text \<open>Cut at the start of a character, with the three bytes of an ellipsis.\<close>

definition ellipsis :: string where "ellipsis = [CHR 0xE2, CHR 0x80, CHR 0xA6]"

definition shorten :: "string \<Rightarrow> nat \<Rightarrow> string" where
  "shorten s n = (if length s \<le> n then s else truncate_at s (n - length ellipsis) @ ellipsis)"

definition page_of :: "event \<Rightarrow> string" where
  "page_of ev =
     (if is_test ev then ''/notifications''
      else if ev_run ev \<noteq> 0 then ''/history?at='' @ dec (ev_run ev)
      else if ev_kind ev = EventRetentionError \<or> ev_kind ev = EventRetentionDone then ''/retention''
      else if ev_kind ev = EventStorageLow \<or> ev_kind ev = EventStorageUnreachable then ''/storages''
      else if ev_kind ev = EventSecurity then ''/settings''
      else ''/'')"

definition payloadFor :: "push_lib \<Rightarrow> event \<Rightarrow> payload" where
  "payloadFor L ev =
     \<lparr>py_kind = (if is_test ev then KindTest else kind_text (ev_kind ev)),
      py_task = (if is_test ev then [] else shorten (ev_task ev) maxTaskBytes),
      py_subject = shorten (ev_subject ev) maxTaskBytes,
      py_title = shorten (pl_title L ev) maxTitleBytes,
      py_run = ev_run ev,
      py_message = shorten (pl_text L (ev_message ev)) maxMessageBytes,
      py_url = page_of ev,
      py_urgent = (kind_severity (ev_kind ev) \<noteq> SeverityInfo)\<rparr>"

definition topic :: "push_lib \<Rightarrow> string \<Rightarrow> string \<Rightarrow> string" where
  "topic L kind t = take 32 (pl_digest L (kind @ [CHR 0x00] @ t))"

definition push_options_of :: "push_lib \<Rightarrow> push_service \<Rightarrow> payload \<Rightarrow> push_options" where
  "push_options_of L S p =
     \<lparr>po_subscriber = pv_subject S, po_public = pv_public S, po_private = pv_private S,
      po_ttl = (if py_urgent p then 86400 else 3600), po_high = py_urgent p,
      po_topic = topic L (py_kind p) (py_task p @ [CHR 0x00] @ py_subject p)\<rparr>"

subsection \<open>Sending\<close>

text \<open>strings.Fields, ASCII blanks only, and strings.ReplaceAll of a text that is not empty.\<close>

fun fields :: "string \<Rightarrow> string \<Rightarrow> string list" where
  "fields w [] = (if w = [] then [] else [w])"
| "fields w (c # s) = (if is_space_char c then (if w = [] then [] else [w]) @ fields [] s else fields (w @ [c]) s)"

fun replace_text :: "nat \<Rightarrow> string \<Rightarrow> string \<Rightarrow> string \<Rightarrow> string" where
  "replace_text 0 old new s = s"
| "replace_text (Suc n) old new [] = []"
| "replace_text (Suc n) old new (c # s) =
     (if old \<noteq> [] \<and> splits_at old (c # s) then new @ replace_text n old new (drop (length old) (c # s))
      else c # replace_text n old new s)"

fun join_blank :: "string list \<Rightarrow> string" where
  "join_blank [] = []"
| "join_blank [w] = w"
| "join_blank (w # ws) = w @ '' '' @ join_blank ws"

definition in_range :: "nat \<Rightarrow> nat \<Rightarrow> char \<Rightarrow> bool" where
  "in_range a b c = (a \<le> of_char c \<and> (of_char c :: nat) \<le> b)"

text \<open>utf8.ValidString.\<close>

fun utf8_valid :: "string \<Rightarrow> bool" where
  "utf8_valid [] = True"
| "utf8_valid (c # s) =
     (if in_range 0 0x7F c then utf8_valid s
      else case s of
        [] \<Rightarrow> False
      | c1 # s1 \<Rightarrow>
          if in_range 0xC2 0xDF c then in_range 0x80 0xBF c1 \<and> utf8_valid s1
          else case s1 of
            [] \<Rightarrow> False
          | c2 # s2 \<Rightarrow>
              if in_range 0xE0 0xEF c
              then in_range (if c = CHR 0xE0 then 0xA0 else 0x80) (if c = CHR 0xED then 0x9F else 0xBF) c1 \<and>
                in_range 0x80 0xBF c2 \<and> utf8_valid s2
              else case s2 of
                [] \<Rightarrow> False
              | c3 # s3 \<Rightarrow>
                  in_range 0xF0 0xF4 c \<and>
                  in_range (if c = CHR 0xF0 then 0x90 else 0x80) (if c = CHR 0xF4 then 0x8F else 0xBF) c1 \<and>
                  in_range 0x80 0xBF c2 \<and> in_range 0x80 0xBF c3 \<and> utf8_valid s3)"

definition status_error :: "nat \<Rightarrow> string \<Rightarrow> err" where
  "status_error code snippet =
     (let text = join_blank (fields [] (take 200 snippet)) in
      Errorf (''push: service answered '' @ dec (int code) @ (if text \<noteq> [] \<and> utf8_valid text then '': '' @ text else [])))"

text \<open>One request: what the push service answers, or the error of reaching it.\<close>

definition request_push :: "push_subscription \<Rightarrow> payload \<Rightarrow> push_options \<Rightarrow> push_world \<Rightarrow> push_answer \<times> push_world" where
  "request_push sub p opts w =
     (let w' = w\<lparr>pw_sent := pw_sent w @ [(sub, p, opts)], pw_answers := tl (pw_answers w)\<rparr> in
      (case pw_answers w of [] \<Rightarrow> Answered 201 [] | a # as \<Rightarrow> a, w'))"

definition send_push :: "push_lib \<Rightarrow> push_service \<Rightarrow> push_subscription \<Rightarrow> payload \<Rightarrow> (push_world, unit) op" where
  "send_push L S sub p w =
     (case CheckEndpoint L S (ps_endpoint sub) of
        Some e \<Rightarrow> (Inl e, w)
      | None \<Rightarrow>
          (case request_push sub p (push_options_of L S p) w of
             (NoAnswer m, w) \<Rightarrow>
               (Inl (Errorf (''push: send: '' @ replace_text (length m) (ps_endpoint sub) ''<endpoint>'' m)), w)
           | (Answered code snippet, w) \<Rightarrow>
               (if 200 \<le> code \<and> code < 300 then Inr ()
                else if code = 404 \<or> code = 410 then Inl ErrGone
                else Inl (status_error code snippet), w)))"

definition mark_push :: "rowid \<Rightarrow> string \<Rightarrow> push_world \<Rightarrow> push_world" where
  "mark_push i cause w = snd (on_accounts (MarkPushResult i cause) w)"

definition SendTo :: "push_lib \<Rightarrow> push_service \<Rightarrow> push_subscription \<Rightarrow> event \<Rightarrow> (push_world, unit) op" where
  "SendTo L S sub ev w =
     (case unavailableError S of
        Some e \<Rightarrow> (Inl e, w)
      | None \<Rightarrow>
          (case send_push L S sub (payloadFor L ev) w of
             (Inl e, w) \<Rightarrow>
               (Inl e, if err_is ErrGone e then snd (on_accounts (DeletePushSubscriptionByEndpoint 0 (ps_endpoint sub)) w)
                       else mark_push (ps_id sub) (err_text e) w)
           | (Inr u, w) \<Rightarrow> (Inr u, mark_push (ps_id sub) [] w)))"

text \<open>The loop over the targets: how many were reached, how many are gone, and the other errors.\<close>

fun send_all :: "push_lib \<Rightarrow> push_service \<Rightarrow> event \<Rightarrow> push_subscription list \<Rightarrow> push_world \<Rightarrow> (nat \<times> nat \<times> err list) \<times> push_world" where
  "send_all L S ev [] w = ((0, 0, []), w)"
| "send_all L S ev (sub # subs) w =
     (case SendTo L S sub ev w of (r, w) \<Rightarrow>
      case send_all L S ev subs w of ((delivered, gone, failures), w) \<Rightarrow>
        ((case r of
            Inr _ \<Rightarrow> (Suc delivered, gone, failures)
          | Inl e \<Rightarrow> if err_is ErrGone e then (delivered, Suc gone, failures) else (delivered, gone, e # failures)), w))"

definition Broadcast :: "push_lib \<Rightarrow> push_service \<Rightarrow> role \<Rightarrow> event \<Rightarrow> (push_world, unit) op" where
  "Broadcast L S minRole ev w =
     (case unavailableError S of
        Some e \<Rightarrow> (Inl e, w)
      | None \<Rightarrow>
          (case on_accounts PushTargets w of
             (Inl e, w) \<Rightarrow> (Inl (Wrap ''push: list subscriptions: '' e), w)
           | (Inr everyone, w) \<Rightarrow>
               let targets = filter (\<lambda>s. at_least (ps_role s) minRole) everyone in
               if targets = [] then (Inl ErrNoSubscribers, w)
               else case send_all L S ev targets w of ((delivered, gone, failures), w) \<Rightarrow>
                 (if delivered > 0 then Inr ()
                  else case failures of
                    [] \<Rightarrow> Inl ErrNoSubscribers
                  | e # es \<Rightarrow> Inl (Wrap (''0/'' @ dec (int (length targets) - int gone) @ '' delivered: '') e), w)))"

subsection \<open>The channel\<close>

text \<open>The notifier of a push channel, by its audience; security events go to administrators.\<close>

definition NotifyPush :: "push_lib \<Rightarrow> push_service \<Rightarrow> role \<Rightarrow> event \<Rightarrow> (push_world, unit) op" where
  "NotifyPush L S minRole ev = Broadcast L S (if ev_kind ev = EventSecurity then RoleAdmin else minRole) ev"

definition push_role :: "raw \<Rightarrow> string option" where
  "push_role r =
     (let f = (\<lambda>kvs. let vs = json_field ''min_role'' kvs in
                if list_all (\<lambda>v. case v of JNull \<Rightarrow> True | JStr _ \<Rightarrow> True | _ \<Rightarrow> False) vs
                then Some (foldl (\<lambda>acc v. case v of JStr s \<Rightarrow> s | _ \<Rightarrow> acc) [] vs) else None)
      in if r = raw_empty then Some []
         else case r of Raw JNull \<Rightarrow> Some [] | Raw (JObj kvs) \<Rightarrow> f kvs | _ \<Rightarrow> None)"

definition push_New :: "push_lib \<Rightarrow> push_service option \<Rightarrow> raw \<Rightarrow> err + (event \<Rightarrow> (push_world, unit) op)" where
  "push_New L svc r =
     (case push_role r of
        None \<Rightarrow> Inl (Wrap ''push: bad config: '' (Errorf ''invalid JSON''))
      | Some t \<Rightarrow>
          let minRole = (if t = [] then RoleViewer else role_of t) in
          if \<not> role_valid minRole then Inl (Errorf (''push: unknown min_role '' @ quoted t))
          else case svc of
            None \<Rightarrow> Inl (Errorf ''push: not configured'')
          | Some S \<Rightarrow>
              (case unavailableError S of Some e \<Rightarrow> Inl e | None \<Rightarrow> Inr (NotifyPush L S minRole)))"

end
