(* ===== verification/PushRuns.thy ===== *)
theory PushRuns
  imports Push SecondFactor
begin

text \<open>
  Whom a push channel reaches, and what its result means, whatever the push services answer and
  whatever statements fail.
\<close>

subsection \<open>Requests\<close>

definition allowed_endpoint :: "push_lib \<Rightarrow> push_service \<Rightarrow> string \<Rightarrow> bool" where
  "allowed_endpoint L S endpoint =
     (case pl_parse L endpoint of
        None \<Rightarrow> False
      | Some u \<Rightarrow> url_scheme u = ''https'' \<and> \<not> url_user u \<and> list_ex (known_host (map to_lower (url_name u))) (pv_hosts S))"

lemma CheckEndpoint_allowed: "CheckEndpoint L S endpoint = None \<Longrightarrow> allowed_endpoint L S endpoint"
  by (auto simp: CheckEndpoint_def allowed_endpoint_def Let_def split: option.splits if_splits)

definition accepted :: "push_answer \<Rightarrow> bool" where
  "accepted a = (case a of NoAnswer m \<Rightarrow> False | Answered code s \<Rightarrow> 200 \<le> code \<and> code < 300)"

text \<open>The answer to the k-th request from now on.\<close>

definition next_answer :: "push_answer list \<Rightarrow> nat \<Rightarrow> push_answer" where
  "next_answer as k = (if k < length as then as ! k else Answered 201 [])"

text \<open>The requests an operation made, and the answers it used up.\<close>

definition requested :: "push_world \<Rightarrow> push_world \<Rightarrow> (push_subscription \<times> payload \<times> push_options) list \<Rightarrow> bool" where
  "requested w w' new = (pw_sent w' = pw_sent w @ new \<and> pw_answers w' = drop (length new) (pw_answers w))"

lemma requested_none [simp]: "requested w w []"
  by (simp add: requested_def)

lemma requested_acc [simp]:
  "requested w (w'\<lparr>pw_acc := a\<rparr>) new = requested w w' new" "requested (w\<lparr>pw_acc := a\<rparr>) w' new = requested w w' new"
  by (simp_all add: requested_def)

lemma requested_trans: "requested u v xs \<Longrightarrow> requested v w ys \<Longrightarrow> requested u w (xs @ ys)"
  by (simp add: requested_def add.commute)

lemma on_accounts_requested: "requested w w' new \<Longrightarrow> requested w (snd (on_accounts f w')) new"
  by (simp add: on_accounts_def split: prod.split)

lemma send_push_requested:
  assumes "send_push L S sub p w = (r, w')"
  obtains (refused) e where "r = Inl e" "requested w w' []" "\<not> err_is ErrGone e"
    | (asked) "CheckEndpoint L S (ps_endpoint sub) = None" "requested w w' [(sub, p, push_options_of L S p)]"
        "is_ok r = accepted (next_answer (pw_answers w) 0)"
proof (cases "CheckEndpoint L S (ps_endpoint sub)")
  case (Some e)
  have "\<not> err_is ErrGone e"
    using Some by (auto simp: CheckEndpoint_def ErrGone_def Let_def split: option.splits if_splits)
  with Some assms show ?thesis by (intro refused [of e]) (simp_all add: send_push_def)
next
  case None
  have "requested w w' [(sub, p, push_options_of L S p)]" "is_ok r = accepted (next_answer (pw_answers w) 0)"
    using assms None
    by (auto simp: send_push_def request_push_def Let_def requested_def accepted_def next_answer_def drop_Suc
        split: push_answer.splits list.splits if_splits)
  then show ?thesis using None by (intro asked)
qed

lemma SendTo_requested:
  assumes "SendTo L S sub ev w = (r, w')"
  obtains (refused) e where "r = Inl e" "requested w w' []"
    | (asked) "CheckEndpoint L S (ps_endpoint sub) = None" "requested w w' [(sub, payloadFor L ev, push_options_of L S (payloadFor L ev))]"
        "is_ok r = accepted (next_answer (pw_answers w) 0)"
proof (cases "unavailableError S")
  case (Some e)
  with assms show ?thesis by (intro refused [of e]) (simp_all add: SendTo_def)
next
  case None
  obtain x u where s: "send_push L S sub (payloadFor L ev) w = (x, u)" by fastforce
  have r: "is_ok r = is_ok x" "\<And>e. x = Inl e \<Longrightarrow> r = Inl e" "\<And>new. requested w u new \<Longrightarrow> requested w w' new"
    using assms None s by (cases x; auto simp: SendTo_def mark_push_def on_accounts_requested)+
  from s show ?thesis
  proof (cases rule: send_push_requested)
    case (refused e)
    then show ?thesis using r that(1) by blast
  next
    case asked
    then show ?thesis using r that(2) by simp
  qed
qed

lemma send_all_requested:
  assumes "send_all L S ev subs w = ((d, g, fs), w')"
  shows "\<exists>new. requested w w' new \<and> (\<forall>q \<in> set new. fst q \<in> set subs \<and> CheckEndpoint L S (ps_endpoint (fst q)) = None \<and>
           fst (snd q) = payloadFor L ev) \<and>
         (d > 0 \<longleftrightarrow> (\<exists>k < length new. accepted (next_answer (pw_answers w) k)))"
  using assms
proof (induction subs arbitrary: w d g fs w')
  case Nil
  then have "requested w w' []" "d = 0" by simp_all
  then show ?case by (intro exI [of _ "[]"]) simp
next
  case (Cons sub subs)
  obtain r u where s: "SendTo L S sub ev w = (r, u)" by fastforce
  obtain d1 g1 fs1 where t: "send_all L S ev subs u = ((d1, g1, fs1), w')"
    using Cons.prems s by (auto split: prod.splits)
  have d: "d = (if is_ok r then Suc d1 else d1)"
    using Cons.prems s t by (cases r) (auto split: if_splits)
  from Cons.IH [OF t] obtain new where new: "requested u w' new"
    "\<forall>q \<in> set new. fst q \<in> set subs \<and> CheckEndpoint L S (ps_endpoint (fst q)) = None \<and> fst (snd q) = payloadFor L ev"
    "d1 > 0 \<longleftrightarrow> (\<exists>k < length new. accepted (next_answer (pw_answers u) k))" by blast
  from s show ?case
  proof (cases rule: SendTo_requested)
    case (refused e)
    have "pw_answers u = pw_answers w" using refused(2) by (simp add: requested_def)
    then show ?thesis using requested_trans [OF refused(2) new(1)] new(2,3) d refused(1)
      by (intro exI [of _ new]) auto
  next
    case asked
    let ?q = "(sub, payloadFor L ev, push_options_of L S (payloadFor L ev))"
    have later: "next_answer (pw_answers u) k = next_answer (pw_answers w) (Suc k)" for k
      using asked(2) by (auto simp: requested_def next_answer_def)
    have "(\<exists>k < Suc (length new). accepted (next_answer (pw_answers w) k)) \<longleftrightarrow>
        accepted (next_answer (pw_answers w) 0) \<or> (\<exists>k < length new. accepted (next_answer (pw_answers w) (Suc k)))"
      by (auto simp: less_Suc_eq_0_disj)
    then show ?thesis using requested_trans [OF asked(2) new(1)] new(2,3) d asked(1,3) later
      by (intro exI [of _ "?q # new"]) auto
  qed
qed

subsection \<open>Who is reached\<close>

definition audience :: "role \<Rightarrow> event \<Rightarrow> role" where
  "audience minRole ev = (if ev_kind ev = EventSecurity then RoleAdmin else minRole)"

text \<open>A subscription of the tables whose owner is enabled and holds the role.\<close>

definition entitled :: "accounts \<Rightarrow> role \<Rightarrow> push_subscription \<Rightarrow> bool" where
  "entitled a want sub =
     (\<exists>row \<in> set (subscriptions a). \<exists>u \<in> set (users a).
        sub = row\<lparr>ps_role := user_role u\<rparr> \<and> user_id u = ps_user sub \<and> \<not> user_disabled u \<and> at_least (user_role u) want)"

lemma with_owner_role_Some:
  assumes "with_owner_role a p = Some s"
  obtains u where "u \<in> set (users a)" "user_id u = ps_user p" "\<not> user_disabled u" "s = p\<lparr>ps_role := user_role u\<rparr>"
  using assms by (auto simp: with_owner_role_def split: option.splits if_splits dest!: find_Some_in)

lemma PushTargets_owned:
  assumes "on_accounts PushTargets w = (Inr subs, w1)" "s \<in> set subs" "at_least (ps_role s) want"
  shows "entitled (pw_acc w) want s"
proof -
  obtain b where t: "PushTargets (pw_acc w) = (Inr subs, b)"
    using assms(1) by (auto simp: on_accounts_def split: prod.splits)
  obtain fs where b: "b = (pw_acc w)\<lparr>acc_faults := fs\<rparr>"
    "subs = List.map_filter (with_owner_role b) (sort_key ps_id (subscriptions b))"
    using wrapped_select_result [OF t [unfolded PushTargets_def]] by blast
  from assms(2) b(2) obtain p where p: "p \<in> set (subscriptions b)" "with_owner_role b p = Some s"
    by (auto simp: List.map_filter_def)
  from p(2) obtain u where "u \<in> set (users b)" "user_id u = ps_user p" "\<not> user_disabled u" "s = p\<lparr>ps_role := user_role u\<rparr>"
    by (rule with_owner_role_Some)
  then show ?thesis using p(1) b(1) assms(3) by (auto simp: entitled_def)
qed

lemma Broadcast_requested:
  assumes "Broadcast L S want ev w = (r, w')"
  shows "\<exists>new. requested w w' new \<and>
    (\<forall>q \<in> set new. entitled (pw_acc w) want (fst q) \<and> CheckEndpoint L S (ps_endpoint (fst q)) = None \<and>
       fst (snd q) = payloadFor L ev) \<and>
    (is_ok r \<longleftrightarrow> (\<exists>k < length new. accepted (next_answer (pw_answers w) k)))"
proof (cases "unavailableError S")
  case (Some e)
  then show ?thesis using assms by (intro exI [of _ "[]"]) (auto simp: Broadcast_def)
next
  case None
  obtain x w1 where t: "on_accounts PushTargets w = (x, w1)" by fastforce
  have w1: "requested w w1 []" "pw_answers w1 = pw_answers w"
    using t by (auto simp: on_accounts_def split: prod.splits)
  show ?thesis
  proof (cases x)
    case (Inl e)
    then show ?thesis using assms None t w1(1) by (intro exI [of _ "[]"]) (auto simp: Broadcast_def)
  next
    case (Inr everyone)
    let ?targets = "filter (\<lambda>s. at_least (ps_role s) want) everyone"
    show ?thesis
    proof (cases "?targets = []")
      case True
      then have "r = Inl ErrNoSubscribers" "w' = w1" using assms None t Inr by (auto simp: Broadcast_def Let_def)
      then show ?thesis using w1(1) by (intro exI [of _ "[]"]) simp
    next
      case False
      obtain q u where q: "send_all L S ev ?targets w1 = (q, u)" by fastforce
      obtain d g fs where "q = (d, g, fs)" by (cases q)
      with q have s: "send_all L S ev ?targets w1 = ((d, g, fs), u)" by simp
      have r: "is_ok r = (d > 0)" "w' = u"
        using assms None t Inr False s by (auto simp: Broadcast_def Let_def split: if_splits list.splits)
      from send_all_requested [OF s] obtain new where new: "requested w1 u new"
        "\<forall>q \<in> set new. fst q \<in> set ?targets \<and> CheckEndpoint L S (ps_endpoint (fst q)) = None \<and> fst (snd q) = payloadFor L ev"
        "d > 0 \<longleftrightarrow> (\<exists>k < length new. accepted (next_answer (pw_answers w1) k))" by blast
      have "entitled (pw_acc w) want (fst q)" if "q \<in> set new" for q
        by (rule PushTargets_owned [OF t [unfolded Inr]]) (use new(2) that in auto)
      then show ?thesis using requested_trans [OF w1(1) new(1)] new(2,3) r w1(2) by (intro exI [of _ new]) simp
    qed
  qed
qed

text \<open>
  C19: Whatever the services answer, every request a push channel makes is the event's payload, sent
  over https to a host of the list, for a stored subscription whose owner is an enabled account with
  the channel's role, and for a security event with the role of an administrator.
\<close>

theorem push_reaches_entitled:
  assumes "NotifyPush L S minRole ev w = (r, w')"
  shows "\<exists>new. pw_sent w' = pw_sent w @ new \<and>
    (\<forall>(sub, p, opts) \<in> set new. p = payloadFor L ev \<and> allowed_endpoint L S (ps_endpoint sub) \<and>
       entitled (pw_acc w) (audience minRole ev) sub)"
  using Broadcast_requested [OF assms [unfolded NotifyPush_def, folded audience_def]] CheckEndpoint_allowed
  by (fastforce simp: requested_def)

text \<open>
  C20: A push delivery is reported as sent exactly if some browser's service accepted it: an alert
  that reached nobody is an error, and one failing browser does not fail the others.
\<close>

theorem push_sent_iff_accepted:
  assumes "NotifyPush L S minRole ev w = (r, w')" "pw_sent w' = pw_sent w @ new"
  shows "is_ok r \<longleftrightarrow> (\<exists>k < length new. accepted (next_answer (pw_answers w) k))"
  using Broadcast_requested [OF assms(1) [unfolded NotifyPush_def]] assms(2)
  by (auto simp: requested_def)

subsection \<open>A delivery\<close>

definition sample_push_lib :: push_lib where
  "sample_push_lib = \<lparr>pl_parse = (\<lambda>s. if s = ''bad'' then None
       else Some \<lparr>url_scheme = ''https'', url_host = s, url_name = s, url_user = False\<rparr>),
     pl_loopback = (\<lambda>_. False), pl_keys = Inr (''priv'', ''pub''), pl_digest = id, pl_title = (\<lambda>_. ''title''),
     pl_text = (\<lambda>_. ''text'')\<rparr>"

definition sample_push :: push_service where
  "sample_push = \<lparr>pv_hosts = DefaultHosts, pv_subject = ''https://backup.example'', pv_reason = [], pv_public = ''pub'', pv_private = ''priv''\<rparr>"

definition browser_row :: "rowid \<Rightarrow> rowid \<Rightarrow> string \<Rightarrow> push_subscription" where
  "browser_row i u e = \<lparr>ps_id = i, ps_user = u, ps_endpoint = e, ps_p256dh = ''k'', ps_auth = ''a'', ps_agent = [],
     ps_created = 0, ps_success = None, ps_error = [], ps_fails = 0, ps_role = OtherRole []\<rparr>"

definition push_user :: "rowid \<Rightarrow> role \<Rightarrow> user" where
  "push_user i r = \<lparr>user_id = i, user_email = dec i, user_name = [], user_role = r, user_hash = [], user_disabled = False,
     user_created = 0, user_last_login = None, user_webauthn = [], user_totp_enabled = False, user_passkeys = 0\<rparr>"

definition push_start :: push_world where
  "push_start = \<lparr>pw_acc = (empty_accounts 0 [])\<lparr>users := [push_user 1 RoleAdmin, push_user 2 RoleViewer],
       subscriptions := [browser_row 1 1 ''fcm.googleapis.com'', browser_row 2 2 ''web.push.apple.com'', browser_row 3 1 ''evil.example'']\<rparr>,
     pw_sent = [], pw_answers = [Answered 410 []]\<rparr>"

definition push_event :: event where
  "push_event = system_event EventStorageLow ''storage:1'' (MsgText [])"

lemma sample_push_run:
  "map (\<lambda>(s, p, q). ps_id s) (pw_sent (snd (NotifyPush sample_push_lib sample_push RoleViewer push_event push_start))) = [1, 2]"
  "map ps_id (subscriptions (pw_acc (snd (NotifyPush sample_push_lib sample_push RoleViewer push_event push_start)))) = [2, 3]"
  by code_simp+

theorem push_reaches_entitled_witness:
  "\<exists>new :: (push_subscription \<times> payload \<times> push_options) list. length new = 2 \<and> (\<forall>(sub, p, opts) \<in> set new. p = payloadFor sample_push_lib push_event \<and>
     allowed_endpoint sample_push_lib sample_push (ps_endpoint sub) \<and>
     entitled (pw_acc push_start) (audience RoleViewer push_event) sub)"
proof -
  let ?w = "snd (NotifyPush sample_push_lib sample_push RoleViewer push_event push_start)"
  from push_reaches_entitled [OF prod.collapse [symmetric, of "NotifyPush sample_push_lib sample_push RoleViewer push_event push_start"]]
  obtain new where new: "pw_sent ?w = pw_sent push_start @ new"
    "\<forall>(sub, p, opts) \<in> set new. p = payloadFor sample_push_lib push_event \<and>
       allowed_endpoint sample_push_lib sample_push (ps_endpoint sub) \<and>
       entitled (pw_acc push_start) (audience RoleViewer push_event) sub" by blast
  have "length (pw_sent ?w) = 2" using arg_cong [OF sample_push_run(1), of length] by simp
  then have "length new = 2" using new(1) by (simp add: push_start_def)
  with new(2) show ?thesis by blast
qed

theorem push_sent_iff_accepted_witness:
  "is_ok (fst (NotifyPush sample_push_lib sample_push RoleViewer push_event push_start))"
proof -
  let ?r = "NotifyPush sample_push_lib sample_push RoleViewer push_event push_start"
  have sent: "pw_sent (snd ?r) = pw_sent push_start @ pw_sent (snd ?r)" by (simp add: push_start_def)
  have "length (pw_sent (snd ?r)) = 2" using arg_cong [OF sample_push_run(1), of length] by simp
  then have "\<exists>k < length (pw_sent (snd ?r)). accepted (next_answer (pw_answers push_start) k)"
    by (intro exI [of _ 1]) (simp add: push_start_def next_answer_def accepted_def)
  then show ?thesis
    using push_sent_iff_accepted [OF prod.collapse [symmetric, of ?r] sent] by blast
qed

end
