(* ===== verification/Preferences.thy ===== *)
theory Preferences
  imports Push
begin

text \<open>
  The settings page and the push subscriptions of the API (internal/api/handlers_settings.go,
  handlers_push.go), on the account server. The zone of the clock and the process configuration
  are arguments, as is the push service, of which the handlers use three operations.
\<close>

subsection \<open>Settings\<close>

definition settingInstanceName :: string where "settingInstanceName = ''instance_name''"
definition settingHostKeyDefault :: string where "settingHostKeyDefault = ''ssh_host_key_mode_default''"
definition defaultInstanceName :: string where "defaultInstanceName = ''Duskrun''"
definition defaultHostKeyModeName :: string where "defaultHostKeyModeName = ''tofu''"

text \<open>The process configuration, and the clock: its zone, the offset in seconds, and its stamp.\<close>

record instance_info =
  in_version :: string
  in_db_path :: string
  in_workers :: int
  in_retention_cron :: string
  in_listen :: string

definition nowInfo :: "string \<times> int \<times> string \<Rightarrow> string \<times> string \<times> string" where
  "nowInfo now =
     (case now of (zone, offset, stamp) \<Rightarrow>
      let s = (if offset < 0 then - offset else offset) in
      (zone, (if offset < 0 then ''-'' else ''+'') @ pad0 2 (dec (s div 3600 mod 24)) @ '':'' @ pad0 2 (dec (s div 60 mod 60)), stamp))"

record settings_page =
  sp_instance_name :: string
  sp_host_key_mode :: string
  sp_mfa_required :: string
  sp_instance :: instance_info
  sp_clock :: "string \<times> string \<times> string"

definition getSettings :: "api_env \<Rightarrow> instance_info \<Rightarrow> string \<times> int \<times> string \<Rightarrow> ('v server, settings_page) handler" where
  "getSettings E info now =
     (let page = (\<lambda>n h m. \<lparr>sp_instance_name = n, sp_host_key_mode = h, sp_mfa_required = m, sp_instance = info, sp_clock = nowInfo now\<rparr>) in
      if \<not> en_store E then answer (page defaultInstanceName defaultHostKeyModeName ''off'')
      else
        go_on (or_refuse (on_store (GetSetting settingInstanceName defaultInstanceName)) internal) (\<lambda>n.
        go_on (or_refuse (on_store (GetSetting settingHostKeyDefault defaultHostKeyModeName)) internal) (\<lambda>h.
        go_on (or_refuse (mfaPolicy E) internal) (\<lambda>m. answer (page n h m)))))"

record settings_req =
  up_instance_name :: "string option"
  up_host_key_mode :: "string option"
  up_mfa_required :: "string option"

text \<open>A field of the request: absent, refused, or the row it becomes.\<close>

definition setting_of :: "string option \<Rightarrow> string \<Rightarrow> (string \<Rightarrow> (nat \<times> string) option) \<Rightarrow> ('v server, (string \<times> string) list) handler" where
  "setting_of field key refused =
     (case field of
        None \<Rightarrow> answer []
      | Some v \<Rightarrow> let v = trim_space v in
          (case refused v of Some (st, msg) \<Rightarrow> refuse st msg | None \<Rightarrow> answer [(key, v)]))"

definition name_refused :: "string \<Rightarrow> (nat \<times> string) option" where
  "name_refused v = (if v = [] \<or> rune_count v > 64 then Some (400, ''instance_name must be 1..64 characters'') else None)"

definition mode_refused :: "string \<Rightarrow> (nat \<times> string) option" where
  "mode_refused v = (if v \<noteq> ''tofu'' \<and> v \<noteq> ''strict''
     then Some (400, ''ssh_host_key_mode_default must be tofu or strict'') else None)"

definition policy_refused :: "principal \<Rightarrow> string \<Rightarrow> (nat \<times> string) option" where
  "policy_refused p v =
     (if v \<notin> {''off'', ''admins'', ''all''} then Some (400, ''mfa_required must be off, admins or all'')
      else case pr_login p of
        None \<Rightarrow> None
      | Some (u, s) \<Rightarrow>
          if \<not> mfa_enabled u \<and> policyCovers v (user_role u)
          then Some (409, ''set up two-factor authentication for your own account before requiring it'') else None)"

definition updateSettings ::
  "api_env \<Rightarrow> instance_info \<Rightarrow> string \<times> int \<times> string \<Rightarrow> principal \<Rightarrow> settings_req body \<Rightarrow> ('v server, settings_page) handler" where
  "updateSettings E info now p body =
     (if \<not> en_store E then refuse 503 ''settings store unavailable''
      else
        go_on (plain_body body) (\<lambda>q.
        go_on (setting_of (up_instance_name q) settingInstanceName name_refused) (\<lambda>a.
        go_on (setting_of (up_host_key_mode q) settingHostKeyDefault mode_refused) (\<lambda>b.
        go_on (setting_of (up_mfa_required q) ''mfa_required'' (policy_refused p)) (\<lambda>c.
        go_on (or_refuse (on_store (PutSettings (a @ b @ c))) internal) (\<lambda>_.
          getSettings E info now))))))"

text \<open>The mode of a new tunnel that names none; a failed read falls back.\<close>

definition hostKeyModeDefault :: "api_env \<Rightarrow> 'v server \<Rightarrow> string \<times> 'v server" where
  "hostKeyModeDefault E sv =
     (if \<not> en_store E then (defaultHostKeyModeName, sv)
      else case on_store (GetSetting settingHostKeyDefault defaultHostKeyModeName) sv of
        (Inl e, sv) \<Rightarrow> (defaultHostKeyModeName, sv)
      | (Inr mode, sv) \<Rightarrow> (mode, sv))"

subsection \<open>Push subscriptions\<close>

record 'v push_api =
  ph_available :: "string \<times> string"
  ph_check :: "string \<Rightarrow> err option"
  ph_send :: "push_subscription \<Rightarrow> event \<Rightarrow> ('v server, unit) op"

definition maxUserAgent :: nat where "maxUserAgent = 300"

definition pushAvailability :: "'v push_api option \<Rightarrow> string \<times> string" where
  "pushAvailability svc = (case svc of None \<Rightarrow> ([], ReasonNoPublicURL) | Some a \<Rightarrow> ph_available a)"

text \<open>Whether push is available, why not, and the key to subscribe with.\<close>

definition pushStatus :: "'v push_api option \<Rightarrow> ('v server, bool \<times> string \<times> string) handler" where
  "pushStatus svc = (case pushAvailability svc of (key, reason) \<Rightarrow> answer (reason = [], reason, key))"

definition pushUser :: "principal \<Rightarrow> ('v server, user) handler" where
  "pushUser p =
     (case pr_login p of
        None \<Rightarrow> refuse 403 ''push subscriptions belong to a user, not the API token''
      | Some (u, s) \<Rightarrow> answer u)"

text \<open>A subscription as listed: its row without the keys, and the host of its endpoint.\<close>

definition toPushSubscriptionDTO :: "(string \<Rightarrow> url option) \<Rightarrow> push_subscription \<Rightarrow> push_subscription \<times> string" where
  "toPushSubscriptionDTO parse s =
     (s\<lparr>ps_p256dh := [], ps_auth := []\<rparr>, case parse (ps_endpoint s) of None \<Rightarrow> [] | Some u \<Rightarrow> url_name u)"

definition listPushSubscriptions :: "(string \<Rightarrow> url option) \<Rightarrow> principal \<Rightarrow> ('v server, (push_subscription \<times> string) list) handler" where
  "listPushSubscriptions parse p =
     go_on (pushUser p) (\<lambda>u.
     go_on (or_refuse (on_store (ListPushSubscriptions (user_id u))) internal) (\<lambda>subs.
       answer (map (toPushSubscriptionDTO parse) subs)))"

text \<open>base64.RawURLEncoding: line breaks are skipped, the bits left over are dropped.\<close>

definition b64_value :: "char \<Rightarrow> nat option" where
  "b64_value c =
     (let n = of_char c in
      if 65 \<le> n \<and> n \<le> 90 then Some (n - 65)
      else if 97 \<le> n \<and> n \<le> 122 then Some (n - 71)
      else if 48 \<le> n \<and> n \<le> 57 then Some (n + 4)
      else if n = 45 then Some 62 else if n = 95 then Some 63 else None)"

fun b64_bytes :: "nat list \<Rightarrow> nat list option" where
  "b64_bytes [] = Some []"
| "b64_bytes [a] = None"
| "b64_bytes [a, b] = Some [a * 4 + b div 16]"
| "b64_bytes [a, b, c] = Some [a * 4 + b div 16, b mod 16 * 16 + c div 4]"
| "b64_bytes (a # b # c # d # rest) =
     map_option (\<lambda>bs. (a * 4 + b div 16) # (b mod 16 * 16 + c div 4) # (c mod 4 * 64 + d) # bs) (b64_bytes rest)"

definition decodeB64URL :: "string \<Rightarrow> nat list option" where
  "decodeB64URL s =
     (let t = filter (\<lambda>c. of_char c \<noteq> (10 :: nat) \<and> of_char c \<noteq> (13 :: nat)) (rev (dropWhile (\<lambda>c. c = CHR ''='') (rev s)));
          vs = map b64_value t
      in if None \<in> set vs then None else b64_bytes (map the vs))"

definition clip :: "string \<Rightarrow> nat \<Rightarrow> string" where
  "clip s n = (if length s \<le> n then s else truncate_at s n)"

record subscribe_req =
  sq_endpoint :: string
  sq_p256dh :: string
  sq_auth :: string

definition subscribePush :: "'v push_api option \<Rightarrow> principal \<Rightarrow> request \<Rightarrow> subscribe_req body \<Rightarrow> ('v server, rowid) handler" where
  "subscribePush svc p r body =
     go_on (pushUser p) (\<lambda>u.
     let reason = snd (pushAvailability svc) in
     if reason \<noteq> [] then refuse 409 (''push is unavailable on this instance: '' @ reason)
     else
       go_on (decode body) (\<lambda>q.
       case (case svc of None \<Rightarrow> None | Some a \<Rightarrow> ph_check a (sq_endpoint q)) of
         Some e \<Rightarrow> refuse 400 (err_text e)
       | None \<Rightarrow>
           if (case decodeB64URL (sq_p256dh q) of None \<Rightarrow> True | Some b \<Rightarrow> length b \<noteq> 65 \<or> hd b \<noteq> 4)
           then refuse 400 ''keys.p256dh must be an uncompressed P-256 point''
           else if (case decodeB64URL (sq_auth q) of None \<Rightarrow> True | Some b \<Rightarrow> length b \<noteq> 16)
           then refuse 400 ''keys.auth must be 16 bytes''
           else or_refuse (on_store (UpsertPushSubscription
             \<lparr>ps_id = 0, ps_user = user_id u, ps_endpoint = sq_endpoint q, ps_p256dh = sq_p256dh q, ps_auth = sq_auth q,
              ps_agent = clip (rq_agent r) maxUserAgent, ps_created = 0, ps_success = None, ps_error = [], ps_fails = 0,
              ps_role = OtherRole []\<rparr>)) internal))"

definition unsubscribePush :: "principal \<Rightarrow> string body \<Rightarrow> ('v server, unit) handler" where
  "unsubscribePush p body =
     go_on (pushUser p) (\<lambda>u. go_on (decode body) (\<lambda>endpoint.
     if endpoint = [] then refuse 400 ''endpoint is required''
     else or_refuse (on_store (DeletePushSubscriptionByEndpoint (user_id u) endpoint)) internal))"

definition deletePushSubscription :: "principal \<Rightarrow> rowid option \<Rightarrow> ('v server, unit) handler" where
  "deletePushSubscription p path =
     go_on (pushUser p) (\<lambda>u. go_on (pathID path) (\<lambda>i.
       or_refuse (on_store (DeletePushSubscription (user_id u) i)) storeErrStatus))"

definition eventTest :: event where
  "eventTest = \<lparr>ev_kind = OtherEvent KindTest, ev_task = [], ev_run = 0,
     ev_message = MsgText ''test notification from duskrun'', ev_subject = []\<rparr>"

definition testPushSubscription :: "'v push_api option \<Rightarrow> principal \<Rightarrow> rowid option \<Rightarrow> ('v server, unit) handler" where
  "testPushSubscription svc p path =
     go_on (pushUser p) (\<lambda>u. go_on (pathID path) (\<lambda>i.
     let reason = snd (pushAvailability svc) in
     if reason \<noteq> [] then refuse 409 (''push is unavailable on this instance: '' @ reason)
     else
       go_on (or_refuse (on_store (GetPushSubscription (user_id u) i)) storeErrStatus) (\<lambda>sub.
         case svc of
           None \<Rightarrow> answer ()
         | Some a \<Rightarrow> or_refuse (ph_send a sub eventTest) (\<lambda>e. (if err_is ErrGone e then 410 else 502, err_text e)))))"

end
