(* ===== verification/Reads.thy ===== *)
theory Reads
  imports Channels Retention Watchdog Monitor
begin

text \<open>
  The reading side of the API (internal/api: handlers_read.go, handlers_retention.go,
  handlers_watchdog.go, storage_capacity.go): what a listing shows of a row, pages of the run
  history, the retention page, and the cache of measured volumes. The listing of databases is in
  theory Probe. Stale volumes are measured one after the other, which the code does in parallel.
\<close>

subsection \<open>What is shown\<close>

definition ListSecrets :: "(db, secret list) op" where
  "ListSecrets = query ''list secrets: '' (\<lambda>d. map (\<lambda>s. s\<lparr>sec_cipher := []\<rparr>) (sort_key sec_name (secrets d)))"

text \<open>A task: its row, the durations in seconds, and its next activation while it is enabled.\<close>

record task_view =
  tv_task :: task
  tv_timeout_sec :: int
  tv_watchdog_sec :: int
  tv_next :: "time option"

definition toTaskDTOAt :: "cron_parser \<Rightarrow> task \<Rightarrow> time \<Rightarrow> task_view" where
  "toTaskDTOAt parse t now =
     \<lparr>tv_task = t, tv_timeout_sec = trunc_div (task_timeout t) second, tv_watchdog_sec = trunc_div (task_watchdog t) second,
      tv_next = (if task_enabled t then (case NextRun parse (task_cron t) now of Inl e \<Rightarrow> None | Inr n \<Rightarrow> Some n) else None)\<rparr>"

definition toConnDTO :: "connection \<Rightarrow> connection" where
  "toConnDTO c = c\<lparr>con_config := maskSecrets (con_config c), con_created := 0\<rparr>"

definition toStorageDTO :: "storage \<Rightarrow> storage" where
  "toStorageDTO s = s\<lparr>sto_config := maskSecrets (sto_config s), sto_created := 0\<rparr>"

definition listSecrets :: "(world, secret list) handler" where
  "listSecrets = or_refuse (on_db ListSecrets) internal"

definition listConnections :: "(world, connection list) handler" where
  "listConnections = go_on (or_refuse (on_db ListConnections) internal) (\<lambda>cs. answer (map toConnDTO cs))"

definition listTasks :: "site \<Rightarrow> time \<Rightarrow> (world, task_view list) handler" where
  "listTasks N now = go_on (or_refuse (on_db ListTasks) internal) (\<lambda>ts. answer (map (\<lambda>t. toTaskDTOAt (si_parse N) t now) ts))"

subsection \<open>Runs\<close>

text \<open>A run with its artifact; a failure to read the artifact shows none.\<close>

definition artifactForRun :: "run \<Rightarrow> (world, run \<times> artifact option) handler" where
  "artifactForRun r = call (on_db (GetArtifactByRun (run_id r)))
     (\<lambda>a. answer (r, case a of Inl e \<Rightarrow> None | Inr a \<Rightarrow> Some a))"

fun with_artifacts :: "run list \<Rightarrow> (world, (run \<times> artifact option) list) handler" where
  "with_artifacts [] = answer []"
| "with_artifacts (r # rs) = go_on (artifactForRun r) (\<lambda>x. go_on (with_artifacts rs) (\<lambda>xs. answer (x # xs)))"

definition parseRunPageLimit :: "string \<Rightarrow> int option" where
  "parseRunPageLimit v =
     (if v = [] then Some 50
      else case atoi v of None \<Rightarrow> None | Some n \<Rightarrow> if n \<le> 0 then None else Some (if n > 100 then 100 else n))"

definition parseRunCursor :: "string \<Rightarrow> rowid option" where
  "parseRunCursor v =
     (if v = [] then Some 0 else case atoi v of None \<Rightarrow> None | Some n \<Rightarrow> if n \<le> 0 then None else Some n)"

definition cursorCount :: "rowid list \<Rightarrow> nat" where
  "cursorCount ids = length (filter (\<lambda>i. i \<noteq> 0) ids)"

definition cursor :: "string \<Rightarrow> string \<Rightarrow> ('s, rowid) handler" where
  "cursor what v = (case parseRunCursor v of None \<Rightarrow> refuse 400 (''invalid '' @ what @ '' cursor'') | Some i \<Rightarrow> answer i)"

text \<open>A status the column never holds finds no row.\<close>

definition status_named :: "string \<Rightarrow> run_status option" where
  "status_named s =
     (if s = ''queued'' then Some StatusQueued else if s = ''running'' then Some StatusRunning
      else if s = ''success'' then Some StatusSuccess else if s = ''failed'' then Some StatusFailed
      else if s = ''skipped'' then Some StatusSkipped else None)"

definition by_status :: "string \<Rightarrow> string \<Rightarrow> (run_status option \<Rightarrow> (db, run list) op) \<Rightarrow> (db, run list) op" where
  "by_status what s f =
     (if s = [] then f None else case status_named s of Some st \<Rightarrow> f (Some st) | None \<Rightarrow> query what (\<lambda>d. []))"

record run_query =
  rq_task :: string
  rq_status :: string
  rq_limit :: string
  rq_before :: string
  rq_after :: string
  rq_anchor :: string

definition listRuns :: "run_query \<Rightarrow> (world, (run \<times> artifact option) list) handler" where
  "listRuns q =
     go_on (if rq_task q = [] then answer 0
            else case atoi (rq_task q) of None \<Rightarrow> refuse 400 ''invalid task id'' | Some i \<Rightarrow> answer i) (\<lambda>tid.
     go_on
       (if rq_limit q \<noteq> [] \<or> rq_before q \<noteq> [] \<or> rq_after q \<noteq> [] \<or> rq_anchor q \<noteq> [] then
          (case parseRunPageLimit (rq_limit q) of
             None \<Rightarrow> refuse 400 ''invalid limit''
           | Some limit \<Rightarrow>
               go_on (cursor ''before'' (rq_before q)) (\<lambda>b. go_on (cursor ''after'' (rq_after q)) (\<lambda>a.
               go_on (cursor ''anchor'' (rq_anchor q)) (\<lambda>c.
                 if cursorCount [b, a, c] > 1 then refuse 400 ''use only one of before, after, anchor''
                 else or_refuse (on_db (by_status ''list runs page: '' (rq_status q)
                        (\<lambda>st. ListRunsPage tid st limit b a c))) internal))))
        else or_refuse (on_db (by_status ''list runs: '' (rq_status q) (ListRuns tid))) internal)
       with_artifacts)"

definition getRun :: "rowid option \<Rightarrow> (world, run \<times> artifact option) handler" where
  "getRun path =
     (case path of
        None \<Rightarrow> refuse 400 ''invalid run id''
      | Some i \<Rightarrow> go_on (or_refuse (on_db (GetRun i)) (found_or 404 ''run not found'' 500)) artifactForRun)"

subsection \<open>Capacity\<close>

record capacity_entry =
  ce_at :: time
  ce_type :: string
  ce_config :: raw
  ce_capacity :: "capacity option"

type_synonym capacity_cache = "rowid \<Rightarrow> capacity_entry option"

definition capacityTTL :: duration where "capacityTTL = minute"

definition cached :: "time \<Rightarrow> capacity_cache \<Rightarrow> storage \<Rightarrow> capacity option option" where
  "cached now c st =
     (case c (sto_id st) of
        None \<Rightarrow> None
      | Some e \<Rightarrow> if ce_type e \<noteq> sto_type st \<or> ce_config e \<noteq> sto_config st \<or> now - ce_at e \<ge> capacityTTL then None
                   else Some (ce_capacity e))"

definition store_capacity :: "time \<Rightarrow> storage \<Rightarrow> capacity option \<Rightarrow> capacity_cache \<Rightarrow> capacity_cache" where
  "store_capacity now st capa c =
     c(sto_id st \<mapsto> \<lparr>ce_at = now, ce_type = sto_type st, ce_config = sto_config st, ce_capacity = capa\<rparr>)"

text \<open>A storage that is built either reports its capacity or cannot; every failure is unknown.\<close>

definition measure_volume ::
  "(string \<Rightarrow> (world, string) op) \<Rightarrow> world watched registry \<Rightarrow> storage \<Rightarrow> world \<Rightarrow> capacity option \<times> world" where
  "measure_volume opn plugins st w =
     (case Resolve opn (sto_config st) w of
        (Inl e, w) \<Rightarrow> (None, w)
      | (Inr config, w) \<Rightarrow>
          (case Create plugins (sto_type st) config of
             Inl e \<Rightarrow> (None, w)
           | Inr s \<Rightarrow>
               (case wp_capacity s of
                  None \<Rightarrow> (None, wp_close s w)
                | Some f \<Rightarrow>
                    (case f w of (Inl e, w) \<Rightarrow> (None, wp_close s w) | (Inr capa, w) \<Rightarrow> (Some capa, wp_close s w)))))"

text \<open>A measurement of a client that has gone away is not remembered.\<close>

fun measureAll ::
  "(storage \<Rightarrow> world \<Rightarrow> capacity option \<times> world) \<Rightarrow> bool \<Rightarrow> time \<Rightarrow> storage list \<Rightarrow> capacity_cache \<times> world \<Rightarrow>
   capacity option list \<times> capacity_cache \<times> world" where
  "measureAll ask gone now [] s = ([], s)"
| "measureAll ask gone now (st # sts) (c, w) =
     (case cached now c st of
        Some capa \<Rightarrow> (case measureAll ask gone now sts (c, w) of (out, s) \<Rightarrow> (capa # out, s))
      | None \<Rightarrow>
          (case ask st w of (capa, w) \<Rightarrow>
           case measureAll ask gone now sts (if gone then c else store_capacity now st capa c, w) of
             (out, s) \<Rightarrow> (capa # out, s)))"

definition on_world :: "(world, 'a) op \<Rightarrow> (capacity_cache \<times> world, 'a) op" where
  "on_world f s = (case s of (c, w) \<Rightarrow> case f w of (r, w) \<Rightarrow> (r, c, w))"

definition listStorages ::
  "(storage \<Rightarrow> world \<Rightarrow> capacity option \<times> world) \<Rightarrow> bool \<Rightarrow> time \<Rightarrow>
   (capacity_cache \<times> world, (storage \<times> capacity option) list) handler" where
  "listStorages ask gone now =
     go_on (or_refuse (on_world (on_db ListStorages)) internal) (\<lambda>sts s.
       case measureAll ask gone now sts s of (caps, s) \<Rightarrow> answer (zip (map toStorageDTO sts) caps) s)"

subsection \<open>Retention\<close>

definition maxSweepLimit :: int where "maxSweepLimit = 500"

record retention_row =
  rr_task :: rowid
  rr_name :: string
  rr_enabled :: bool
  rr_retention :: retention
  rr_artifacts :: int
  rr_bytes :: int

record retention_page =
  rp_cron :: string
  rp_next :: "time option"
  rp_last :: "sweep option"
  rp_rows :: "retention_row list"

definition getRetention :: "site \<Rightarrow> string \<Rightarrow> time \<Rightarrow> (world, retention_page) handler" where
  "getRetention N cron now =
     go_on (or_refuse (on_db ListTasks) internal) (\<lambda>ts.
     go_on (or_refuse (on_db ArtifactStatsByTask) internal) (\<lambda>stats.
     go_on (or_refuse (on_db (ListSweeps 1)) internal) (\<lambda>sweeps.
       answer \<lparr>rp_cron = cron,
         rp_next = (if cron = [] then None else case NextRun (si_parse N) cron now of Inl e \<Rightarrow> None | Inr n \<Rightarrow> Some n),
         rp_last = (case sweeps of [] \<Rightarrow> None | s # ss \<Rightarrow> Some s),
         rp_rows = map (\<lambda>t. case (case stats (task_id t) of None \<Rightarrow> (0, 0) | Some x \<Rightarrow> x) of (n, bytes) \<Rightarrow>
           \<lparr>rr_task = task_id t, rr_name = task_name t, rr_enabled = task_enabled t, rr_retention = task_retention t,
            rr_artifacts = n, rr_bytes = bytes\<rparr>) ts\<rparr>)))"

definition listSweeps :: "string \<Rightarrow> (world, sweep list) handler" where
  "listSweeps limit = go_on (page_limit maxSweepLimit limit) (\<lambda>n. or_refuse (on_db (ListSweeps n)) internal)"

text \<open>A sweep that failed part-way is an answer with its record; busy is whether the mutex is held.\<close>

definition runSweep :: "bool \<Rightarrow> 'w sweeper option \<Rightarrow> ('w, sweep) handler" where
  "runSweep busy S =
     (case S of
        None \<Rightarrow> refuse 503 ''retention sweeper not configured''
      | Some S \<Rightarrow> (\<lambda>w. case TrySweep busy S SweepManual w of
          (None, w) \<Rightarrow> refuse 409 ''a retention sweep is already running'' w
        | (Some (sw, e), w) \<Rightarrow>
            if sweep_id sw = 0 then refuse 500 ''sweep could not be recorded'' w else answer sw w))"

subsection \<open>Stale tasks\<close>

text \<open>An alert with its durations in seconds and its reason.\<close>

definition listWatchdogAlerts :: "'w watchdog option \<Rightarrow> ('w, (watchdog_alert \<times> int \<times> int \<times> string) list) handler" where
  "listWatchdogAlerts W =
     (case W of
        None \<Rightarrow> refuse 503 ''watchdog not configured''
      | Some W \<Rightarrow> go_on (or_refuse (Alerts W) internal) (\<lambda>as.
          answer (map (\<lambda>a. (a, trunc_div (wa_threshold a) second, trunc_div (wa_since a) second, Reason a)) as)))"

end
