(* ===== verification/Spec2Isabelle.thy ===== *)
theory Spec2Isabelle
  imports Retention Stale Episodes Backoff Dispatcher ConfigMask Keys Drill SignIn Edits PushRuns Preferences Reads
begin

text \<open>
  Skeleton.
\<close>

end
